(* ===== verification/Prelude.thy ===== *)
theory Prelude
  imports Complex_Main "HOL-Library.Char_ord" "HOL-Library.List_Lexorder" "HOL-Library.AList"
    "HOL-Library.Monad_Syntax"
begin

text \<open>
  Shared vocabulary of the development: the sum type of fallible code, insertion-ordered
  dictionaries as association lists, and the string operations of Python's \<open>str\<close>
  that the subnet uses.  Strings are lists of characters ordered by code, which is
  Python's order on \<open>str\<close>; \<open>sort\<close> on them is \<open>sorted\<close>.
\<close>

named_theorems op_defs "the operations of a component and their plumbing, for unfolding"

section \<open>Results of fallible code\<close>

type_synonym ('e, 'a) result = "'e + 'a"

fun bind_result :: "'e + 'a \<Rightarrow> ('a \<Rightarrow> 'e + 'b) \<Rightarrow> 'e + 'b" where
  "bind_result (Inl e) f = Inl e"
| "bind_result (Inr a) f = f a"

definition require :: "bool \<Rightarrow> 'e \<Rightarrow> 'e + unit" where
  "require b e = (if b then Inr () else Inl e)"

fun is_ok :: "'e + 'a \<Rightarrow> bool" where
  "is_ok (Inl e) = False"
| "is_ok (Inr a) = True"

lemma require_simps [simp]:
  "require True e = Inr ()"
  "require False e = Inl e"
  by (simp_all add: require_def)

lemma require_Inr [simp]: "require b e = Inr u \<longleftrightarrow> b"
  by (simp add: require_def)

lemma require_Inl [simp]: "require b e = Inl e' \<longleftrightarrow> \<not> b \<and> e = e'"
  by (auto simp: require_def)

lemma bind_result_Inr [simp]:
  "bind_result r f = Inr b \<longleftrightarrow> (\<exists>a. r = Inr a \<and> f a = Inr b)"
  by (cases r) auto

lemma bind_result_Inl:
  "bind_result r f = Inl e \<longleftrightarrow> r = Inl e \<or> (\<exists>a. r = Inr a \<and> f a = Inl e)"
  by (cases r) auto

lemma is_ok_iff: "is_ok r \<longleftrightarrow> (\<exists>a. r = Inr a)"
  by (cases r) auto

lemma bind_require_Inr [simp]:
  "bind_result (require b e) f = Inr x \<longleftrightarrow> b \<and> f () = Inr x"
  by (auto simp: require_def)

text \<open>A loop that stops at the first error.\<close>

fun map_result :: "('a \<Rightarrow> 'e + 'b) \<Rightarrow> 'a list \<Rightarrow> 'e + 'b list" where
  "map_result f [] = Inr []"
| "map_result f (x # xs) =
     bind_result (f x) (\<lambda>y. bind_result (map_result f xs) (\<lambda>ys. Inr (y # ys)))"

lemma map_result_Inr_length: "map_result f xs = Inr ys \<Longrightarrow> length ys = length xs"
  by (induction xs arbitrary: ys) auto

section \<open>Operations on a state\<close>

text \<open>
  An operation returns or raises, and leaves a state behind in both cases: what was written before
  an exception stays written.
\<close>

type_synonym ('s, 'e, 'a) op = "'s \<Rightarrow> ('e + 'a) \<times> 's"

definition return_op :: "'a \<Rightarrow> ('s, 'e, 'a) op" where
  "return_op a s = (Inr a, s)"

definition fail_op :: "'e \<Rightarrow> ('s, 'e, 'a) op" where
  "fail_op e s = (Inl e, s)"

definition lift_op :: "'e + 'a \<Rightarrow> ('s, 'e, 'a) op" where
  "lift_op r s = (r, s)"

definition guard_op :: "bool \<Rightarrow> 'e \<Rightarrow> ('s, 'e, unit) op" where
  "guard_op b e s = (require b e, s)"

definition get_op :: "('s, 'e, 's) op" where
  "get_op s = (Inr s, s)"

definition modify_op :: "('s \<Rightarrow> 's) \<Rightarrow> ('s, 'e, unit) op" where
  "modify_op f s = (Inr (), f s)"

definition bind_op :: "('s, 'e, 'a) op \<Rightarrow> ('a \<Rightarrow> ('s, 'e, 'b) op) \<Rightarrow> ('s, 'e, 'b) op" where
  "bind_op m f s = (case m s of (Inl e, s') \<Rightarrow> (Inl e, s') | (Inr a, s') \<Rightarrow> f a s')"

lemmas op_plumbing [op_defs] =
  return_op_def fail_op_def lift_op_def guard_op_def get_op_def modify_op_def bind_op_def

lemma bind_op_Inr: "bind_op m f s = (Inr b, s') \<longleftrightarrow> (\<exists>a t. m s = (Inr a, t) \<and> f a t = (Inr b, s'))"
  by (auto simp: bind_op_def split: prod.splits sum.splits)

lemma bind_op_Inl:
  "bind_op m f s = (Inl e, s') \<longleftrightarrow>
     m s = (Inl e, s') \<or> (\<exists>a t. m s = (Inr a, t) \<and> f a t = (Inl e, s'))"
  by (auto simp: bind_op_def split: prod.splits sum.splits)

lemma return_op_iff [simp]: "return_op a s = (r, t) \<longleftrightarrow> r = Inr a \<and> t = s"
  by (auto simp: op_plumbing)

lemma fail_op_iff [simp]: "fail_op e s = (r, t) \<longleftrightarrow> r = Inl e \<and> t = s"
  by (auto simp: op_plumbing)

lemma lift_op_iff [simp]: "lift_op q s = (r, t) \<longleftrightarrow> r = q \<and> t = s"
  by (auto simp: op_plumbing)

lemma get_op_iff [simp]: "get_op s = (r, t) \<longleftrightarrow> r = Inr s \<and> t = s"
  by (auto simp: op_plumbing)

lemma modify_op_iff [simp]: "modify_op f s = (r, t) \<longleftrightarrow> r = Inr () \<and> t = f s"
  by (auto simp: op_plumbing)

lemma guard_op_Inr [simp]: "guard_op b e s = (Inr u, t) \<longleftrightarrow> b \<and> t = s"
  by (auto simp: guard_op_def)

lemma guard_op_Inl [simp]: "guard_op b e s = (Inl e', t) \<longleftrightarrow> \<not> b \<and> e' = e \<and> t = s"
  by (auto simp: guard_op_def)

lemma bind_get [simp]: "bind_op get_op f s = f s s"
  by (simp add: op_plumbing)

lemma bind_return [simp]: "bind_op (return_op a) f s = f a s"
  by (simp add: op_plumbing)

lemma bind_fail [simp]: "bind_op (fail_op e) f s = (Inl e, s)"
  by (simp add: op_plumbing)

lemma bind_modify [simp]: "bind_op (modify_op g) f s = f () (g s)"
  by (simp add: op_plumbing)

lemma bind_lift_Inr: "bind_op (lift_op r) f s = (Inr x, s') \<longleftrightarrow> (\<exists>a. r = Inr a \<and> f a s = (Inr x, s'))"
  by (auto simp: op_plumbing split: sum.splits)

lemma bind_guard_Inr: "bind_op (guard_op b e) f s = (Inr x, s') \<longleftrightarrow> b \<and> f () s = (Inr x, s')"
  by (cases b) (auto simp: op_plumbing)

text \<open>\<open>try: m except E\<close>, continuing with a handler.\<close>

definition catch_op :: "('s, 'e, 'a) op \<Rightarrow> ('e \<Rightarrow> ('s, 'f, 'a) op) \<Rightarrow> ('s, 'f, 'a) op" where
  "catch_op m h s = (case m s of (Inl e, s') \<Rightarrow> h e s' | (Inr a, s') \<Rightarrow> (Inr a, s'))"

lemmas catch_op_plumbing [op_defs] = catch_op_def

definition map_error_op :: "('e \<Rightarrow> 'f) \<Rightarrow> ('s, 'e, 'a) op \<Rightarrow> ('s, 'f, 'a) op" where
  "map_error_op g m = catch_op m (\<lambda>e. fail_op (g e))"

fun map_error :: "('e \<Rightarrow> 'f) \<Rightarrow> 'e + 'a \<Rightarrow> 'f + 'a" where
  "map_error g (Inl e) = Inl (g e)"
| "map_error g (Inr a) = Inr a"

lemma map_error_Inr [simp]: "map_error g r = Inr a \<longleftrightarrow> r = Inr a"
  by (cases r) auto

lemma map_error_Inl: "map_error g r = Inl e \<longleftrightarrow> (\<exists>d. r = Inl d \<and> e = g d)"
  by (cases r) auto

section \<open>Dictionaries in insertion order\<close>

type_synonym ('k, 'v) dict = "('k \<times> 'v) list"

definition dict_get :: "('k, 'v) dict \<Rightarrow> 'k \<Rightarrow> 'v option" where
  "dict_get d k = map_of d k"

definition dict_get_default :: "('k, 'v) dict \<Rightarrow> 'k \<Rightarrow> 'v \<Rightarrow> 'v" where
  "dict_get_default d k v = (case map_of d k of None \<Rightarrow> v | Some w \<Rightarrow> w)"

definition dict_set :: "('k, 'v) dict \<Rightarrow> 'k \<Rightarrow> 'v \<Rightarrow> ('k, 'v) dict" where
  "dict_set d k v = AList.update k v d"

definition dict_keys :: "('k, 'v) dict \<Rightarrow> 'k list" where
  "dict_keys d = map fst d"

definition dict_values :: "('k, 'v) dict \<Rightarrow> 'v list" where
  "dict_values d = map snd d"

text \<open>\<open>{k: f(k) for k in ks}\<close>: a later duplicate keeps the first position.\<close>

definition dict_of_keys :: "'k list \<Rightarrow> ('k \<Rightarrow> 'v) \<Rightarrow> ('k, 'v) dict" where
  "dict_of_keys ks f = fold (\<lambda>k d. dict_set d k (f k)) ks []"

definition dict_sorted :: "('k::linorder, 'v) dict \<Rightarrow> ('k, 'v) dict" where
  "dict_sorted d = sort_key fst d"

lemma dict_get_set [simp]: "dict_get (dict_set d k v) = (dict_get d)(k \<mapsto> v)"
  by (simp add: dict_get_def dict_set_def fun_eq_iff update_conv)

lemma dict_get_default_get:
  "dict_get_default d k v = (case dict_get d k of None \<Rightarrow> v | Some w \<Rightarrow> w)"
  by (simp add: dict_get_default_def dict_get_def)

lemma dict_keys_set:
  "dict_keys (dict_set d k v) = (if k \<in> set (dict_keys d) then dict_keys d else dict_keys d @ [k])"
  by (induction d) (auto simp: dict_keys_def dict_set_def)

lemma set_dict_keys_set [simp]: "set (dict_keys (dict_set d k v)) = insert k (set (dict_keys d))"
  by (auto simp: dict_keys_set)

lemma distinct_dict_set [simp]: "distinct (dict_keys d) \<Longrightarrow> distinct (dict_keys (dict_set d k v))"
  by (simp add: dict_keys_set)

lemma dict_keys_map_values [simp]: "dict_keys (map (\<lambda>(k, v). (k, f k v)) d) = dict_keys d"
  by (induction d) (auto simp: dict_keys_def)

lemma dom_dict_get: "dom (dict_get d) = set (dict_keys d)"
  by (simp add: dict_get_def [abs_def] dict_keys_def dom_map_of_conv_image_fst)

lemma dict_get_None_iff: "dict_get d k = None \<longleftrightarrow> k \<notin> set (dict_keys d)"
  by (metis domIff dom_dict_get)

lemma dict_get_SomeD: "dict_get d k = Some v \<Longrightarrow> (k, v) \<in> set d"
  by (simp add: dict_get_def map_of_SomeD)

lemma dict_get_map_values:
  "dict_get (map (\<lambda>(k, v). (k, f k v)) d) k = map_option (f k) (dict_get d k)"
  by (induction d) (auto simp: dict_get_def)

text \<open>Filling a dictionary over a list of keys.\<close>

lemma fold_dict_set_get:
  "dict_get (fold (\<lambda>k d. dict_set d k (f k)) ks d) k
     = (if k \<in> set ks then Some (f k) else dict_get d k)"
  by (induction ks arbitrary: d) auto

lemma fold_dict_set_keys:
  "set (dict_keys (fold (\<lambda>k d. dict_set d k (f k)) ks d)) = set ks \<union> set (dict_keys d)"
  by (induction ks arbitrary: d) auto

lemma fold_dict_set_distinct:
  "distinct (dict_keys d) \<Longrightarrow> distinct (dict_keys (fold (\<lambda>k d. dict_set d k (f k)) ks d))"
  by (induction ks arbitrary: d) auto

lemma dict_get_of_keys: "dict_get (dict_of_keys ks f) k = (if k \<in> set ks then Some (f k) else None)"
  unfolding dict_of_keys_def fold_dict_set_get by (simp add: dict_get_def)

lemma set_keys_dict_of_keys [simp]: "set (dict_keys (dict_of_keys ks f)) = set ks"
  unfolding dict_of_keys_def fold_dict_set_keys by (simp add: dict_keys_def)

lemma distinct_keys_dict_of_keys [simp]: "distinct (dict_keys (dict_of_keys ks f))"
  unfolding dict_of_keys_def by (rule fold_dict_set_distinct) (simp add: dict_keys_def)

lemma mem_dict_of_keys: "(k, v) \<in> set (dict_of_keys ks f) \<Longrightarrow> k \<in> set ks \<and> v = f k"
proof -
  assume mem: "(k, v) \<in> set (dict_of_keys ks f)"
  have "distinct (map fst (dict_of_keys ks f))"
    using distinct_keys_dict_of_keys [of ks f] by (simp add: dict_keys_def)
  with mem have "dict_get (dict_of_keys ks f) k = Some v"
    by (simp add: dict_get_def)
  then show ?thesis by (simp add: dict_get_of_keys split: if_splits)
qed

lemma set_dict_sorted [simp]: "set (dict_sorted d) = set d"
  by (simp add: dict_sorted_def)

lemma set_dict_keys_sorted [simp]: "set (dict_keys (dict_sorted d)) = set (dict_keys d)"
  by (simp add: dict_sorted_def dict_keys_def)

section \<open>Strings\<close>

definition starts_with :: "string \<Rightarrow> string \<Rightarrow> bool" where
  "starts_with s p = (take (length p) s = p)"

definition ends_with :: "string \<Rightarrow> string \<Rightarrow> bool" where
  "ends_with s p = (length p \<le> length s \<and> drop (length s - length p) s = p)"

fun contains :: "string \<Rightarrow> string \<Rightarrow> bool" where
  "contains [] p = (p = [])"
| "contains (c # s) p = (starts_with (c # s) p \<or> contains s p)"

definition is_space :: "char \<Rightarrow> bool" where
  "is_space c = (let n = (of_char c :: nat) in (9 \<le> n \<and> n \<le> 13) \<or> (28 \<le> n \<and> n \<le> 32) \<or> n = 133 \<or> n = 160)"

definition strip :: "string \<Rightarrow> string" where
  "strip s = rev (dropWhile is_space (rev (dropWhile is_space s)))"

definition lower_char :: "char \<Rightarrow> char" where
  "lower_char c =
     (let n = (of_char c :: nat) in
      if (65 \<le> n \<and> n \<le> 90) \<or> (192 \<le> n \<and> n \<le> 222 \<and> n \<noteq> 215) then char_of (n + 32) else c)"

definition lower :: "string \<Rightarrow> string" where
  "lower s = map lower_char s"

text \<open>\<open>s.split(sep)\<close> for a one-character separator, and \<open>s.split(sep, 1)\<close>.\<close>

fun split_on :: "char \<Rightarrow> string \<Rightarrow> string list" where
  "split_on sep [] = [[]]"
| "split_on sep (c # s) =
     (if c = sep then [] # split_on sep s
      else (case split_on sep s of [] \<Rightarrow> [[c]] | w # ws \<Rightarrow> (c # w) # ws))"

fun split_once :: "char \<Rightarrow> string \<Rightarrow> (string \<times> string) option" where
  "split_once sep [] = None"
| "split_once sep (c # s) =
     (if c = sep then Some ([], s) else map_option (\<lambda>(a, b). (c # a, b)) (split_once sep s))"

fun join :: "string \<Rightarrow> string list \<Rightarrow> string" where
  "join sep [] = []"
| "join sep [w] = w"
| "join sep (w # ws) = w @ sep @ join sep ws"

text \<open>Decimal rendering of integers, as \<open>str(n)\<close>.\<close>

fun show_nat :: "nat \<Rightarrow> string" where
  "show_nat n = (if n < 10 then [char_of (48 + n)] else show_nat (n div 10) @ [char_of (48 + n mod 10)])"

declare show_nat.simps [simp del]

definition show_int :: "int \<Rightarrow> string" where
  "show_int i = (if i < 0 then CHR ''-'' # show_nat (nat (- i)) else show_nat (nat i))"

lemma split_on_nonempty [simp]: "split_on sep s \<noteq> []"
  by (induction s) (auto split: list.splits)

lemma join_split_on: "join [sep] (split_on sep s) = s"
proof (induction s)
  case Nil
  then show ?case by simp
next
  case (Cons c s)
  obtain w ws where w: "split_on sep s = w # ws"
    by (cases "split_on sep s") auto
  with Cons show ?case by (cases ws) auto
qed

lemma split_on_no_sep: "w \<in> set (split_on sep s) \<Longrightarrow> sep \<notin> set w"
proof (induction s arbitrary: w)
  case Nil
  then show ?case by simp
next
  case (Cons c s)
  then show ?case
    by (cases "split_on sep s") (auto split: if_splits)
qed

lemma split_once_Some: "split_once sep s = Some (a, b) \<Longrightarrow> s = a @ sep # b \<and> sep \<notin> set a"
  by (induction s arbitrary: a b) (auto split: if_splits)

lemma split_once_None: "split_once sep s = None \<longleftrightarrow> sep \<notin> set s"
  by (induction s) auto

lemma ends_with_append [simp]: "ends_with (s @ p) p"
  by (simp add: ends_with_def)

lemma starts_with_append [simp]: "starts_with (p @ s) p"
  by (simp add: starts_with_def)

end
