(* ===== verification/PyFloat.thy ===== *)
theory PyFloat
  imports Prelude
begin

text \<open>
  Python's \<open>float\<close>: IEEE 754 binary64 with round-to-nearest-even, infinities and NaN,
  defined on rationals so that every operation computes.  Signed zeros are identified: the
  modelled code compares, adds, multiplies and divides floats, and never looks at the sign of a
  zero.  The lemmas are the ones that float code is proved with: rounding is monotone and keeps
  representable values, small integers are representable, and comparisons with NaN are false.
\<close>

section \<open>Rounding to an integer, ties to even\<close>

definition round_even :: "rat \<Rightarrow> int" where
  "round_even x =
     (let f = \<lfloor>x\<rfloor>; d = x - of_int f in
      if d < 1 / 2 then f else if 1 / 2 < d then f + 1 else if even f then f else f + 1)"

lemma round_even_cases: "round_even x = \<lfloor>x\<rfloor> \<or> round_even x = \<lfloor>x\<rfloor> + 1"
  by (simp add: round_even_def Let_def)

lemma round_even_int [simp]: "round_even (of_int n) = n"
  by (simp add: round_even_def Let_def)

lemma round_even_0 [simp]: "round_even 0 = 0"
  using round_even_int [of 0] by simp

lemma round_even_mono: "x \<le> y \<Longrightarrow> round_even x \<le> round_even y"
proof -
  assume le: "x \<le> y"
  then have fl: "\<lfloor>x\<rfloor> \<le> \<lfloor>y\<rfloor>" by (rule floor_mono)
  show ?thesis
  proof (cases "\<lfloor>x\<rfloor> = \<lfloor>y\<rfloor>")
    case True
    with le show ?thesis by (auto simp: round_even_def Let_def)
  next
    case False
    with fl have "\<lfloor>x\<rfloor> + 1 \<le> \<lfloor>y\<rfloor>" by simp
    with round_even_cases [of x] round_even_cases [of y] show ?thesis by auto
  qed
qed

lemma round_even_error: "\<bar>x - of_int (round_even x)\<bar> \<le> 1 / 2"
proof -
  have "of_int \<lfloor>x\<rfloor> \<le> x" "x < of_int \<lfloor>x\<rfloor> + 1" by linarith+
  then show ?thesis by (auto simp: round_even_def Let_def)
qed

lemma round_even_minus: "round_even (- x) = - round_even x"
proof (cases "x = of_int \<lfloor>x\<rfloor>")
  case True
  then show ?thesis by (metis of_int_minus round_even_int)
next
  case False
  have b: "of_int \<lfloor>x\<rfloor> < x" "x < of_int \<lfloor>x\<rfloor> + 1"
    using False by linarith+
  then have fl: "\<lfloor>- x\<rfloor> = - \<lfloor>x\<rfloor> - 1"
    by (intro floor_unique) (simp_all add: field_simps)
  show ?thesis
    using b by (auto simp: round_even_def Let_def fl)
qed

section \<open>Binary exponent of a positive rational\<close>

fun bit_count :: "int \<Rightarrow> int" where
  "bit_count n = (if n \<le> 0 then 0 else 1 + bit_count (n div 2))"

declare bit_count.simps [simp del]

definition ilog2 :: "rat \<Rightarrow> int" where
  "ilog2 x =
     (let pq = quotient_of x; k = bit_count (fst pq) - bit_count (snd pq)
      in if 2 powi k \<le> x then k else k - 1)"

lemma powi_mono_less: "(m::int) < n \<Longrightarrow> (2::rat) powi m < 2 powi n"
  by (simp add: power_int_strict_increasing)

lemma powi_mono_le: "(m::int) \<le> n \<Longrightarrow> (2::rat) powi m \<le> 2 powi n"
  by (simp add: power_int_increasing)

lemma powi_pos [simp]: "0 < (2::rat) powi n"
  by (simp add: zero_less_power_int)

lemma powi_Suc: "(2::rat) powi (n + 1) = 2 * 2 powi n"
  by (simp add: power_int_add_1')

lemma bit_count_nonneg: "0 \<le> bit_count n"
proof (induction n rule: bit_count.induct)
  case (1 n)
  then show ?case by (subst bit_count.simps) auto
qed

lemma bit_count_bounds:
  "0 < p \<Longrightarrow> (2::rat) powi (bit_count p - 1) \<le> of_int p \<and> of_int p < (2::rat) powi bit_count p"
proof (induction p rule: bit_count.induct)
  case (1 n)
  show ?case
  proof (cases "n = 1")
    case True
    have "bit_count 1 = 1" by (simp add: bit_count.simps)
    with True show ?thesis by simp
  next
    case False
    with "1.prems" have n2: "0 < n div 2" by auto
    with "1" have IH: "(2::rat) powi (bit_count (n div 2) - 1) \<le> of_int (n div 2)"
      "of_int (n div 2) < (2::rat) powi bit_count (n div 2)" by auto
    have bc: "bit_count n = bit_count (n div 2) + 1"
      using "1.prems" by (simp add: bit_count.simps [of n])
    have half: "2 * of_int (n div 2) \<le> (of_int n :: rat)" "(of_int n :: rat) \<le> 2 * of_int (n div 2) + 1"
    proof -
      have "2 * (n div 2) \<le> n" "n \<le> 2 * (n div 2) + 1" by simp_all
      then have "(of_int (2 * (n div 2)) :: rat) \<le> of_int n" "(of_int n :: rat) \<le> of_int (2 * (n div 2) + 1)"
        by (simp_all only: of_int_le_iff)
      then show "2 * of_int (n div 2) \<le> (of_int n :: rat)" "(of_int n :: rat) \<le> 2 * of_int (n div 2) + 1"
        by simp_all
    qed
    have lo: "(2::rat) powi (bit_count n - 1) = 2 * 2 powi (bit_count (n div 2) - 1)"
      using powi_Suc [of "bit_count (n div 2) - 1"] by (simp add: bc)
    have up: "(2::rat) powi (bit_count n) = 2 * 2 powi (bit_count (n div 2))"
      using powi_Suc [of "bit_count (n div 2)"] by (simp add: bc)
    have pw: "(2::rat) powi bit_count (n div 2) = of_int (2 ^ nat (bit_count (n div 2)))"
      using bit_count_nonneg [of "n div 2"] by (simp add: power_int_def)
    with IH(2) have "n div 2 + 1 \<le> 2 ^ nat (bit_count (n div 2))" by (metis add1_zle_eq of_int_less_iff)
    then have "(of_int (n div 2) :: rat) + 1 \<le> 2 powi bit_count (n div 2)"
      unfolding pw by (metis of_int_1 of_int_add of_int_le_iff)
    with IH(1) half show ?thesis unfolding lo up by linarith
  qed
qed

lemma ilog2_bounds:
  assumes "0 < x"
  shows "2 powi (ilog2 x) \<le> x" and "x < 2 powi (ilog2 x + 1)"
proof -
  obtain p q where pq: "quotient_of x = (p, q)" by (cases "quotient_of x")
  have q: "0 < q" using pq by (rule quotient_of_denom_pos)
  have x: "x = of_int p / of_int q" using pq by (rule quotient_of_div)
  have p: "0 < p"
    using assms q x by (simp add: zero_less_divide_iff)
  let ?a = "bit_count p" and ?b = "bit_count q"
  let ?k = "?a - ?b"
  note pb = bit_count_bounds [OF p] and qb = bit_count_bounds [OF q]
  have k: "?k + 1 = ?a - (?b - 1)" "?k - 1 = (?a - 1) - ?b" by simp_all
  have pw: "(2::rat) powi (?k + 1) = 2 powi ?a / 2 powi (?b - 1)"
    unfolding k by (rule power_int_diff) simp
  have pw': "(2::rat) powi (?k - 1) = 2 powi (?a - 1) / 2 powi ?b"
    unfolding k by (rule power_int_diff) simp
  have up: "x < 2 powi (?k + 1)"
    unfolding x pw using pb qb p q by (intro frac_less) auto
  have lo: "2 powi (?k - 1) < x"
    unfolding x pw' using pb qb p q by (intro frac_less2) auto
  have e: "ilog2 x = (if 2 powi ?k \<le> x then ?k else ?k - 1)"
    by (simp add: ilog2_def pq)
  show "2 powi (ilog2 x) \<le> x" using lo by (auto simp: e)
  show "x < 2 powi (ilog2 x + 1)" using up by (auto simp: e)
qed

lemma ilog2_mono: "0 < x \<Longrightarrow> x \<le> y \<Longrightarrow> ilog2 x \<le> ilog2 y"
proof -
  assume "0 < x" "x \<le> y"
  then have "(2::rat) powi (ilog2 x) < 2 powi (ilog2 y + 1)"
    using ilog2_bounds(1) [of x] ilog2_bounds(2) [of y] by linarith
  then have "\<not> ilog2 y + 1 \<le> ilog2 x"
    using powi_mono_le [of "ilog2 y + 1" "ilog2 x"] by linarith
  then show ?thesis by simp
qed

lemma ilog2_upper: "0 < x \<Longrightarrow> x < 2 powi n \<Longrightarrow> ilog2 x < n"
  using ilog2_bounds(1) [of x] powi_mono_le [of n "ilog2 x"] by force

lemma ilog2_lower: "0 < x \<Longrightarrow> 2 powi n \<le> x \<Longrightarrow> n \<le> ilog2 x"
  using ilog2_bounds(2) [of x] powi_mono_le [of "ilog2 x + 1" n] by force


section \<open>Rounding to binary64\<close>

text \<open>
  \<open>ulp_exp x\<close> is the exponent of the unit in the last place of a number of \<open>x\<close>'s
  magnitude, subnormals included; \<open>rnd64\<close> is the nearest multiple of that unit, with the
  exponent unbounded above (overflow is decided on the rounded value, as IEEE 754 does).
\<close>

definition ulp_exp :: "rat \<Rightarrow> int" where
  "ulp_exp x = max (ilog2 x - 52) (- 1074)"

definition rnd64 :: "rat \<Rightarrow> rat" where
  "rnd64 x =
     (if x = 0 then 0
      else of_int (round_even (x / 2 powi (ulp_exp \<bar>x\<bar>))) * 2 powi (ulp_exp \<bar>x\<bar>))"

lemma rnd64_0 [simp]: "rnd64 0 = 0"
  by (simp add: rnd64_def)

lemma rnd64_minus: "rnd64 (- x) = - rnd64 x"
  by (simp add: rnd64_def round_even_minus flip: minus_divide_left)

lemma rnd64_fixed:
  assumes "r = of_int m * 2 powi e" and "\<bar>m\<bar> \<le> 2 ^ 53" and "- 1074 \<le> e"
  shows "rnd64 r = r"
proof (cases "r = 0")
  case True
  then show ?thesis by simp
next
  case False
  then have m0: "m \<noteq> 0" using assms(1) by auto
  let ?u = "ulp_exp \<bar>r\<bar>"
  have ar: "\<bar>r\<bar> = of_int \<bar>m\<bar> * 2 powi e"
    by (simp add: assms(1) abs_mult power_int_abs)
  have pos: "0 < \<bar>r\<bar>" using False by simp
  have "\<exists>n. r / 2 powi ?u = of_int n"
  proof (cases "?u \<le> e")
    case True
    have "r / 2 powi ?u = of_int m * (2 powi e / 2 powi ?u)" by (simp add: assms(1))
    also have "2 powi e / 2 powi ?u = (2::rat) powi (e - ?u)"
      by (rule power_int_diff [symmetric]) simp
    also have "\<dots> = of_int (2 ^ nat (e - ?u))"
      using True by (simp add: power_int_def)
    finally show ?thesis by (metis of_int_mult)
  next
    case False
    then have ge: "e < ilog2 \<bar>r\<bar> - 52" using assms(3) by (simp add: ulp_exp_def)
    have "\<not> \<bar>m\<bar> < 2 ^ 53"
    proof
      assume "\<bar>m\<bar> < 2 ^ 53"
      then have "(of_int \<bar>m\<bar> :: rat) < of_int (2 ^ 53)" by (simp only: of_int_less_iff)
      then have "\<bar>r\<bar> < 2 powi 53 * 2 powi e" unfolding ar by (intro mult_strict_right_mono) simp_all
      also have "\<dots> = (2::rat) powi (e + 53)" by (simp add: power_int_add)
      finally have "ilog2 \<bar>r\<bar> < e + 53" by (rule ilog2_upper [OF pos])
      with ge show False by simp
    qed
    with assms(2) have am: "\<bar>m\<bar> = 2 ^ 53" by simp
    have "\<bar>r\<bar> = 2 powi 53 * 2 powi e" unfolding ar am by simp
    also have "\<dots> = (2::rat) powi (e + 53)" by (simp add: power_int_add)
    finally have ar2: "\<bar>r\<bar> = 2 powi (e + 53)" .
    then have "ilog2 \<bar>r\<bar> < e + 54" using powi_mono_less [of "e + 53" "e + 54"] pos
      by (intro ilog2_upper) simp_all
    with ge have "?u = e + 1" using assms(3) by (simp add: ulp_exp_def)
    then have "r / 2 powi ?u = of_int m * (2 powi e / 2 powi (e + 1))" by (simp add: assms(1))
    also have "2 powi e / 2 powi (e + 1) = (1::rat) / 2" by (simp add: powi_Suc)
    also have "of_int m * (1 / 2) = (of_int (m div 2) :: rat)"
    proof -
      have "even m" using am by (metis dvd_abs_iff even_power even_numeral zero_less_numeral)
      then obtain k where "m = 2 * k" by (rule evenE)
      then show ?thesis by simp
    qed
    finally show ?thesis by blast
  qed
  then obtain n where n: "r / 2 powi ?u = of_int n" by blast
  then have "r = of_int n * 2 powi ?u"
    by (simp add: divide_eq_eq)
  with n False show ?thesis by (simp add: rnd64_def)
qed

lemma rnd64_int: "\<bar>n\<bar> \<le> 2 ^ 53 \<Longrightarrow> rnd64 (of_int n) = of_int n"
  by (rule rnd64_fixed [where e = 0 and m = n]) simp_all

lemma rnd64_1 [simp]: "rnd64 1 = 1"
  using rnd64_int [of 1] by simp


text \<open>Monotonicity: inside a binade the integers are ordered, across binades a power of two lies between.\<close>

lemma round_scaled_le:
  assumes "x \<le> of_int n * 2 powi u"
  shows "of_int (round_even (x / 2 powi u)) * 2 powi u \<le> of_int n * (2::rat) powi u"
proof -
  have "x / 2 powi u \<le> of_int n" using assms by (simp add: pos_divide_le_eq)
  then have "round_even (x / 2 powi u) \<le> n" using round_even_mono by fastforce
  then show ?thesis by (intro mult_right_mono) simp_all
qed

lemma round_scaled_ge:
  assumes "of_int n * 2 powi u \<le> x"
  shows "of_int n * (2::rat) powi u \<le> of_int (round_even (x / 2 powi u)) * 2 powi u"
proof -
  have "of_int n \<le> x / 2 powi u" using assms by (simp add: pos_le_divide_eq)
  then have "n \<le> round_even (x / 2 powi u)" using round_even_mono by fastforce
  then show ?thesis by (intro mult_right_mono) simp_all
qed

lemma powi_split: "u \<le> w \<Longrightarrow> (2::rat) powi w = of_int (2 ^ nat (w - u)) * 2 powi u"
proof -
  assume "u \<le> w"
  then have "(of_int (2 ^ nat (w - u)) :: rat) = 2 powi (w - u)" by (simp add: power_int_def)
  then show ?thesis by (simp flip: power_int_add)
qed

lemma rnd64_mono_pos:
  assumes "0 < x" "x \<le> y"
  shows "rnd64 x \<le> rnd64 y"
proof -
  let ?u = "ulp_exp x" and ?v = "ulp_exp y"
  have il: "ilog2 x \<le> ilog2 y" using assms by (rule ilog2_mono)
  then have uv: "?u \<le> ?v" by (auto simp: ulp_exp_def)
  have rx: "rnd64 x = of_int (round_even (x / 2 powi ?u)) * 2 powi ?u"
    and ry: "rnd64 y = of_int (round_even (y / 2 powi ?v)) * 2 powi ?v"
    using assms by (auto simp: rnd64_def)
  show ?thesis
  proof (cases "?u = ?v")
    case True
    have "x / 2 powi ?u \<le> y / 2 powi ?u" using assms by (simp add: divide_right_mono)
    then show ?thesis
      unfolding rx ry True [symmetric] by (intro mult_right_mono) (simp_all add: round_even_mono)
  next
    case False
    with uv have lt: "ilog2 x < ilog2 y" and v: "?v = ilog2 y - 52"
      by (auto simp: ulp_exp_def split: if_splits)
    let ?w = "ilog2 y"
    have uw: "?u \<le> ?w" and vw: "?v \<le> ?w" using uv v by simp_all
    have "x < 2 powi (ilog2 x + 1)" using assms(1) by (rule ilog2_bounds(2))
    also have "\<dots> \<le> 2 powi ?w" using lt by (intro powi_mono_le) simp
    finally have "rnd64 x \<le> 2 powi ?w"
      unfolding rx powi_split [OF uw] by (intro round_scaled_le) simp
    also have "2 powi ?w \<le> rnd64 y"
    proof -
      have "2 powi ?w \<le> y" using ilog2_bounds(1) [of y] assms by simp
      then show ?thesis unfolding ry powi_split [OF vw] by (rule round_scaled_ge)
    qed
    finally show ?thesis .
  qed
qed

lemma rnd64_nonneg: "0 \<le> x \<Longrightarrow> 0 \<le> rnd64 x"
proof (cases "x = 0")
  case False
  assume "0 \<le> x"
  then have "round_even 0 \<le> round_even (x / 2 powi (ulp_exp \<bar>x\<bar>))"
    by (intro round_even_mono) (simp add: zero_le_divide_iff less_imp_le)
  then show ?thesis using False by (simp add: rnd64_def)
qed simp

lemma rnd64_mono: "x \<le> y \<Longrightarrow> rnd64 x \<le> rnd64 y"
proof -
  assume le: "x \<le> y"
  consider "0 < x" | "x \<le> 0" "0 \<le> y" | "y < 0" by linarith
  then show ?thesis
  proof cases
    case 1
    with le show ?thesis by (rule rnd64_mono_pos [rotated])
  next
    case 2
    then have "0 \<le> rnd64 (- x)" "0 \<le> rnd64 y" by (simp_all add: rnd64_nonneg)
    then show ?thesis by (simp add: rnd64_minus)
  next
    case 3
    with le have "rnd64 (- y) \<le> rnd64 (- x)" by (intro rnd64_mono_pos) simp_all
    then show ?thesis by (simp add: rnd64_minus)
  qed
qed

lemma round_even_le_int: "x \<le> of_int n \<Longrightarrow> round_even x \<le> n"
  using round_even_mono [of x "of_int n"] by simp

lemma rnd64_idem: "rnd64 (rnd64 x) = rnd64 x"
proof (cases "x = 0")
  case False
  let ?u = "ulp_exp \<bar>x\<bar>" and ?m = "round_even (\<bar>x\<bar> / 2 powi (ulp_exp \<bar>x\<bar>))"
  have pos: "0 < \<bar>x\<bar>" using False by simp
  have u: "ilog2 \<bar>x\<bar> + 1 \<le> ?u + 53" by (simp add: ulp_exp_def)
  have "\<bar>x\<bar> < 2 powi (ilog2 \<bar>x\<bar> + 1)" using pos by (rule ilog2_bounds(2))
  also have "\<dots> \<le> 2 powi (?u + 53)" using u by (rule powi_mono_le)
  also have "\<dots> = 2 ^ 53 * 2 powi ?u" by (simp add: power_int_add)
  finally have "\<bar>x\<bar> / 2 powi ?u \<le> of_int (2 ^ 53)" by (simp add: pos_divide_le_eq)
  then have up: "?m \<le> 2 ^ 53" by (rule round_even_le_int)
  have "round_even 0 \<le> ?m" by (intro round_even_mono) (simp add: zero_le_divide_iff less_imp_le)
  then have m: "\<bar>?m\<bar> \<le> 2 ^ 53" using up by simp
  have a: "rnd64 (rnd64 \<bar>x\<bar>) = rnd64 \<bar>x\<bar>"
    using m False by (intro rnd64_fixed [where m = ?m and e = ?u]) (simp_all add: rnd64_def ulp_exp_def)
  show ?thesis
  proof (cases "0 \<le> x")
    case True
    with a show ?thesis by simp
  next
    case False
    with a have "rnd64 (rnd64 (- x)) = rnd64 (- x)" by simp
    then show ?thesis by (simp add: rnd64_minus)
  qed
qed simp

subsection \<open>Evaluation over integers\<close>

text \<open>Code equations that compute the exponent and the rounded significand on integers.\<close>

fun pow2i :: "int \<Rightarrow> int" where
  "pow2i n = (if n \<le> 0 then 1 else let h = pow2i (n div 2) in if even n then h * h else 2 * h * h)"

declare pow2i.simps [simp del]

lemma pow2i_eq: "pow2i n = 2 ^ nat n"
proof (induction n rule: pow2i.induct)
  case (1 n)
  show ?case
  proof (cases "n \<le> 0")
    case True
    then show ?thesis by (simp add: pow2i.simps [of n])
  next
    case False
    then have "pow2i (n div 2) = 2 ^ nat (n div 2)" using "1" by simp
    moreover have "nat n = (if even n then nat (n div 2) + nat (n div 2) else Suc (nat (n div 2) + nat (n div 2)))"
      using False by (cases "even n") (auto elim!: evenE oddE simp: nat_add_distrib nat_mult_distrib)
    ultimately show ?thesis using False by (simp add: pow2i.simps [of n] Let_def power_add)
  qed
qed

lemma ilog2_code [code]:
  "ilog2 x =
     (let pq = quotient_of x; p = fst pq; q = snd pq; k = bit_count p - bit_count q
      in if (if 0 \<le> k then pow2i k * q \<le> p else q \<le> pow2i (- k) * p) then k else k - 1)"
proof -
  obtain p q where pq: "quotient_of x = (p, q)" by (cases "quotient_of x")
  have q: "0 < q" using pq by (rule quotient_of_denom_pos)
  have x: "x = of_int p / of_int q" using pq by (rule quotient_of_div)
  have "(2 powi k \<le> x) = (if 0 \<le> k then pow2i k * q \<le> p else q \<le> pow2i (- k) * p)" for k
  proof (cases "0 \<le> k")
    case True
    then have "(2 powi k \<le> x) = (of_int (pow2i k * q) \<le> (of_int p :: rat))"
      using q by (simp add: x pow2i_eq power_int_def pos_le_divide_eq)
    then show ?thesis using True by (simp only: of_int_le_iff if_True)
  next
    case False
    then have "(2 powi k \<le> x) = (of_int q \<le> (of_int (pow2i (- k) * p) :: rat))"
      using q by (simp add: x pow2i_eq power_int_def field_simps)
    then show ?thesis using False by (simp only: of_int_le_iff if_False)
  qed
  then show ?thesis by (simp add: ilog2_def pq Let_def)
qed

definition div_even :: "int \<Rightarrow> int \<Rightarrow> int" where
  "div_even n d =
     (let f = n div d; r = 2 * (n mod d) in
      if r < d then f else if d < r then f + 1 else if even f then f else f + 1)"

lemma quotient_rest: "(d::rat) \<noteq> 0 \<Longrightarrow> n = d * k + m \<Longrightarrow> n / d - k = m / d"
  by (simp add: field_simps)

lemma half_compare:
  "0 < (d::rat) \<Longrightarrow> (m / d < 1 / 2) = (2 * m < d)"
  "0 < (d::rat) \<Longrightarrow> (1 / 2 < m / d) = (d < 2 * m)"
  by (simp_all add: field_simps)

lemma round_even_fraction: "0 < d \<Longrightarrow> round_even (of_int n / of_int d) = div_even n d"
proof -
  assume d: "0 < d"
  have fl: "\<lfloor>(of_int n / of_int d :: rat)\<rfloor> = n div d" by (rule floor_divide_of_int_eq)
  have "(of_int n :: rat) = of_int (d * (n div d) + n mod d)" by simp
  then have "(of_int n :: rat) = of_int d * of_int (n div d) + of_int (n mod d)"
    by (simp only: of_int_add of_int_mult)
  with d have fr: "(of_int n / of_int d :: rat) - of_int (n div d) = of_int (n mod d) / of_int d"
    by (intro quotient_rest) simp_all
  have dq: "0 < (of_int d :: rat)" using d by simp
  have tw: "2 * of_int (n mod d) = (of_int (2 * (n mod d)) :: rat)" by (simp only: of_int_mult of_int_numeral)
  have lt: "((of_int (n mod d) / of_int d :: rat) < 1 / 2) = (2 * (n mod d) < d)"
    "((1 / 2 :: rat) < of_int (n mod d) / of_int d) = (d < 2 * (n mod d))"
    unfolding half_compare [OF dq] tw by (simp_all only: of_int_less_iff)
  show ?thesis unfolding round_even_def div_even_def Let_def fl fr lt ..
qed

lemma rnd64_code [code]:
  "rnd64 x =
     (if x = 0 then 0
      else let pq = quotient_of x; p = fst pq; q = snd pq; e = ulp_exp \<bar>x\<bar>
           in if e < 0 then Fract (div_even (p * pow2i (- e)) q) (pow2i (- e))
              else of_int (div_even p (q * pow2i e) * pow2i e))"
proof (cases "x = 0")
  case False
  obtain p q where pq: "quotient_of x = (p, q)" by (cases "quotient_of x")
  have q: "0 < q" using pq by (rule quotient_of_denom_pos)
  have x: "x = of_int p / of_int q" using pq by (rule quotient_of_div)
  let ?e = "ulp_exp \<bar>x\<bar>"
  show ?thesis
  proof (cases "?e < 0")
    case True
    then have "x / 2 powi ?e = of_int (p * pow2i (- ?e)) / of_int q"
      by (simp add: x pow2i_eq power_int_def field_simps)
    then have "round_even (x / 2 powi ?e) = div_even (p * pow2i (- ?e)) q"
      by (simp only: round_even_fraction [OF q])
    with True False show ?thesis
      by (simp add: rnd64_def pq Let_def Fract_of_int_quotient pow2i_eq power_int_def field_simps)
  next
    case False
    have qe: "0 < q * pow2i ?e" using q by (simp add: pow2i_eq)
    have "x / 2 powi ?e = of_int p / of_int (q * pow2i ?e)"
      using False by (simp add: x pow2i_eq power_int_def)
    then have "round_even (x / 2 powi ?e) = div_even p (q * pow2i ?e)"
      by (simp only: round_even_fraction [OF qe])
    with False \<open>x \<noteq> 0\<close> show ?thesis
      by (simp add: rnd64_def pq Let_def pow2i_eq power_int_def)
  qed
qed simp

section \<open>Rounded arithmetic in general\<close>

text \<open>
  What the score code relies on of the rounding of its arithmetic: it is monotone, keeps the
  values it produces, and keeps zero and one.  The facts proved from this contract are those of
  accumulated sums and quotients.
\<close>

locale rounding =
  fixes rnd :: "rat \<Rightarrow> rat"
  assumes rnd_mono: "x \<le> y \<Longrightarrow> rnd x \<le> rnd y"
    and rnd_idem: "rnd (rnd x) = rnd x"
    and rnd_zero: "rnd 0 = 0"
    and rnd_one: "rnd 1 = 1"
begin

definition rsum :: "rat list \<Rightarrow> rat" where
  "rsum xs = foldl (\<lambda>s x. rnd (s + x)) 0 xs"

lemma rnd_nonneg: "0 \<le> x \<Longrightarrow> 0 \<le> rnd x"
  using rnd_mono [of 0 x] by (simp add: rnd_zero)

lemma rnd_le_one: "x \<le> 1 \<Longrightarrow> rnd x \<le> 1"
  using rnd_mono [of x 1] by (simp add: rnd_one)

lemma foldl_ge_start:
  "rnd s = s \<Longrightarrow> \<forall>x \<in> set xs. 0 \<le> x \<Longrightarrow> s \<le> foldl (\<lambda>s x. rnd (s + x)) s xs"
proof (induction xs arbitrary: s)
  case Nil
  then show ?case by simp
next
  case (Cons x xs)
  then have "s \<le> rnd (s + x)" using rnd_mono [of s "s + x"] by simp
  also have "\<dots> \<le> foldl (\<lambda>s x. rnd (s + x)) (rnd (s + x)) xs"
    using Cons by (intro Cons.IH) (simp_all add: rnd_idem)
  finally show ?case by simp
qed

lemma foldl_ge_elem:
  "0 \<le> s \<Longrightarrow> \<forall>x \<in> set xs. 0 \<le> x \<and> rnd x = x \<Longrightarrow> y \<in> set xs \<Longrightarrow>
   y \<le> foldl (\<lambda>s x. rnd (s + x)) s xs"
proof (induction xs arbitrary: s)
  case Nil
  then show ?case by simp
next
  case (Cons x xs)
  show ?case
  proof (cases "y = x")
    case True
    have "x \<le> rnd (s + x)" using Cons.prems rnd_mono [of x "s + x"] by simp
    also have "\<dots> \<le> foldl (\<lambda>s x. rnd (s + x)) (rnd (s + x)) xs"
      using Cons.prems by (intro foldl_ge_start) (simp_all add: rnd_idem)
    finally show ?thesis using True by simp
  next
    case False
    with Cons.prems show ?thesis by (auto intro!: Cons.IH rnd_nonneg)
  qed
qed

lemma rsum_ge_elem: "\<forall>x \<in> set xs. 0 \<le> x \<and> rnd x = x \<Longrightarrow> y \<in> set xs \<Longrightarrow> y \<le> rsum xs"
  unfolding rsum_def by (rule foldl_ge_elem) simp_all

lemma share_bounds:
  assumes "\<forall>x \<in> set xs. 0 \<le> x \<and> rnd x = x" "y \<in> set xs" "0 < rsum xs"
  shows "0 \<le> rnd (y / rsum xs) \<and> rnd (y / rsum xs) \<le> 1"
  using assms rsum_ge_elem [OF assms(1,2)]
  by (auto intro!: rnd_nonneg rnd_le_one simp: zero_le_divide_iff)

end

interpretation b64: rounding rnd64
  by unfold_locales (simp_all add: rnd64_mono rnd64_idem)

section \<open>Python floats\<close>

datatype pyfloat = Fin rat | PInf | NInf | NaN

definition to_float :: "rat \<Rightarrow> pyfloat" where
  "to_float x =
     (let r = rnd64 x in if 2 ^ 1024 \<le> r then PInf else if r \<le> - (2 ^ 1024) then NInf else Fin r)"

text \<open>A source literal such as \<open>0.35\<close> is the float nearest to the decimal.\<close>

abbreviation lit :: "rat \<Rightarrow> pyfloat" where
  "lit x \<equiv> Fin (rnd64 x)"

fun fneg :: "pyfloat \<Rightarrow> pyfloat" where
  "fneg (Fin x) = Fin (- x)"
| "fneg PInf = NInf"
| "fneg NInf = PInf"
| "fneg NaN = NaN"

fun fadd :: "pyfloat \<Rightarrow> pyfloat \<Rightarrow> pyfloat" where
  "fadd (Fin x) (Fin y) = to_float (x + y)"
| "fadd NaN y = NaN"
| "fadd x NaN = NaN"
| "fadd PInf NInf = NaN"
| "fadd NInf PInf = NaN"
| "fadd PInf y = PInf"
| "fadd x PInf = PInf"
| "fadd NInf y = NInf"
| "fadd x NInf = NInf"

definition fsub :: "pyfloat \<Rightarrow> pyfloat \<Rightarrow> pyfloat" where
  "fsub x y = fadd x (fneg y)"

text \<open>The infinity with the sign of a rational, \<open>NaN\<close> for zero: \<open>0 * inf\<close>.\<close>

definition inf_sign :: "rat \<Rightarrow> pyfloat" where
  "inf_sign s = (if 0 < s then PInf else if s < 0 then NInf else NaN)"

fun fsgn :: "pyfloat \<Rightarrow> rat" where
  "fsgn (Fin x) = (if 0 < x then 1 else if x < 0 then - 1 else 0)"
| "fsgn PInf = 1"
| "fsgn NInf = - 1"
| "fsgn NaN = 0"

fun fmul :: "pyfloat \<Rightarrow> pyfloat \<Rightarrow> pyfloat" where
  "fmul (Fin x) (Fin y) = to_float (x * y)"
| "fmul NaN y = NaN"
| "fmul x NaN = NaN"
| "fmul x y = inf_sign (fsgn x * fsgn y)"

text \<open>
  Division.  Python raises \<open>ZeroDivisionError\<close> on a zero divisor; every division of the
  modelled code has a divisor that a guard or a constant keeps away from zero, so the value here
  for a zero divisor (\<open>NaN\<close>) is never used.
\<close>

fun fdiv :: "pyfloat \<Rightarrow> pyfloat \<Rightarrow> pyfloat" where
  "fdiv (Fin x) (Fin y) = (if y = 0 then NaN else to_float (x / y))"
| "fdiv NaN y = NaN"
| "fdiv x NaN = NaN"
| "fdiv (Fin x) y = Fin 0"
| "fdiv x (Fin y) = (if y = 0 then NaN else inf_sign (fsgn x * fsgn (Fin y)))"
| "fdiv x y = NaN"

fun flt :: "pyfloat \<Rightarrow> pyfloat \<Rightarrow> bool" where
  "flt (Fin x) (Fin y) = (x < y)"
| "flt NaN y = False"
| "flt x NaN = False"
| "flt NInf y = (y \<noteq> NInf)"
| "flt x PInf = (x \<noteq> PInf)"
| "flt x y = False"

fun feq :: "pyfloat \<Rightarrow> pyfloat \<Rightarrow> bool" where
  "feq NaN y = False"
| "feq x y = (x = y)"

definition fle :: "pyfloat \<Rightarrow> pyfloat \<Rightarrow> bool" where
  "fle x y = (flt x y \<or> feq x y)"

fun fabs :: "pyfloat \<Rightarrow> pyfloat" where
  "fabs (Fin x) = Fin \<bar>x\<bar>"
| "fabs NInf = PInf"
| "fabs x = x"

text \<open>The builtins \<open>max(a, b)\<close> and \<open>min(a, b)\<close> keep the first argument unless the second beats it.\<close>

definition pymax :: "pyfloat \<Rightarrow> pyfloat \<Rightarrow> pyfloat" where
  "pymax a b = (if flt a b then b else a)"

definition pymin :: "pyfloat \<Rightarrow> pyfloat \<Rightarrow> pyfloat" where
  "pymin a b = (if flt b a then b else a)"

text \<open>\<open>round(x, 6)\<close>: the nearest multiple of one millionth of the exact value, ties to even.\<close>

fun round6 :: "pyfloat \<Rightarrow> pyfloat" where
  "round6 (Fin x) = to_float (of_int (round_even (x * 1000000)) / 1000000)"
| "round6 x = x"

text \<open>\<open>sum(xs)\<close> of floats in Python 3.11: left to right from the integer zero.\<close>

definition fsum :: "pyfloat list \<Rightarrow> pyfloat" where
  "fsum xs = foldl fadd (Fin 0) xs"

text \<open>\<open>max(0.0, min(1.0, x))\<close>.\<close>

definition clip01 :: "pyfloat \<Rightarrow> pyfloat" where
  "clip01 x = pymax (Fin 0) (pymin (Fin 1) x)"

text \<open>A finite value that binary64 can hold, and the unit interval.\<close>

fun wf_float :: "pyfloat \<Rightarrow> bool" where
  "wf_float (Fin x) = (rnd64 x = x \<and> \<bar>x\<bar> < 2 ^ 1024)"
| "wf_float x = True"

fun is_fin :: "pyfloat \<Rightarrow> bool" where
  "is_fin (Fin x) = True"
| "is_fin x = False"

fun in_unit :: "pyfloat \<Rightarrow> bool" where
  "in_unit (Fin x) = (0 \<le> x \<and> x \<le> 1)"
| "in_unit x = False"

fun nonneg :: "pyfloat \<Rightarrow> bool" where
  "nonneg (Fin x) = (0 \<le> x)"
| "nonneg PInf = True"
| "nonneg x = False"

lemma to_float_code [code]:
  "to_float x =
     (let r = rnd64 x in
      if \<bar>r\<bar> \<le> 9007199254740992 then Fin r
      else if 2 ^ 1024 \<le> r then PInf else if r \<le> - (2 ^ 1024) then NInf else Fin r)"
proof -
  have "(9007199254740992 :: rat) < 2 ^ 1024" by simp
  then show ?thesis by (simp add: to_float_def Let_def abs_le_iff)
qed

lemma round6_code [code]:
  "round6 (Fin x) = to_float (Fract (div_even (fst (quotient_of x) * 1000000) (snd (quotient_of x))) 1000000)"
  "round6 PInf = PInf"
  "round6 NInf = NInf"
  "round6 NaN = NaN"
proof -
  obtain p q where pq: "quotient_of x = (p, q)" by (cases "quotient_of x")
  have q: "0 < q" using pq by (rule quotient_of_denom_pos)
  have "x = of_int p / of_int q" using pq by (rule quotient_of_div)
  then have "x * 1000000 = of_int (p * 1000000) / of_int q" by simp
  then have "round_even (x * 1000000) = div_even (p * 1000000) q"
    by (simp only: round_even_fraction [OF q])
  then show "round6 (Fin x) = to_float (Fract (div_even (fst (quotient_of x) * 1000000) (snd (quotient_of x))) 1000000)"
    by (simp add: pq Fract_of_int_quotient)
qed simp_all

lemma to_float_small: "\<bar>x\<bar> \<le> of_int n \<Longrightarrow> \<bar>n\<bar> \<le> 2 ^ 53 \<Longrightarrow> to_float x = Fin (rnd64 x)"
proof -
  assume x: "\<bar>x\<bar> \<le> of_int n" and n: "\<bar>n\<bar> \<le> 2 ^ 53"
  have "rnd64 x \<le> rnd64 (of_int n)" "rnd64 (- x) \<le> rnd64 (of_int n)"
    using x by (intro rnd64_mono; simp)+
  then have r: "\<bar>rnd64 x\<bar> \<le> of_int n" by (simp add: rnd64_int [OF n] rnd64_minus)
  have "(of_int n :: rat) \<le> of_int (2 ^ 53)" using n by (simp only: of_int_le_iff)
  also have "\<dots> < 2 ^ 1024" by simp
  finally have "\<bar>rnd64 x\<bar> < 2 ^ 1024" using r by linarith
  then show ?thesis by (auto simp: to_float_def Let_def abs_less_iff not_le)
qed

lemma to_float_unit: "0 \<le> x \<Longrightarrow> x \<le> 1 \<Longrightarrow> to_float x = Fin (rnd64 x) \<and> 0 \<le> rnd64 x \<and> rnd64 x \<le> 1"
  by (simp add: to_float_small [where n = 1] rnd64_nonneg b64.rnd_le_one)

lemma to_float_cases: "to_float x = PInf \<or> to_float x = NInf \<or> to_float x = Fin (rnd64 x)"
  by (simp add: to_float_def Let_def)

lemma wf_to_float: "wf_float (to_float x)"
  by (auto simp: to_float_def Let_def rnd64_idem abs_less_iff not_le)

lemma nonneg_to_float: "0 \<le> x \<Longrightarrow> nonneg (to_float x)"
  using rnd64_nonneg [of x] by (auto simp: to_float_def Let_def not_le)

lemma to_float_0 [simp]: "to_float 0 = Fin 0"
  by (simp add: to_float_def)

lemma to_float_1 [simp]: "to_float 1 = Fin 1"
  by (simp add: to_float_def)

lemma clip01_unit [simp]: "in_unit (clip01 x)"
  by (cases x) (auto simp: clip01_def pymax_def pymin_def)

lemma clip01_nan: "clip01 NaN = Fin 1"
  by (simp add: clip01_def pymax_def pymin_def)

lemma clip01_fixed: "in_unit x \<Longrightarrow> clip01 x = x"
  by (cases x) (auto simp: clip01_def pymax_def pymin_def)

lemma round6_unit: "in_unit x \<Longrightarrow> in_unit (round6 x)"
proof (cases x)
  case (Fin q)
  assume "in_unit x"
  then have q: "0 \<le> q" "q \<le> 1" using Fin by simp_all
  have "round_even 0 \<le> round_even (q * 1000000)" using q by (intro round_even_mono) simp
  then have "0 \<le> round_even (q * 1000000)" by simp
  moreover have "round_even (q * 1000000) \<le> 1000000" using q by (intro round_even_le_int) simp
  ultimately have "(0::rat) \<le> of_int (round_even (q * 1000000)) / 1000000"
    and "(of_int (round_even (q * 1000000)) / 1000000 :: rat) \<le> 1"
    by simp_all
  from to_float_unit [OF this] show ?thesis using Fin by simp
qed simp_all

lemma nonneg_clip0: "nonneg (pymax (Fin 0) x)"
  by (cases x) (auto simp: pymax_def)

lemma nonneg_fadd: "nonneg x \<Longrightarrow> nonneg y \<Longrightarrow> nonneg (fadd x y)"
  by (cases x; cases y) (simp_all add: nonneg_to_float)

lemma nonneg_fmul_fin: "nonneg x \<Longrightarrow> nonneg y \<Longrightarrow> is_fin x \<Longrightarrow> is_fin y \<Longrightarrow> nonneg (fmul x y)"
  by (cases x; cases y) (simp_all add: nonneg_to_float)

lemma nonneg_round6: "nonneg x \<Longrightarrow> nonneg (round6 x)"
proof (cases x)
  case (Fin q)
  assume "nonneg x"
  then have "round_even 0 \<le> round_even (q * 1000000)" using Fin by (intro round_even_mono) simp
  then show ?thesis using Fin by (simp add: nonneg_to_float)
qed simp_all

lemma in_unit_nonneg: "in_unit x \<Longrightarrow> nonneg x"
  by (cases x) auto

lemma in_unit_fin: "in_unit x \<Longrightarrow> is_fin x"
  by (cases x) auto

end
