(* ===== verification/Json.thy ===== *)
theory Json
  imports PyFloat "HOL-Library.Multiset"
begin

text \<open>
  JSON documents as Python holds them after \<open>json.loads\<close>: \<open>dict\<close> is an
  association list in insertion order with distinct keys.  The accessors follow \<open>dict.get\<close>,
  truth testing follows \<open>bool\<close>, and \<open>py_eq\<close> is \<open>==\<close>, which identifies
  \<open>True\<close>, \<open>1\<close> and \<open>1.0\<close> and ignores the order of keys.
\<close>

datatype json =
    JNull
  | JBool bool
  | JInt int
  | JFloat pyfloat
  | JStr string
  | JArr "json list"
  | JObj "(string \<times> json) list"

type_synonym jdict = "(string, json) dict"

fun is_jobj :: "json \<Rightarrow> bool" where
  "is_jobj (JObj d) = True"
| "is_jobj _ = False"

fun is_jstr :: "json \<Rightarrow> bool" where
  "is_jstr (JStr s) = True"
| "is_jstr _ = False"

fun obj_of :: "json \<Rightarrow> jdict" where
  "obj_of (JObj d) = d"
| "obj_of _ = []"

text \<open>\<open>d.get(k)\<close> and \<open>d.get(k, v)\<close>.\<close>

definition jget :: "jdict \<Rightarrow> string \<Rightarrow> json" where
  "jget d k = dict_get_default d k JNull"

definition jget_or :: "jdict \<Rightarrow> string \<Rightarrow> json \<Rightarrow> json" where
  "jget_or d k v = dict_get_default d k v"

definition has_key :: "jdict \<Rightarrow> string \<Rightarrow> bool" where
  "has_key d k = (map_of d k \<noteq> None)"

text \<open>\<open>bool(v)\<close>.\<close>

fun truthy :: "json \<Rightarrow> bool" where
  "truthy JNull = False"
| "truthy (JBool b) = b"
| "truthy (JInt i) = (i \<noteq> 0)"
| "truthy (JFloat x) = (x \<noteq> Fin 0)"
| "truthy (JStr s) = (s \<noteq> [])"
| "truthy (JArr xs) = (xs \<noteq> [])"
| "truthy (JObj d) = (d \<noteq> [])"

text \<open>The value of a number for comparisons; \<open>bool\<close> is a subclass of \<open>int\<close>.\<close>

fun num_val :: "json \<Rightarrow> pyfloat option" where
  "num_val (JBool b) = Some (Fin (if b then 1 else 0))"
| "num_val (JInt i) = Some (Fin (of_int i))"
| "num_val (JFloat x) = Some x"
| "num_val _ = None"

definition is_number :: "json \<Rightarrow> bool" where
  "is_number v = (num_val v \<noteq> None)"

fun num_eq :: "pyfloat option \<Rightarrow> pyfloat option \<Rightarrow> bool" where
  "num_eq (Some x) (Some y) = feq x y"
| "num_eq _ _ = False"

text \<open>\<open>a == b\<close>.  Objects are equal when they have as many keys and every key of one maps to an equal value of the other.\<close>

fun py_eq :: "json \<Rightarrow> json \<Rightarrow> bool"
  and py_eq_list :: "json list \<Rightarrow> json list \<Rightarrow> bool"
  and py_eq_fields :: "(string \<times> json) list \<Rightarrow> (string \<times> json) list \<Rightarrow> bool" where
  "py_eq JNull b = (b = JNull)"
| "py_eq (JStr s) b = (b = JStr s)"
| "py_eq (JArr xs) b = (case b of JArr ys \<Rightarrow> py_eq_list xs ys | _ \<Rightarrow> False)"
| "py_eq (JObj d) b = (case b of JObj e \<Rightarrow> length d = length e \<and> py_eq_fields d e | _ \<Rightarrow> False)"
| "py_eq (JBool x) b = num_eq (num_val (JBool x)) (num_val b)"
| "py_eq (JInt x) b = num_eq (num_val (JInt x)) (num_val b)"
| "py_eq (JFloat x) b = num_eq (num_val (JFloat x)) (num_val b)"
| "py_eq_list [] ys = (ys = [])"
| "py_eq_list (x # xs) ys = (case ys of [] \<Rightarrow> False | y # ys' \<Rightarrow> py_eq x y \<and> py_eq_list xs ys')"
| "py_eq_fields [] e = True"
| "py_eq_fields ((k, v) # d) e =
     ((case map_of e k of None \<Rightarrow> False | Some w \<Rightarrow> py_eq v w) \<and> py_eq_fields d e)"

lemma py_eq_str [simp]: "py_eq a (JStr s) \<longleftrightarrow> a = JStr s"
  by (cases a) auto

lemma py_eq_str_left [simp]: "py_eq (JStr s) a \<longleftrightarrow> a = JStr s"
  by simp

lemma py_eq_int_iff:
  "py_eq a (JInt n) \<longleftrightarrow> a = JInt n \<or> (\<exists>b. a = JBool b \<and> n = (if b then 1 else 0)) \<or> a = JFloat (Fin (of_int n))"
proof (cases a)
  case (JFloat x)
  then show ?thesis by (cases x) auto
qed auto

lemma jget_nil [simp]: "jget [] k = JNull"
  by (simp add: jget_def dict_get_default_def)

lemma jget_cons [simp]: "jget ((k', v) # d) k = (if k = k' then v else jget d k)"
  by (simp add: jget_def dict_get_default_def)

lemma jget_or_cons [simp]: "jget_or ((k', v) # d) k w = (if k = k' then v else jget_or d k w)"
  by (simp add: jget_or_def dict_get_default_def)

lemma jget_or_nil [simp]: "jget_or [] k v = v"
  by (simp add: jget_or_def dict_get_default_def)

lemma has_key_nil [simp]: "\<not> has_key [] k"
  by (simp add: has_key_def)

lemma has_key_cons [simp]: "has_key ((k', v) # d) k = (k = k' \<or> has_key d k)"
  by (auto simp: has_key_def)

lemma jget_not_null_has_key: "jget d k \<noteq> JNull \<Longrightarrow> has_key d k"
  by (auto simp: jget_def dict_get_default_def has_key_def split: option.splits)

lemma map_of_jget: "map_of d k = Some v \<Longrightarrow> jget d k = v"
  by (simp add: jget_def dict_get_default_def)

section \<open>Normal form for comparing evidence\<close>

text \<open>
  \<open>normalize_for_determinism\<close> drops the volatile keys of every object and sorts the rest.
\<close>

definition volatile_keys :: "string list" where
  "volatile_keys =
     [''timing'', ''created_at'', ''duration_ms'', ''public_stdout'', ''public_stderr'',
      ''hidden_stdout'', ''hidden_stderr'', ''stdout'', ''stderr'']"

function normalize_for_determinism :: "json \<Rightarrow> json" where
  "normalize_for_determinism (JObj d) =
     JObj (map (\<lambda>kv. (fst kv, normalize_for_determinism (snd kv)))
             (filter (\<lambda>kv. fst kv \<notin> set volatile_keys) (sort_key fst d)))"
| "normalize_for_determinism (JArr xs) = JArr (map normalize_for_determinism xs)"
| "normalize_for_determinism JNull = JNull"
| "normalize_for_determinism (JBool b) = JBool b"
| "normalize_for_determinism (JInt i) = JInt i"
| "normalize_for_determinism (JFloat x) = JFloat x"
| "normalize_for_determinism (JStr s) = JStr s"
  by pat_completeness auto

lemma size_snd_less: "kv \<in> set d \<Longrightarrow> size (snd kv) < Suc (size_list (size_prod (\<lambda>x. 0) size) d)"
  by (induction d) auto

lemma size_arr_less: "x \<in> set xs \<Longrightarrow> size x < Suc (size_list size xs)"
  by (induction xs) auto

termination normalize_for_determinism
  by (relation "measure size") (auto simp: size_snd_less size_arr_less)

text \<open>Objects sorted by key, with no volatile key, at every depth.\<close>

fun normal_form :: "json \<Rightarrow> bool" where
  "normal_form (JObj d) =
     (sorted (map fst d) \<and> (\<forall>kv \<in> set d. fst kv \<notin> set volatile_keys \<and> normal_form (snd kv)))"
| "normal_form (JArr xs) = (\<forall>x \<in> set xs. normal_form x)"
| "normal_form _ = True"

lemma normalize_normal_form: "normal_form (normalize_for_determinism v)"
proof (induction v rule: normalize_for_determinism.induct)
  case (1 d)
  have "sorted (map fst (filter (\<lambda>kv. fst kv \<notin> set volatile_keys) (sort_key fst d)))"
    by (rule sorted_filter) simp
  with 1 show ?case by (auto simp: comp_def)
qed auto

lemma normalize_fixed: "normal_form v \<Longrightarrow> normalize_for_determinism v = v"
proof (induction v rule: normalize_for_determinism.induct)
  case (1 d)
  have "sort_key fst d = d" using 1 by (intro sort_key_id_if_sorted) simp
  moreover have "filter (\<lambda>kv. fst kv \<notin> set volatile_keys) d = d" using 1 by (simp add: filter_id_conv)
  ultimately show ?case using 1 by (simp add: map_idI)
next
  case (2 xs)
  then show ?case by (simp add: map_idI)
qed simp_all

lemma normalize_permuted:
  "distinct (map fst d) \<Longrightarrow> mset d = mset e \<Longrightarrow>
   normalize_for_determinism (JObj d) = normalize_for_determinism (JObj e)"
proof -
  assume d: "distinct (map fst d)" and m: "mset d = mset e"
  have "inj_on fst (set e)" using d mset_eq_setD [OF m] by (simp add: distinct_map)
  then have "sort_key fst e = sort_key fst d"
    using m by (intro sort_key_inj_key_eq) simp_all
  then show ?thesis by simp
qed

section \<open>Serialised form\<close>

text \<open>
  What \<open>json.loads(json.dumps(v, sort_keys=True))\<close> returns: the same document with every
  object's keys sorted.
\<close>

function canon_json :: "json \<Rightarrow> json" where
  "canon_json (JObj d) = JObj (map (\<lambda>kv. (fst kv, canon_json (snd kv))) (sort_key fst d))"
| "canon_json (JArr xs) = JArr (map canon_json xs)"
| "canon_json JNull = JNull"
| "canon_json (JBool b) = JBool b"
| "canon_json (JInt i) = JInt i"
| "canon_json (JFloat x) = JFloat x"
| "canon_json (JStr s) = JStr s"
  by pat_completeness auto

termination canon_json
  by (relation "measure size") (auto simp: size_snd_less size_arr_less)

definition canon_fields :: "jdict \<Rightarrow> jdict" where
  "canon_fields d = map (\<lambda>kv. (fst kv, canon_json (snd kv))) (sort_key fst d)"

lemma canon_JObj [simp]: "canon_json (JObj d) = JObj (canon_fields d)"
  by (simp add: canon_fields_def)

declare canon_json.simps(1) [simp del]

lemma map_of_insort_fresh:
  "k \<notin> fst ` set d \<Longrightarrow> map_of (insort_key fst (k, v) d) x = (if x = k then Some v else map_of d x)"
  by (induction d) (auto split: if_splits)

lemma map_of_insort:
  "map_of (insort_key fst (k, v) d) x = (if x = k then Some v else map_of d x)" if "sorted (map fst d)"
  using that
proof (induction d)
  case (Cons kv d)
  obtain k' v' where kv: "kv = (k', v')" by (cases kv)
  show ?case
  proof (cases "k \<le> k'")
    case True
    then show ?thesis by (simp add: kv)
  next
    case False
    with Cons show ?thesis by (auto simp: kv)
  qed
qed simp

lemma map_of_sort_key: "map_of (sort_key fst d) k = map_of (d :: ('k::linorder \<times> 'v) list) k"
  by (induction d) (auto simp: map_of_insort)

lemma map_of_map_snd: "map_of (map (\<lambda>kv. (fst kv, f (snd kv))) d) k = map_option f (map_of d k)"
  by (induction d) auto

lemma map_of_canon [simp]: "map_of (canon_fields d) k = map_option canon_json (map_of d k)"
  by (simp add: canon_fields_def map_of_map_snd map_of_sort_key)

lemma jget_canon [simp]: "jget (canon_fields d) k = canon_json (jget d k)"
  by (simp add: jget_def dict_get_default_def split: option.split)

lemma canon_json_str_iff [simp]: "canon_json v = JStr s \<longleftrightarrow> v = JStr s"
  by (cases v) simp_all

lemma canon_json_null_iff [simp]: "canon_json v = JNull \<longleftrightarrow> v = JNull"
  by (cases v) simp_all

lemma canon_json_int_iff [simp]: "canon_json v = JInt i \<longleftrightarrow> v = JInt i"
  by (cases v) simp_all

lemma is_jobj_canon [simp]: "is_jobj (canon_json v) = is_jobj v"
  by (cases v) simp_all

lemma is_number_canon [simp]: "is_number (canon_json v) = is_number v"
  by (cases v) (simp_all add: is_number_def)

lemma canon_fields_eq_Nil [simp]: "canon_fields d = [] \<longleftrightarrow> d = []"
proof -
  have "length (canon_fields d) = length d" by (simp add: canon_fields_def)
  then show ?thesis by (metis length_0_conv)
qed

lemma truthy_canon [simp]: "truthy (canon_json v) = truthy v"
  by (cases v) simp_all

lemma py_eq_canon_int [simp]: "py_eq (canon_json v) (JInt i) = py_eq v (JInt i)"
  by (cases v) simp_all

lemma set_canon_fields: "set (canon_fields d) = (\<lambda>kv. (fst kv, canon_json (snd kv))) ` set d"
  by (simp add: canon_fields_def)

text \<open>A document already in serialised order is unchanged.\<close>

fun canonical :: "json \<Rightarrow> bool" where
  "canonical (JObj d) = (sorted (map fst d) \<and> (\<forall>kv \<in> set d. canonical (snd kv)))"
| "canonical (JArr xs) = (\<forall>x \<in> set xs. canonical x)"
| "canonical _ = True"

lemma canon_canonical: "canonical (canon_json v)"
proof (induction v rule: canon_json.induct)
  case (1 d)
  then show ?case by (auto simp: canon_fields_def comp_def)
qed auto

lemma canon_fixed: "canonical v \<Longrightarrow> canon_json v = v"
proof (induction v rule: canon_json.induct)
  case (1 d)
  have "sort_key fst d = d" using 1 by (intro sort_key_id_if_sorted) simp
  with 1 show ?case by (simp add: canon_fields_def map_idI)
next
  case (2 xs)
  then show ?case by (simp add: map_idI)
qed simp_all

lemma canon_idem [simp]: "canon_json (canon_json v) = canon_json v"
  by (rule canon_fixed [OF canon_canonical])

lemma canon_fields_idem [simp]: "canon_fields (canon_fields d) = canon_fields d"
  using canon_idem [of "JObj d"] by simp

section \<open>Conversions\<close>

text \<open>
  \<open>int(v)\<close>.  Text is an optional sign and decimal digits with single underscores between
  them, in white space, of at most 4300 digits.
\<close>

datatype int_error = Not_a_number_type | Not_a_number_text | Infinite_value

definition digit_val :: "char \<Rightarrow> int option" where
  "digit_val c = (let n = (of_char c :: nat) in if 48 \<le> n \<and> n \<le> 57 then Some (int n - 48) else None)"

fun digits_val :: "int \<Rightarrow> nat \<Rightarrow> string \<Rightarrow> (int \<times> nat) option" where
  "digits_val acc n [] = (if n = 0 then None else Some (acc, n))"
| "digits_val acc n (c # s) =
     (case digit_val c of
        Some d \<Rightarrow> digits_val (acc * 10 + d) (Suc n) s
      | None \<Rightarrow> if c = CHR ''_'' \<and> n \<noteq> 0 \<and> s \<noteq> [] \<and> hd s \<noteq> CHR ''_'' then digits_val acc n s else None)"

definition int_of_text :: "string \<Rightarrow> int option" where
  "int_of_text text =
     (let s = strip text;
          neg = starts_with s ''-'';
          body = (if neg \<or> starts_with s ''+'' then tl s else s)
      in case digits_val 0 0 body of
           None \<Rightarrow> None
         | Some (v, n) \<Rightarrow> if 4300 < n then None else Some (if neg then - v else v))"

fun trunc_rat :: "rat \<Rightarrow> int" where
  "trunc_rat q = (if 0 \<le> q then floor q else - floor (- q))"

fun py_int :: "json \<Rightarrow> int_error + int" where
  "py_int (JInt i) = Inr i"
| "py_int (JBool b) = Inr (if b then 1 else 0)"
| "py_int (JFloat (Fin q)) = Inr (trunc_rat q)"
| "py_int (JFloat NaN) = Inl Not_a_number_text"
| "py_int (JFloat _) = Inl Infinite_value"
| "py_int (JStr s) = (case int_of_text s of None \<Rightarrow> Inl Not_a_number_text | Some i \<Rightarrow> Inr i)"
| "py_int _ = Inl Not_a_number_type"

text \<open>Values that cannot be members of a set.\<close>

fun hashable :: "json \<Rightarrow> bool" where
  "hashable (JArr xs) = False"
| "hashable (JObj d) = False"
| "hashable _ = True"

text \<open>\<open>v or w\<close>.\<close>

definition or_else :: "json \<Rightarrow> json \<Rightarrow> json" where
  "or_else v w = (if truthy v then v else w)"

fun opt_str :: "string option \<Rightarrow> json" where
  "opt_str None = JNull"
| "opt_str (Some s) = JStr s"

fun opt_int :: "int option \<Rightarrow> json" where
  "opt_int None = JNull"
| "opt_int (Some i) = JInt i"

fun opt_obj :: "jdict option \<Rightarrow> json" where
  "opt_obj None = JNull"
| "opt_obj (Some d) = JObj d"

lemma canon_opt_str [simp]: "canon_json (opt_str x) = opt_str x"
  by (cases x) simp_all

lemma canon_opt_int [simp]: "canon_json (opt_int x) = opt_int x"
  by (cases x) simp_all

lemma canon_opt_obj [simp]: "canon_json (opt_obj x) = opt_obj (map_option canon_fields x)"
  by (cases x) simp_all

end
