(* ===== verification/Scoring.thy ===== *)
theory Scoring
  imports Json
begin

text \<open>
  \<open>src/dolores_subnet/scoring.py\<close>: the weighted score, the top-k epoch score, the
  exponential moving average, the normalisation to a weight vector, the value of one task and its
  recalibration from measured solve rates.  All arithmetic is on Python floats.
\<close>

section \<open>Order on floats, for \<open>sorted\<close>\<close>

instantiation pyfloat :: linorder
begin

fun less_eq_pyfloat :: "pyfloat \<Rightarrow> pyfloat \<Rightarrow> bool" where
  "less_eq_pyfloat NInf y = True"
| "less_eq_pyfloat x NaN = True"
| "less_eq_pyfloat (Fin x) (Fin y) = (x \<le> y)"
| "less_eq_pyfloat (Fin x) PInf = True"
| "less_eq_pyfloat PInf PInf = True"
| "less_eq_pyfloat x y = False"

definition less_pyfloat :: "pyfloat \<Rightarrow> pyfloat \<Rightarrow> bool" where
  "less_pyfloat x y = (x \<le> y \<and> \<not> y \<le> x)"

instance
proof
  fix x y z :: pyfloat
  show "(x < y) = (x \<le> y \<and> \<not> y \<le> x)" by (simp add: less_pyfloat_def)
  show "x \<le> x" by (cases x) auto
  show "x \<le> y \<Longrightarrow> y \<le> z \<Longrightarrow> x \<le> z" by (cases x; cases y; cases z) auto
  show "x \<le> y \<Longrightarrow> y \<le> x \<Longrightarrow> x = y" by (cases x; cases y) auto
  show "x \<le> y \<or> y \<le> x" by (cases x; cases y) auto
qed

end

lemma flt_less: "x \<noteq> NaN \<Longrightarrow> y \<noteq> NaN \<Longrightarrow> flt x y = (x < y)"
  by (cases x; cases y) (auto simp: less_pyfloat_def)

lemma nonneg_not_nan: "nonneg x \<Longrightarrow> x \<noteq> NaN"
  by (cases x) auto

text \<open>\<open>xs[:k]\<close> for an integer \<open>k\<close>.\<close>

definition py_take :: "int \<Rightarrow> 'a list \<Rightarrow> 'a list" where
  "py_take k xs = (if 0 \<le> k then take (nat k) xs else take (nat (int (length xs) + k)) xs)"

lemma set_py_take: "x \<in> set (py_take k xs) \<Longrightarrow> x \<in> set xs"
  by (auto simp: py_take_def dest: in_set_takeD split: if_splits)

section \<open>Weighted score\<close>

definition default_weights :: "(string, pyfloat) dict" where
  "default_weights =
     [(''verifier_quality'', lit (35 / 100)), (''novelty'', lit (25 / 100)),
      (''frontier_signal'', lit (25 / 100)), (''metadata_clarity'', lit (15 / 100))]"

datatype score_error = Nonpositive_weights

definition weighted_score ::
  "(string, pyfloat) dict \<Rightarrow> (string, pyfloat) dict option \<Rightarrow> score_error + pyfloat" where
  "weighted_score components weights =
     (let ws = (case weights of None \<Rightarrow> default_weights | Some w \<Rightarrow> if w = [] then default_weights else w);
          total_weight = fsum (dict_values ws)
      in if fle total_weight (Fin 0) then Inl Nonpositive_weights
         else
           let score = foldl (\<lambda>s (key, weight).
                  fadd s (fmul (clip01 (dict_get_default components key (Fin 0))) weight)) (Fin 0) ws
           in Inr (clip01 (fdiv score total_weight)))"

definition hard_gates_pass :: "(string, bool) dict \<Rightarrow> bool" where
  "hard_gates_pass gates = list_all (\<lambda>b. b) (dict_values gates)"

section \<open>Weight vectors\<close>

definition normalize_weights :: "('k, pyfloat) dict \<Rightarrow> ('k, pyfloat) dict" where
  "normalize_weights raw_scores =
     (let clipped = map (\<lambda>(uid, score). (uid, pymax (Fin 0) score)) raw_scores;
          total = fsum (dict_values clipped)
      in if fle total (Fin 0) then map (\<lambda>(uid, score). (uid, Fin 0)) clipped
         else map (\<lambda>(uid, score). (uid, fdiv score total)) clipped)"

definition best_values :: "int \<Rightarrow> pyfloat list \<Rightarrow> pyfloat list" where
  "best_values top_k values = py_take top_k (rev (sort (map (pymax (Fin 0)) values)))"

definition top_k_epoch_scores ::
  "('k, pyfloat list) dict \<Rightarrow> int \<Rightarrow> ('k, pyfloat) dict" where
  "top_k_epoch_scores miner_task_values top_k =
     map (\<lambda>(miner, values). (miner, round6 (fsum (best_values top_k values)))) miner_task_values"

definition update_ema_scores ::
  "(string, pyfloat) dict \<Rightarrow> (string, pyfloat) dict \<Rightarrow> pyfloat \<Rightarrow> string list
     \<Rightarrow> (string, pyfloat) dict" where
  "update_ema_scores previous epoch_scores alpha infra_only_miners =
     map (\<lambda>miner.
       (miner,
        if miner \<in> set infra_only_miners then round6 (dict_get_default previous miner (Fin 0))
        else
          let prev = dict_get_default previous miner (Fin 0);
              current = dict_get_default epoch_scores miner (Fin 0)
          in round6 (fadd (fmul alpha current) (fmul (fsub (Fin 1) alpha) prev))))
       (sort (remdups (dict_keys previous @ dict_keys epoch_scores)))"

definition normalize_active_weights ::
  "(string, pyfloat) dict \<Rightarrow> string list \<Rightarrow> (string, pyfloat) dict" where
  "normalize_active_weights ema_state active_hotkeys =
     normalize_weights (dict_of_keys active_hotkeys (\<lambda>hotkey. dict_get_default ema_state hotkey (Fin 0)))"

section \<open>Value of one task\<close>

text \<open>
  The engine's score object: what the subnet reads of it.  \<open>components\<close> is its
  \<open>model_dump\<close>.
\<close>

record engine_score =
  lifecycle_status :: string
  aggregate_score :: pyfloat
  runtime_cost :: pyfloat
  score_components :: "(string, pyfloat) dict"

definition task_value_from_score :: "engine_score \<Rightarrow> pyfloat" where
  "task_value_from_score score =
     (if lifecycle_status score \<noteq> ''accepted'' then Fin 0
      else
        let value = fdiv (fsub (aggregate_score score) (fmul (lit (5 / 100)) (runtime_cost score)))
                      (lit (95 / 100))
        in round6 (clip01 value))"

definition infra_error_classes :: "string list" where
  "infra_error_classes =
     [''provider_error'', ''parse_error'', ''timeout_error'', ''verifier_error'', ''truncation_error'']"

definition frontier_weight :: pyfloat where
  "frontier_weight = lit (25 / 100)"

definition runtime_weight :: pyfloat where
  "runtime_weight = lit (5 / 100)"

definition frontier_band_score :: "pyfloat \<Rightarrow> pyfloat" where
  "frontier_band_score solve_rate =
     clip01 (fsub (Fin 1) (fdiv (fabs (fsub solve_rate (lit (45 / 100)))) (lit (55 / 100))))"

text \<open>
  A row is genuine unless \<open>str(row.get("error_class"))\<close> is an infrastructure class; only a
  JSON string has one of those strings as its \<open>str\<close>.
\<close>

definition is_infra_row :: "jdict \<Rightarrow> bool" where
  "is_infra_row row = (\<exists>c \<in> set infra_error_classes. jget row ''error_class'' = JStr c)"

definition clean_solve_rate_from_rows :: "jdict list \<Rightarrow> pyfloat option" where
  "clean_solve_rate_from_rows rows =
     (let genuine = filter (\<lambda>row. \<not> is_infra_row row) rows
      in if genuine = [] then None
         else
           let passed = length (filter (\<lambda>row. truthy (jget row ''passed'')) genuine)
           in Some (to_float (of_nat passed / of_nat (length genuine))))"

definition recalibrated_task_value ::
  "pyfloat \<Rightarrow> (string, pyfloat) dict \<Rightarrow> pyfloat option \<Rightarrow> pyfloat" where
  "recalibrated_task_value task_value components measured_solve_rate =
     (case measured_solve_rate of
        None \<Rightarrow> task_value
      | Some rate \<Rightarrow>
          if fle task_value (Fin 0) then task_value
          else
            let baseline = clip01 (dict_get_default components ''frontier_difficulty'' (Fin 0));
                measured = frontier_band_score rate;
                adjusted = fadd task_value
                  (fdiv (fmul frontier_weight (fsub measured baseline)) (fsub (Fin 1) runtime_weight))
            in round6 (clip01 adjusted))"

section \<open>Facts shared by the proofs\<close>

lemma fin_of_wf: "is_fin x \<Longrightarrow> wf_float x \<Longrightarrow> \<exists>q. x = Fin q \<and> rnd64 q = q"
  by (cases x) auto

lemma foldl_fadd_not_fin: "\<not> is_fin a \<Longrightarrow> \<not> is_fin (foldl fadd a xs)"
proof (induction xs arbitrary: a)
  case (Cons x xs)
  have "\<not> is_fin (fadd a x)" using Cons.prems by (cases a; cases x) auto
  then show ?case using Cons.IH by simp
qed simp

text \<open>A finite sum is the rounded sum of the addends' values.\<close>

lemma foldl_fadd_Fin:
  "foldl fadd (Fin s) xs = Fin t \<Longrightarrow>
   \<exists>qs. xs = map Fin qs \<and> t = foldl (\<lambda>s x. rnd64 (s + x)) s qs"
proof (induction xs arbitrary: s)
  case Nil
  then show ?case by simp
next
  case (Cons x xs)
  then have "is_fin (fadd (Fin s) x)" using foldl_fadd_not_fin [of "fadd (Fin s) x" xs] by auto
  then obtain q where x: "x = Fin q" and a: "fadd (Fin s) x = Fin (rnd64 (s + q))"
    using to_float_cases by (cases x) (auto, metis is_fin.simps(2,3))
  with Cons obtain qs where "xs = map Fin qs" "t = foldl (\<lambda>s x. rnd64 (s + x)) (rnd64 (s + q)) qs"
    by auto
  with x show ?case by (intro exI [of _ "q # qs"]) simp
qed

lemma fsum_Fin: "fsum xs = Fin t \<Longrightarrow> \<exists>qs. xs = map Fin qs \<and> t = b64.rsum qs"
  unfolding fsum_def b64.rsum_def by (rule foldl_fadd_Fin)

lemma nonneg_fsum: "\<forall>x \<in> set xs. nonneg x \<Longrightarrow> nonneg (fsum xs)"
proof -
  have "nonneg a \<Longrightarrow> \<forall>x \<in> set xs. nonneg x \<Longrightarrow> nonneg (foldl fadd a xs)" for a
    by (induction xs arbitrary: a) (auto simp: nonneg_fadd)
  from this [of "Fin 0"] show "\<forall>x \<in> set xs. nonneg x \<Longrightarrow> ?thesis" by (simp add: fsum_def)
qed

lemma fle_Fin [simp]: "fle (Fin x) (Fin y) = (x \<le> y)"
  by (auto simp: fle_def)

lemma pymax0_wf: "wf_float x \<Longrightarrow> wf_float (pymax (Fin 0) x)"
  by (cases x) (auto simp: pymax_def)

text \<open>A share of a finite positive sum of nonnegative floats lies in the unit interval.\<close>

lemma share_in_unit:
  assumes "\<forall>x \<in> set xs. nonneg x \<and> wf_float x" "is_fin (fsum xs)" "\<not> fle (fsum xs) (Fin 0)" "y \<in> set xs"
  shows "in_unit (fdiv y (fsum xs))"
proof -
  obtain t where t: "fsum xs = Fin t" using assms(2) by (cases "fsum xs") auto
  obtain qs where qs: "xs = map Fin qs" "t = b64.rsum qs" using fsum_Fin [OF t] by blast
  have all: "\<forall>x \<in> set qs. 0 \<le> x \<and> rnd64 x = x" using assms(1) by (auto simp: qs(1))
  obtain q where q: "y = Fin q" "q \<in> set qs" using assms(4) by (auto simp: qs(1))
  have pos: "0 < b64.rsum qs" using assms(3) by (simp add: t qs(2))
  have le: "q \<le> b64.rsum qs" using b64.rsum_ge_elem [OF all q(2)] .
  have "0 \<le> q / t" "q / t \<le> 1" using pos le all q(2) by (auto simp: qs(2))
  then show ?thesis using pos to_float_unit [of "q / t"] by (simp add: q(1) t qs(2))
qed

lemma zero_share: "fdiv (Fin 0) (Fin t) = Fin 0" if "t \<noteq> 0"
  using that by simp

section \<open>Properties\<close>

lemma weighted_score_unit: "weighted_score c w = Inr v \<Longrightarrow> in_unit v"
  by (auto simp: weighted_score_def Let_def split: if_splits)

lemma keys_normalize_weights [simp]: "dict_keys (normalize_weights d) = dict_keys d"
  by (auto simp: normalize_weights_def Let_def dict_keys_def)

lemma values_normalize_weights:
  assumes "\<forall>(k, v) \<in> set raw. wf_float v"
    and "is_fin (fsum (map (\<lambda>kv. pymax (Fin 0) (snd kv)) raw))"
    and "(k, w) \<in> set (normalize_weights raw)"
  shows "in_unit w"
proof -
  let ?clipped = "map (\<lambda>(uid, score). (uid, pymax (Fin 0) score)) raw"
  let ?vals = "map (\<lambda>kv. pymax (Fin 0) (snd kv)) raw"
  have v: "dict_values ?clipped = ?vals" by (simp add: dict_values_def case_prod_beta comp_def)
  show ?thesis
  proof (cases "fle (fsum ?vals) (Fin 0)")
    case True
    with assms(3) show ?thesis by (auto simp: normalize_weights_def Let_def v)
  next
    case False
    with assms(3) obtain s where s: "(k, s) \<in> set raw" "w = fdiv (pymax (Fin 0) s) (fsum ?vals)"
      by (auto simp: normalize_weights_def Let_def v)
    have "pymax (Fin 0) s \<in> set ?vals" using s(1) by force
    moreover have "\<forall>x \<in> set ?vals. nonneg x \<and> wf_float x"
      using assms(1) by (auto simp: nonneg_clip0 intro!: pymax0_wf)
    ultimately show ?thesis unfolding s(2) using assms(2) False by (intro share_in_unit) auto
  qed
qed

lemma task_value_unit: "in_unit (task_value_from_score s)"
  by (simp add: task_value_from_score_def Let_def round6_unit)

lemma recalibrated_unit: "in_unit v \<Longrightarrow> in_unit (recalibrated_task_value v c r)"
  by (auto simp: recalibrated_task_value_def Let_def round6_unit split: option.splits)

text \<open>The best values do not depend on the order of the submissions.\<close>

lemma best_values_perm: "mset vs = mset ws \<Longrightarrow> best_values k vs = best_values k ws"
proof -
  assume "mset vs = mset ws"
  then have "mset (map (pymax (Fin 0)) vs) = mset (map (pymax (Fin 0)) ws)" by simp
  then have "sort (map (pymax (Fin 0)) vs) = sort (map (pymax (Fin 0)) ws)"
    by (metis sort_key_id_if_sorted sorted_sort mset_sort properties_for_sort)
  then show ?thesis by (simp add: best_values_def)
qed

lemma best_values_nonneg: "x \<in> set (best_values k vs) \<Longrightarrow> nonneg x"
  by (auto simp: best_values_def nonneg_clip0 dest!: set_py_take)

lemma epoch_scores_nonneg: "(m, s) \<in> set (top_k_epoch_scores vals k) \<Longrightarrow> nonneg s"
  by (auto simp: top_k_epoch_scores_def best_values_nonneg intro!: nonneg_round6 nonneg_fsum)

lemma keys_top_k [simp]: "dict_keys (top_k_epoch_scores d k) = dict_keys d"
  by (simp add: top_k_epoch_scores_def)

lemma keys_update_ema: "set (dict_keys (update_ema_scores p e a i)) = set (dict_keys p) \<union> set (dict_keys e)"
  by (simp add: update_ema_scores_def dict_keys_def comp_def)

lemma distinct_update_ema: "distinct (dict_keys (update_ema_scores p e a i))"
  by (simp add: update_ema_scores_def dict_keys_def comp_def)

lemma sorted_update_ema: "sorted (dict_keys (update_ema_scores p e a i))"
  by (simp add: update_ema_scores_def dict_keys_def comp_def)

section \<open>Monotonicity of the score arithmetic\<close>

lemma to_float_mono: "x \<le> y \<Longrightarrow> to_float x \<le> to_float y"
  using rnd64_mono [of x y] by (auto simp: to_float_def Let_def)

lemma to_float_le_int: "x \<le> of_int n \<Longrightarrow> \<bar>n\<bar> \<le> 2 ^ 53 \<Longrightarrow> to_float x \<le> Fin (of_int n)"
  using to_float_mono [of x "of_int n"] to_float_small [of "of_int n" "\<bar>n\<bar>"] by (simp add: rnd64_int)

lemma to_float_le_PInf [simp]: "to_float q \<le> PInf"
  using to_float_cases [of q] by auto

lemma le_NaN [simp]: "x \<le> NaN"
  by (cases x) auto

lemma fadd_mono:
  "nonneg a \<Longrightarrow> nonneg c \<Longrightarrow> a \<le> b \<Longrightarrow> c \<le> d \<Longrightarrow> b \<noteq> NaN \<Longrightarrow> d \<noteq> NaN \<Longrightarrow> fadd a c \<le> fadd b d"
proof -
  assume "nonneg a" "nonneg c" "a \<le> b" "c \<le> d" "b \<noteq> NaN" "d \<noteq> NaN"
  then show ?thesis
    by (cases a; cases b; cases c; cases d) (simp_all add: to_float_mono to_float_le_PInf)
qed

lemma nonneg_le: "nonneg a \<Longrightarrow> a \<le> b \<Longrightarrow> b \<noteq> NaN \<Longrightarrow> nonneg b"
  by (cases a; cases b) auto

lemma le_fadd: "nonneg a \<Longrightarrow> nonneg c \<Longrightarrow> wf_float a \<Longrightarrow> a \<le> fadd a c"
proof -
  assume a: "nonneg a" "nonneg c" "wf_float a"
  have "a = fadd a (Fin 0)"
    using a(1,3) by (cases a) (auto simp: to_float_def Let_def abs_less_iff not_le)
  also have "\<dots> \<le> fadd a c"
    using a by (intro fadd_mono) (auto simp: nonneg_not_nan, cases c, auto)
  finally show ?thesis .
qed

lemma wf_fadd: "wf_float (fadd x y)"
  by (cases x; cases y) (simp_all add: wf_to_float)

lemma foldl_wf: "wf_float a \<Longrightarrow> wf_float (foldl fadd a xs)"
  by (induction xs arbitrary: a) (simp_all add: wf_fadd)

text \<open>Sums grow with their addends and with further addends.\<close>

lemma foldl_fadd_mono:
  assumes "list_all2 (\<lambda>x y. nonneg x \<and> x \<le> y \<and> y \<noteq> NaN) xs ys"
    and "nonneg a" "a \<le> b" "b \<noteq> NaN"
  shows "foldl fadd a xs \<le> foldl fadd b ys"
  using assms
proof (induction xs ys arbitrary: a b rule: list_all2_induct)
  case Nil
  then show ?case by simp
next
  case (Cons x xs y ys)
  then have "nonneg (fadd a x)" "fadd a x \<le> fadd b y" "nonneg (fadd b y)"
    by (auto intro!: nonneg_fadd fadd_mono intro: nonneg_le)
  then show ?case using Cons.IH [of "fadd a x" "fadd b y"] by (simp add: nonneg_not_nan)
qed

lemma foldl_fadd_extend:
  "nonneg a \<Longrightarrow> wf_float a \<Longrightarrow> \<forall>x \<in> set xs. nonneg x \<Longrightarrow> a \<le> foldl fadd a xs"
proof (induction xs arbitrary: a)
  case Nil
  then show ?case by simp
next
  case (Cons x xs)
  have "a \<le> fadd a x" using Cons.prems by (intro le_fadd) auto
  also have "\<dots> \<le> foldl fadd (fadd a x) xs"
    using Cons.prems by (intro Cons.IH) (auto intro: nonneg_fadd wf_fadd)
  finally show ?case by simp
qed

lemma round6_mono: "x \<le> y \<Longrightarrow> round6 x \<le> round6 y"
proof -
  assume "x \<le> y"
  then show ?thesis
  proof (cases x; cases y)
    fix a b assume "x = Fin a" "y = Fin b"
    with \<open>x \<le> y\<close> have "round_even (a * 1000000) \<le> round_even (b * 1000000)"
      by (intro round_even_mono) simp
    then have "(of_int (round_even (a * 1000000)) :: rat) \<le> of_int (round_even (b * 1000000))"
      by (simp only: of_int_le_iff)
    with \<open>x = Fin a\<close> \<open>y = Fin b\<close> show ?thesis by (auto intro!: to_float_mono divide_right_mono)
  qed auto
qed

lemma round6_le_int: "x \<le> Fin (of_int n) \<Longrightarrow> \<bar>n\<bar> \<le> 2 ^ 53 \<Longrightarrow> round6 x \<le> Fin (of_int n)"
proof -
  assume "x \<le> Fin (of_int n)" and n: "\<bar>n\<bar> \<le> 2 ^ 53"
  then have "round6 x \<le> round6 (Fin (of_int n))" by (intro round6_mono)
  also have "round6 (Fin (of_int n)) = to_float (of_int n)"
    using round_even_int [of "n * 1000000"] by (simp del: round_even_int)
  also have "\<dots> \<le> Fin (of_int n)" using n by (intro to_float_le_int) simp_all
  finally show ?thesis .
qed

subsection \<open>Larger sets of submissions\<close>

lemma desc_filter_nth:
  assumes "sorted_wrt (\<ge>) (ds :: 'a::linorder list)" "i < length (filter (\<lambda>x. v \<le> x) ds)"
  shows "i < length ds \<and> v \<le> ds ! i"
  using assms
proof (induction ds arbitrary: i)
  case Nil
  then show ?case by simp
next
  case (Cons d ds)
  show ?case
  proof (cases i)
    case 0
    have "v \<le> d"
    proof (rule ccontr)
      assume "\<not> v \<le> d"
      with Cons.prems(1) have "filter (\<lambda>x. v \<le> x) (d # ds) = []"
        by (auto simp: filter_empty_conv dest: order_trans)
      with Cons.prems(2) show False by (simp only:) simp
    qed
    with 0 show ?thesis by simp
  next
    case (Suc j)
    show ?thesis
    proof (cases "v \<le> d")
      case True
      with Cons Suc show ?thesis by auto
    next
      case False
      with Cons.prems have "filter (\<lambda>x. v \<le> x) (d # ds) = []"
        by (auto simp: filter_empty_conv dest: order_trans)
      with Cons.prems(2) show ?thesis by (simp only:) simp
    qed
  qed
qed

lemma desc_nth_filter:
  assumes "sorted_wrt (\<ge>) (ds :: 'a::linorder list)" "i < length ds"
  shows "i < length (filter (\<lambda>x. ds ! i \<le> x) ds)"
proof -
  have "\<forall>x \<in> set (take (Suc i) ds). ds ! i \<le> x"
    using assms by (force simp: in_set_conv_nth sorted_wrt_iff_nth_less less_Suc_eq)
  then have "filter (\<lambda>x. ds ! i \<le> x) (take (Suc i) ds) = take (Suc i) ds" by (simp add: filter_id_conv)
  moreover have "length (filter (\<lambda>x. ds ! i \<le> x) (take (Suc i) ds)) \<le> length (filter (\<lambda>x. ds ! i \<le> x) ds)"
    by (metis append_take_drop_id filter_append length_append le_add1)
  ultimately show ?thesis using assms(2) by simp
qed

lemma desc_dominates:
  assumes "sorted_wrt (\<ge>) (ds :: 'a::linorder list)" "sorted_wrt (\<ge>) es" "mset ds \<subseteq># mset es" "i < length ds"
  shows "i < length es \<and> ds ! i \<le> es ! i"
proof -
  have "mset (filter (\<lambda>x. ds ! i \<le> x) ds) \<subseteq># mset (filter (\<lambda>x. ds ! i \<le> x) es)"
    using multiset_filter_mono [OF assms(3)] by simp
  then have "length (filter (\<lambda>x. ds ! i \<le> x) ds) \<le> length (filter (\<lambda>x. ds ! i \<le> x) es)"
    by (metis size_mset size_mset_mono)
  with desc_nth_filter [OF assms(1,4)] have "i < length (filter (\<lambda>x. ds ! i \<le> x) es)" by simp
  then show ?thesis using assms(2) by (rule desc_filter_nth [rotated])
qed

lemma best_values_dominated:
  assumes "mset vs \<subseteq># mset ws" "0 \<le> k"
  defines "bs \<equiv> best_values k vs" and "cs \<equiv> best_values k ws"
  shows "length bs \<le> length cs \<and> (\<forall>i < length bs. bs ! i \<le> cs ! i)"
proof -
  let ?f = "pymax (Fin 0)"
  let ?ds = "rev (sort (map ?f vs))" and ?es = "rev (sort (map ?f ws))"
  have d: "sorted_wrt (\<ge>) ?ds" "sorted_wrt (\<ge>) ?es" by (simp_all add: sorted_wrt_rev)
  have m: "mset ?ds \<subseteq># mset ?es"
    unfolding mset_rev mset_sort mset_map using assms(1) by (rule image_mset_subseteq_mono)
  have "length ?ds \<le> length ?es" using size_mset_mono [OF m] by simp
  moreover have "?ds ! i \<le> ?es ! i" if "i < length ?ds" for i
    using desc_dominates [OF d m that] by simp
  ultimately show ?thesis using assms(2) by (auto simp: bs_def cs_def best_values_def py_take_def)
qed

lemma epoch_score_mono:
  assumes "mset vs \<subseteq># mset ws" "0 \<le> k"
  shows "round6 (fsum (best_values k vs)) \<le> round6 (fsum (best_values k ws))"
proof (rule round6_mono)
  let ?bs = "best_values k vs" and ?cs = "best_values k ws"
  have dom: "length ?bs \<le> length ?cs" "\<forall>i < length ?bs. ?bs ! i \<le> ?cs ! i"
    using best_values_dominated [OF assms] by simp_all
  have nn: "\<forall>x \<in> set ?bs. nonneg x" "\<forall>x \<in> set ?cs. nonneg x"
    by (auto dest: best_values_nonneg)
  have "list_all2 (\<lambda>x y. nonneg x \<and> x \<le> y \<and> y \<noteq> NaN) ?bs (take (length ?bs) ?cs)"
    using dom nn by (auto simp: list_all2_conv_all_nth) (metis nonneg.simps(4) nth_mem order_less_le_trans)
  then have "fsum ?bs \<le> fsum (take (length ?bs) ?cs)"
    unfolding fsum_def by (rule foldl_fadd_mono) simp_all
  also have "\<dots> \<le> foldl fadd (fsum (take (length ?bs) ?cs)) (drop (length ?bs) ?cs)"
  proof (rule foldl_fadd_extend)
    show "nonneg (fsum (take (length ?bs) ?cs))" using nn(2) by (auto intro!: nonneg_fsum dest: in_set_takeD)
    show "wf_float (fsum (take (length ?bs) ?cs))"
      unfolding fsum_def by (rule foldl_wf) simp
    show "\<forall>x \<in> set (drop (length ?bs) ?cs). nonneg x" using nn(2) by (auto dest: in_set_dropD)
  qed
  also have "\<dots> = fsum ?cs" by (simp add: fsum_def flip: foldl_append)
  finally show "fsum ?bs \<le> fsum ?cs" .
qed

subsection \<open>Bounds of epoch scores and averages\<close>

definition epoch_score_of :: "int \<Rightarrow> pyfloat list \<Rightarrow> pyfloat" where
  "epoch_score_of k values = round6 (fsum (best_values k values))"

lemma foldl_fadd_le:
  assumes "\<forall>x \<in> set xs. nonneg x \<and> x \<le> Fin 1" "nonneg a" "a \<le> Fin (of_nat n)" "n + length xs \<le> 2 ^ 53"
  shows "foldl fadd a xs \<le> Fin (of_nat (n + length xs))"
  using assms
proof (induction xs arbitrary: a n)
  case Nil
  then show ?case by simp
next
  case (Cons x xs)
  have "fadd a x \<le> fadd (Fin (of_nat n)) (Fin 1)"
    using Cons.prems by (intro fadd_mono) auto
  also have "\<dots> = to_float (of_int (int n + 1))" by (simp add: add.commute)
  also have "\<dots> \<le> Fin (of_int (int n + 1))" using Cons.prems(4) by (intro to_float_le_int) auto
  finally have "fadd a x \<le> Fin (of_nat (Suc n))" by (simp add: add.commute)
  moreover have "nonneg (fadd a x)" using Cons.prems by (intro nonneg_fadd) auto
  ultimately show ?case using Cons.IH [of "fadd a x" "Suc n"] Cons.prems by simp
qed

lemma in_unit_le: "in_unit x \<Longrightarrow> x \<le> Fin 1"
  by (cases x) auto

lemma pymax0_in_unit: "in_unit x \<Longrightarrow> pymax (Fin 0) x = x"
  by (cases x) (auto simp: pymax_def)

lemma epoch_score_bounds:
  assumes "\<forall>v \<in> set values. in_unit v" "0 \<le> k" "k \<le> 2 ^ 53"
  shows "nonneg (epoch_score_of k values) \<and> epoch_score_of k values \<le> Fin (of_int k)"
proof -
  let ?bs = "best_values k values"
  have bs: "\<forall>x \<in> set ?bs. in_unit x"
    using assms(1) by (auto simp: best_values_def pymax0_in_unit dest!: set_py_take)
  have len: "length ?bs \<le> nat k" using assms(2) by (simp add: best_values_def py_take_def)
  have "fsum ?bs \<le> Fin (of_nat (0 + length ?bs))"
    unfolding fsum_def using bs len assms(3)
    by (intro foldl_fadd_le) (auto intro: in_unit_nonneg in_unit_le)
  also have "\<dots> = Fin (of_int (int (length ?bs)))" by simp
  also have "\<dots> \<le> Fin (of_int k)"
  proof -
    have "int (length ?bs) \<le> k" using len assms(2) by linarith
    then show ?thesis by (simp only: less_eq_pyfloat.simps of_int_le_iff)
  qed
  finally have "round6 (fsum ?bs) \<le> Fin (of_int k)" using assms by (intro round6_le_int) auto
  moreover have "nonneg (round6 (fsum ?bs))"
    by (intro nonneg_round6 nonneg_fsum ballI) (use bs in_unit_nonneg in blast)
  ultimately show ?thesis by (simp add: epoch_score_of_def)
qed

lemma epoch_score_top_k:
  "dict_get (top_k_epoch_scores d k) m = map_option (epoch_score_of k) (dict_get d m)"
  unfolding top_k_epoch_scores_def epoch_score_of_def by (simp add: dict_get_map_values)

text \<open>The average of two bounded scores, with the rounding of the weights taken into account.\<close>

definition ema_alpha_default :: pyfloat where
  "ema_alpha_default = lit (3 / 10)"

definition bounded_scores :: "int \<Rightarrow> (string, pyfloat) dict \<Rightarrow> bool" where
  "bounded_scores b d = list_all (\<lambda>(k, v). nonneg v \<and> v \<le> Fin (of_int b)) d"

lemma fmul_mono_left:
  "nonneg (Fin a) \<Longrightarrow> nonneg x \<Longrightarrow> x \<le> Fin b \<Longrightarrow> nonneg (fmul (Fin a) x) \<and> fmul (Fin a) x \<le> fmul (Fin a) (Fin b)"
  by (cases x) (auto intro!: to_float_mono nonneg_to_float mult_left_mono)

lemma bounded_get: "bounded_scores b d \<Longrightarrow> 0 \<le> b \<Longrightarrow>
  nonneg (dict_get_default d m (Fin 0)) \<and> dict_get_default d m (Fin 0) \<le> Fin (of_int b)"
  by (auto simp: bounded_scores_def dict_get_default_def list_all_iff split: option.splits dest!: map_of_SomeD)

lemma ema_step_bounds:
  assumes "nonneg c" "c \<le> Fin b" "nonneg p" "p \<le> Fin b" "0 \<le> a" "0 \<le> a'"
    and "fadd (fmul (Fin a) (Fin b)) (fmul (Fin a') (Fin b)) \<le> Fin b'"
  shows "nonneg (fadd (fmul (Fin a) c) (fmul (Fin a') p)) \<and> fadd (fmul (Fin a) c) (fmul (Fin a') p) \<le> Fin b'"
proof -
  have l: "nonneg (fmul (Fin a) c) \<and> fmul (Fin a) c \<le> fmul (Fin a) (Fin b)"
    and r: "nonneg (fmul (Fin a') p) \<and> fmul (Fin a') p \<le> fmul (Fin a') (Fin b)"
    using assms by (intro fmul_mono_left; simp)+
  have nn: "fmul (Fin x) (Fin y) \<noteq> NaN" for x y using to_float_cases [of "x * y"] by auto
  have "fadd (fmul (Fin a) c) (fmul (Fin a') p) \<le> fadd (fmul (Fin a) (Fin b)) (fmul (Fin a') (Fin b))"
    using l r nn by (intro fadd_mono) auto
  then show ?thesis using l r assms(7) by (auto intro: nonneg_fadd order_trans)
qed

text \<open>With the deployed factor and scores bounded by the quota of four, the average stays bounded by four.\<close>

definition ema_complement :: pyfloat where
  "ema_complement = fsub (Fin 1) ema_alpha_default"

lemma alpha_parts:
  "ema_alpha_default = Fin (5404319552844595 / 18014398509481984)"
  "ema_complement = Fin (3152519739159347 / 4503599627370496)"
  "fadd (fmul (Fin (5404319552844595 / 18014398509481984)) (Fin 4))
     (fmul (Fin (3152519739159347 / 4503599627370496)) (Fin 4)) = Fin 4"
  by code_simp+

lemma ema_term_bounds:
  assumes "nonneg c" "c \<le> Fin 4" "nonneg p" "p \<le> Fin 4"
  shows "nonneg (fadd (fmul ema_alpha_default c) (fmul ema_complement p)) \<and>
    fadd (fmul ema_alpha_default c) (fmul ema_complement p) \<le> Fin 4"
  unfolding alpha_parts(1) alpha_parts(2)
proof (rule ema_step_bounds [where b = 4, OF assms])
  show "fadd (fmul (Fin (5404319552844595 / 18014398509481984)) (Fin 4))
     (fmul (Fin (3152519739159347 / 4503599627370496)) (Fin 4)) \<le> Fin 4"
    by (simp only: alpha_parts(3) order_refl)
qed (rule divide_nonneg_nonneg; simp)+

lemma round6_le_4: "x \<le> Fin 4 \<Longrightarrow> nonneg x \<Longrightarrow> round6 x \<le> Fin 4"
  using round6_le_int [of x 4] by simp

lemma ema_bounded:
  assumes "bounded_scores 4 previous" "bounded_scores 4 scores"
  shows "bounded_scores 4 (update_ema_scores previous scores ema_alpha_default infra)"
proof -
  have "nonneg v \<and> v \<le> Fin 4"
    if v: "v = round6 (dict_get_default previous m (Fin 0)) \<or>
       v = round6 (fadd (fmul ema_alpha_default (dict_get_default scores m (Fin 0)))
             (fmul ema_complement (dict_get_default previous m (Fin 0))))" for v m
  proof -
    have p: "nonneg (dict_get_default previous m (Fin 0)) \<and> dict_get_default previous m (Fin 0) \<le> Fin 4"
      and c: "nonneg (dict_get_default scores m (Fin 0)) \<and> dict_get_default scores m (Fin 0) \<le> Fin 4"
      using bounded_get [OF assms(1), of m] bounded_get [OF assms(2), of m] by simp_all
    from v p c ema_term_bounds show ?thesis by (auto intro!: nonneg_round6 round6_le_4)
  qed
  then show ?thesis
    unfolding bounded_scores_def update_ema_scores_def Let_def list_all_iff ema_complement_def [symmetric] by auto
qed

section \<open>Properties of scores and weights\<close>

text \<open>A weight vector has the miners of the raw scores in their order, and every share of a
  finite total lies between 0 and 1, in floating point.\<close>

lemma weight_shares:
  assumes "\<forall>(k, v) \<in> set raw. wf_float v" "is_fin (fsum (map (\<lambda>kv. pymax (Fin 0) (snd kv)) raw))"
  shows "dict_keys (normalize_weights raw) = dict_keys raw
    \<and> (\<forall>(k, w) \<in> set (normalize_weights raw). in_unit w)"
  using values_normalize_weights [OF assms] by auto

definition sample_raw :: "(string, pyfloat) dict" where
  "sample_raw = [(''a'', to_float 1), (''b'', to_float (1 / 2)), (''c'', to_float (- 3))]"

lemma sample_raw_wf: "\<forall>(k, v) \<in> set sample_raw. wf_float v"
  by (simp add: sample_raw_def wf_to_float)

lemma sample_raw_finite: "is_fin (fsum (map (\<lambda>kv. pymax (Fin 0) (snd kv)) sample_raw))"
  by code_simp

lemma weight_shares_instance:
  "list_all (\<lambda>(k, w). in_unit w) (normalize_weights sample_raw)"
  using weight_shares [OF sample_raw_wf sample_raw_finite] by (simp add: list_all_iff)

text \<open>C38: a miner's epoch score does not depend on the order of its task values, submitting more never
  lowers it, and with task values in the unit interval it is at most the quota.\<close>

theorem epoch_score_laws:
  assumes "mset vs \<subseteq># mset ws" "0 \<le> k" "k \<le> 2 ^ 53" "\<forall>v \<in> set ws. in_unit v"
  shows "epoch_score_of k vs \<le> epoch_score_of k ws \<and> nonneg (epoch_score_of k vs)
    \<and> epoch_score_of k ws \<le> Fin (of_int k)
    \<and> (mset vs = mset ws \<longrightarrow> epoch_score_of k vs = epoch_score_of k ws)"
proof -
  have "set vs \<subseteq> set ws" using set_mset_mono [OF assms(1)] by simp
  with assms(4) have v: "\<forall>v \<in> set vs. in_unit v" by blast
  have "epoch_score_of k vs \<le> epoch_score_of k ws"
    unfolding epoch_score_of_def by (rule epoch_score_mono [OF assms(1,2)])
  moreover have "mset vs = mset ws \<longrightarrow> epoch_score_of k vs = epoch_score_of k ws"
    unfolding epoch_score_of_def by (intro impI arg_cong [where f = "\<lambda>xs. round6 (fsum xs)"] best_values_perm)
  ultimately show ?thesis
    using epoch_score_bounds [OF v assms(2,3)] epoch_score_bounds [OF assms(4,2,3)] by blast
qed

theorem epoch_score_laws_witness:
  "epoch_score_of 4 [Fin 1] \<le> epoch_score_of 4 [Fin (1 / 2), Fin 1]"
  using epoch_score_laws [of "[Fin 1]" "[Fin (1 / 2), Fin 1]" 4] by simp

text \<open>C39: with the deployed smoothing factor and epoch scores bounded by the quota of four, the averages
  stay bounded by four, cover exactly the miners of either argument, once each in sorted order, and a
  miner with infrastructure errors only keeps its rounded average.\<close>

theorem ema_laws:
  assumes "bounded_scores 4 previous" "bounded_scores 4 scores"
  shows "bounded_scores 4 (update_ema_scores previous scores ema_alpha_default infra)
    \<and> set (dict_keys (update_ema_scores previous scores ema_alpha_default infra))
        = set (dict_keys previous) \<union> set (dict_keys scores)
    \<and> sorted (dict_keys (update_ema_scores previous scores ema_alpha_default infra))
    \<and> distinct (dict_keys (update_ema_scores previous scores ema_alpha_default infra))
    \<and> (\<forall>(m, v) \<in> set (update_ema_scores previous scores ema_alpha_default infra).
         m \<in> set infra \<longrightarrow> v = round6 (dict_get_default previous m (Fin 0)))"
  using ema_bounded [OF assms] keys_update_ema sorted_update_ema distinct_update_ema
  by (auto simp: update_ema_scores_def)

theorem ema_laws_witness:
  "bounded_scores 4 (update_ema_scores [(''a'', Fin 4)] [(''a'', Fin 2), (''b'', Fin 1)] ema_alpha_default [])"
proof -
  have "bounded_scores 4 [(''a'', Fin 4)]" "bounded_scores 4 [(''a'', Fin 2), (''b'', Fin 1)]"
    by (simp_all add: bounded_scores_def)
  from ema_laws [OF this, of "[]"] show ?thesis by blast
qed

text \<open>A task's value lies in the unit interval and is zero unless the engine accepted the task;
  recalibration keeps it there, never rescues a zero value, and is the identity without a
  measurement.\<close>

lemma task_value_laws:
  "in_unit (task_value_from_score s)
   \<and> (lifecycle_status s \<noteq> ''accepted'' \<longrightarrow> task_value_from_score s = Fin 0)
   \<and> in_unit (recalibrated_task_value (task_value_from_score s) c r)
   \<and> recalibrated_task_value (Fin 0) c r = Fin 0
   \<and> recalibrated_task_value v c None = v"
proof -
  have "recalibrated_task_value (Fin 0) c r = Fin 0"
    by (cases r) (simp_all add: recalibrated_task_value_def)
  moreover have "lifecycle_status s \<noteq> ''accepted'' \<longrightarrow> task_value_from_score s = Fin 0"
    by (simp add: task_value_from_score_def)
  moreover have "recalibrated_task_value v c None = v" by (simp add: recalibrated_task_value_def)
  ultimately show ?thesis using task_value_unit recalibrated_unit by blast
qed

lemma task_value_laws_instance:
  "task_value_from_score \<lparr>lifecycle_status = ''rejected'', aggregate_score = Fin 1, runtime_cost = Fin 0,
     score_components = []\<rparr> = Fin 0"
  using task_value_laws [of "\<lparr>lifecycle_status = ''rejected'', aggregate_score = Fin 1, runtime_cost = Fin 0,
     score_components = []\<rparr>"] by simp

text \<open>An accepted task whose aggregate score is not a number gets the full value of 1.\<close>

lemma nan_scores_full_value:
  "task_value_from_score \<lparr>lifecycle_status = ''accepted'', aggregate_score = NaN, runtime_cost = Fin 0,
     score_components = []\<rparr> = Fin 1"
  by code_simp

text \<open>The normal form in which evidence is compared has no volatile key at any depth, is a fixed
  point, and is the same for objects that differ in the order of their keys.\<close>

lemma determinism_normal_form:
  "normal_form (normalize_for_determinism v)
   \<and> normalize_for_determinism (normalize_for_determinism v) = normalize_for_determinism v
   \<and> (distinct (map fst d) \<and> mset d = mset e \<longrightarrow>
        normalize_for_determinism (JObj d) = normalize_for_determinism (JObj e))"
  using normalize_normal_form normalize_fixed normalize_permuted by blast

lemma determinism_normal_form_instance:
  "normalize_for_determinism (JObj [(''b'', JInt 1), (''a'', JInt 2)])
     = normalize_for_determinism (JObj [(''a'', JInt 2), (''b'', JInt 1)])"
  using determinism_normal_form [of JNull "[(''b'', JInt 1), (''a'', JInt 2)]" "[(''a'', JInt 2), (''b'', JInt 1)]"]
  by simp

end
