(* ===== verification/Files.thy ===== *)
theory Files
  imports Scoring
begin

text \<open>
  The archive directory as a map from relative paths to contents, and the JSON files in it
  (\<open>atomic_write_json\<close>, \<open>_load_json_object\<close>, \<open>_sha256_file\<close>).
  Contents have an arbitrary type; \<open>json.loads\<close> and \<open>json.dumps\<close> on them and
  SHA-256 are fields of an environment.  Reading back what was written gives the document with its
  keys sorted, because \<open>atomic_write_json\<close> passes \<open>sort_keys=True\<close>; that a
  write is one step of the disk is the subject of the theory of atomic writes.
\<close>

section \<open>Contents and the archive\<close>

record 'b env =
  loads :: "'b \<Rightarrow> json option"
  dumps :: "json \<Rightarrow> 'b"
  sha256 :: "'b \<Rightarrow> string"
  json_digest :: "json \<Rightarrow> string"
  compact_size :: "json \<Rightarrow> int"
  archive_root :: string
  render :: "json \<Rightarrow> string"
  text_float :: "string \<Rightarrow> pyfloat option"

text \<open>
  \<open>json_digest\<close> and \<open>compact_size\<close> are the SHA-256 and the length of a document's compact
  serialisation with sorted keys, \<open>render\<close> is \<open>repr\<close>, which \<open>str\<close> agrees with on
  values that are not strings, and \<open>text_float\<close> is \<open>float\<close> on text, \<open>None\<close> where it raises.
\<close>

definition text_of_json :: "'b env \<Rightarrow> json \<Rightarrow> string" where
  "text_of_json env v = (case v of JStr s \<Rightarrow> s | _ \<Rightarrow> render env v)"

definition json_codec :: "'b env \<Rightarrow> bool" where
  "json_codec env \<longleftrightarrow> (\<forall>j. loads env (dumps env j) = Some (canon_json j))"

definition hex_digest :: "'b env \<Rightarrow> bool" where
  "hex_digest env \<longleftrightarrow> (\<forall>b. length (sha256 env b) = 64)"

lemma loads_dumps: "json_codec env \<Longrightarrow> loads env (dumps env j) = Some (canon_json j)"
  by (simp add: json_codec_def)

type_synonym 'b disk = "string \<Rightarrow> 'b option"

definition is_file :: "'b disk \<Rightarrow> string \<Rightarrow> bool" where
  "is_file fs p = (fs p \<noteq> None)"

definition write_json :: "'b env \<Rightarrow> string \<Rightarrow> json \<Rightarrow> 'b disk \<Rightarrow> 'b disk" where
  "write_json env p v fs = fs(p \<mapsto> dumps env v)"

datatype load_error = Cannot_read | Not_an_object

definition load_json_object :: "'b env \<Rightarrow> 'b disk \<Rightarrow> string \<Rightarrow> load_error + jdict" where
  "load_json_object env fs p =
     (case fs p of
        None \<Rightarrow> Inl Cannot_read
      | Some b \<Rightarrow>
          (case loads env b of
             None \<Rightarrow> Inl Cannot_read
           | Some (JObj d) \<Rightarrow> Inr d
           | Some _ \<Rightarrow> Inl Not_an_object))"

definition sha256_file :: "'b env \<Rightarrow> 'b disk \<Rightarrow> string \<Rightarrow> string" where
  "sha256_file env fs p = (case fs p of None \<Rightarrow> [] | Some b \<Rightarrow> sha256 env b)"

lemma write_json_same [simp]: "write_json env p v fs p = Some (dumps env v)"
  by (simp add: write_json_def)

lemma write_json_other [simp]: "q \<noteq> p \<Longrightarrow> write_json env p v fs q = fs q"
  by (simp add: write_json_def)

lemma load_written [simp]:
  "json_codec env \<Longrightarrow> fs p = Some (dumps env (JObj d)) \<Longrightarrow> load_json_object env fs p = Inr (canon_fields d)"
  by (simp add: load_json_object_def loads_dumps)

lemma load_other [simp]:
  "q \<noteq> p \<Longrightarrow> load_json_object env (write_json env p v fs) q = load_json_object env fs q"
  by (simp add: load_json_object_def)

lemma load_cong: "fs p = fs' p \<Longrightarrow> load_json_object env fs p = load_json_object env fs' p"
  by (simp add: load_json_object_def)

lemma load_is_file: "load_json_object env fs p = Inr d \<Longrightarrow> is_file fs p"
  by (auto simp: load_json_object_def is_file_def split: option.splits)

text \<open>
  An environment in which a file's content is the document itself, for evaluating the model on
  concrete archives; its digest tells null documents from others only.
\<close>

definition plain_env :: "json env" where
  "plain_env = \<lparr>loads = Some, dumps = canon_json,
     sha256 = (\<lambda>j. replicate 63 CHR ''a'' @ [if j = JNull then CHR ''b'' else CHR ''a'']),
     json_digest = (\<lambda>_. replicate 64 CHR ''0''), compact_size = (\<lambda>_. 100), archive_root = ''archive'', render = (\<lambda>_. ''other''), text_float = (\<lambda>_. None)\<rparr>"

lemma plain_env_codec: "json_codec plain_env"
  by (simp add: json_codec_def plain_env_def)

lemma plain_env_digest: "hex_digest plain_env"
  by (simp add: hex_digest_def plain_env_def)

section \<open>Paths of an epoch\<close>

definition epoch_dir :: "int \<Rightarrow> string" where
  "epoch_dir n = ''epochs/epoch_'' @ show_int n"

definition weights_path :: "int \<Rightarrow> string" where
  "weights_path n = epoch_dir n @ ''/weights_epoch_'' @ show_int n @ ''.json''"

definition solver_panel_path :: "int \<Rightarrow> string" where
  "solver_panel_path n = epoch_dir n @ ''/solver_panel_epoch_'' @ show_int n @ ''.json''"

definition miner_state_snapshot_path :: "int \<Rightarrow> string" where
  "miner_state_snapshot_path n = epoch_dir n @ ''/miner_state_epoch_'' @ show_int n @ ''.json''"

definition completion_marker_path :: "int \<Rightarrow> string" where
  "completion_marker_path n = epoch_dir n @ ''/completion_epoch_'' @ show_int n @ ''.json''"

definition chain_receipt_name :: "int \<Rightarrow> string" where
  "chain_receipt_name n = ''chain_receipt_epoch_'' @ show_int n @ ''.json''"

definition chain_receipt_path :: "int \<Rightarrow> string" where
  "chain_receipt_path n = epoch_dir n @ ''/'' @ chain_receipt_name n"

definition chain_attempt_path :: "int \<Rightarrow> string" where
  "chain_attempt_path n = epoch_dir n @ ''/chain_attempt_epoch_'' @ show_int n @ ''.json''"

definition miner_state_path :: string where
  "miner_state_path = ''miner_state.json''"

lemmas path_defs = epoch_dir_def weights_path_def solver_panel_path_def miner_state_snapshot_path_def
  completion_marker_path_def chain_receipt_path_def chain_receipt_name_def chain_attempt_path_def
  miner_state_path_def

text \<open>Epoch numbers do not collide, so the files of different kinds and of different epochs differ.\<close>

lemma show_nat_nonempty [simp]: "show_nat n \<noteq> []" "[] \<noteq> show_nat n"
  by (subst show_nat.simps, simp)+

lemma digit_inj:
  "char_of (48 + i) = (char_of (48 + j) :: char) \<Longrightarrow> i < 10 \<Longrightarrow> j < 10 \<Longrightarrow> i = (j :: nat)"
proof -
  assume e: "char_of (48 + i) = (char_of (48 + j) :: char)" and b: "i < 10" "j < 10"
  from e have "(of_char (char_of (48 + i) :: char) :: nat) = of_char (char_of (48 + j) :: char)" by simp
  with b show ?thesis by simp
qed

lemma show_nat_inj: "show_nat m = show_nat n \<Longrightarrow> m = n"
proof (induction m arbitrary: n rule: show_nat.induct)
  case (1 m)
  have u: "show_nat k = (if k < 10 then [char_of (48 + k)] else show_nat (k div 10) @ [char_of (48 + k mod 10)])"
    for k by (rule show_nat.simps)
  show ?case
  proof (cases "m < 10")
    case True
    then show ?thesis using 1(2) digit_inj u [of m] u [of n] by (auto split: if_splits)
  next
    case False
    then have "\<not> n < 10" using 1(2) u [of m] u [of n] by auto
    with False 1(2) have "show_nat (m div 10) = show_nat (n div 10)" "m mod 10 = n mod 10"
      using u [of m] u [of n] digit_inj [of "m mod 10" "n mod 10"] by auto
    with 1(1) [OF False] have "m div 10 = n div 10" by blast
    with \<open>m mod 10 = n mod 10\<close> show ?thesis by (metis div_mult_mod_eq)
  qed
qed

lemma show_nat_digits: "c \<in> set (show_nat n) \<Longrightarrow> 48 \<le> (of_char c :: nat) \<and> (of_char c :: nat) \<le> 57"
proof (induction n rule: show_nat.induct)
  case (1 n)
  then show ?case by (subst (asm) (2) show_nat.simps) (auto split: if_splits)
qed

lemma show_nat_no_char: "(of_char c :: nat) < 48 \<Longrightarrow> c \<notin> set (show_nat n)"
  using show_nat_digits [of c n] by auto

lemma show_int_no_slash [simp]: "CHR ''/'' \<notin> set (show_int n)"
  using show_nat_no_char [of "CHR ''/''"] by (auto simp: show_int_def)

lemma show_int_inj [simp]: "show_int m = show_int n \<longleftrightarrow> m = n"
proof
  assume e: "show_int m = show_int n"
  have "show_nat x \<noteq> CHR ''-'' # y" for x y
    using show_nat_no_char [of "CHR ''-''" x] by auto
  with e show "m = n"
    by (auto simp: show_int_def split: if_splits dest!: show_nat_inj) (metis nat_eq_iff)+
qed simp

lemma append_at_sep:
  "c \<notin> set a \<Longrightarrow> c \<notin> set b \<Longrightarrow> a @ c # x = b @ c # y \<longleftrightarrow> a = b \<and> x = y"
  by (induction a arbitrary: b) (case_tac b; auto)+

lemma epoch_path_eq [simp]:
  "epoch_dir m @ CHR ''/'' # x = epoch_dir n @ CHR ''/'' # y \<longleftrightarrow> m = n \<and> x = y"
  by (simp add: epoch_dir_def append_at_sep)

lemma epoch_path_not_top [simp]: "epoch_dir m @ x \<noteq> CHR ''m'' # y" "CHR ''m'' # y \<noteq> epoch_dir m @ x"
  by (simp_all add: epoch_dir_def)

lemma epoch_files_eq [simp]:
  "weights_path m = weights_path n \<longleftrightarrow> m = n"
  "solver_panel_path m = solver_panel_path n \<longleftrightarrow> m = n"
  "miner_state_snapshot_path m = miner_state_snapshot_path n \<longleftrightarrow> m = n"
  "completion_marker_path m = completion_marker_path n \<longleftrightarrow> m = n"
  "chain_receipt_path m = chain_receipt_path n \<longleftrightarrow> m = n"
  "chain_attempt_path m = chain_attempt_path n \<longleftrightarrow> m = n"
  by (auto simp: weights_path_def solver_panel_path_def miner_state_snapshot_path_def
      completion_marker_path_def chain_receipt_path_def chain_receipt_name_def chain_attempt_path_def)

lemma epoch_files_differ [simp]:
  "weights_path m \<noteq> solver_panel_path n" "solver_panel_path m \<noteq> weights_path n"
  "weights_path m \<noteq> miner_state_snapshot_path n" "miner_state_snapshot_path m \<noteq> weights_path n"
  "weights_path m \<noteq> completion_marker_path n" "completion_marker_path m \<noteq> weights_path n"
  "weights_path m \<noteq> chain_receipt_path n" "chain_receipt_path m \<noteq> weights_path n"
  "weights_path m \<noteq> chain_attempt_path n" "chain_attempt_path m \<noteq> weights_path n"
  "solver_panel_path m \<noteq> miner_state_snapshot_path n" "miner_state_snapshot_path m \<noteq> solver_panel_path n"
  "solver_panel_path m \<noteq> completion_marker_path n" "completion_marker_path m \<noteq> solver_panel_path n"
  "solver_panel_path m \<noteq> chain_receipt_path n" "chain_receipt_path m \<noteq> solver_panel_path n"
  "solver_panel_path m \<noteq> chain_attempt_path n" "chain_attempt_path m \<noteq> solver_panel_path n"
  "miner_state_snapshot_path m \<noteq> completion_marker_path n" "completion_marker_path m \<noteq> miner_state_snapshot_path n"
  "miner_state_snapshot_path m \<noteq> chain_receipt_path n" "chain_receipt_path m \<noteq> miner_state_snapshot_path n"
  "miner_state_snapshot_path m \<noteq> chain_attempt_path n" "chain_attempt_path m \<noteq> miner_state_snapshot_path n"
  "completion_marker_path m \<noteq> chain_receipt_path n" "chain_receipt_path m \<noteq> completion_marker_path n"
  "completion_marker_path m \<noteq> chain_attempt_path n" "chain_attempt_path m \<noteq> completion_marker_path n"
  "chain_receipt_path m \<noteq> chain_attempt_path n" "chain_attempt_path m \<noteq> chain_receipt_path n"
  by (simp_all add: weights_path_def solver_panel_path_def miner_state_snapshot_path_def
      completion_marker_path_def chain_receipt_path_def chain_receipt_name_def chain_attempt_path_def)

lemma epoch_files_not_top [simp]:
  "weights_path m \<noteq> miner_state_path" "miner_state_path \<noteq> weights_path m"
  "solver_panel_path m \<noteq> miner_state_path" "miner_state_path \<noteq> solver_panel_path m"
  "miner_state_snapshot_path m \<noteq> miner_state_path" "miner_state_path \<noteq> miner_state_snapshot_path m"
  "completion_marker_path m \<noteq> miner_state_path" "miner_state_path \<noteq> completion_marker_path m"
  "chain_receipt_path m \<noteq> miner_state_path" "miner_state_path \<noteq> chain_receipt_path m"
  "chain_attempt_path m \<noteq> miner_state_path" "miner_state_path \<noteq> chain_attempt_path m"
  by (simp_all add: weights_path_def solver_panel_path_def miner_state_snapshot_path_def miner_state_path_def
      completion_marker_path_def chain_receipt_path_def chain_receipt_name_def chain_attempt_path_def)

end
