(* ===== verification/Completion.thy ===== *)
theory Completion
  imports Files
begin

text \<open>
  The commit point of an epoch (\<open>src/dolores_subnet/epoch.py\<close>): the completion marker names
  every artifact of the epoch by canonical path and SHA-256, is written after them, and is
  verified against the disk both when it is published and when a restarted validator recovers.
\<close>

section \<open>Chain results\<close>

record chain_weight_result =
  res_mode :: string
  res_receipt :: "jdict option"
  res_reason :: "string option"

definition result_record :: "chain_weight_result \<Rightarrow> json" where
  "result_record r =
     JObj [(''mode'', JStr (res_mode r)), (''receipt'', opt_obj (res_receipt r)),
           (''reason'', opt_str (res_reason r))]"

definition recoverable_chain_modes :: "string list" where
  "recoverable_chain_modes = [''dry_run'', ''submitted'', ''fallback'', ''skipped'', ''error'']"

definition completion_marker_version :: int where
  "completion_marker_version = 1"

datatype artifact = Miner_state | Weights | Panel_sidecar | Chain_receipt | Chain_attempt

fun artifact_name :: "artifact \<Rightarrow> string" where
  "artifact_name Miner_state = ''miner_state''"
| "artifact_name Weights = ''weights''"
| "artifact_name Panel_sidecar = ''panel_sidecar''"
| "artifact_name Chain_receipt = ''chain_receipt''"
| "artifact_name Chain_attempt = ''chain_attempt''"

fun canonical_path :: "int \<Rightarrow> artifact \<Rightarrow> string" where
  "canonical_path n Miner_state = miner_state_snapshot_path n"
| "canonical_path n Weights = weights_path n"
| "canonical_path n Panel_sidecar = solver_panel_path n"
| "canonical_path n Chain_receipt = chain_receipt_path n"
| "canonical_path n Chain_attempt = chain_attempt_path n"

fun required_for :: "string \<Rightarrow> artifact \<Rightarrow> bool" where
  "required_for mode Chain_receipt = (mode \<noteq> ''fallback'')"
| "required_for mode Chain_attempt = (mode = ''submitted'')"
| "required_for mode _ = True"

definition all_artifacts :: "artifact list" where
  "all_artifacts = [Miner_state, Weights, Panel_sidecar, Chain_receipt, Chain_attempt]"

lemma set_all_artifacts [simp]: "a \<in> set all_artifacts"
  by (cases a) (simp_all add: all_artifacts_def)

lemma ball_set_artifacts [simp]: "(\<forall>a \<in> set all_artifacts. P a) \<longleftrightarrow> (\<forall>a. P a)"
  using set_all_artifacts by blast

lemma ball_artifacts: "(\<forall>a. P a) \<longleftrightarrow> list_all P all_artifacts"
  by (metis Ball_set set_all_artifacts)

section \<open>Errors\<close>

datatype completion_error =
    Load_failed artifact load_error
  | Marker_load_failed load_error
  | Unsupported_version
  | Marker_epoch_mismatch
  | Mode_unhashable
  | Bad_mode_or_reason
  | Artifacts_not_object
  | Unexpected_entry artifact
  | Unexpected_file artifact
  | Missing_entry artifact
  | Noncanonical_path artifact
  | Invalid_digest artifact
  | Missing_file artifact
  | Hash_mismatch artifact
  | Miner_state_not_numeric
  | Weights_epoch_or_result
  | Weights_mode_reason_mismatch
  | Panel_epoch_mismatch
  | Receipt_epoch_mismatch
  | Receipt_mode_reason_mismatch
  | Attempt_incomplete
  | Mode_not_eligible string string
  | Receipt_not_canonical string
  | Fallback_with_receipt
  | Artifact_missing artifact

section \<open>Verification\<close>

fun check_artifact ::
  "'b env \<Rightarrow> 'b disk \<Rightarrow> jdict \<Rightarrow> int \<Rightarrow> string \<Rightarrow> artifact \<Rightarrow> completion_error + unit" where
  "check_artifact env fs artifacts epoch_id mode a =
     (let entry = jget artifacts (artifact_name a); p = canonical_path epoch_id a in
      if \<not> required_for mode a then
        (if entry \<noteq> JNull then Inl (Unexpected_entry a)
         else if is_file fs p then Inl (Unexpected_file a)
         else Inr ())
      else
        (case entry of
           JObj e \<Rightarrow>
             (if jget e ''path'' \<noteq> JStr p then Inl (Noncanonical_path a)
              else (case jget e ''sha256'' of
                      JStr digest \<Rightarrow>
                        (if length digest \<noteq> 64 then Inl (Invalid_digest a)
                         else if \<not> is_file fs p then Inl (Missing_file a)
                         else if sha256_file env fs p \<noteq> digest then Inl (Hash_mismatch a)
                         else Inr ())
                    | _ \<Rightarrow> Inl (Invalid_digest a)))
         | _ \<Rightarrow> Inl (Missing_entry a)))"

declare check_artifact.simps [simp del]

definition load_artifact :: "'b env \<Rightarrow> 'b disk \<Rightarrow> int \<Rightarrow> artifact \<Rightarrow> completion_error + jdict" where
  "load_artifact env fs epoch_id a =
     map_error (Load_failed a) (load_json_object env fs (canonical_path epoch_id a))"

record completion =
  cmp_marker_path :: string
  cmp_epoch :: int
  cmp_mode :: string
  cmp_reason :: string
  cmp_receipt :: jdict
  cmp_miner_state :: jdict

definition full_path :: "'b env \<Rightarrow> string \<Rightarrow> string" where
  "full_path env p = archive_root env @ ''/'' @ p"

text \<open>The marker's own fields: version, epoch, mode, reason and the artifact table.\<close>

fun marker_fields :: "json \<Rightarrow> json \<Rightarrow> json \<Rightarrow> completion_error + (string \<times> string \<times> jdict)" where
  "marker_fields (JStr mode) (JStr reason) artifacts =
     (if mode \<in> set recoverable_chain_modes
      then (if is_jobj artifacts then Inr (mode, reason, obj_of artifacts) else Inl Artifacts_not_object)
      else Inl Bad_mode_or_reason)"
| "marker_fields _ _ _ = Inl Bad_mode_or_reason"

definition read_marker ::
  "'b env \<Rightarrow> 'b disk \<Rightarrow> int \<Rightarrow> completion_error + (string \<times> string \<times> jdict)" where
  "read_marker env fs epoch_id =
     bind_result (map_error Marker_load_failed (load_json_object env fs (completion_marker_path epoch_id)))
       (\<lambda>marker.
     bind_result (require (py_eq (jget marker ''version'') (JInt completion_marker_version)) Unsupported_version)
       (\<lambda>_.
     bind_result (require (py_eq (jget marker ''epoch_id'') (JInt epoch_id)) Marker_epoch_mismatch)
       (\<lambda>_.
     bind_result (require (hashable (jget marker ''mode'')) Mode_unhashable)
       (\<lambda>_.
     marker_fields (jget marker ''mode'') (jget marker ''reason'') (jget marker ''artifacts'')))))"

text \<open>What the artifacts say must agree with the marker.\<close>

definition check_miner_state :: "jdict \<Rightarrow> completion_error + unit" where
  "check_miner_state d = require (list_all is_number (dict_values d)) Miner_state_not_numeric"

definition check_weights :: "int \<Rightarrow> string \<Rightarrow> string \<Rightarrow> jdict \<Rightarrow> completion_error + unit" where
  "check_weights epoch_id mode reason weights =
     (case jget weights ''weight_result'' of
        JObj result \<Rightarrow>
          if \<not> py_eq (jget weights ''epoch_id'') (JInt epoch_id) then Inl Weights_epoch_or_result
          else if jget result ''mode'' \<noteq> JStr mode
                  \<or> or_else (jget result ''reason'') (JStr []) \<noteq> JStr reason
          then Inl Weights_mode_reason_mismatch
          else Inr ()
      | _ \<Rightarrow> Inl Weights_epoch_or_result)"

definition check_panel :: "int \<Rightarrow> jdict \<Rightarrow> completion_error + unit" where
  "check_panel epoch_id panel = require (py_eq (jget panel ''epoch_id'') (JInt epoch_id)) Panel_epoch_mismatch"

definition check_receipt :: "int \<Rightarrow> string \<Rightarrow> string \<Rightarrow> jdict \<Rightarrow> completion_error + unit" where
  "check_receipt epoch_id mode reason receipt =
     bind_result (require (py_eq (jget receipt ''epoch_id'') (JInt epoch_id)) Receipt_epoch_mismatch)
       (\<lambda>_. require (jget receipt ''mode'' = JStr mode \<and> jget receipt ''reason'' = JStr reason)
              Receipt_mode_reason_mismatch)"

definition check_attempt :: "int \<Rightarrow> jdict \<Rightarrow> completion_error + unit" where
  "check_attempt epoch_id attempt =
     require (py_eq (jget attempt ''epoch_id'') (JInt epoch_id)
              \<and> jget attempt ''mode'' = JStr ''live_attempt''
              \<and> jget attempt ''status'' = JStr ''completed''
              \<and> jget attempt ''receipt_file'' = JStr (chain_receipt_name epoch_id))
       Attempt_incomplete"

definition receipt_summary ::
  "'b env \<Rightarrow> 'b disk \<Rightarrow> int \<Rightarrow> string \<Rightarrow> string \<Rightarrow> completion_error + jdict" where
  "receipt_summary env fs epoch_id mode reason =
     (if mode = ''fallback'' then Inr [(''mode'', JStr mode), (''reason'', JStr reason)]
      else
        bind_result (load_artifact env fs epoch_id Chain_receipt) (\<lambda>receipt.
        bind_result (check_receipt epoch_id mode reason receipt) (\<lambda>_.
        Inr [(''mode'', JStr mode), (''reason'', JStr reason),
             (''path'', JStr (full_path env (chain_receipt_path epoch_id))),
             (''payload_digest'', jget receipt ''payload_digest''),
             (''sha256'', JStr (sha256_file env fs (chain_receipt_path epoch_id)))])))"

definition check_contents ::
  "'b env \<Rightarrow> 'b disk \<Rightarrow> int \<Rightarrow> string \<Rightarrow> string \<Rightarrow> completion_error + (jdict \<times> jdict)" where
  "check_contents env fs epoch_id mode reason =
     bind_result (load_artifact env fs epoch_id Miner_state) (\<lambda>miner_state.
     bind_result (check_miner_state miner_state) (\<lambda>_.
     bind_result (load_artifact env fs epoch_id Weights) (\<lambda>weights.
     bind_result (check_weights epoch_id mode reason weights) (\<lambda>_.
     bind_result (load_artifact env fs epoch_id Panel_sidecar) (\<lambda>panel.
     bind_result (check_panel epoch_id panel) (\<lambda>_.
     bind_result (receipt_summary env fs epoch_id mode reason) (\<lambda>summary.
     bind_result
       (if mode = ''submitted'' then
          bind_result (load_artifact env fs epoch_id Chain_attempt) (check_attempt epoch_id)
        else Inr ()) (\<lambda>_.
     Inr (summary, miner_state)))))))))"

definition verify_epoch_completion ::
  "'b env \<Rightarrow> 'b disk \<Rightarrow> int \<Rightarrow> completion_error + completion" where
  "verify_epoch_completion env fs epoch_id =
     bind_result (read_marker env fs epoch_id) (\<lambda>(mode, reason, artifacts).
     bind_result (map_result (check_artifact env fs artifacts epoch_id mode) all_artifacts) (\<lambda>_.
     bind_result (check_contents env fs epoch_id mode reason) (\<lambda>(summary, miner_state).
     Inr \<lparr>cmp_marker_path = full_path env (completion_marker_path epoch_id), cmp_epoch = epoch_id,
          cmp_mode = mode, cmp_reason = reason, cmp_receipt = summary,
          cmp_miner_state = miner_state\<rparr>)))"

section \<open>Publication\<close>

text \<open>
  The artifact paths are the canonical ones of the archive, which \<open>run_epoch\<close> passes; the
  branch for a path outside the archive has no counterpart in relative paths.
\<close>

definition artifact_record :: "'b env \<Rightarrow> 'b disk \<Rightarrow> int \<Rightarrow> artifact \<Rightarrow> completion_error + json" where
  "artifact_record env fs epoch_id a =
     (let p = canonical_path epoch_id a in
      if \<not> is_file fs p then Inl (Artifact_missing a)
      else Inr (JObj [(''path'', JStr p), (''sha256'', JStr (sha256_file env fs p))]))"

definition optional_record ::
  "'b env \<Rightarrow> 'b disk \<Rightarrow> int \<Rightarrow> bool \<Rightarrow> artifact \<Rightarrow> completion_error + json" where
  "optional_record env fs epoch_id wanted a =
     (if wanted then artifact_record env fs epoch_id a else Inr JNull)"

definition marker_mode_check :: "int \<Rightarrow> chain_weight_result \<Rightarrow> completion_error + unit" where
  "marker_mode_check epoch_id result =
     (let mode = res_mode result; reason = (case res_reason result of None \<Rightarrow> [] | Some s \<Rightarrow> s) in
      if mode \<notin> set recoverable_chain_modes
      then Inl (Mode_not_eligible mode (if reason = [] then ''unknown'' else reason))
      else if mode \<noteq> ''fallback'' then
        (let receipt_file = jget (case res_receipt result of None \<Rightarrow> [] | Some r \<Rightarrow> r) ''receipt_file'' in
         if receipt_file \<noteq> JStr (chain_receipt_name epoch_id) then Inl (Receipt_not_canonical mode) else Inr ())
      else if res_receipt result \<noteq> None then Inl Fallback_with_receipt
      else Inr ())"

definition completion_marker ::
  "'b env \<Rightarrow> 'b disk \<Rightarrow> int \<Rightarrow> chain_weight_result \<Rightarrow> completion_error + json" where
  "completion_marker env fs epoch_id result =
     (let mode = res_mode result; reason = (case res_reason result of None \<Rightarrow> [] | Some s \<Rightarrow> s) in
      bind_result (marker_mode_check epoch_id result) (\<lambda>_.
      bind_result (artifact_record env fs epoch_id Miner_state) (\<lambda>ms.
      bind_result (artifact_record env fs epoch_id Weights) (\<lambda>ws.
      bind_result (artifact_record env fs epoch_id Panel_sidecar) (\<lambda>ps.
      bind_result (optional_record env fs epoch_id (mode \<noteq> ''fallback'') Chain_receipt) (\<lambda>cr.
      bind_result (optional_record env fs epoch_id (mode = ''submitted'') Chain_attempt) (\<lambda>ca.
      Inr (JObj [(''version'', JInt completion_marker_version), (''epoch_id'', JInt epoch_id),
        (''mode'', JStr mode), (''reason'', JStr reason),
        (''artifacts'', JObj [(''miner_state'', ms), (''weights'', ws), (''panel_sidecar'', ps),
           (''chain_receipt'', cr), (''chain_attempt'', ca)])]))))))))"

definition write_epoch_completion_marker ::
  "'b env \<Rightarrow> int \<Rightarrow> chain_weight_result \<Rightarrow> ('b disk, completion_error, string) op" where
  "write_epoch_completion_marker env epoch_id result fs =
     (case completion_marker env fs epoch_id result of
        Inl e \<Rightarrow> (Inl e, fs)
      | Inr marker \<Rightarrow>
          let fs' = write_json env (completion_marker_path epoch_id) marker fs in
          (case verify_epoch_completion env fs' epoch_id of
             Inl e \<Rightarrow> (Inl e, fs')
           | Inr _ \<Rightarrow> (Inr (completion_marker_path epoch_id), fs')))"

section \<open>What verification establishes\<close>

lemma canonical_path_not_marker [simp]:
  "canonical_path m a \<noteq> completion_marker_path n" "completion_marker_path n \<noteq> canonical_path m a"
  by (cases a; simp)+

lemma canonical_path_eq [simp]: "canonical_path n a = canonical_path n b \<longleftrightarrow> a = b"
  by (cases a; cases b) simp_all

text \<open>One entry of the artifact table against the disk.\<close>

definition entry_matches :: "'b env \<Rightarrow> 'b disk \<Rightarrow> jdict \<Rightarrow> int \<Rightarrow> string \<Rightarrow> artifact \<Rightarrow> bool" where
  "entry_matches env fs artifacts n mode a =
     (if required_for mode a then
        (case (jget artifacts (artifact_name a), fs (canonical_path n a)) of
           (JObj e, Some b) \<Rightarrow>
             jget e ''path'' = JStr (canonical_path n a) \<and> jget e ''sha256'' = JStr (sha256 env b)
             \<and> length (sha256 env b) = 64
         | _ \<Rightarrow> False)
      else jget artifacts (artifact_name a) = JNull \<and> fs (canonical_path n a) = None)"

lemma entry_matches_cong:
  "fs (canonical_path n a) = fs' (canonical_path n a) \<Longrightarrow>
   entry_matches env fs artifacts n mode a = entry_matches env fs' artifacts n mode a"
  by (simp add: entry_matches_def)

lemma check_artifact_iff:
  "check_artifact env fs artifacts n mode a = Inr () \<longleftrightarrow> entry_matches env fs artifacts n mode a"
  by (auto simp: check_artifact.simps entry_matches_def Let_def is_file_def sha256_file_def
      split: json.splits option.splits)

lemma map_result_ok: "(\<exists>ys. map_result f xs = Inr ys) \<longleftrightarrow> (\<forall>x \<in> set xs. \<exists>y. f x = Inr y)"
  by (induction xs) auto

lemma check_artifacts_iff:
  "(\<exists>us. map_result (check_artifact env fs artifacts n mode) all_artifacts = Inr us) \<longleftrightarrow>
     (\<forall>a. entry_matches env fs artifacts n mode a)"
  unfolding map_result_ok by (simp add: check_artifact_iff [symmetric])

lemma verify_parts:
  "verify_epoch_completion env fs n = Inr c \<longleftrightarrow>
     (\<exists>artifacts. read_marker env fs n = Inr (cmp_mode c, cmp_reason c, artifacts)
        \<and> (\<forall>a. entry_matches env fs artifacts n (cmp_mode c) a))
     \<and> check_contents env fs n (cmp_mode c) (cmp_reason c) = Inr (cmp_receipt c, cmp_miner_state c)
     \<and> cmp_marker_path c = full_path env (completion_marker_path n) \<and> cmp_epoch c = n"
  unfolding verify_epoch_completion_def check_artifacts_iff [symmetric]
  by (cases c) (auto simp: case_prod_beta)

lemma marker_fields_Inr:
  "marker_fields m r a = Inr (mode, reason, artifacts) \<longleftrightarrow>
     m = JStr mode \<and> r = JStr reason \<and> a = JObj artifacts \<and> mode \<in> set recoverable_chain_modes"
  by (cases "(m, r, a)" rule: marker_fields.cases) (auto split: if_splits elim: is_jobj.elims)

lemma read_marker_mode: "read_marker env fs n = Inr (mode, reason, artifacts) \<Longrightarrow> mode \<in> set recoverable_chain_modes"
  by (auto simp: read_marker_def marker_fields_Inr)

lemma verify_mode: "verify_epoch_completion env fs n = Inr c \<Longrightarrow> cmp_mode c \<in> set recoverable_chain_modes"
  by (auto simp: verify_parts dest: read_marker_mode)

lemma check_contents_parts:
  "check_contents env fs n mode reason = Inr (summary, ms) \<longleftrightarrow>
     load_json_object env fs (miner_state_snapshot_path n) = Inr ms \<and> list_all is_number (dict_values ms)
     \<and> (\<exists>w. load_json_object env fs (weights_path n) = Inr w \<and> check_weights n mode reason w = Inr ())
     \<and> (\<exists>p. load_json_object env fs (solver_panel_path n) = Inr p \<and> py_eq (jget p ''epoch_id'') (JInt n))
     \<and> receipt_summary env fs n mode reason = Inr summary
     \<and> (mode = ''submitted'' \<longrightarrow>
          (\<exists>att. load_json_object env fs (chain_attempt_path n) = Inr att \<and> check_attempt n att = Inr ()))"
  by (auto simp: check_contents_def load_artifact_def check_miner_state_def check_panel_def)

lemma receipt_summary_parts:
  "receipt_summary env fs n mode reason = Inr s \<longleftrightarrow>
     (if mode = ''fallback'' then s = [(''mode'', JStr mode), (''reason'', JStr reason)]
      else \<exists>r. load_json_object env fs (chain_receipt_path n) = Inr r
            \<and> check_receipt n mode reason r = Inr ()
            \<and> s = [(''mode'', JStr mode), (''reason'', JStr reason),
                   (''path'', JStr (full_path env (chain_receipt_path n))),
                   (''payload_digest'', jget r ''payload_digest''),
                   (''sha256'', JStr (sha256_file env fs (chain_receipt_path n)))])"
  by (auto simp: receipt_summary_def load_artifact_def)

lemma receipt_summary_mode:
  "receipt_summary env fs n mode reason = Inr s \<Longrightarrow> jget s ''mode'' = JStr mode \<and> jget s ''reason'' = JStr reason"
  by (auto simp: receipt_summary_parts split: if_splits)

lemma verify_receipt_mode:
  "verify_epoch_completion env fs n = Inr c \<Longrightarrow>
   jget (cmp_receipt c) ''mode'' = JStr (cmp_mode c) \<and> jget (cmp_receipt c) ''reason'' = JStr (cmp_reason c)"
  by (auto simp: verify_parts check_contents_parts dest: receipt_summary_mode)

lemma verify_attempt:
  "verify_epoch_completion env fs n = Inr c \<Longrightarrow> cmp_mode c = ''submitted'' \<Longrightarrow>
   \<exists>att. load_json_object env fs (chain_attempt_path n) = Inr att \<and> jget att ''status'' = JStr ''completed''"
  by (auto simp: verify_parts check_contents_parts check_attempt_def)

lemma verify_no_attempt:
  "verify_epoch_completion env fs n = Inr c \<Longrightarrow> cmp_mode c \<noteq> ''submitted'' \<Longrightarrow> fs (chain_attempt_path n) = None"
proof -
  assume v: "verify_epoch_completion env fs n = Inr c" and m: "cmp_mode c \<noteq> ''submitted''"
  then obtain artifacts where "entry_matches env fs artifacts n (cmp_mode c) Chain_attempt"
    by (auto simp: verify_parts)
  with m show ?thesis by (simp add: entry_matches_def)
qed

lemma verify_marker_exists: "verify_epoch_completion env fs n = Inr c \<Longrightarrow> is_file fs (completion_marker_path n)"
  by (auto simp: verify_parts read_marker_def load_is_file)

text \<open>Verification reads the marker and the five artifacts only.\<close>

lemma verify_cong:
  assumes "fs (completion_marker_path n) = fs' (completion_marker_path n)"
    and "\<And>a. fs (canonical_path n a) = fs' (canonical_path n a)"
  shows "verify_epoch_completion env fs n = verify_epoch_completion env fs' n"
proof -
  have l: "load_artifact env fs n = load_artifact env fs' n"
  proof (rule ext)
    fix a
    show "load_artifact env fs n a = load_artifact env fs' n a"
      by (simp only: load_artifact_def load_cong [of fs "canonical_path n a" fs', OF assms(2)])
  qed
  have m: "read_marker env fs n = read_marker env fs' n"
    unfolding read_marker_def load_cong [where fs = fs and fs' = fs', OF assms(1)] ..
  have c: "check_artifact env fs artifacts n mode = check_artifact env fs' artifacts n mode" for artifacts mode
  proof (rule ext)
    fix a
    have f: "is_file fs (canonical_path n a) = is_file fs' (canonical_path n a)"
      and g: "sha256_file env fs (canonical_path n a) = sha256_file env fs' (canonical_path n a)"
      using assms(2) [of a] by (simp_all add: is_file_def sha256_file_def)
    show "check_artifact env fs artifacts n mode a = check_artifact env fs' artifacts n mode a"
      unfolding check_artifact.simps Let_def f g ..
  qed
  have r: "sha256_file env fs (chain_receipt_path n) = sha256_file env fs' (chain_receipt_path n)"
    using assms(2) [of Chain_receipt] by (simp add: sha256_file_def)
  show ?thesis
    unfolding verify_epoch_completion_def check_contents_def receipt_summary_def l m c r ..
qed

section \<open>Publication succeeds exactly on a consistent archive\<close>

definition result_reason :: "chain_weight_result \<Rightarrow> string" where
  "result_reason r = (case res_reason r of None \<Rightarrow> [] | Some s \<Rightarrow> s)"

definition artifacts_ready :: "'b env \<Rightarrow> 'b disk \<Rightarrow> int \<Rightarrow> chain_weight_result \<Rightarrow> bool" where
  "artifacts_ready env fs n r =
     (is_ok (marker_mode_check n r)
      \<and> list_all (\<lambda>a. is_file fs (canonical_path n a) = required_for (res_mode r) a) all_artifacts
      \<and> is_ok (check_contents env fs n (res_mode r) (result_reason r)))"

lemma artifact_record_ok:
  "is_file fs (canonical_path n a) \<Longrightarrow> artifact_record env fs n a =
     Inr (JObj [(''path'', JStr (canonical_path n a)), (''sha256'', JStr (sha256_file env fs (canonical_path n a)))])"
  by (simp add: artifact_record_def Let_def)

definition marker_entry :: "'b env \<Rightarrow> 'b disk \<Rightarrow> int \<Rightarrow> string \<Rightarrow> artifact \<Rightarrow> json" where
  "marker_entry env fs n mode a =
     (if required_for mode a
      then JObj [(''path'', JStr (canonical_path n a)), (''sha256'', JStr (sha256_file env fs (canonical_path n a)))]
      else JNull)"

lemma optional_record_ok:
  "(wanted \<Longrightarrow> is_file fs (canonical_path n a)) \<Longrightarrow> wanted = required_for mode a \<Longrightarrow>
   optional_record env fs n wanted a = Inr (marker_entry env fs n mode a)"
  by (simp add: optional_record_def artifact_record_ok marker_entry_def)

lemma completion_marker_Inr:
  "completion_marker env fs n r = Inr m \<longleftrightarrow>
     is_ok (marker_mode_check n r)
     \<and> (\<forall>a. required_for (res_mode r) a \<longrightarrow> is_file fs (canonical_path n a))
     \<and> m = JObj [(''version'', JInt completion_marker_version), (''epoch_id'', JInt n),
          (''mode'', JStr (res_mode r)), (''reason'', JStr (result_reason r)),
          (''artifacts'', JObj (map (\<lambda>a. (artifact_name a, marker_entry env fs n (res_mode r) a)) all_artifacts))]"
  unfolding ball_artifacts
  by (auto simp: completion_marker_def Let_def is_ok_iff artifact_record_def optional_record_def marker_entry_def
      result_reason_def all_artifacts_def split: if_splits)

lemma jget_artifacts:
  "jget (map (\<lambda>a. (artifact_name a, f a)) all_artifacts) (artifact_name b) = f b"
  by (cases b) (simp_all add: all_artifacts_def)

lemma canon_map_fields: "canon_fields [(k, v)] = [(k, canon_json v)]"
  by (simp add: canon_fields_def)

lemma marker_entry_matches:
  assumes "hex_digest env" "is_file fs (canonical_path n a) = required_for mode a"
  shows "entry_matches env fs (canon_fields (map (\<lambda>a. (artifact_name a, marker_entry env fs n mode a)) all_artifacts)) n mode a"
  using assms
  by (auto simp: entry_matches_def jget_artifacts marker_entry_def is_file_def sha256_file_def hex_digest_def
      split: json.splits option.splits)

lemma read_marker_written:
  assumes "json_codec env" "mode \<in> set recoverable_chain_modes"
    and "fs (completion_marker_path n) = Some (dumps env
      (JObj [(''version'', JInt completion_marker_version), (''epoch_id'', JInt n),
        (''mode'', JStr mode), (''reason'', JStr reason), (''artifacts'', JObj artifacts)]))"
  shows "read_marker env fs n = Inr (mode, reason, canon_fields artifacts)"
  using assms by (simp add: read_marker_def completion_marker_version_def)

lemma marker_mode_recoverable: "is_ok (marker_mode_check n r) \<Longrightarrow> res_mode r \<in> set recoverable_chain_modes"
  by (auto simp: marker_mode_check_def Let_def split: if_splits)

lemma publish_verifies:
  assumes "json_codec env" "hex_digest env" "artifacts_ready env fs n r"
  shows "\<exists>fs' c. write_epoch_completion_marker env n r fs = (Inr (completion_marker_path n), fs')
     \<and> verify_epoch_completion env fs' n = Inr c \<and> cmp_mode c = res_mode r \<and> cmp_reason c = result_reason r
     \<and> (\<forall>p. p \<noteq> completion_marker_path n \<longrightarrow> fs' p = fs p)"
proof -
  let ?arts = "map (\<lambda>a. (artifact_name a, marker_entry env fs n (res_mode r) a)) all_artifacts"
  let ?m = "JObj [(''version'', JInt completion_marker_version), (''epoch_id'', JInt n),
          (''mode'', JStr (res_mode r)), (''reason'', JStr (result_reason r)), (''artifacts'', JObj ?arts)]"
  let ?fs = "write_json env (completion_marker_path n) ?m fs"
  have ready: "is_ok (marker_mode_check n r)" "\<forall>a. is_file fs (canonical_path n a) = required_for (res_mode r) a"
    using assms(3) unfolding artifacts_ready_def ball_artifacts by simp_all
  obtain summary ms where contents: "check_contents env fs n (res_mode r) (result_reason r) = Inr (summary, ms)"
    using assms(3) by (auto simp: artifacts_ready_def is_ok_iff)
  have marker: "completion_marker env fs n r = Inr ?m" using ready by (simp add: completion_marker_Inr)
  let ?c = "\<lparr>cmp_marker_path = full_path env (completion_marker_path n), cmp_epoch = n, cmp_mode = res_mode r,
     cmp_reason = result_reason r, cmp_receipt = summary, cmp_miner_state = ms\<rparr>"
  have same: "?fs (canonical_path n a) = fs (canonical_path n a)" for a by simp
  have "load_artifact env ?fs n = load_artifact env fs n"
    by (intro ext) (simp add: load_artifact_def)
  moreover have "sha256_file env ?fs (chain_receipt_path n) = sha256_file env fs (chain_receipt_path n)"
    by (simp add: sha256_file_def)
  ultimately have "check_contents env ?fs n (res_mode r) (result_reason r) = Inr (summary, ms)"
    using contents by (simp only: check_contents_def receipt_summary_def)
  moreover have "read_marker env ?fs n = Inr (res_mode r, result_reason r, canon_fields ?arts)"
    using assms(1) ready(1) by (intro read_marker_written marker_mode_recoverable) simp_all
  moreover have "entry_matches env ?fs (canon_fields ?arts) n (res_mode r) a" for a
    using marker_entry_matches [OF assms(2), of fs n a "res_mode r"] ready(2)
      entry_matches_cong [of ?fs n a fs env] by simp
  ultimately have "verify_epoch_completion env ?fs n = Inr ?c" by (auto simp: verify_parts)
  then show ?thesis by (auto simp: write_epoch_completion_marker_def marker Let_def)
qed

lemma verify_required_files:
  "verify_epoch_completion env fs n = Inr c \<Longrightarrow> is_file fs (canonical_path n a) = required_for (cmp_mode c) a"
proof -
  assume "verify_epoch_completion env fs n = Inr c"
  then obtain artifacts where "entry_matches env fs artifacts n (cmp_mode c) a" by (auto simp: verify_parts)
  then show ?thesis by (auto simp: entry_matches_def is_file_def split: if_splits option.splits json.splits)
qed

lemma verify_tampered:
  assumes "verify_epoch_completion env fs n = Inr c" "fs (canonical_path n a) = Some b"
    and "sha256 env b' \<noteq> sha256 env b"
  shows "\<not> is_ok (verify_epoch_completion env (fs(canonical_path n a \<mapsto> b')) n)"
proof
  let ?fs = "fs(canonical_path n a \<mapsto> b')"
  assume "is_ok (verify_epoch_completion env ?fs n)"
  then obtain c' where v': "verify_epoch_completion env ?fs n = Inr c'" by (auto simp: is_ok_iff)
  have "load_json_object env ?fs (completion_marker_path n) = load_json_object env fs (completion_marker_path n)"
    by (rule load_cong) simp
  then have same: "read_marker env ?fs n = read_marker env fs n" by (simp only: read_marker_def)
  from assms(1) obtain artifacts where m: "read_marker env fs n = Inr (cmp_mode c, cmp_reason c, artifacts)"
    and e: "entry_matches env fs artifacts n (cmp_mode c) a" by (auto simp: verify_parts)
  from v' same m have e': "entry_matches env ?fs artifacts n (cmp_mode c) a" by (auto simp: verify_parts)
  from e assms(2) have "required_for (cmp_mode c) a" by (simp add: entry_matches_def split: if_splits)
  with e e' assms(2,3) show False by (auto simp: entry_matches_def split: json.splits)
qed

section \<open>Properties\<close>

definition sample_archive :: "json disk" where
  "sample_archive =
     write_json plain_env (miner_state_snapshot_path 1) (JObj [(''hk'', JFloat (Fin 1))])
     (write_json plain_env (weights_path 1)
       (JObj [(''epoch_id'', JInt 1),
              (''weight_result'', JObj [(''mode'', JStr ''fallback''), (''receipt'', JNull), (''reason'', JStr ''offline'')])])
     (write_json plain_env (solver_panel_path 1) (JObj [(''epoch_id'', JInt 1)]) (\<lambda>_. None)))"

definition sample_result :: chain_weight_result where
  "sample_result = \<lparr>res_mode = ''fallback'', res_receipt = None, res_reason = Some ''offline''\<rparr>"

definition sample_committed :: "json disk" where
  "sample_committed = snd (write_epoch_completion_marker plain_env 1 sample_result sample_archive)"

lemma sample_ready: "artifacts_ready plain_env sample_archive 1 sample_result"
  by code_simp

lemma sample_verifies: "is_ok (verify_epoch_completion plain_env sample_committed 1)"
  by code_simp

text \<open>Publishing the completion marker of an epoch whose artifacts are on disk, agree with the
  chain result and are exactly the required ones succeeds; the marker then verifies with the
  result's mode and reason, and no other file changes.\<close>

lemma publication_succeeds:
  assumes "json_codec env" "hex_digest env" "artifacts_ready env fs n r"
  shows "\<exists>fs' c. write_epoch_completion_marker env n r fs = (Inr (completion_marker_path n), fs')
     \<and> verify_epoch_completion env fs' n = Inr c \<and> cmp_mode c = res_mode r \<and> cmp_reason c = result_reason r
     \<and> (\<forall>p. p \<noteq> completion_marker_path n \<longrightarrow> fs' p = fs p)"
  using assms by (rule publish_verifies)

lemma publication_succeeds_instance:
  "\<exists>fs' c. write_epoch_completion_marker plain_env 1 sample_result sample_archive = (Inr (completion_marker_path 1), fs')
     \<and> verify_epoch_completion plain_env fs' 1 = Inr c \<and> cmp_mode c = ''fallback''"
  using publication_succeeds [OF plain_env_codec plain_env_digest sample_ready]
  by (auto simp: sample_result_def)

text \<open>C36: an epoch that verifies has a recoverable mode and a file for exactly the artifacts its mode
  requires; its receipt summary repeats the mode and the reason, and a submitted epoch has a live
  attempt on disk whose status is completed.\<close>

theorem verification_sound:
  assumes "verify_epoch_completion env fs n = Inr c"
  shows "cmp_mode c \<in> set recoverable_chain_modes
    \<and> (\<forall>a. is_file fs (canonical_path n a) = required_for (cmp_mode c) a)
    \<and> jget (cmp_receipt c) ''mode'' = JStr (cmp_mode c) \<and> jget (cmp_receipt c) ''reason'' = JStr (cmp_reason c)
    \<and> (cmp_mode c = ''submitted'' \<longrightarrow> (\<exists>att. load_json_object env fs (chain_attempt_path n) = Inr att
         \<and> jget att ''status'' = JStr ''completed''))"
  using assms verify_mode verify_required_files verify_receipt_mode verify_attempt by blast

theorem verification_sound_witness:
  "\<exists>c. verify_epoch_completion plain_env sample_committed 1 = Inr c
    \<and> cmp_mode c \<in> set recoverable_chain_modes
    \<and> (\<forall>a. is_file sample_committed (canonical_path 1 a) = required_for (cmp_mode c) a)"
proof -
  obtain c where c: "verify_epoch_completion plain_env sample_committed 1 = Inr c"
    using sample_verifies by (auto simp: is_ok_iff)
  from verification_sound [OF c] c show ?thesis by blast
qed

text \<open>C37: replacing a committed artifact by content with another SHA-256 makes verification fail.\<close>

theorem tampering_detected:
  assumes "verify_epoch_completion env fs n = Inr c" "fs (canonical_path n a) = Some b"
    and "sha256 env b' \<noteq> sha256 env b"
  shows "\<not> is_ok (verify_epoch_completion env (fs(canonical_path n a \<mapsto> b')) n)"
  using assms by (rule verify_tampered)

lemma sample_weights_content:
  "map_option (\<lambda>b. sha256 plain_env JNull \<noteq> sha256 plain_env b) (sample_committed (canonical_path 1 Weights)) = Some True"
  by code_simp

theorem tampering_detected_witness:
  "\<not> is_ok (verify_epoch_completion plain_env (sample_committed(canonical_path 1 Weights \<mapsto> JNull)) 1)"
proof -
  obtain c where c: "verify_epoch_completion plain_env sample_committed 1 = Inr c"
    using sample_verifies by (auto simp: is_ok_iff)
  obtain b where b: "sample_committed (canonical_path 1 Weights) = Some b" "sha256 plain_env JNull \<noteq> sha256 plain_env b"
    using sample_weights_content by auto
  show ?thesis by (rule tampering_detected [OF c b])
qed

end
