(* ===== verification/Validator_State.thy ===== *)
theory Validator_State
  imports Completion
begin

text \<open>
  \<open>src/dolores_subnet/validator_state.py\<close>: the durable state of the recurring validator, its
  phase machine, and what a restarted process may do with what a crashed one left behind.  The
  store's directory is \<open>validator_runtime\<close> in the archive, as \<open>validator_cli.py\<close>
  creates it.  Timestamps are arguments.  Bytes that do not decode are folded into unreadable
  documents.
\<close>

section \<open>State and phases\<close>

datatype phase = Allocated | Querying | Evaluating | Weights_submitting | Committed

fun phase_name :: "phase \<Rightarrow> string" where
  "phase_name Allocated = ''allocated''"
| "phase_name Querying = ''querying''"
| "phase_name Evaluating = ''evaluating''"
| "phase_name Weights_submitting = ''weights_submitting''"
| "phase_name Committed = ''committed''"

definition phases :: "phase list" where
  "phases = [Allocated, Querying, Evaluating, Weights_submitting, Committed]"

definition phase_of_name :: "string \<Rightarrow> phase option" where
  "phase_of_name s = List.find (\<lambda>p. phase_name p = s) phases"

record validator_state =
  version :: int
  next_epoch_id :: int
  active_epoch_id :: "int option"
  phase_of :: "phase option"
  attempt :: int
  last_completed_epoch :: "int option"
  last_failed_epoch :: "int option"
  last_error :: "string option"
  last_receipt :: "jdict option"
  last_successful_weight_receipt :: "jdict option"
  updated_at :: string

definition state_version :: int where
  "state_version = 1"

definition initial_state :: validator_state where
  "initial_state =
     \<lparr>version = state_version, next_epoch_id = 1, active_epoch_id = None, phase_of = None, attempt = 0,
      last_completed_epoch = None, last_failed_epoch = None, last_error = None, last_receipt = None,
      last_successful_weight_receipt = None, updated_at = []\<rparr>"

definition to_dict :: "validator_state \<Rightarrow> json" where
  "to_dict s = JObj
     [(''version'', JInt (version s)), (''next_epoch_id'', JInt (next_epoch_id s)),
      (''active_epoch_id'', opt_int (active_epoch_id s)),
      (''phase'', opt_str (map_option phase_name (phase_of s))), (''attempt'', JInt (attempt s)),
      (''last_completed_epoch'', opt_int (last_completed_epoch s)),
      (''last_failed_epoch'', opt_int (last_failed_epoch s)), (''last_error'', opt_str (last_error s)),
      (''last_receipt'', opt_obj (last_receipt s)),
      (''last_successful_weight_receipt'', opt_obj (last_successful_weight_receipt s)),
      (''updated_at'', JStr (updated_at s))]"

section \<open>Errors\<close>

datatype corruption =
    Version_unsupported
  | Next_epoch_not_positive
  | Attempt_negative
  | Active_without_phase
  | Active_not_below_next
  | Active_attempt_not_positive
  | Committed_not_completed
  | Fields_invalid
  | State_unreadable
  | State_not_object
  | Attempt_unreadable load_error
  | Receipt_unreadable load_error
  | Attempt_invalid
  | Attempt_status_unknown
  | Receipt_epoch_differs
  | Completion_invalid completion_error

datatype ambiguity =
    Live_attempt_open
  | Receipt_without_marker
  | No_marker
  | Submission_interrupted
  | Attempt_blocks_failure

datatype validator_error =
    Corrupt corruption
  | Ambiguous ambiguity
  | Receipt_recovery_required
  | Nothing_to_recover
  | Not_active
  | Invalid_transition phase phase
  | Not_evaluating
  | Not_submitting
  | Receipt_needs_commit
  | Receipt_mismatch
  | Not_in_tick
  | Tick_not_started
  | Unknown_phase
  | Unhashable_value
  | Infinite_integer
  | Active_epoch_missing
  | Lock_unavailable
  | Lock_already_held

section \<open>Validation and parsing\<close>

definition validate :: "validator_state \<Rightarrow> corruption + unit" where
  "validate s =
     (if version s \<noteq> state_version then Inl Version_unsupported
      else if next_epoch_id s < 1 then Inl Next_epoch_not_positive
      else if attempt s < 0 then Inl Attempt_negative
      else if (active_epoch_id s = None) \<noteq> (phase_of s = None) then Inl Active_without_phase
      else
        bind_result
          (case active_epoch_id s of
             None \<Rightarrow> Inr ()
           | Some n \<Rightarrow>
               if n < 1 \<or> next_epoch_id s \<le> n then Inl Active_not_below_next
               else if attempt s < 1 then Inl Active_attempt_not_positive
               else Inr ())
          (\<lambda>_. if phase_of s = Some Committed \<and> last_completed_epoch s \<noteq> active_epoch_id s
               then Inl Committed_not_completed else Inr ()))"

fun int_field :: "json \<Rightarrow> validator_error + int" where
  "int_field v =
     (case py_int v of
        Inr i \<Rightarrow> Inr i
      | Inl Infinite_value \<Rightarrow> Inl Infinite_integer
      | Inl _ \<Rightarrow> Inl (Corrupt Fields_invalid))"

definition optional_int :: "json \<Rightarrow> validator_error + int option" where
  "optional_int v = (if v = JNull then Inr None else bind_result (int_field v) (\<lambda>i. Inr (Some i)))"

definition optional_string :: "'b env \<Rightarrow> json \<Rightarrow> string option" where
  "optional_string env v = (if v = JNull then None else Some (text_of_json env v))"

fun optional_dict :: "json \<Rightarrow> validator_error + jdict option" where
  "optional_dict JNull = Inr None"
| "optional_dict (JObj d) = Inr (Some d)"
| "optional_dict _ = Inl (Corrupt Fields_invalid)"

text \<open>Only text can be the name of a phase: no other value renders as one.\<close>

fun optional_phase :: "json \<Rightarrow> validator_error + phase option" where
  "optional_phase JNull = Inr None"
| "optional_phase (JStr s) =
     (case phase_of_name s of None \<Rightarrow> Inl (Corrupt Fields_invalid) | Some p \<Rightarrow> Inr (Some p))"
| "optional_phase _ = Inl (Corrupt Fields_invalid)"

definition from_dict :: "'b env \<Rightarrow> jdict \<Rightarrow> validator_error + validator_state" where
  "from_dict env d =
     bind_result (int_field (jget_or d ''version'' (JInt 0))) (\<lambda>ver.
     bind_result (int_field (jget_or d ''next_epoch_id'' (JInt 0))) (\<lambda>nxt.
     bind_result (optional_int (jget d ''active_epoch_id'')) (\<lambda>act.
     bind_result (optional_phase (jget d ''phase'')) (\<lambda>ph.
     bind_result (int_field (jget_or d ''attempt'' (JInt 0))) (\<lambda>att.
     bind_result (optional_int (jget d ''last_completed_epoch'')) (\<lambda>lc.
     bind_result (optional_int (jget d ''last_failed_epoch'')) (\<lambda>lf.
     bind_result (optional_dict (jget d ''last_receipt'')) (\<lambda>lr.
     bind_result (optional_dict (jget d ''last_successful_weight_receipt'')) (\<lambda>ls.
     let s = \<lparr>version = ver, next_epoch_id = nxt, active_epoch_id = act, phase_of = ph, attempt = att,
        last_completed_epoch = lc, last_failed_epoch = lf,
        last_error = optional_string env (jget d ''last_error''), last_receipt = lr,
        last_successful_weight_receipt = ls,
        updated_at = text_of_json env (jget_or d ''updated_at'' (JStr []))\<rparr>
     in bind_result (map_error Corrupt (validate s)) (\<lambda>_. Inr s))))))))))"

section \<open>The store\<close>

definition state_path :: string where
  "state_path = ''validator_runtime/state.json''"

definition read_state :: "'b env \<Rightarrow> 'b disk \<Rightarrow> validator_error + validator_state" where
  "read_state env fs =
     (case fs state_path of
        None \<Rightarrow> Inr initial_state
      | Some b \<Rightarrow>
          (case loads env b of
             None \<Rightarrow> Inl (Corrupt State_unreadable)
           | Some (JObj d) \<Rightarrow> from_dict env d
           | Some _ \<Rightarrow> Inl (Corrupt State_not_object)))"

definition read_op :: "'b env \<Rightarrow> ('b disk, validator_error, validator_state) op" where
  "read_op env = bind_op get_op (\<lambda>fs. lift_op (read_state env fs))"

definition write_state :: "'b env \<Rightarrow> validator_state \<Rightarrow> ('b disk, validator_error, validator_state) op" where
  "write_state env s =
     bind_op (lift_op (map_error Corrupt (validate s))) (\<lambda>_.
     bind_op (modify_op (write_json env state_path (to_dict s))) (\<lambda>_. return_op s))"

definition raise_if_ambiguous_attempt :: "'b env \<Rightarrow> 'b disk \<Rightarrow> int \<Rightarrow> validator_error + unit" where
  "raise_if_ambiguous_attempt env fs n =
     (if \<not> is_file fs (chain_attempt_path n) then Inr ()
      else
        bind_result (map_error (\<lambda>e. Corrupt (Attempt_unreadable e)) (load_json_object env fs (chain_attempt_path n)))
        (\<lambda>att.
          if \<not> py_eq (jget att ''epoch_id'') (JInt n) \<or> jget att ''mode'' \<noteq> JStr ''live_attempt''
          then Inl (Corrupt Attempt_invalid)
          else if \<not> hashable (jget att ''status'') then Inl Unhashable_value
          else if jget att ''status'' \<notin> JStr ` set [''started'', ''ambiguous'', ''completed'']
          then Inl (Corrupt Attempt_status_unknown)
          else if jget att ''status'' \<noteq> JStr ''completed'' then Inl (Ambiguous Live_attempt_open)
          else Inr ()))"

definition receipt_succeeded :: "jdict \<Rightarrow> bool" where
  "receipt_succeeded r = (jget r ''mode'' \<in> JStr ` set [''dry_run'', ''submitted''])"

definition committed_state :: "'b env \<Rightarrow> string \<Rightarrow> validator_state \<Rightarrow> int \<Rightarrow> completion \<Rightarrow> validator_state" where
  "committed_state env now s n c =
     (let canonical_receipt =
            dict_set (cmp_receipt c) ''completion_marker'' (JStr (full_path env (completion_marker_path n)))
      in s\<lparr>phase_of := Some Committed, last_completed_epoch := Some n, last_error := None,
           last_receipt := Some canonical_receipt,
           last_successful_weight_receipt :=
             (if receipt_succeeded canonical_receipt then Some canonical_receipt
              else last_successful_weight_receipt s),
           updated_at := now\<rparr>)"

definition commit_from_completion ::
  "'b env \<Rightarrow> string \<Rightarrow> validator_state \<Rightarrow> int \<Rightarrow> ('b disk, validator_error, validator_state) op" where
  "commit_from_completion env now s n =
     bind_op get_op (\<lambda>fs.
     bind_op (lift_op (raise_if_ambiguous_attempt env fs n)) (\<lambda>_.
     bind_op (guard_op (is_file fs (completion_marker_path n)) (Ambiguous No_marker)) (\<lambda>_.
     bind_op (lift_op (map_error
         (\<lambda>e. if e = Mode_unhashable then Unhashable_value else Corrupt (Completion_invalid e))
         (verify_epoch_completion env fs n))) (\<lambda>completed.
     bind_op (modify_op (write_json env miner_state_path (JObj (cmp_miner_state completed)))) (\<lambda>_.
     return_op (committed_state env now s n completed))))))"

definition failed_state :: "string \<Rightarrow> string \<Rightarrow> int \<Rightarrow> validator_state \<Rightarrow> validator_state" where
  "failed_state now error n s =
     s\<lparr>active_epoch_id := None, phase_of := None, attempt := 0, last_failed_epoch := Some n,
       last_error := Some error, updated_at := now\<rparr>"

section \<open>Operations under the lock\<close>

definition recover_receipt :: "'b env \<Rightarrow> string \<Rightarrow> ('b disk, validator_error, validator_state) op" where
  "recover_receipt env now =
     bind_op (read_op env) (\<lambda>s.
     (case (phase_of s, active_epoch_id s) of
        (Some Weights_submitting, Some n) \<Rightarrow>
          bind_op get_op (\<lambda>fs.
          bind_op (lift_op (raise_if_ambiguous_attempt env fs n)) (\<lambda>_.
          bind_op
            (if is_file fs (completion_marker_path n) then return_op ()
             else if is_file fs (chain_receipt_path n) then fail_op (Ambiguous Receipt_without_marker)
             else fail_op (Ambiguous No_marker)) (\<lambda>_.
          bind_op (commit_from_completion env now s n) (write_state env))))
      | _ \<Rightarrow> fail_op Nothing_to_recover))"

text \<open>A tick that finds an interrupted submission: only a receipt that proves that nothing was signed lets it go on.\<close>

definition abandoned_error :: "string \<Rightarrow> string" where
  "abandoned_error receipt_mode = ''interrupted_after_'' @ receipt_mode @ ''_receipt_before_completion''"

fun text_of :: "json \<Rightarrow> string" where
  "text_of (JStr s) = s"
| "text_of _ = []"

definition resolve_interrupted ::
  "'b env \<Rightarrow> string \<Rightarrow> validator_state \<Rightarrow> int \<Rightarrow> ('b disk, validator_error, validator_state) op" where
  "resolve_interrupted env now s n =
     bind_op get_op (\<lambda>fs.
     bind_op (lift_op (raise_if_ambiguous_attempt env fs n)) (\<lambda>_.
     if is_file fs (completion_marker_path n) then fail_op Receipt_recovery_required
     else if is_file fs (chain_receipt_path n) then
       bind_op (lift_op (map_error (\<lambda>e. Corrupt (Receipt_unreadable e))
           (load_json_object env fs (chain_receipt_path n)))) (\<lambda>receipt.
       bind_op (guard_op (py_eq (jget receipt ''epoch_id'') (JInt n)) (Corrupt Receipt_epoch_differs)) (\<lambda>_.
       bind_op (guard_op (hashable (jget receipt ''mode'')) Unhashable_value) (\<lambda>_.
       if jget receipt ''mode'' \<notin> JStr ` set [''dry_run'', ''skipped'', ''error'']
       then fail_op (Ambiguous Receipt_without_marker)
       else write_state env (failed_state now (abandoned_error (text_of (jget receipt ''mode''))) n s))))
     else fail_op (Ambiguous Submission_interrupted)))"

definition allocate_epoch :: "'b env \<Rightarrow> string \<Rightarrow> validator_state \<Rightarrow> ('b disk, validator_error, validator_state \<times> int) op" where
  "allocate_epoch env now s =
     (let n = next_epoch_id s in
      bind_op (write_state env
          (s\<lparr>next_epoch_id := n + 1, active_epoch_id := Some n, phase_of := Some Allocated,
             attempt := 1, updated_at := now\<rparr>)) (\<lambda>allocated.
      return_op (allocated, n)))"

definition begin_locked :: "'b env \<Rightarrow> string \<Rightarrow> ('b disk, validator_error, validator_state \<times> int) op" where
  "begin_locked env now =
     bind_op (read_op env) (\<lambda>s0.
     bind_op
       (if phase_of s0 = Some Weights_submitting then
          (case active_epoch_id s0 of
             None \<Rightarrow> fail_op Active_epoch_missing
           | Some n \<Rightarrow> resolve_interrupted env now s0 n)
        else return_op s0) (\<lambda>s.
     if phase_of s \<in> set [Some Allocated, Some Querying] then
       bind_op (write_state env (s\<lparr>phase_of := Some Allocated, attempt := attempt s + 1, updated_at := now\<rparr>))
         (\<lambda>retried.
       (case active_epoch_id retried of
          None \<Rightarrow> fail_op Active_epoch_missing
        | Some n \<Rightarrow> return_op (retried, n)))
     else
       allocate_epoch env now
         (if phase_of s = Some Evaluating
          then s\<lparr>active_epoch_id := None, phase_of := None, attempt := 0, last_failed_epoch := active_epoch_id s,
                 last_error := Some ''interrupted_during_evaluation'', updated_at := now\<rparr>
          else s)))"

fun allowed_next :: "phase \<Rightarrow> phase list" where
  "allowed_next Allocated = [Querying, Evaluating]"
| "allowed_next Querying = [Evaluating]"
| "allowed_next Evaluating = [Weights_submitting]"
| "allowed_next Weights_submitting = [Committed]"
| "allowed_next Committed = []"

definition transition_locked ::
  "'b env \<Rightarrow> string \<Rightarrow> int \<Rightarrow> phase \<Rightarrow> ('b disk, validator_error, validator_state) op" where
  "transition_locked env now n ph =
     bind_op (read_op env) (\<lambda>s.
     (case phase_of s of
        None \<Rightarrow> fail_op Not_active
      | Some cur \<Rightarrow>
          if active_epoch_id s \<noteq> Some n then fail_op Not_active
          else if ph = cur then return_op s
          else if ph \<notin> set (allowed_next cur) then fail_op (Invalid_transition cur ph)
          else if ph = Committed then
            bind_op (commit_from_completion env now s n) (write_state env)
          else write_state env (s\<lparr>phase_of := Some ph, updated_at := now\<rparr>)))"

definition fail_evaluation_locked ::
  "'b env \<Rightarrow> string \<Rightarrow> int \<Rightarrow> string \<Rightarrow> ('b disk, validator_error, validator_state) op" where
  "fail_evaluation_locked env now n error =
     bind_op (read_op env) (\<lambda>s.
     if active_epoch_id s \<noteq> Some n \<or> phase_of s \<noteq> Some Evaluating then fail_op Not_evaluating
     else write_state env (failed_state now error n s))"

definition fail_weights_locked ::
  "'b env \<Rightarrow> string \<Rightarrow> int \<Rightarrow> string \<Rightarrow> ('b disk, validator_error, validator_state) op" where
  "fail_weights_locked env now n error =
     bind_op (read_op env) (\<lambda>s.
     if active_epoch_id s \<noteq> Some n \<or> phase_of s \<noteq> Some Weights_submitting then fail_op Not_submitting
     else
       bind_op get_op (\<lambda>fs.
       if is_file fs (chain_attempt_path n) then fail_op (Ambiguous Attempt_blocks_failure)
       else write_state env (failed_state now error n s)))"

definition record_receipt_locked ::
  "'b env \<Rightarrow> int \<Rightarrow> jdict \<Rightarrow> ('b disk, validator_error, validator_state) op" where
  "record_receipt_locked env n receipt =
     bind_op (read_op env) (\<lambda>s.
     if active_epoch_id s \<noteq> Some n \<or> phase_of s \<noteq> Some Committed \<or> last_completed_epoch s \<noteq> Some n
     then fail_op Receipt_needs_commit
     else
       (let expected = (case last_receipt s of None \<Rightarrow> [] | Some r \<Rightarrow> r) in
        if \<not> py_eq (jget receipt ''mode'') (jget expected ''mode'')
           \<or> \<not> py_eq (jget receipt ''reason'') (jget expected ''reason'')
        then fail_op Receipt_mismatch
        else return_op s))"

section \<open>The tick\<close>

text \<open>
  One process's use of the store.  \<open>lock_owner\<close> is the operating system's lock on
  \<open>tick.lock\<close>; the lock file's content (the owner's process number) is never read and is
  not kept.
\<close>

record 'b runtime =
  disk :: "'b disk"
  lock_owner :: "nat option"

record tick =
  tick_pid :: nat
  tick_held :: bool
  tick_epoch :: "int option"
  tick_entered :: bool

definition new_tick :: "nat \<Rightarrow> tick" where
  "new_tick pid = \<lparr>tick_pid = pid, tick_held = False, tick_epoch = None, tick_entered = False\<rparr>"

definition lock_acquire :: "tick \<Rightarrow> 'b runtime \<Rightarrow> (validator_error + tick) \<times> 'b runtime" where
  "lock_acquire t w =
     (if tick_held t then (Inl Lock_already_held, w)
      else if lock_owner w \<noteq> None then (Inl Lock_unavailable, w)
      else (Inr (t\<lparr>tick_held := True\<rparr>), w\<lparr>lock_owner := Some (tick_pid t)\<rparr>))"

definition lock_release :: "tick \<Rightarrow> 'b runtime \<Rightarrow> tick \<times> 'b runtime" where
  "lock_release t w =
     (if tick_held t then (t\<lparr>tick_held := False\<rparr>, w\<lparr>lock_owner := None\<rparr>) else (t, w))"

definition on_disk :: "('b disk, 'e, 'a) op \<Rightarrow> ('b runtime, 'e, 'a) op" where
  "on_disk m w = (case m (disk w) of (r, fs) \<Rightarrow> (r, w\<lparr>disk := fs\<rparr>))"

definition tick_enter :: "'b env \<Rightarrow> string \<Rightarrow> tick \<Rightarrow> 'b runtime \<Rightarrow> (validator_error + tick) \<times> 'b runtime" where
  "tick_enter env now t w =
     (case lock_acquire t w of
        (Inl e, w1) \<Rightarrow> (Inl e, w1)
      | (Inr t1, w1) \<Rightarrow>
          (case on_disk (begin_locked env now) w1 of
             (Inl e, w2) \<Rightarrow> (Inl e, snd (lock_release t1 w2))
           | (Inr (s, n), w2) \<Rightarrow> (Inr (t1\<lparr>tick_epoch := Some n, tick_entered := True\<rparr>), w2)))"

text \<open>
  \<open>__exit__\<close> with the text of the exception in flight, if any.  An error while it records the
  failure is raised after the lock is released.
\<close>

definition tick_exit ::
  "'b env \<Rightarrow> string \<Rightarrow> string option \<Rightarrow> tick \<Rightarrow> 'b runtime \<Rightarrow> (validator_error + tick) \<times> 'b runtime" where
  "tick_exit env now exc t w =
     (let record_failure =
        (case tick_epoch t of
           Some n \<Rightarrow>
             if tick_entered t then
               bind_op (read_op env) (\<lambda>s.
               if active_epoch_id s = Some n \<and> phase_of s = Some Evaluating then
                 bind_op (fail_evaluation_locked env now n
                     (case exc of None \<Rightarrow> ''evaluation_exited_without_result'' | Some detail \<Rightarrow> detail))
                   (\<lambda>_. return_op ())
               else return_op ())
             else return_op ()
         | None \<Rightarrow> return_op ())
      in (case on_disk record_failure w of
            (r, w1) \<Rightarrow>
              (case lock_release (t\<lparr>tick_entered := False\<rparr>) w1 of
                 (t2, w2) \<Rightarrow> (case r of Inl e \<Rightarrow> (Inl e, w2) | Inr _ \<Rightarrow> (Inr t2, w2)))))"

text \<open>Operations of a tick require that it is entered and holds the lock.\<close>

definition in_tick :: "tick \<Rightarrow> (int \<Rightarrow> ('b disk, validator_error, 'a) op) \<Rightarrow> ('b disk, validator_error, 'a) op" where
  "in_tick t f =
     (case tick_epoch t of
        Some n \<Rightarrow> if tick_entered t \<and> tick_held t then f n else fail_op Not_in_tick
      | None \<Rightarrow> fail_op Not_in_tick)"

definition tick_state :: "'b env \<Rightarrow> tick \<Rightarrow> ('b disk, validator_error, validator_state) op" where
  "tick_state env t = (if tick_epoch t = None then fail_op Tick_not_started else read_op env)"

definition tick_transition :: "'b env \<Rightarrow> string \<Rightarrow> tick \<Rightarrow> phase \<Rightarrow> ('b disk, validator_error, validator_state) op" where
  "tick_transition env now t ph = in_tick t (\<lambda>n. transition_locked env now n ph)"

definition mark_querying :: "'b env \<Rightarrow> string \<Rightarrow> tick \<Rightarrow> ('b disk, validator_error, validator_state) op" where
  "mark_querying env now t = tick_transition env now t Querying"

definition phase_hook :: "'b env \<Rightarrow> string \<Rightarrow> tick \<Rightarrow> string \<Rightarrow> ('b disk, validator_error, unit) op" where
  "phase_hook env now t name =
     (case phase_of_name name of
        Some ph \<Rightarrow>
          if ph \<in> set [Evaluating, Weights_submitting, Committed]
          then bind_op (tick_transition env now t ph) (\<lambda>_. return_op ())
          else fail_op Unknown_phase
      | None \<Rightarrow> fail_op Unknown_phase)"

definition fail_evaluation :: "'b env \<Rightarrow> string \<Rightarrow> tick \<Rightarrow> string \<Rightarrow> ('b disk, validator_error, validator_state) op" where
  "fail_evaluation env now t error = in_tick t (\<lambda>n. fail_evaluation_locked env now n error)"

definition fail_weights :: "'b env \<Rightarrow> string \<Rightarrow> tick \<Rightarrow> string \<Rightarrow> ('b disk, validator_error, validator_state) op" where
  "fail_weights env now t error = in_tick t (\<lambda>n. fail_weights_locked env now n error)"

definition record_receipt :: "'b env \<Rightarrow> tick \<Rightarrow> jdict \<Rightarrow> ('b disk, validator_error, validator_state) op" where
  "record_receipt env t receipt = in_tick t (\<lambda>n. record_receipt_locked env n receipt)"

section \<open>Reading back what was written\<close>

lemma phase_of_name_name [simp]: "phase_of_name (phase_name p) = Some p"
  by (cases p) (simp_all add: phase_of_name_def phases_def)

definition canon_state :: "validator_state \<Rightarrow> validator_state" where
  "canon_state s =
     s\<lparr>last_receipt := map_option canon_fields (last_receipt s),
       last_successful_weight_receipt := map_option canon_fields (last_successful_weight_receipt s)\<rparr>"

lemma canon_state_fields [simp]:
  "version (canon_state s) = version s" "next_epoch_id (canon_state s) = next_epoch_id s"
  "active_epoch_id (canon_state s) = active_epoch_id s" "phase_of (canon_state s) = phase_of s"
  "attempt (canon_state s) = attempt s" "last_completed_epoch (canon_state s) = last_completed_epoch s"
  "last_failed_epoch (canon_state s) = last_failed_epoch s" "last_error (canon_state s) = last_error s"
  "updated_at (canon_state s) = updated_at s"
  "last_receipt (canon_state s) = map_option canon_fields (last_receipt s)"
  "last_successful_weight_receipt (canon_state s) = map_option canon_fields (last_successful_weight_receipt s)"
  by (simp_all add: canon_state_def)

lemma validate_canon [simp]: "validate (canon_state s) = validate s"
  unfolding validate_def canon_state_fields ..

lemma jget_or_canon: "jget_or (canon_fields d) k v = (case map_of d k of None \<Rightarrow> v | Some w \<Rightarrow> canon_json w)"
  by (simp add: jget_or_def dict_get_default_def split: option.split)

lemma optional_int_opt [simp]: "optional_int (opt_int x) = Inr x"
  by (cases x) (simp_all add: optional_int_def)

lemma optional_string_opt [simp]: "optional_string env (opt_str x) = x"
  by (cases x) (simp_all add: optional_string_def text_of_json_def)

lemma optional_dict_opt [simp]: "optional_dict (opt_obj x) = Inr x"
  by (cases x) simp_all

lemma optional_phase_opt [simp]: "optional_phase (opt_str (map_option phase_name x)) = Inr x"
  by (cases x) simp_all

lemma from_dict_to_dict:
  "from_dict env (canon_fields (obj_of (to_dict s))) =
     (case validate s of Inl e \<Rightarrow> Inl (Corrupt e) | Inr _ \<Rightarrow> Inr (canon_state s))"
proof -
  have "canon_state s = \<lparr>version = version s, next_epoch_id = next_epoch_id s, active_epoch_id = active_epoch_id s,
      phase_of = phase_of s, attempt = attempt s, last_completed_epoch = last_completed_epoch s,
      last_failed_epoch = last_failed_epoch s, last_error = last_error s,
      last_receipt = map_option canon_fields (last_receipt s),
      last_successful_weight_receipt = map_option canon_fields (last_successful_weight_receipt s),
      updated_at = updated_at s\<rparr>"
    by simp
  with validate_canon [of s] show ?thesis
    by (simp add: from_dict_def to_dict_def jget_or_canon text_of_json_def Let_def split: sum.split)
qed

lemma read_written:
  assumes "json_codec env" "validate s = Inr ()" "fs state_path = Some (dumps env (to_dict s))"
  shows "read_state env fs = Inr (canon_state s)"
  using assms from_dict_to_dict [of env s]
  by (simp add: read_state_def loads_dumps to_dict_def)

lemma from_dict_valid: "from_dict env d = Inr s \<Longrightarrow> validate s = Inr ()"
  by (auto simp: from_dict_def Let_def)

lemma validate_initial [simp]: "validate initial_state = Inr ()"
  by (simp add: validate_def initial_state_def state_version_def)

lemma read_valid: "read_state env fs = Inr s \<Longrightarrow> validate s = Inr ()"
  by (auto simp: read_state_def from_dict_valid split: option.splits json.splits)

lemma validate_iff:
  "validate s = Inr () \<longleftrightarrow>
     version s = state_version \<and> 1 \<le> next_epoch_id s \<and> 0 \<le> attempt s
     \<and> (active_epoch_id s = None \<longleftrightarrow> phase_of s = None)
     \<and> (\<forall>n. active_epoch_id s = Some n \<longrightarrow> 1 \<le> n \<and> n < next_epoch_id s \<and> 1 \<le> attempt s)
     \<and> (phase_of s = Some Committed \<longrightarrow> last_completed_epoch s = active_epoch_id s)"
  by (auto simp: validate_def split: option.splits if_splits)

lemma validate_unit: "validate s = Inr u \<longleftrightarrow> validate s = Inr ()"
  by (cases u) simp

section \<open>Single operations\<close>

lemma read_op_iff: "read_op env fs = (r, fs') \<longleftrightarrow> r = read_state env fs \<and> fs' = fs"
  by (auto simp: read_op_def op_plumbing)

lemma write_state_Inr:
  "write_state env s fs = (Inr s', fs') \<longleftrightarrow>
     validate s = Inr () \<and> s' = s \<and> fs' = write_json env state_path (to_dict s) fs"
  by (auto simp: write_state_def bind_lift_Inr)

lemma write_state_Inl:
  "write_state env s fs = (Inl e, fs') \<Longrightarrow> fs' = fs"
  by (auto simp: write_state_def op_plumbing split: sum.splits)

lemma state_path_differs [simp]:
  "completion_marker_path n \<noteq> state_path" "state_path \<noteq> completion_marker_path n"
  "canonical_path n a \<noteq> state_path" "state_path \<noteq> canonical_path n a"
  "chain_attempt_path n \<noteq> state_path" "state_path \<noteq> chain_attempt_path n"
  "chain_receipt_path n \<noteq> state_path" "state_path \<noteq> chain_receipt_path n"
  "miner_state_path \<noteq> state_path" "state_path \<noteq> miner_state_path"
  by (cases a; simp add: state_path_def path_defs)+

lemma bind_read_Inr:
  "bind_op (read_op env) f fs = (Inr x, fs') \<longleftrightarrow> (\<exists>s. read_state env fs = Inr s \<and> f s fs = (Inr x, fs'))"
  by (simp add: bind_op_Inr read_op_iff) metis

lemma bind_write_Inr:
  "bind_op (write_state env a) f fs = (Inr x, fs') \<longleftrightarrow>
     validate a = Inr () \<and> f a (write_json env state_path (to_dict a) fs) = (Inr x, fs')"
  by (auto simp: bind_op_Inr write_state_Inr)

lemmas op_success = bind_read_Inr bind_lift_Inr bind_guard_Inr bind_write_Inr write_state_Inr

lemma commit_Inr:
  "commit_from_completion env now s n fs = (Inr s', fs') \<longleftrightarrow>
     raise_if_ambiguous_attempt env fs n = Inr () \<and> is_file fs (completion_marker_path n)
     \<and> (\<exists>c. verify_epoch_completion env fs n = Inr c \<and> s' = committed_state env now s n c
          \<and> fs' = write_json env miner_state_path (JObj (cmp_miner_state c)) fs)"
  by (auto simp: commit_from_completion_def bind_lift_Inr bind_guard_Inr)

lemma transition_Inr:
  "transition_locked env now n ph fs = (Inr s', fs') \<longleftrightarrow>
     (\<exists>s cur. read_state env fs = Inr s \<and> phase_of s = Some cur \<and> active_epoch_id s = Some n
        \<and> (if ph = cur then s' = s \<and> fs' = fs
           else ph \<in> set (allowed_next cur)
             \<and> (if ph = Committed
                then \<exists>fs1. commit_from_completion env now s n fs = (Inr s', fs1) \<and> validate s' = Inr ()
                       \<and> fs' = write_json env state_path (to_dict s') fs1
                else s' = s\<lparr>phase_of := Some ph, updated_at := now\<rparr> \<and> validate s' = Inr ()
                       \<and> fs' = write_json env state_path (to_dict s') fs)))"
proof (cases "read_state env fs")
  case (Inr s)
  show ?thesis
  proof (cases "phase_of s")
    case (Some cur)
    have c: "bind_op (commit_from_completion env now s n) (write_state env) fs = (Inr s', fs') \<longleftrightarrow>
        (\<exists>fs1. commit_from_completion env now s n fs = (Inr s', fs1) \<and> validate s' = Inr ()
           \<and> fs' = write_json env state_path (to_dict s') fs1)"
      by (auto simp: bind_op_Inr write_state_Inr)
    show ?thesis
      by (simp add: transition_locked_def bind_read_Inr Inr Some c write_state_Inr del: bind_op_Inr) auto
  qed (simp add: transition_locked_def bind_read_Inr Inr)
qed (simp add: transition_locked_def bind_read_Inr)

lemma resolve_Inr:
  "resolve_interrupted env now s n fs = (Inr s', fs') \<Longrightarrow>
     raise_if_ambiguous_attempt env fs n = Inr () \<and> \<not> is_file fs (completion_marker_path n)
     \<and> (\<exists>r m. load_json_object env fs (chain_receipt_path n) = Inr r \<and> jget r ''mode'' = JStr m
          \<and> m \<in> set [''dry_run'', ''skipped'', ''error'']
          \<and> s' = failed_state now (abandoned_error m) n s)
     \<and> validate s' = Inr () \<and> fs' = write_json env state_path (to_dict s') fs"
  by (auto simp: resolve_interrupted_def op_success split: if_splits)

text \<open>Every step keeps the files other than the state file and the rolling miner state.\<close>

lemma commit_frame: "commit_from_completion env now s n fs = (r, fs') \<Longrightarrow> p \<noteq> miner_state_path \<Longrightarrow> fs' p = fs p"
  by (auto simp: commit_from_completion_def op_plumbing guard_op_def split: sum.splits if_splits)

text \<open>How a tick begins, by what it found.\<close>

lemma begin_Inr:
  assumes "begin_locked env now fs = (Inr (s', n), fs')"
  obtains (retry) s where "read_state env fs = Inr s" "phase_of s \<in> {Some Allocated, Some Querying}"
      "active_epoch_id s = Some n" "s' = s\<lparr>phase_of := Some Allocated, attempt := attempt s + 1, updated_at := now\<rparr>"
      "validate s' = Inr ()" "fs' = write_json env state_path (to_dict s') fs"
    | (fresh) s where "read_state env fs = Inr s" "phase_of s \<in> {None, Some Evaluating, Some Committed}"
      "n = next_epoch_id s" "next_epoch_id s' = n + 1" "active_epoch_id s' = Some n" "phase_of s' = Some Allocated"
      "attempt s' = 1" "last_completed_epoch s' = last_completed_epoch s" "version s' = version s"
      "validate s' = Inr ()" "fs' = write_json env state_path (to_dict s') fs"
    | (abandoned) s k r m where "read_state env fs = Inr s" "phase_of s = Some Weights_submitting"
      "active_epoch_id s = Some k" "raise_if_ambiguous_attempt env fs k = Inr ()"
      "\<not> is_file fs (completion_marker_path k)" "load_json_object env fs (chain_receipt_path k) = Inr r"
      "jget r ''mode'' = JStr m" "m \<in> set [''dry_run'', ''skipped'', ''error'']"
      "n = next_epoch_id s" "next_epoch_id s' = n + 1" "active_epoch_id s' = Some n" "phase_of s' = Some Allocated"
      "attempt s' = 1" "last_failed_epoch s' = Some k" "last_error s' = Some (abandoned_error m)"
      "last_completed_epoch s' = last_completed_epoch s" "version s' = version s"
      "validate s' = Inr ()" "\<forall>p. p \<noteq> state_path \<longrightarrow> fs' p = fs p" "fs' state_path = Some (dumps env (to_dict s'))"
proof -
  from assms obtain s where s: "read_state env fs = Inr s"
    and rest: "bind_op
       (if phase_of s = Some Weights_submitting then
          (case active_epoch_id s of None \<Rightarrow> fail_op Active_epoch_missing | Some n \<Rightarrow> resolve_interrupted env now s n)
        else return_op s) (\<lambda>s.
     if phase_of s \<in> set [Some Allocated, Some Querying] then
       bind_op (write_state env (s\<lparr>phase_of := Some Allocated, attempt := attempt s + 1, updated_at := now\<rparr>))
         (\<lambda>retried. (case active_epoch_id retried of None \<Rightarrow> fail_op Active_epoch_missing
            | Some n \<Rightarrow> return_op (retried, n)))
     else
       allocate_epoch env now
         (if phase_of s = Some Evaluating
          then s\<lparr>active_epoch_id := None, phase_of := None, attempt := 0, last_failed_epoch := active_epoch_id s,
                 last_error := Some ''interrupted_during_evaluation'', updated_at := now\<rparr>
          else s)) fs = (Inr (s', n), fs')"
    by (auto simp: begin_locked_def bind_read_Inr)
  show ?thesis
  proof (cases "phase_of s = Some Weights_submitting")
    case True
    with rest obtain k where k: "active_epoch_id s = Some k"
      by (auto simp: bind_op_Inr split: option.splits)
    obtain r1' fs1 where r1': "resolve_interrupted env now s k fs = (r1', fs1)" by fastforce
    with rest True k obtain s1 where "r1' = Inr s1" by (cases r1') (simp_all add: bind_op_def)
    with r1' have r1: "resolve_interrupted env now s k fs = (Inr s1, fs1)" by simp
    have r2: "phase_of s1 = None \<Longrightarrow> allocate_epoch env now s1 fs1 = (Inr (s', n), fs')"
      using rest True k r1 by (simp add: bind_op_def)
    from resolve_Inr [OF r1] obtain r m where res: "raise_if_ambiguous_attempt env fs k = Inr ()"
      "\<not> is_file fs (completion_marker_path k)" "load_json_object env fs (chain_receipt_path k) = Inr r"
      "jget r ''mode'' = JStr m" "m \<in> set [''dry_run'', ''skipped'', ''error'']"
      "s1 = failed_state now (abandoned_error m) k s" "fs1 = write_json env state_path (to_dict s1) fs" by blast
    have "phase_of s1 = None" by (simp add: res(6) failed_state_def)
    with r2 have "allocate_epoch env now s1 fs1 = (Inr (s', n), fs')" by simp
    then show ?thesis using s True k res
      by (intro abandoned [OF s]) (auto simp: allocate_epoch_def Let_def op_success failed_state_def)
  next
    case False
    note r = rest
    show ?thesis
    proof (cases "phase_of s \<in> {Some Allocated, Some Querying}")
      case True
      with r False s show ?thesis
        by (intro retry [OF s]) (auto simp: op_success split: option.splits)
    next
      case no_retry: False
      have "phase_of s \<in> {None, Some Evaluating, Some Committed}"
        using False no_retry by (cases "phase_of s") (auto, metis phase.exhaust)
      with r False no_retry s show ?thesis
        by (intro fresh [OF s]) (auto simp: allocate_epoch_def Let_def op_success split: if_splits)
    qed
  qed
qed

section \<open>What a restart may do\<close>

lemma bind_read_Inl: "read_state env fs = Inl e \<Longrightarrow> bind_op (read_op env) f fs = (Inl e, fs)"
  by (simp add: bind_op_def read_op_def op_plumbing)

lemma bind_read_eq: "read_state env fs = Inr s \<Longrightarrow> bind_op (read_op env) f fs = f s fs"
  by (simp add: bind_op_def read_op_def op_plumbing)

lemma bind_lift_Inl: "r = Inl e \<Longrightarrow> bind_op (lift_op r) f fs = (Inl e, fs)"
  by (simp add: op_plumbing)

lemma begin_open_attempt:
  assumes "read_state env fs = Inr s" "phase_of s = Some Weights_submitting" "active_epoch_id s = Some n"
    and "raise_if_ambiguous_attempt env fs n = Inl e"
  shows "begin_locked env now fs = (Inl e, fs)"
  using assms
  by (simp add: begin_locked_def bind_read_eq resolve_interrupted_def bind_op_def [of "resolve_interrupted _ _ _ _"]
      bind_lift_Inl) (simp add: bind_op_def bind_lift_Inl get_op_def lift_op_def)

lemma recover_open_attempt:
  assumes "read_state env fs = Inr s" "phase_of s = Some Weights_submitting" "active_epoch_id s = Some n"
    and "raise_if_ambiguous_attempt env fs n = Inl e"
  shows "recover_receipt env now fs = (Inl e, fs)"
  using assms by (simp add: recover_receipt_def bind_read_eq bind_lift_Inl)

lemma open_attempt_exists: "raise_if_ambiguous_attempt env fs n = Inl e \<Longrightarrow> is_file fs (chain_attempt_path n)"
  by (auto simp: raise_if_ambiguous_attempt_def split: if_splits)

lemma fail_weights_open_attempt:
  assumes "read_state env fs = Inr s" "phase_of s = Some Weights_submitting" "active_epoch_id s = Some n"
    and "is_file fs (chain_attempt_path n)"
  shows "fail_weights_locked env now n error fs = (Inl (Ambiguous Attempt_blocks_failure), fs)"
  using assms by (simp add: fail_weights_locked_def bind_read_eq)

lemma recover_Inr:
  "recover_receipt env now fs = (Inr s', fs') \<Longrightarrow>
     (\<exists>s n fs1. read_state env fs = Inr s \<and> phase_of s = Some Weights_submitting \<and> active_epoch_id s = Some n
        \<and> commit_from_completion env now s n fs = (Inr s', fs1) \<and> validate s' = Inr ()
        \<and> fs' = write_json env state_path (to_dict s') fs1)"
proof -
  assume "recover_receipt env now fs = (Inr s', fs')"
  then obtain s where s: "read_state env fs = Inr s" and
    r: "(case (phase_of s, active_epoch_id s) of
        (Some Weights_submitting, Some n) \<Rightarrow>
          bind_op get_op (\<lambda>fs.
          bind_op (lift_op (raise_if_ambiguous_attempt env fs n)) (\<lambda>_.
          bind_op
            (if is_file fs (completion_marker_path n) then return_op ()
             else if is_file fs (chain_receipt_path n) then fail_op (Ambiguous Receipt_without_marker)
             else fail_op (Ambiguous No_marker)) (\<lambda>_.
          bind_op (commit_from_completion env now s n) (write_state env))))
      | _ \<Rightarrow> fail_op Nothing_to_recover) fs = (Inr s', fs')"
    unfolding recover_receipt_def bind_read_Inr by blast
  then obtain n where p: "phase_of s = Some Weights_submitting" "active_epoch_id s = Some n"
    by (cases "phase_of s"; cases "active_epoch_id s") (auto split: phase.splits)
  with r have "bind_op (commit_from_completion env now s n) (write_state env) fs = (Inr s', fs')"
    by (simp add: bind_lift_Inr split: if_splits)
  then show ?thesis using s p by (auto simp: bind_op_Inr [of "commit_from_completion env now s n"] write_state_Inr)
qed

text \<open>Both ways of committing an epoch.\<close>

definition committed_by :: "'b env \<Rightarrow> string \<Rightarrow> 'b disk \<Rightarrow> int \<Rightarrow> validator_state \<Rightarrow> 'b disk \<Rightarrow> bool" where
  "committed_by env now fs n s' fs' \<longleftrightarrow>
     (\<exists>s c. read_state env fs = Inr s \<and> phase_of s = Some Weights_submitting \<and> active_epoch_id s = Some n
        \<and> verify_epoch_completion env fs n = Inr c \<and> raise_if_ambiguous_attempt env fs n = Inr ()
        \<and> s' = committed_state env now s n c \<and> validate s' = Inr ()
        \<and> fs' = write_json env state_path (to_dict s') (write_json env miner_state_path (JObj (cmp_miner_state c)) fs))"

lemma transition_committed:
  "transition_locked env now n Committed fs = (Inr s', fs') \<Longrightarrow>
   committed_by env now fs n s' fs'
   \<or> (\<exists>s. read_state env fs = Inr s \<and> phase_of s = Some Committed \<and> active_epoch_id s = Some n \<and> s' = s \<and> fs' = fs)"
proof -
  assume "transition_locked env now n Committed fs = (Inr s', fs')"
  then obtain s cur where s: "read_state env fs = Inr s" "phase_of s = Some cur" "active_epoch_id s = Some n"
    and r: "if Committed = cur then s' = s \<and> fs' = fs
       else Committed \<in> set (allowed_next cur) \<and> (\<exists>fs1. commit_from_completion env now s n fs = (Inr s', fs1)
          \<and> validate s' = Inr () \<and> fs' = write_json env state_path (to_dict s') fs1)"
    by (auto simp: transition_Inr)
  show ?thesis
  proof (cases "Committed = cur")
    case True
    with r s show ?thesis by auto
  next
    case False
    with r have "cur = Weights_submitting" by (cases cur) auto
    with False r s show ?thesis by (auto simp: committed_by_def commit_Inr)
  qed
qed

lemma recover_committed:
  "recover_receipt env now fs = (Inr s', fs') \<Longrightarrow> \<exists>n. committed_by env now fs n s' fs'"
  by (drule recover_Inr) (auto simp: committed_by_def commit_Inr)

section \<open>Locking\<close>

lemma lock_owner_on_disk [simp]: "on_disk m w = (r, w') \<Longrightarrow> lock_owner w' = lock_owner w"
  by (auto simp: on_disk_def split: prod.splits)

lemma tick_enter_Inr:
  "tick_enter env now t w = (Inr t', w') \<longleftrightarrow>
     \<not> tick_held t \<and> lock_owner w = None
     \<and> (\<exists>s n fs'. begin_locked env now (disk w) = (Inr (s, n), fs')
          \<and> t' = t\<lparr>tick_held := True, tick_epoch := Some n, tick_entered := True\<rparr>
          \<and> w' = w\<lparr>lock_owner := Some (tick_pid t), disk := fs'\<rparr>)"
  by (cases w) (auto simp: tick_enter_def lock_acquire_def on_disk_def split: prod.splits sum.splits)

lemma tick_enter_Inl: "tick_enter env now t w = (Inl e, w') \<Longrightarrow> lock_owner w' = lock_owner w"
  by (auto simp: tick_enter_def lock_acquire_def lock_release_def on_disk_def
      split: prod.splits sum.splits if_splits)

lemma tick_exit_lock: "tick_exit env now exc t w = (r, w') \<Longrightarrow> tick_held t \<Longrightarrow> lock_owner w' = None"
  by (auto simp: tick_exit_def Let_def lock_release_def split: prod.splits sum.splits)

section \<open>Properties\<close>

definition sample_state :: validator_state where
  "sample_state = initial_state\<lparr>next_epoch_id := 2, active_epoch_id := Some 1, phase_of := Some Weights_submitting,
     attempt := 1\<rparr>"

definition sample_disk :: "json disk" where
  "sample_disk = write_json plain_env state_path (to_dict sample_state) sample_committed"

definition sample_open_disk :: "json disk" where
  "sample_open_disk = write_json plain_env state_path (to_dict sample_state)
     (write_json plain_env (chain_attempt_path 1)
       (JObj [(''epoch_id'', JInt 1), (''mode'', JStr ''live_attempt''), (''status'', JStr ''started'')]) (\<lambda>_. None))"

lemma sample_states:
  "validate sample_state = Inr ()" "read_state plain_env sample_disk = Inr sample_state"
  "read_state plain_env sample_open_disk = Inr sample_state"
  "raise_if_ambiguous_attempt plain_env sample_open_disk 1 = Inl (Ambiguous Live_attempt_open)"
  "is_ok (fst (recover_receipt plain_env ''now'' sample_disk))"
  "is_ok (fst (begin_locked plain_env ''now'' (\<lambda>_. None)))"
  by code_simp+

text \<open>A valid state written to disk reads back as itself, with its receipts in sorted key order.\<close>

lemma state_round_trip:
  assumes "json_codec env" "validate s = Inr ()"
  shows "fst (write_state env s fs) = Inr s \<and> read_state env (snd (write_state env s fs)) = Inr (canon_state s)"
proof -
  have "write_state env s fs = (Inr s, write_json env state_path (to_dict s) fs)"
    using assms(2) by (simp add: write_state_Inr)
  then show ?thesis using assms by (simp add: read_written)
qed

lemma state_round_trip_instance:
  "read_state plain_env (snd (write_state plain_env sample_state (\<lambda>_. None))) = Inr (canon_state sample_state)"
  using state_round_trip [OF plain_env_codec sample_states(1)] by blast

text \<open>A tick that begins either retries the active epoch, which had not started evaluating, or
  takes the next unused number and moves past it; the state it leaves on disk is the one it returns,
  valid and in phase allocated.\<close>

lemma begin_allocates:
  assumes "json_codec env" "begin_locked env now fs = (Inr (s', n), fs')" "read_state env fs = Inr s"
  shows "(phase_of s \<in> {Some Allocated, Some Querying} \<and> active_epoch_id s = Some n \<and> next_epoch_id s' = next_epoch_id s
           \<or> phase_of s \<notin> {Some Allocated, Some Querying} \<and> n = next_epoch_id s \<and> next_epoch_id s' = n + 1)
    \<and> active_epoch_id s' = Some n \<and> phase_of s' = Some Allocated \<and> n < next_epoch_id s'
    \<and> read_state env fs' = Inr (canon_state s')"
  using assms(2)
proof (cases rule: begin_Inr)
  case (retry s0)
  then show ?thesis using assms(1,3) read_written [of env s' fs'] validate_iff [of s'] by auto
next
  case (fresh s0)
  then show ?thesis using assms(1,3) read_written [of env s' fs'] by auto
next
  case (abandoned s0 k r m)
  then show ?thesis using assms(1,3) read_written [of env s' fs'] by auto
qed

lemma begin_allocates_instance:
  "\<exists>s' n fs'. begin_locked plain_env ''now'' (\<lambda>_. None) = (Inr (s', n), fs')
    \<and> active_epoch_id s' = Some n \<and> read_state plain_env fs' = Inr (canon_state s')"
proof -
  obtain s' n fs' where b: "begin_locked plain_env ''now'' (\<lambda>_. None) = (Inr (s', n), fs')"
    using sample_states(6) by (cases "begin_locked plain_env ''now'' (\<lambda>_. None)") (auto simp: is_ok_iff)
  have "read_state plain_env (\<lambda>_. None) = Inr initial_state" by (simp add: read_state_def)
  from begin_allocates [OF plain_env_codec b this] b show ?thesis by blast
qed

text \<open>C12: while an epoch in phase weights_submitting has an unresolved live attempt, no tick begins, no
  recovery commits it and it cannot be failed: each of the three raises and leaves the disk as it is.\<close>

theorem open_attempt_blocks:
  assumes "read_state env fs = Inr s" "phase_of s = Some Weights_submitting" "active_epoch_id s = Some n"
    and "raise_if_ambiguous_attempt env fs n = Inl e"
  shows "begin_locked env now fs = (Inl e, fs) \<and> recover_receipt env now fs = (Inl e, fs)
    \<and> fail_weights_locked env now n error fs = (Inl (Ambiguous Attempt_blocks_failure), fs)"
  using begin_open_attempt [OF assms] recover_open_attempt [OF assms]
    fail_weights_open_attempt [OF assms(1,2,3) open_attempt_exists [OF assms(4)]] by simp

theorem open_attempt_blocks_witness:
  "begin_locked plain_env ''now'' sample_open_disk = (Inl (Ambiguous Live_attempt_open), sample_open_disk)"
  using open_attempt_blocks [OF sample_states(3) _ _ sample_states(4)] by (simp add: sample_state_def)

text \<open>C24: an interrupted submission is given up only when a readable receipt for it says that nothing
  was signed and neither an open attempt nor a completion marker exists.\<close>

theorem abandon_only_unsigned:
  assumes "begin_locked env now fs = (Inr (s', n), fs')" "read_state env fs = Inr s"
    and "phase_of s = Some Weights_submitting" "active_epoch_id s = Some k"
  shows "raise_if_ambiguous_attempt env fs k = Inr () \<and> \<not> is_file fs (completion_marker_path k)
    \<and> (\<exists>r m. load_json_object env fs (chain_receipt_path k) = Inr r \<and> jget r ''mode'' = JStr m
         \<and> m \<in> set [''dry_run'', ''skipped'', ''error''] \<and> last_error s' = Some (abandoned_error m))
    \<and> last_failed_epoch s' = Some k"
  using assms(1)
proof (cases rule: begin_Inr)
  case (abandoned s0 k' r m)
  then show ?thesis using assms by auto
qed (use assms in auto)

definition sample_abandoned_disk :: "json disk" where
  "sample_abandoned_disk = write_json plain_env state_path (to_dict sample_state)
     (write_json plain_env (chain_receipt_path 1)
       (JObj [(''epoch_id'', JInt 1), (''mode'', JStr ''skipped''), (''reason'', JStr ''all_zero'')]) (\<lambda>_. None))"

lemma sample_abandoned:
  "read_state plain_env sample_abandoned_disk = Inr sample_state"
  "is_ok (fst (begin_locked plain_env ''now'' sample_abandoned_disk))"
  by code_simp+

theorem abandon_only_unsigned_witness:
  "\<exists>s' n fs'. begin_locked plain_env ''now'' sample_abandoned_disk = (Inr (s', n), fs') \<and> last_failed_epoch s' = Some 1"
proof -
  obtain s' n fs' where b: "begin_locked plain_env ''now'' sample_abandoned_disk = (Inr (s', n), fs')"
    using sample_abandoned(2) by (cases "begin_locked plain_env ''now'' sample_abandoned_disk") (auto simp: is_ok_iff)
  from abandon_only_unsigned [OF b sample_abandoned(1)] b show ?thesis by (auto simp: sample_state_def)
qed

text \<open>C18: an epoch becomes committed, by the phase hook or by recovery, only from phase
  weights_submitting with a completion that verifies on disk and no open attempt; the committed
  state records it and the rolling miner state becomes the verified snapshot.\<close>

theorem commit_requires_completion:
  assumes "transition_locked env now n Committed fs = (Inr s', fs') \<and> fs' \<noteq> fs
           \<or> recover_receipt env now fs = (Inr s', fs') \<and> active_epoch_id s' = Some n"
  shows "\<exists>s c. read_state env fs = Inr s \<and> phase_of s = Some Weights_submitting \<and> active_epoch_id s = Some n
    \<and> verify_epoch_completion env fs n = Inr c \<and> raise_if_ambiguous_attempt env fs n = Inr ()
    \<and> phase_of s' = Some Committed \<and> last_completed_epoch s' = Some n
    \<and> fs' miner_state_path = Some (dumps env (JObj (cmp_miner_state c)))"
proof -
  have c: "committed_by env now fs n s' fs'" using assms
  proof
    assume "transition_locked env now n Committed fs = (Inr s', fs') \<and> fs' \<noteq> fs"
    then show ?thesis using transition_committed [of env now n fs s' fs'] by auto
  next
    assume r: "recover_receipt env now fs = (Inr s', fs') \<and> active_epoch_id s' = Some n"
    then obtain m where m: "committed_by env now fs m s' fs'" using recover_committed [of env now fs s' fs'] by blast
    then have "active_epoch_id s' = Some m" by (auto simp: committed_by_def committed_state_def Let_def)
    with r m show ?thesis by simp
  qed
  then show ?thesis by (auto simp: committed_by_def committed_state_def Let_def)
qed

theorem commit_requires_completion_witness:
  "\<exists>s' fs'. recover_receipt plain_env ''now'' sample_disk = (Inr s', fs') \<and> last_completed_epoch s' = Some 1"
proof -
  obtain s' fs' where r: "recover_receipt plain_env ''now'' sample_disk = (Inr s', fs')"
    using sample_states(5) by (cases "recover_receipt plain_env ''now'' sample_disk") (auto simp: is_ok_iff)
  from recover_Inr [OF r] have "active_epoch_id s' = Some 1"
    by (auto simp: commit_Inr sample_states(2) sample_state_def committed_state_def Let_def)
  with r commit_requires_completion [of plain_env "''now''" 1 sample_disk s' fs'] show ?thesis by blast
qed

text \<open>One process at a time: a tick is entered only when the lock is free and then owns it, a tick
  that fails to enter leaves the lock as it was, and leaving a tick frees it whatever happened.\<close>

lemma tick_lock_discipline:
  "(tick_enter env now t w = (Inr t', w') \<longrightarrow> lock_owner w = None \<and> lock_owner w' = Some (tick_pid t) \<and> tick_held t')
   \<and> (tick_enter env now t w = (Inl e, w') \<longrightarrow> lock_owner w' = lock_owner w)
   \<and> (tick_exit env now exc t w = (r, w') \<longrightarrow> tick_held t \<longrightarrow> lock_owner w' = None)"
  by (auto simp: tick_enter_Inr dest: tick_enter_Inl tick_exit_lock)

lemma sample_enter: "is_ok (fst (tick_enter plain_env ''now'' (new_tick 7) \<lparr>disk = (\<lambda>_. None), lock_owner = None\<rparr>))"
  by code_simp

lemma tick_lock_discipline_instance:
  "\<exists>t' w'. tick_enter plain_env ''now'' (new_tick 7) \<lparr>disk = (\<lambda>_. None), lock_owner = None\<rparr> = (Inr t', w')
     \<and> lock_owner w' = Some 7"
proof -
  let ?w = "\<lparr>disk = (\<lambda>_. None), lock_owner = None\<rparr> :: json runtime"
  obtain t' w' where e: "tick_enter plain_env ''now'' (new_tick 7) ?w = (Inr t', w')"
    using sample_enter by (cases "tick_enter plain_env ''now'' (new_tick 7) ?w") (auto simp: is_ok_iff)
  with tick_lock_discipline [of plain_env "''now''" "new_tick 7" ?w t' w'] show ?thesis
    by (auto simp: new_tick_def)
qed

end
