(* ===== verification/Config.thy ===== *)
theory Config
  imports Files
begin

text \<open>
  \<open>src/dolores_subnet/config.py\<close>: execution modes, the network allowlist, the resolution of
  network and netuid, and the configuration built from arguments and environment.  The process
  environment is a map from names to values; \<open>expanduser\<close>, the repository root and the content of
  \<open>configs/testnet.json\<close> are arguments.  Paths are their text.
\<close>

section \<open>Constants\<close>

definition spec_version_const :: int where
  "spec_version_const = 1"

definition schema_version_const :: string where
  "schema_version_const = ''dolores-subnet-v1''"

definition max_package_bytes_const :: int where
  "max_package_bytes_const = 200 * 1024"

definition max_response_bytes_const :: int where
  "max_response_bytes_const = 1024 * 1024"

definition default_quota :: int where
  "default_quota = 4"

definition default_verifier_image :: string where
  "default_verifier_image = ''dolores-verifier-pytest:0.2.0rc2''"

definition default_wallet_name :: string where
  "default_wallet_name = ''dolores-test''"

definition default_wallet_hotkey :: string where
  "default_wallet_hotkey = ''validator''"

definition safe_chain_networks :: "string list" where
  "safe_chain_networks = [''test'', ''ws://127.0.0.1:9944'', ''ws://127.0.0.1:9945'']"

definition unsafe_chain_networks :: "string list" where
  "unsafe_chain_networks = [''finney'', ''mainnet'', ''ws://entrypoint-finney.opentensor.ai:443'']"

definition localnet_network :: string where
  "localnet_network = ''ws://127.0.0.1:9944''"

definition testnet_network :: string where
  "testnet_network = ''test''"

section \<open>Modes\<close>

datatype run_mode = Mode_mock | Mode_offline | Mode_wire | Mode_localnet | Mode_testnet

fun mode_value :: "run_mode \<Rightarrow> string" where
  "mode_value Mode_mock = ''mock''"
| "mode_value Mode_offline = ''offline''"
| "mode_value Mode_wire = ''wire''"
| "mode_value Mode_localnet = ''localnet''"
| "mode_value Mode_testnet = ''testnet''"

definition all_modes :: "run_mode list" where
  "all_modes = [Mode_mock, Mode_offline, Mode_wire, Mode_localnet, Mode_testnet]"

definition requires_bittensor :: "run_mode \<Rightarrow> bool" where
  "requires_bittensor m = (m \<in> set [Mode_wire, Mode_localnet, Mode_testnet])"

definition requires_docker :: "run_mode \<Rightarrow> bool" where
  "requires_docker m = (m \<noteq> Mode_mock)"

definition requires_wallet :: "run_mode \<Rightarrow> bool" where
  "requires_wallet m = (m \<in> set [Mode_wire, Mode_localnet, Mode_testnet])"

definition requires_chain :: "run_mode \<Rightarrow> bool" where
  "requires_chain m = (m \<in> set [Mode_localnet, Mode_testnet])"

datatype config_error =
    Unknown_mode
  | Network_unset
  | Network_unsafe
  | Endpoint_unsafe
  | Network_not_allowlisted
  | Netuid_not_integer
  | Netuid_negative
  | Netuid_infinite
  | Netuid_file_unreadable
  | Netuid_file_not_object
  | Panel_mode_unknown
  | Panel_max_tasks_not_integer
  | Panel_max_tasks_infinite
  | Panel_max_tasks_negative

text \<open>A \<open>Mode\<close> passes through \<open>parse_mode\<close> unchanged, as its text does, so modes are given by their text.\<close>

definition parse_mode :: "string option \<Rightarrow> config_error + run_mode" where
  "parse_mode value =
     (let text = lower (strip (case value of None \<Rightarrow> [] | Some v \<Rightarrow> v)) in
      if text = [] then Inr Mode_mock
      else (case List.find (\<lambda>m. mode_value m = text) all_modes of
              None \<Rightarrow> Inl Unknown_mode
            | Some m \<Rightarrow> Inr m))"

lemma parse_mode_value [simp]: "parse_mode (Some (mode_value m)) = Inr m"
proof -
  have "list_all (\<lambda>m. parse_mode (Some (mode_value m)) = Inr m) all_modes" by code_simp
  moreover have "m \<in> set all_modes" by (cases m) (simp_all add: all_modes_def)
  ultimately show ?thesis by (simp add: list_all_iff)
qed

section \<open>Network and netuid\<close>

definition assert_safe_network :: "string option \<Rightarrow> config_error + string" where
  "assert_safe_network network =
     (let raw = (case network of None \<Rightarrow> [] | Some n \<Rightarrow> strip n); lowered = lower raw in
      if raw = [] then Inl Network_unset
      else if lowered \<in> set unsafe_chain_networks \<or> lowered \<in> set [''finney'', ''mainnet''] then Inl Network_unsafe
      else if contains lowered ''mainnet'' then Inl Endpoint_unsafe
      else if ends_with lowered ''finney.opentensor.ai:443'' \<and> \<not> contains lowered ''test.finney'' then Inl Endpoint_unsafe
      else if raw \<notin> set safe_chain_networks then Inl Network_not_allowlisted
      else Inr raw)"

definition resolve_network :: "run_mode \<Rightarrow> string option \<Rightarrow> config_error + string option" where
  "resolve_network m requested =
     (case requested of
        Some r \<Rightarrow> bind_result (assert_safe_network (Some r)) (\<lambda>n. Inr (Some n))
      | None \<Rightarrow>
          if m = Mode_testnet then bind_result (assert_safe_network (Some testnet_network)) (\<lambda>n. Inr (Some n))
          else if m = Mode_localnet then bind_result (assert_safe_network (Some localnet_network)) (\<lambda>n. Inr (Some n))
          else Inr None)"

definition verifier_defaults :: "run_mode \<Rightarrow> string \<times> string" where
  "verifier_defaults m = (if m = Mode_mock then (''local'', ''fixture'') else (''docker'', ''generated''))"

text \<open>\<open>Netuid_infinite\<close> is the \<open>OverflowError\<close> of \<open>int(inf)\<close>, which the code does not translate.\<close>

definition parse_netuid :: "json \<Rightarrow> config_error + int" where
  "parse_netuid value =
     (case py_int value of
        Inl Infinite_value \<Rightarrow> Inl Netuid_infinite
      | Inl _ \<Rightarrow> Inl Netuid_not_integer
      | Inr n \<Rightarrow> if n < 0 then Inl Netuid_negative else Inr n)"

text \<open>The configuration file: absent, unreadable or a document.\<close>

datatype config_file = File_absent | File_unreadable | File_doc json

definition resolve_netuid ::
  "config_file \<Rightarrow> run_mode \<Rightarrow> json option \<Rightarrow> string option \<Rightarrow> config_error + int option" where
  "resolve_netuid file m requested env_value =
     (case requested of
        Some r \<Rightarrow> bind_result (parse_netuid r) (\<lambda>n. Inr (Some n))
      | None \<Rightarrow>
          (case env_value of
             Some (c # cs) \<Rightarrow> bind_result (parse_netuid (JStr (c # cs))) (\<lambda>n. Inr (Some n))
           | _ \<Rightarrow>
               if m \<noteq> Mode_testnet then Inr None
               else (case file of
                       File_absent \<Rightarrow> Inr None
                     | File_unreadable \<Rightarrow> Inl Netuid_file_unreadable
                     | File_doc (JObj d) \<Rightarrow>
                         if jget d ''netuid'' = JNull then Inr None
                         else bind_result (parse_netuid (jget d ''netuid'')) (\<lambda>n. Inr (Some n))
                     | File_doc _ \<Rightarrow> Inl Netuid_file_not_object)))"

section \<open>The configuration\<close>

record subnet_config =
  cfg_mode :: run_mode
  repo_root :: string
  work_dir :: string
  archive_dir :: string
  archive_db :: string
  submissions_path :: string
  panel_path :: string
  verifier_image :: string
  backend :: string
  pipeline_mode :: string
  network :: "string option"
  netuid :: "int option"
  max_package_bytes :: int
  max_response_bytes :: int
  cfg_quota :: int
  cfg_top_k :: int
  ema_alpha :: pyfloat
  spec_version :: int
  schema_version :: string
  wallet_name :: string
  wallet_hotkey :: string
  allow_commit_reveal :: bool
  panel_mode :: string
  panel_calibrate_path :: string
  panel_max_tasks :: int
  panel_dry_run :: bool
  allow_provider_spend :: bool
  holdout_required :: bool
  holdout_secret :: "string option"

record config_args =
  arg_mode :: "string option"
  arg_work_dir :: "string option"
  arg_wallet_name :: "string option"
  arg_wallet_hotkey :: "string option"
  arg_network :: "string option"
  arg_netuid :: "json option"
  arg_allow_commit_reveal :: "bool option"
  arg_panel_mode :: "string option"
  arg_panel_max_tasks :: "json option"
  arg_panel_dry_run :: "bool option"
  arg_allow_provider_spend :: "bool option"
  arg_holdout_required :: "bool option"
  arg_holdout_secret :: "string option"

definition no_args :: config_args where
  "no_args = \<lparr>arg_mode = None, arg_work_dir = None, arg_wallet_name = None, arg_wallet_hotkey = None,
     arg_network = None, arg_netuid = None, arg_allow_commit_reveal = None, arg_panel_mode = None,
     arg_panel_max_tasks = None, arg_panel_dry_run = None, arg_allow_provider_spend = None,
     arg_holdout_required = None, arg_holdout_secret = None\<rparr>"

record host =
  environ :: "string \<Rightarrow> string option"
  expanduser :: "string \<Rightarrow> string"
  host_repo_root :: string
  mock_panel_asset :: string
  calibrate_panel_asset :: string
  testnet_config :: config_file

text \<open>\<open>value or default\<close> on optional text: the empty text counts as absent.\<close>

fun or_text :: "string option \<Rightarrow> string option \<Rightarrow> string option" where
  "or_text (Some (c # cs)) d = Some (c # cs)"
| "or_text _ d = d"

definition env_get :: "host \<Rightarrow> string \<Rightarrow> string \<Rightarrow> string" where
  "env_get h name dflt = (case environ h name of None \<Rightarrow> dflt | Some v \<Rightarrow> v)"

definition flag :: "bool option \<Rightarrow> bool" where
  "flag b = (b = Some True)"

definition resolve_work_dir :: "host \<Rightarrow> config_args \<Rightarrow> string" where
  "resolve_work_dir h a =
     (let raw = (case or_text (arg_work_dir a) None of
                   Some w \<Rightarrow> w
                 | None \<Rightarrow> env_get h ''DOLORES_SUBNET_WORK_DIR'' (host_repo_root h @ ''/work''));
          w = expanduser h raw
      in if starts_with w ''/'' then w else host_repo_root h @ ''/'' @ w)"

definition resolve_panel_mode :: "host \<Rightarrow> config_args \<Rightarrow> config_error + string" where
  "resolve_panel_mode h a =
     (let raw = (case or_text (arg_panel_mode a) None of
                   Some v \<Rightarrow> v | None \<Rightarrow> env_get h ''DOLORES_SUBNET_PANEL_MODE'' ''mock'');
          m = lower (strip raw)
      in if m \<in> set [''mock'', ''calibrate''] then Inr m else Inl Panel_mode_unknown)"

definition resolve_panel_max_tasks :: "host \<Rightarrow> config_args \<Rightarrow> config_error + int" where
  "resolve_panel_max_tasks h a =
     (let raw = (case arg_panel_max_tasks a of
                   Some v \<Rightarrow> v
                 | None \<Rightarrow> (case environ h ''DOLORES_SUBNET_PANEL_MAX_TASKS'' of None \<Rightarrow> JInt 8 | Some s \<Rightarrow> JStr s))
      in (case py_int raw of
            Inl Infinite_value \<Rightarrow> Inl Panel_max_tasks_infinite
          | Inl _ \<Rightarrow> Inl Panel_max_tasks_not_integer
          | Inr n \<Rightarrow> if n < 0 then Inl Panel_max_tasks_negative else Inr n))"

definition from_env :: "host \<Rightarrow> config_args \<Rightarrow> config_error + subnet_config" where
  "from_env h a =
     bind_result (parse_mode (or_text (arg_mode a) (environ h ''DOLORES_SUBNET_MODE''))) (\<lambda>m.
     let (be, pipeline) = verifier_defaults m; work = resolve_work_dir h a; archive = work @ ''/subnet_archive'' in
     bind_result (resolve_network m (or_text (arg_network a) (environ h ''BT_NETWORK''))) (\<lambda>net.
     bind_result (resolve_netuid (testnet_config h) m (arg_netuid a) (environ h ''BT_NETUID'')) (\<lambda>uid.
     bind_result (resolve_panel_mode h a) (\<lambda>pmode.
     bind_result (resolve_panel_max_tasks h a) (\<lambda>pmax.
     Inr \<lparr>cfg_mode = m, repo_root = host_repo_root h, work_dir = work, archive_dir = archive,
       archive_db = archive @ ''/archive.duckdb'', submissions_path = archive @ ''/submissions.jsonl'',
       panel_path = expanduser h (env_get h ''DOLORES_SUBNET_PANEL'' (mock_panel_asset h)),
       verifier_image = env_get h ''DOLORES_VERIFIER_IMAGE'' default_verifier_image,
       backend = be, pipeline_mode = pipeline, network = net, netuid = uid,
       max_package_bytes = max_package_bytes_const, max_response_bytes = max_response_bytes_const,
       cfg_quota = default_quota, cfg_top_k = default_quota, ema_alpha = ema_alpha_default,
       spec_version = spec_version_const, schema_version = schema_version_const,
       wallet_name = (case or_text (arg_wallet_name a) None of
          Some w \<Rightarrow> w | None \<Rightarrow> env_get h ''BT_WALLET_NAME'' default_wallet_name),
       wallet_hotkey = (case or_text (arg_wallet_hotkey a) None of
          Some w \<Rightarrow> w | None \<Rightarrow> env_get h ''BT_WALLET_HOTKEY'' default_wallet_hotkey),
       allow_commit_reveal = flag (arg_allow_commit_reveal a), panel_mode = pmode,
       panel_calibrate_path = expanduser h (env_get h ''DOLORES_SUBNET_PANEL_CALIBRATE'' (calibrate_panel_asset h)),
       panel_max_tasks = pmax,
       panel_dry_run = (case arg_panel_dry_run a of
          Some b \<Rightarrow> b | None \<Rightarrow> env_get h ''DOLORES_SUBNET_PANEL_DRYRUN'' [] = ''1''),
       allow_provider_spend = flag (arg_allow_provider_spend a),
       holdout_required = (case arg_holdout_required a of
          None \<Rightarrow> m \<in> set [Mode_wire, Mode_localnet, Mode_testnet] | Some b \<Rightarrow> b),
       holdout_secret = (case arg_holdout_secret a of
          Some s \<Rightarrow> Some s | None \<Rightarrow> environ h ''DOLORES_HOLDOUT_SECRET'')\<rparr>)))))"

section \<open>Safety of the resolved configuration\<close>

lemma assert_safe_network_Inr: "assert_safe_network x = Inr n \<Longrightarrow> n \<in> set safe_chain_networks"
  by (auto simp: assert_safe_network_def Let_def split: if_splits)

lemma assert_safe_network_strip: "assert_safe_network x = Inr n \<Longrightarrow> \<exists>y. x = Some y \<and> n = strip y"
  by (auto simp: assert_safe_network_def Let_def split: if_splits option.splits)

lemma safe_networks_pass: "n \<in> set safe_chain_networks \<Longrightarrow> assert_safe_network (Some n) = Inr n"
proof -
  have "list_all (\<lambda>n. assert_safe_network (Some n) = Inr n) safe_chain_networks" by code_simp
  then show "n \<in> set safe_chain_networks \<Longrightarrow> ?thesis" by (simp add: list_all_iff)
qed

lemma resolve_network_safe:
  "resolve_network m r = Inr net \<Longrightarrow>
   (net = None \<or> (\<exists>n. net = Some n \<and> n \<in> set safe_chain_networks)) \<and> (requires_chain m \<longrightarrow> net \<noteq> None)"
  by (auto simp: resolve_network_def requires_chain_def dest: assert_safe_network_Inr split: option.splits if_splits)

lemma parse_netuid_nonneg: "parse_netuid v = Inr n \<Longrightarrow> 0 \<le> n"
  by (auto simp: parse_netuid_def split: sum.splits int_error.splits if_splits)

lemma resolve_netuid_nonneg: "resolve_netuid f m r e = Inr (Some n) \<Longrightarrow> 0 \<le> n"
  by (auto simp: resolve_netuid_def dest: parse_netuid_nonneg
      split: option.splits list.splits if_splits config_file.splits json.splits)

definition safe_config :: "subnet_config \<Rightarrow> bool" where
  "safe_config c =
     ((case network c of None \<Rightarrow> \<not> requires_chain (cfg_mode c) | Some n \<Rightarrow> n \<in> set safe_chain_networks)
      \<and> (case netuid c of None \<Rightarrow> True | Some u \<Rightarrow> 0 \<le> u)
      \<and> panel_mode c \<in> set [''mock'', ''calibrate''] \<and> 0 \<le> panel_max_tasks c
      \<and> (backend c = ''local'' \<longleftrightarrow> cfg_mode c = Mode_mock)
      \<and> cfg_quota c = 4 \<and> cfg_top_k c = 4)"

lemma from_env_safe: "from_env h a = Inr c \<Longrightarrow> safe_config c"
proof -
  assume "from_env h a = Inr c"
  then obtain m net uid pmode pmax where
    r: "resolve_network m (or_text (arg_network a) (environ h ''BT_NETWORK'')) = Inr net"
       "resolve_netuid (testnet_config h) m (arg_netuid a) (environ h ''BT_NETUID'') = Inr uid"
       "resolve_panel_mode h a = Inr pmode" "resolve_panel_max_tasks h a = Inr pmax"
    and c: "network c = net" "netuid c = uid" "panel_mode c = pmode" "panel_max_tasks c = pmax" "cfg_mode c = m"
       "backend c = fst (verifier_defaults m)" "cfg_quota c = 4" "cfg_top_k c = 4"
    by (auto simp: from_env_def Let_def default_quota_def case_prod_beta)
  have "pmode \<in> set [''mock'', ''calibrate'']"
    using r(3) by (auto simp: resolve_panel_mode_def Let_def split: if_splits)
  moreover have "0 \<le> pmax"
    using r(4) by (auto simp: resolve_panel_max_tasks_def Let_def split: sum.splits int_error.splits if_splits)
  moreover have "case uid of None \<Rightarrow> True | Some u \<Rightarrow> 0 \<le> u"
    using r(2) resolve_netuid_nonneg by (auto split: option.split)
  moreover have "case net of None \<Rightarrow> \<not> requires_chain m | Some n \<Rightarrow> n \<in> set safe_chain_networks"
    using resolve_network_safe [OF r(1)] by (auto split: option.split)
  ultimately show ?thesis unfolding safe_config_def c by (simp add: verifier_defaults_def)
qed

section \<open>Properties\<close>

definition sample_host :: host where
  "sample_host = \<lparr>environ = (\<lambda>n. if n = ''DOLORES_SUBNET_MODE'' then Some '' TestNet '' else None),
     expanduser = (\<lambda>p. p), host_repo_root = ''/repo'', mock_panel_asset = ''/m.yaml'',
     calibrate_panel_asset = ''/c.yaml'', testnet_config = File_doc (JObj [(''netuid'', JInt 523)])\<rparr>"

text \<open>C29: whatever the arguments and the environment, a configuration that is built names no chain
  network outside the allowlist, names one in the chain modes, has a non-negative netuid if any, a known
  panel mode and budget, and verifies locally only in mock mode.\<close>

theorem config_is_safe:
  assumes "from_env h a = Inr c"
  shows "(case network c of None \<Rightarrow> \<not> requires_chain (cfg_mode c) | Some n \<Rightarrow> n \<in> set safe_chain_networks)
      \<and> (case netuid c of None \<Rightarrow> True | Some u \<Rightarrow> 0 \<le> u)
      \<and> panel_mode c \<in> set [''mock'', ''calibrate''] \<and> 0 \<le> panel_max_tasks c
      \<and> (backend c = ''local'' \<longleftrightarrow> cfg_mode c = Mode_mock)"
  using from_env_safe [OF assms] by (simp add: safe_config_def)

lemma sample_config: "is_ok (from_env sample_host no_args)"
  by code_simp

theorem config_is_safe_witness:
  "\<exists>c. from_env sample_host no_args = Inr c \<and> panel_mode c \<in> set [''mock'', ''calibrate'']"
proof -
  obtain c where c: "from_env sample_host no_args = Inr c" using sample_config by (auto simp: is_ok_iff)
  from config_is_safe [OF c] c show ?thesis by blast
qed

text \<open>The network check returns exactly the stripped text when it is on the allowlist, and raises
  otherwise; in particular no spelling of the main network passes.\<close>

lemma network_allowlist:
  "(assert_safe_network x = Inr n \<longleftrightarrow> (\<exists>y. x = Some y \<and> n = strip y) \<and> n \<in> set safe_chain_networks)
   \<and> (assert_safe_network x = Inr n \<longrightarrow> \<not> contains (lower n) ''finney'' \<and> \<not> contains (lower n) ''mainnet'')"
proof -
  have clean: "list_all (\<lambda>n. strip n = n \<and> \<not> contains (lower n) ''finney'' \<and> \<not> contains (lower n) ''mainnet'')
      safe_chain_networks" by code_simp
  have pass: "assert_safe_network (Some y) = Inr n" if "n = strip y" "n \<in> set safe_chain_networks" for y
  proof -
    have "strip (strip y) = strip y" using clean that by (auto simp: list_all_iff)
    then have "assert_safe_network (Some y) = assert_safe_network (Some (strip y))"
      by (simp add: assert_safe_network_def)
    with safe_networks_pass that show ?thesis by simp
  qed
  have iff: "assert_safe_network x = Inr n \<longleftrightarrow> (\<exists>y. x = Some y \<and> n = strip y) \<and> n \<in> set safe_chain_networks"
    using pass assert_safe_network_Inr assert_safe_network_strip by blast
  then show ?thesis using clean by (auto simp: list_all_iff)
qed

lemma network_allowlist_instance:
  "assert_safe_network (Some '' test '') = Inr ''test'' \<and> \<not> contains (lower ''test'') ''finney''"
proof -
  have "assert_safe_network (Some '' test '') = Inr ''test''" by code_simp
  with network_allowlist [of "Some '' test ''" "''test''"] show ?thesis by blast
qed

end
