(* ===== verification/Endpoints.thy ===== *)
theory Endpoints
  imports Config "HOL-Library.Word"
begin

text \<open>
  \<open>src/dolores_subnet/endpoints.py\<close>: the public IPv4 policy of the cohort, the port check, and the
  comparison of a published axon with the metagraph.  An address is a 32-bit word; the tables of
  special networks are those of Python's \<open>ipaddress\<close>.
\<close>

unbundle bit_operations_syntax

section \<open>IPv4 literals\<close>

definition is_digit :: "char \<Rightarrow> bool" where
  "is_digit c = (let n = (of_char c :: nat) in 48 \<le> n \<and> n \<le> 57)"

definition digits_to_nat :: "string \<Rightarrow> nat" where
  "digits_to_nat s = foldl (\<lambda>acc c. acc * 10 + (of_char c - 48)) 0 s"

definition parse_octet :: "string \<Rightarrow> nat option" where
  "parse_octet s =
     (if s = [] \<or> \<not> list_all is_digit s \<or> 3 < length s \<or> (s \<noteq> ''0'' \<and> hd s = CHR ''0'') then None
      else let n = digits_to_nat s in if 255 < n then None else Some n)"

fun parse_octets :: "string list \<Rightarrow> nat list option" where
  "parse_octets [] = Some []"
| "parse_octets (s # ss) =
     (case parse_octet s of
        None \<Rightarrow> None
      | Some n \<Rightarrow> map_option (\<lambda>ns. n # ns) (parse_octets ss))"

definition octets_of_ipv4 :: "string \<Rightarrow> nat list option" where
  "octets_of_ipv4 s =
     (let parts = split_on (CHR ''.'') s in if length parts \<noteq> 4 then None else parse_octets parts)"

definition address_of :: "nat list \<Rightarrow> 32 word" where
  "address_of ns = foldl (\<lambda>w n. push_bit 8 w OR word_of_nat n) 0 ns"

definition show_ipv4 :: "nat list \<Rightarrow> string" where
  "show_ipv4 ns = join ''.'' (map show_nat ns)"

section \<open>Special networks\<close>

definition in_network :: "nat list \<Rightarrow> nat \<Rightarrow> 32 word \<Rightarrow> bool" where
  "in_network base prefix a = (drop_bit (32 - prefix) a = drop_bit (32 - prefix) (address_of base))"

definition private_networks :: "(nat list \<times> nat) list" where
  "private_networks =
     [([0,0,0,0], 8), ([10,0,0,0], 8), ([127,0,0,0], 8), ([169,254,0,0], 16), ([172,16,0,0], 12),
      ([192,0,0,0], 24), ([192,0,0,170], 31), ([192,0,2,0], 24), ([192,168,0,0], 16), ([198,18,0,0], 15),
      ([198,51,100,0], 24), ([203,0,113,0], 24), ([240,0,0,0], 4), ([255,255,255,255], 32)]"

definition private_exceptions :: "(nat list \<times> nat) list" where
  "private_exceptions = [([192,0,0,9], 32), ([192,0,0,10], 32)]"

definition in_any :: "(nat list \<times> nat) list \<Rightarrow> 32 word \<Rightarrow> bool" where
  "in_any nets a = list_ex (\<lambda>(b, p). in_network b p a) nets"

definition is_private :: "32 word \<Rightarrow> bool" where
  "is_private a = (in_any private_networks a \<and> \<not> in_any private_exceptions a)"

definition is_global :: "32 word \<Rightarrow> bool" where
  "is_global a = (\<not> in_network [100,64,0,0] 10 a \<and> \<not> is_private a)"

definition is_loopback :: "32 word \<Rightarrow> bool" where
  "is_loopback a = in_network [127,0,0,0] 8 a"

definition is_link_local :: "32 word \<Rightarrow> bool" where
  "is_link_local a = in_network [169,254,0,0] 16 a"

definition is_multicast :: "32 word \<Rightarrow> bool" where
  "is_multicast a = in_network [224,0,0,0] 4 a"

definition is_reserved :: "32 word \<Rightarrow> bool" where
  "is_reserved a = in_network [240,0,0,0] 4 a"

definition is_unspecified :: "32 word \<Rightarrow> bool" where
  "is_unspecified a = (a = 0)"

section \<open>The policy\<close>

datatype endpoint_error =
    Not_cohort_target
  | Not_ipv4_literal
  | Not_globally_routable
  | Port_not_integer
  | Port_infinite
  | Port_out_of_range

definition cohort_network :: string where
  "cohort_network = ''test''"

definition cohort_netuid :: int where
  "cohort_netuid = 523"

definition require_cohort_target :: "string \<Rightarrow> int \<Rightarrow> endpoint_error + unit" where
  "require_cohort_target net uid = require (net = cohort_network \<and> uid = cohort_netuid) Not_cohort_target"

text \<open>Text that is not an IPv4 literal is refused, whether or not it is an IPv6 literal.\<close>

definition require_public_ipv4 :: "string \<Rightarrow> endpoint_error + string" where
  "require_public_ipv4 value =
     (case octets_of_ipv4 value of
        None \<Rightarrow> Inl Not_ipv4_literal
      | Some ns \<Rightarrow>
          let a = address_of ns in
          if \<not> is_global a \<or> is_private a \<or> is_loopback a \<or> is_link_local a \<or> is_multicast a
             \<or> is_reserved a \<or> is_unspecified a
          then Inl Not_globally_routable
          else Inr (show_ipv4 ns))"

definition require_port :: "json \<Rightarrow> endpoint_error + int" where
  "require_port value =
     (case py_int value of
        Inl Infinite_value \<Rightarrow> Inl Port_infinite
      | Inl _ \<Rightarrow> Inl Port_not_integer
      | Inr port \<Rightarrow> if 1 \<le> port \<and> port \<le> 65535 then Inr port else Inl Port_out_of_range)"

text \<open>What the subnet reads of a metagraph.\<close>

record axon =
  ax_ip :: string
  ax_port :: int
  ax_coldkey :: string

record metagraph =
  mg_hotkeys :: "string list"
  mg_uids :: "int list"
  mg_permits :: "bool list"
  mg_last_update :: "int list option"
  mg_axons :: "axon list"

fun index_of :: "'a \<Rightarrow> 'a list \<Rightarrow> nat option" where
  "index_of x [] = None"
| "index_of x (y # ys) = (if x = y then Some 0 else map_option Suc (index_of x ys))"

definition metagraph_has_exact_axon :: "metagraph \<Rightarrow> string \<Rightarrow> string \<Rightarrow> int \<Rightarrow> bool" where
  "metagraph_has_exact_axon mg hotkey host port =
     (case index_of hotkey (mg_hotkeys mg) of
        None \<Rightarrow> False
      | Some i \<Rightarrow>
          if length (mg_axons mg) \<le> i then False
          else ax_ip (mg_axons mg ! i) = host \<and> ax_port (mg_axons mg ! i) = port)"

lemma index_of_Some: "index_of x xs = Some i \<Longrightarrow> i < length xs \<and> xs ! i = x \<and> x \<notin> set (take i xs)"
  by (induction xs arbitrary: i) (auto split: if_splits)

lemma index_of_None: "index_of x xs = None \<longleftrightarrow> x \<notin> set xs"
  by (induction xs) auto

section \<open>Literals are canonical\<close>

lemma char_48 [simp]: "char_of (48 :: nat) = CHR ''0''"
  by code_simp

lemma digits_to_nat_snoc: "digits_to_nat (s @ [c]) = digits_to_nat s * 10 + (of_char c - 48)"
  by (simp add: digits_to_nat_def)

lemma digit_char: "is_digit c \<Longrightarrow> char_of (48 + (of_char c - 48 :: nat)) = c \<and> (of_char c - 48 :: nat) < 10"
proof -
  assume "is_digit c"
  then have "48 \<le> (of_char c :: nat)" "(of_char c :: nat) \<le> 57" by (simp_all add: is_digit_def Let_def)
  then show ?thesis by simp
qed

lemma digits_pos: "list_all is_digit s \<Longrightarrow> s \<noteq> [] \<Longrightarrow> hd s \<noteq> CHR ''0'' \<Longrightarrow> 0 < digits_to_nat s"
proof (induction s rule: rev_induct)
  case Nil
  then show ?case by simp
next
  case (snoc c s)
  show ?case
  proof (cases "s = []")
    case True
    with snoc have "is_digit c" "c \<noteq> CHR ''0''" by simp_all
    then have "(of_char c :: nat) \<noteq> 48" using digit_char [of c] by (auto simp: is_digit_def)
    with \<open>is_digit c\<close> True show ?thesis by (simp add: digits_to_nat_def is_digit_def Let_def)
  next
    case False
    with snoc show ?thesis by (simp add: digits_to_nat_snoc hd_append)
  qed
qed

lemma show_digits:
  "list_all is_digit s \<Longrightarrow> s \<noteq> [] \<Longrightarrow> hd s \<noteq> CHR ''0'' \<Longrightarrow> show_nat (digits_to_nat s) = s"
proof (induction s rule: rev_induct)
  case Nil
  then show ?case by simp
next
  case (snoc c s)
  let ?d = "of_char c - 48 :: nat"
  have d: "char_of (48 + ?d) = c" "?d < 10" using snoc.prems digit_char by simp_all
  have u: "show_nat n = (if n < 10 then [char_of (48 + n)] else show_nat (n div 10) @ [char_of (48 + n mod 10)])"
    for n by (rule show_nat.simps)
  show ?case
  proof (cases "s = []")
    case True
    then show ?thesis using d u [of ?d] by (simp add: digits_to_nat_def)
  next
    case False
    with snoc.prems have s: "list_all is_digit s" "hd s \<noteq> CHR ''0''" by (simp_all add: hd_append)
    let ?n = "digits_to_nat s * 10 + ?d"
    have "\<not> ?n < 10" using digits_pos [OF s(1) False s(2)] by simp
    moreover have "?n div 10 = digits_to_nat s" "?n mod 10 = ?d" using d(2) by simp_all
    ultimately have "show_nat ?n = show_nat (digits_to_nat s) @ [c]" using u [of ?n] d(1) by simp
    then show ?thesis using snoc.IH [OF s(1) False s(2)] by (simp add: digits_to_nat_snoc)
  qed
qed

lemma show_octet: "parse_octet s = Some n \<Longrightarrow> show_nat n = s"
proof -
  assume p: "parse_octet s = Some n"
  show ?thesis
  proof (cases "s = ''0''")
    case True
    with p show ?thesis by (subst show_nat.simps) (auto simp: parse_octet_def digits_to_nat_def Let_def split: if_splits)
  next
    case False
    with p show ?thesis using show_digits [of s] by (auto simp: parse_octet_def Let_def split: if_splits)
  qed
qed

lemma show_octets: "parse_octets ss = Some ns \<Longrightarrow> map show_nat ns = ss"
  by (induction ss arbitrary: ns) (auto simp: show_octet split: option.splits)

lemma show_ipv4_canonical: "octets_of_ipv4 s = Some ns \<Longrightarrow> show_ipv4 ns = s"
  using join_split_on [of "CHR ''.''" s]
  by (auto simp: octets_of_ipv4_def show_ipv4_def Let_def show_octets split: if_splits)

lemma octet_bound: "parse_octet s = Some n \<Longrightarrow> n \<le> 255"
  by (auto simp: parse_octet_def Let_def split: if_splits)

lemma octets_bound: "parse_octets ss = Some ns \<Longrightarrow> length ns = length ss \<and> (\<forall>n \<in> set ns. n \<le> 255)"
  by (induction ss arbitrary: ns) (auto simp: octet_bound split: option.splits)

section \<open>Properties\<close>

text \<open>An accepted address is returned exactly as written, has four octets, and lies in no private,
  shared, loopback, link-local, multicast or reserved network.\<close>

lemma public_ipv4_only:
  assumes "require_public_ipv4 value = Inr host"
  shows "host = value \<and> (\<exists>ns. octets_of_ipv4 value = Some ns \<and> length ns = 4
    \<and> \<not> in_network [100,64,0,0] 10 (address_of ns) \<and> \<not> is_private (address_of ns)
    \<and> \<not> is_loopback (address_of ns) \<and> \<not> is_link_local (address_of ns) \<and> \<not> is_multicast (address_of ns)
    \<and> \<not> is_reserved (address_of ns) \<and> address_of ns \<noteq> 0)"
proof -
  obtain ns where ns: "octets_of_ipv4 value = Some ns"
    using assms by (auto simp: require_public_ipv4_def split: option.splits)
  then have "length ns = 4" by (auto simp: octets_of_ipv4_def Let_def dest: octets_bound split: if_splits)
  with ns assms show ?thesis
    by (auto simp: require_public_ipv4_def Let_def is_global_def is_unspecified_def show_ipv4_canonical split: if_splits)
qed

lemma sample_addresses:
  "require_public_ipv4 ''8.8.8.8'' = Inr ''8.8.8.8''"
  "require_public_ipv4 ''10.1.2.3'' = Inl Not_globally_routable"
  "require_public_ipv4 ''100.64.0.1'' = Inl Not_globally_routable"
  "require_public_ipv4 ''8.8.8.08'' = Inl Not_ipv4_literal"
  by code_simp+

lemma public_ipv4_only_instance: "\<exists>ns. octets_of_ipv4 ''8.8.8.8'' = Some ns \<and> \<not> is_private (address_of ns)"
  using public_ipv4_only [OF sample_addresses(1)] by blast

end
