(* ===== verification/Chain.thy ===== *)
theory Chain
  imports Completion Endpoints
begin

text \<open>
  \<open>src/dolores_subnet/chain.py\<close>: deadlines on chain reads, the facade over the Bittensor SDK, the
  readiness checks and the publication of weights.  What the SDK answers is the argument: a
  \<open>substrate\<close> holds the results of the methods the client calls, and \<open>sdk\<close> the raw
  values that the facade class turns into them.  Exceptions are values with their class and text.
  Writes to the archive succeed; a process that dies between two of them is treated in the theory of
  the whole system.
\<close>

record exn =
  exn_type :: string
  exn_text :: string

section \<open>Deadlines\<close>

text \<open>A blocking call returns, raises, or is still running when the deadline passes.\<close>

datatype 'a call = Returns 'a | Raises exn | Overruns

datatype read_error = Read_timeout | Read_raised exn

record alarm =
  al_timer :: "pyfloat \<times> pyfloat"
  al_handler :: nat

record call_context =
  ctx_posix :: bool
  ctx_main_thread :: bool
  ctx_installs :: bool

definition expire_handler :: nat where
  "expire_handler = 1"

text \<open>The \<open>finally\<close> block: clear the timer, then the previous handler and timer.\<close>

definition restore_alarm :: "alarm \<Rightarrow> alarm \<Rightarrow> alarm" where
  "restore_alarm previous now =
     (let cleared = now\<lparr>al_timer := (Fin 0, Fin 0)\<rparr>;
          handled = cleared\<lparr>al_handler := al_handler previous\<rparr>
      in handled\<lparr>al_timer := al_timer previous\<rparr>)"

text \<open>
  The function sees the installed alarm and may change it.  The result, the alarm state afterwards
  and whether the function was called.
\<close>

definition bounded_call ::
  "call_context \<Rightarrow> pyfloat \<Rightarrow> (alarm \<Rightarrow> 'a call \<times> alarm) \<Rightarrow> alarm \<Rightarrow> (read_error + 'a) \<times> alarm \<times> bool" where
  "bounded_call ctx duration fn alarm =
     (if \<not> ctx_posix ctx then (Inl Read_timeout, alarm, False)
      else if \<not> ctx_main_thread ctx then (Inl Read_timeout, alarm, False)
      else if \<not> is_fin duration \<or> fle duration (Fin 0) then (Inl Read_timeout, alarm, False)
      else if flt (Fin 0) (fst (al_timer alarm)) \<or> flt (Fin 0) (snd (al_timer alarm))
      then (Inl Read_timeout, alarm, False)
      else
        let handled = alarm\<lparr>al_handler := expire_handler\<rparr> in
        if \<not> ctx_installs ctx then (Inl Read_timeout, restore_alarm alarm handled, False)
        else
          (case fn (handled\<lparr>al_timer := (duration, Fin 0)\<rparr>) of
             (Returns a, now) \<Rightarrow> (Inr a, restore_alarm alarm now, True)
           | (Raises e, now) \<Rightarrow> (Inl (Read_raised e), restore_alarm alarm now, True)
           | (Overruns, now) \<Rightarrow> (Inl Read_timeout, restore_alarm alarm now, True)))"

section \<open>The SDK facade\<close>

text \<open>The outcome of probing one optional method: missing, answering, refusing the keyword (then called by position) or failing.\<close>

datatype 'a probe = Absent | Answers 'a | Refuses_keyword "exn + 'a" | Fails exn

record sdk =
  sdk_block :: "exn + int"
  sdk_exists :: "bool probe"
  sdk_all_netuids :: "int list"
  sdk_metagraph :: "exn + metagraph"
  sdk_rate_limits :: "int probe list"
  sdk_commit_reveal :: "bool probe list"
  sdk_weights :: "exn + (int \<times> (int \<times> int) list) list"

definition subnet_exists :: "sdk \<Rightarrow> int \<Rightarrow> exn + bool" where
  "subnet_exists k uid =
     (case sdk_exists k of
        Absent \<Rightarrow> Inr (uid \<in> set (sdk_all_netuids k))
      | Answers b \<Rightarrow> Inr b
      | Refuses_keyword r \<Rightarrow> r
      | Fails e \<Rightarrow> Inl e)"

definition hotkey_uid :: "metagraph \<Rightarrow> string \<Rightarrow> int option" where
  "hotkey_uid mg hotkey =
     (case index_of hotkey (mg_hotkeys mg) of
        None \<Rightarrow> None
      | Some i \<Rightarrow> Some (if i < length (mg_uids mg) then mg_uids mg ! i else int i))"

text \<open>\<open>xs[i]\<close> counts from the end for negative \<open>i\<close>.\<close>

definition py_nth :: "'a list \<Rightarrow> int \<Rightarrow> exn + 'a" where
  "py_nth xs i =
     (let j = (if 0 \<le> i then i else int (length xs) + i) in
      if 0 \<le> j \<and> j < int (length xs) then Inr (xs ! nat j)
      else Inl \<lparr>exn_type = ''IndexError'', exn_text = ''list index out of range''\<rparr>)"

definition validator_permit :: "metagraph \<Rightarrow> int \<Rightarrow> exn + bool" where
  "validator_permit mg uid =
     (if uid < int (length (mg_permits mg)) then py_nth (mg_permits mg) uid else Inr False)"

fun first_limit :: "int probe list \<Rightarrow> exn + int" where
  "first_limit [] = Inr 0"
| "first_limit (Absent # ps) = first_limit ps"
| "first_limit (Answers n # ps) = Inr n"
| "first_limit (Refuses_keyword r # ps) = r"
| "first_limit (Fails e # ps) = first_limit ps"

fun first_commit_reveal :: "bool probe list \<Rightarrow> bool option" where
  "first_commit_reveal [] = None"
| "first_commit_reveal (Absent # ps) = first_commit_reveal ps"
| "first_commit_reveal (Answers b # ps) = Some b"
| "first_commit_reveal (Refuses_keyword (Inr b) # ps) = Some b"
| "first_commit_reveal (Refuses_keyword (Inl e) # ps) = first_commit_reveal ps"
| "first_commit_reveal (Fails e # ps) = first_commit_reveal ps"

definition blocks_since_last_update :: "sdk \<Rightarrow> metagraph \<Rightarrow> int \<Rightarrow> exn + int option" where
  "blocks_since_last_update k mg uid =
     (case mg_last_update mg of
        None \<Rightarrow> Inr None
      | Some updates \<Rightarrow>
          if int (length updates) \<le> uid then Inr None
          else bind_result (sdk_block k) (\<lambda>now.
               bind_result (py_nth updates uid) (\<lambda>last. Inr (Some (max 0 (now - last))))))"

definition pair_json :: "int \<times> int \<Rightarrow> json" where
  "pair_json p = JArr [JInt (fst p), JInt (snd p)]"

definition read_back_weights :: "sdk \<Rightarrow> int \<Rightarrow> exn + json" where
  "read_back_weights k validator_uid =
     bind_result (sdk_weights k) (\<lambda>rows.
     let row = (case List.find (\<lambda>(uid, ws). uid = validator_uid) rows of None \<Rightarrow> [] | Some (uid, ws) \<Rightarrow> ws) in
     Inr (JObj [(''validator_uid'', JInt validator_uid), (''weights_u16'', JArr (map pair_json row))]))"

definition unpublished_hosts :: "string list" where
  "unpublished_hosts = [[], ''0.0.0.0'', ''::'', ''[::]'']"

record endpoint =
  ep_host :: string
  ep_port :: int
  ep_hotkey :: string
  ep_uid :: int
  ep_coldkey :: string

definition metagraph_endpoints :: "metagraph \<Rightarrow> string \<Rightarrow> endpoint list" where
  "metagraph_endpoints mg exclude_hotkey =
     map (\<lambda>(i, hotkey, ax). \<lparr>ep_host = ax_ip ax, ep_port = ax_port ax, ep_hotkey = hotkey,
            ep_uid = (case hotkey_uid mg hotkey of None \<Rightarrow> int i | Some uid \<Rightarrow> uid), ep_coldkey = ax_coldkey ax\<rparr>)
       (filter (\<lambda>(i, hotkey, ax). hotkey \<noteq> exclude_hotkey \<and> 0 < ax_port ax \<and> ax_ip ax \<notin> set unpublished_hosts)
         (zip [0..<length (mg_hotkeys mg)] (zip (mg_hotkeys mg) (mg_axons mg))))"

section \<open>The client\<close>

record substrate =
  st_validator_hotkey :: string
  st_block :: "exn + int"
  st_subnet_exists :: "exn + bool"
  st_hotkey_uid :: "string \<Rightarrow> exn + int option"
  st_validator_permit :: "int \<Rightarrow> exn + bool"
  st_rate_limit :: "exn + int"
  st_blocks_since :: "int \<Rightarrow> exn + int option"
  st_commit_reveal :: "exn + bool option"
  st_process_and_convert :: "int list \<Rightarrow> pyfloat list \<Rightarrow> exn + (int list \<times> int list)"
  st_set_weights :: "int list \<Rightarrow> int list \<Rightarrow> int \<Rightarrow> exn + (bool \<times> jdict)"
  st_read_back :: "int \<Rightarrow> exn + json"
  st_endpoints :: "string \<Rightarrow> exn + endpoint list"

text \<open>
  A response of \<open>set_weights\<close> is a dictionary (flag true) or an object, given by its attributes.
  The facade over raw SDK values:
\<close>

definition substrate_of ::
  "string \<Rightarrow> int \<Rightarrow> sdk \<Rightarrow> (int list \<Rightarrow> pyfloat list \<Rightarrow> exn + (int list \<times> int list)) \<Rightarrow>
   (int list \<Rightarrow> int list \<Rightarrow> int \<Rightarrow> exn + (bool \<times> jdict)) \<Rightarrow> substrate" where
  "substrate_of hotkey uid k convert submit =
     \<lparr>st_validator_hotkey = hotkey, st_block = sdk_block k, st_subnet_exists = subnet_exists k uid,
      st_hotkey_uid = (\<lambda>hk. bind_result (sdk_metagraph k) (\<lambda>mg. Inr (hotkey_uid mg hk))),
      st_validator_permit = (\<lambda>u. bind_result (sdk_metagraph k) (\<lambda>mg. validator_permit mg u)),
      st_rate_limit = first_limit (sdk_rate_limits k),
      st_blocks_since = (\<lambda>u. bind_result (sdk_metagraph k) (\<lambda>mg. blocks_since_last_update k mg u)),
      st_commit_reveal = Inr (first_commit_reveal (sdk_commit_reveal k)),
      st_process_and_convert = convert, st_set_weights = submit, st_read_back = read_back_weights k,
      st_endpoints = (\<lambda>hk. bind_result (sdk_metagraph k) (\<lambda>mg. Inr (metagraph_endpoints mg hk)))\<rparr>"

definition live_confirmation :: string where
  "live_confirmation = ''I-UNDERSTAND-THIS-WILL-SUBMIT-WEIGHTS''"

record subtensor_chain =
  sc_network :: string
  sc_netuid :: "int option"
  sc_publish :: string
  sc_allow_extrinsics :: bool
  sc_allow_commit_reveal :: bool
  sc_confirmation :: string

datatype client_error =
    Publish_mode_unsupported
  | Publish_mode_unknown
  | Publish_without_network
  | Unsafe_client_network config_error

definition subtensor_client ::
  "string \<Rightarrow> int option \<Rightarrow> string \<Rightarrow> bool \<Rightarrow> bool \<Rightarrow> string \<Rightarrow> client_error + subtensor_chain" where
  "subtensor_client net uid publish extrinsics commit_reveal confirmation =
     (if publish \<notin> set [''dry-run'', ''live''] then Inl Publish_mode_unsupported
      else bind_result (map_error Unsafe_client_network (assert_safe_network (Some net))) (\<lambda>safe.
        Inr \<lparr>sc_network = safe, sc_netuid = uid, sc_publish = publish, sc_allow_extrinsics = extrinsics,
             sc_allow_commit_reveal = commit_reveal, sc_confirmation = confirmation\<rparr>))"

datatype chain_client = Null_chain | Subtensor_chain subtensor_chain

definition build_chain_client :: "subnet_config \<Rightarrow> string \<Rightarrow> bool \<Rightarrow> string \<Rightarrow> client_error + chain_client" where
  "build_chain_client cfg publish extrinsics confirmation =
     (if publish \<notin> set [''off'', ''dry-run'', ''live''] then Inl Publish_mode_unknown
      else if publish = ''off'' then Inr Null_chain
      else (case network cfg of
              None \<Rightarrow> Inl Publish_without_network
            | Some net \<Rightarrow>
                bind_result (subtensor_client net (netuid cfg) publish extrinsics (allow_commit_reveal cfg) confirmation)
                  (\<lambda>c. Inr (Subtensor_chain c))))"

section \<open>Readiness\<close>

definition preflight_record ::
  "subtensor_chain \<Rightarrow> substrate \<Rightarrow> string \<Rightarrow> string \<Rightarrow> int \<Rightarrow> bool \<Rightarrow> int option \<Rightarrow> bool \<Rightarrow> int option \<Rightarrow> int option
     \<Rightarrow> bool option \<Rightarrow> bool \<Rightarrow> jdict" where
  "preflight_record c st mode reason block exists uid permit limit since reveal failed =
     [(''mode'', JStr mode), (''reason'', JStr reason), (''network'', JStr (sc_network c)),
      (''netuid'', opt_int (sc_netuid c)), (''block'', JInt block), (''subnet_exists'', JBool exists),
      (''validator_hotkey'', JStr (st_validator_hotkey st)), (''validator_uid'', opt_int uid),
      (''validator_registered'', JBool (uid \<noteq> None)), (''validator_permit'', JBool permit),
      (''weights_rate_limit'', opt_int limit), (''blocks_since_last_update'', opt_int since),
      (''commit_reveal_enabled'', (case reveal of None \<Rightarrow> JNull | Some b \<Rightarrow> JBool b)),
      (''commit_reveal_probe_failed'', JBool failed)]"

definition preflight :: "subtensor_chain \<Rightarrow> substrate \<Rightarrow> exn + jdict" where
  "preflight c st =
     (if sc_netuid c = None
      then Inr [(''mode'', JStr ''error''), (''reason'', JStr ''netuid_unset''), (''netuid'', JNull)]
      else
        bind_result (st_block st) (\<lambda>block.
        bind_result (st_subnet_exists st) (\<lambda>exists.
        if \<not> exists then Inr (preflight_record c st ''error'' ''netuid_absent'' block False None False None None None False)
        else
          bind_result (st_hotkey_uid st (st_validator_hotkey st)) (\<lambda>v.
          (case v of
             None \<Rightarrow> Inr (preflight_record c st ''error'' ''validator_unregistered'' block True None False None None None False)
           | Some uid \<Rightarrow>
               bind_result (st_validator_permit st uid) (\<lambda>permit.
               bind_result (st_rate_limit st) (\<lambda>limit.
               bind_result (st_blocks_since st uid) (\<lambda>since.
               (case st_commit_reveal st of
                  Inl e \<Rightarrow>
                    Inr (preflight_record c st ''error'' ''commit_reveal_probe_failed'' block True (Some uid) permit
                           (Some limit) since None True @ [(''commit_reveal_probe_error'', JStr (exn_text e))])
                | Inr None \<Rightarrow>
                    Inr (preflight_record c st ''error'' ''commit_reveal_probe_failed'' block True (Some uid) permit
                           (Some limit) since None True)
                | Inr (Some b) \<Rightarrow>
                    Inr (preflight_record c st ''read_only'' ''ok'' block True (Some uid) permit
                           (Some limit) since (Some b) False))))))))))"

fun int_of_json :: "json \<Rightarrow> int" where
  "int_of_json (JInt i) = i"
| "int_of_json _ = 0"

definition readiness_skip_reason :: "subtensor_chain \<Rightarrow> jdict \<Rightarrow> string option" where
  "readiness_skip_reason c state =
     (let limit = jget state ''weights_rate_limit''; since = jget state ''blocks_since_last_update'';
          reveal = jget state ''commit_reveal_enabled'' in
      if \<not> truthy (jget_or state ''subnet_exists'' (JBool False)) then Some ''netuid_absent''
      else if jget state ''validator_uid'' = JNull then Some ''validator_unregistered''
      else if \<not> truthy (jget_or state ''validator_permit'' (JBool False)) then Some ''no_permit''
      else if limit \<noteq> JNull \<and> since \<noteq> JNull \<and> int_of_json since < int_of_json limit then Some ''rate_limited''
      else if reveal = JNull \<or> truthy (jget_or state ''commit_reveal_probe_failed'' (JBool False))
      then Some ''commit_reveal_probe_failed''
      else if truthy reveal \<and> \<not> sc_allow_commit_reveal c then Some ''commit_reveal_enabled''
      else None)"

section \<open>Payload\<close>

record uid_mapping =
  hotkey_to_uid :: "(string, int) dict"
  dropped_hotkeys :: "string list"

definition map_hotkeys :: "substrate \<Rightarrow> string list \<Rightarrow> exn + uid_mapping" where
  "map_hotkeys st active =
     bind_result (map_result (\<lambda>hk. bind_result (st_hotkey_uid st hk) (\<lambda>u. Inr (hk, u))) active) (\<lambda>pairs.
     Inr \<lparr>hotkey_to_uid = dict_sorted (fold (\<lambda>(hk, u) d. case u of None \<Rightarrow> d | Some uid \<Rightarrow> dict_set d hk uid) pairs []),
          dropped_hotkeys = map fst (filter (\<lambda>(hk, u). u = None) pairs)\<rparr>)"

definition client_endpoints :: "subtensor_chain \<Rightarrow> substrate \<Rightarrow> exn + endpoint list" where
  "client_endpoints c st =
     bind_result (st_endpoints st (st_validator_hotkey st)) (\<lambda>endpoints.
     if sc_network c \<noteq> ''test'' then Inr endpoints
     else Inr (concat (map (\<lambda>e. case require_public_ipv4 (ep_host e) of
                                  Inl _ \<Rightarrow> []
                                | Inr host \<Rightarrow> [e\<lparr>ep_host := host\<rparr>]) endpoints)))"

definition positive_weights :: "(string, pyfloat) dict \<Rightarrow> uid_mapping \<Rightarrow> (string \<times> int \<times> pyfloat) list" where
  "positive_weights weights m =
     map (\<lambda>(hk, uid). (hk, uid, dict_get_default weights hk (Fin 0)))
       (filter (\<lambda>(hk, uid). flt (Fin 0) (dict_get_default weights hk (Fin 0)))
         (sort_key snd (hotkey_to_uid m)))"

record payload =
  pl_netuid :: "int option"
  pl_uids :: "int list"
  pl_weights :: "int list"
  pl_version :: int
  pl_digest :: string

definition payload_fields :: "int option \<Rightarrow> int list \<Rightarrow> int list \<Rightarrow> int \<Rightarrow> jdict" where
  "payload_fields uid uids weights version =
     [(''netuid'', opt_int uid), (''uids_emitted'', JArr (map JInt uids)),
      (''weights_u16'', JArr (map JInt weights)), (''version_key'', JInt version)]"

definition payload_json :: "payload \<Rightarrow> json" where
  "payload_json p =
     JObj (payload_fields (pl_netuid p) (pl_uids p) (pl_weights p) (pl_version p)
           @ [(''payload_digest'', JStr (pl_digest p))])"

definition build_payload ::
  "'b env \<Rightarrow> subtensor_chain \<Rightarrow> substrate \<Rightarrow> (string, pyfloat) dict \<Rightarrow> uid_mapping \<Rightarrow> int \<Rightarrow> exn + payload" where
  "build_payload env c st weights m version =
     (let mapped = positive_weights weights m in
      bind_result
        (if mapped = [] then Inr ([], [])
         else
           let total = fsum (map (\<lambda>(hk, uid, v). v) mapped)
           in st_process_and_convert st (map (\<lambda>(hk, uid, v). uid) mapped)
                (map (\<lambda>(hk, uid, v). fdiv v total) mapped))
        (\<lambda>(uids, ws).
           Inr \<lparr>pl_netuid = sc_netuid c, pl_uids = uids, pl_weights = ws, pl_version = version,
                pl_digest = json_digest env (JObj (payload_fields (sc_netuid c) uids ws version))\<rparr>))"

section \<open>Properties of chain reads\<close>

lemma restore_alarm_id [simp]: "restore_alarm a b = a"
  by (simp add: restore_alarm_def)

text \<open>A bounded read leaves timer and handler as it found them on every path, calls the function only on
  the main thread of a POSIX process with a positive finite deadline and no timer pending, and turns an
  overrun into a timeout, never into a value.\<close>

lemma bounded_call_contract:
  assumes "bounded_call ctx duration fn alarm = (r, alarm', called)"
  shows "alarm' = alarm
    \<and> (called \<longrightarrow> ctx_posix ctx \<and> ctx_main_thread ctx \<and> is_fin duration \<and> \<not> fle duration (Fin 0)
         \<and> \<not> flt (Fin 0) (fst (al_timer alarm)) \<and> \<not> flt (Fin 0) (snd (al_timer alarm)))
    \<and> (\<not> called \<longrightarrow> r = Inl Read_timeout)
    \<and> (\<forall>v. r = Inr v \<longrightarrow> called)
    \<and> ((\<forall>al. fst (fn al) = Overruns) \<longrightarrow> r = Inl Read_timeout)"
proof -
  have "r = Inl Read_timeout" if over: "\<forall>al. fst (fn al) = Overruns"
  proof -
    have "fst (fn (alarm\<lparr>al_handler := expire_handler, al_timer := (duration, Fin 0)\<rparr>)) = Overruns" using over by blast
    with assms show ?thesis by (auto simp: bounded_call_def Let_def split: if_splits prod.splits call.splits)
  qed
  moreover have "alarm' = alarm \<and> (called \<longrightarrow> ctx_posix ctx \<and> ctx_main_thread ctx \<and> is_fin duration
      \<and> \<not> fle duration (Fin 0) \<and> \<not> flt (Fin 0) (fst (al_timer alarm)) \<and> \<not> flt (Fin 0) (snd (al_timer alarm)))
    \<and> (\<not> called \<longrightarrow> r = Inl Read_timeout) \<and> (\<forall>v. r = Inr v \<longrightarrow> called)"
    using assms by (auto simp: bounded_call_def Let_def split: if_splits prod.splits call.splits)
  ultimately show ?thesis by blast
qed

definition sample_alarm :: alarm where
  "sample_alarm = \<lparr>al_timer = (Fin 0, Fin 0), al_handler = 7\<rparr>"

lemma bounded_call_contract_instance:
  "fst (snd (bounded_call \<lparr>ctx_posix = True, ctx_main_thread = True, ctx_installs = True\<rparr> (Fin 90)
      (\<lambda>al. (Overruns, al)) sample_alarm :: (read_error + int) \<times> alarm \<times> bool)) = sample_alarm"
proof -
  obtain r al c where e: "bounded_call \<lparr>ctx_posix = True, ctx_main_thread = True, ctx_installs = True\<rparr> (Fin 90)
      (\<lambda>al. (Overruns, al)) sample_alarm = ((r :: read_error + int), al, c)" by (metis prod_cases3)
  from bounded_call_contract [OF e] e show ?thesis by simp
qed

lemma mem_zip_axons:
  "(i, hk, ax) \<in> set (zip [0..<length hs] (zip hs axs)) \<Longrightarrow> hk \<in> set hs \<and> ax \<in> set axs"
  by (meson set_zip_leftD set_zip_rightD)

text \<open>On the test network the validator contacts only endpoints that another hotkey of the metagraph
  published, at a public IPv4 address and a positive port.\<close>

lemma contacted_endpoints:
  assumes "client_endpoints c (substrate_of hotkey uid k convert submit) = Inr eps" "sc_network c = ''test''"
    and "sdk_metagraph k = Inr mg" "e \<in> set eps"
  shows "ep_hotkey e \<in> set (mg_hotkeys mg) \<and> ep_hotkey e \<noteq> hotkey \<and> 0 < ep_port e
    \<and> require_public_ipv4 (ep_host e) = Inr (ep_host e)"
proof -
  have canon: "require_public_ipv4 h = Inr h' \<Longrightarrow> h' = h" for h h'
    by (auto simp: require_public_ipv4_def Let_def show_ipv4_canonical split: option.splits if_splits)
  from assms obtain e0 where e0: "e0 \<in> set (metagraph_endpoints mg hotkey)"
      "require_public_ipv4 (ep_host e0) = Inr (ep_host e)" "e = e0\<lparr>ep_host := ep_host e\<rparr>"
    by (auto simp: client_endpoints_def substrate_of_def split: sum.splits)
  then have "ep_hotkey e0 \<in> set (mg_hotkeys mg) \<and> ep_hotkey e0 \<noteq> hotkey \<and> 0 < ep_port e0"
    by (auto simp: metagraph_endpoints_def dest: mem_zip_axons)
  moreover have "ep_hotkey e = ep_hotkey e0" "ep_port e = ep_port e0"
    using e0(3) by (metis endpoint.select_convs(3) endpoint.update_convs(1) endpoint.surjective,
        metis endpoint.select_convs(2) endpoint.update_convs(1) endpoint.surjective)
  ultimately show ?thesis using canon [OF e0(2)] e0(2) by simp
qed

definition sample_metagraph :: metagraph where
  "sample_metagraph = \<lparr>mg_hotkeys = [''v'', ''m'', ''n''], mg_uids = [0, 1, 2], mg_permits = [True, False, False],
     mg_last_update = Some [0, 0, 0],
     mg_axons = [\<lparr>ax_ip = ''0.0.0.0'', ax_port = 0, ax_coldkey = ''c''\<rparr>,
       \<lparr>ax_ip = ''8.8.8.8'', ax_port = 8091, ax_coldkey = ''c''\<rparr>, \<lparr>ax_ip = ''10.0.0.1'', ax_port = 8091, ax_coldkey = ''c''\<rparr>]\<rparr>"

definition sample_sdk :: sdk where
  "sample_sdk = \<lparr>sdk_block = Inr 1000, sdk_exists = Answers True, sdk_all_netuids = [], sdk_metagraph = Inr sample_metagraph,
     sdk_rate_limits = [Answers 100], sdk_commit_reveal = [Answers False],
     sdk_weights = Inr [(0, [(1, 65535)])]\<rparr>"

definition sample_substrate :: substrate where
  "sample_substrate = substrate_of ''v'' 523 sample_sdk (\<lambda>uids ws. Inr (uids, map (\<lambda>_. 65535) uids))
     (\<lambda>uids ws v. Inr (True, [(''success'', JBool True)]))"

definition sample_chain :: subtensor_chain where
  "sample_chain = \<lparr>sc_network = ''test'', sc_netuid = Some 523, sc_publish = ''live'', sc_allow_extrinsics = True,
     sc_allow_commit_reveal = False, sc_confirmation = live_confirmation\<rparr>"

lemma sample_endpoints:
  "client_endpoints sample_chain sample_substrate = Inr
     [\<lparr>ep_host = ''8.8.8.8'', ep_port = 8091, ep_hotkey = ''m'', ep_uid = 1, ep_coldkey = ''c''\<rparr>]"
  by code_simp

lemma contacted_endpoints_instance:
  "require_public_ipv4 ''8.8.8.8'' = Inr ''8.8.8.8''"
  using contacted_endpoints [OF sample_endpoints [unfolded sample_substrate_def], of sample_metagraph
      "\<lparr>ep_host = ''8.8.8.8'', ep_port = 8091, ep_hotkey = ''m'', ep_uid = 1, ep_coldkey = ''c''\<rparr>"]
  by (simp add: sample_chain_def sample_sdk_def)

end
