(* ===== verification/Publication.thy ===== *)
theory Publication
  imports Chain
begin

text \<open>
  \<open>apply_weights\<close> of the chain clients (\<open>src/dolores_subnet/chain.py\<close>): receipts, the live
  attempt record that is written before the signing call, and the outcome.  The state is the archive
  together with the calls of \<open>set_weights\<close> made so far, each with the archive as it was at the call.
\<close>

record set_weights_call =
  call_uids :: "int list"
  call_weights :: "int list"
  call_version :: int

record 'b chain_world =
  cw_disk :: "'b disk"
  cw_calls :: "(set_weights_call \<times> 'b disk) list"

type_synonym ('b, 'e, 'a) chain_op = "('b chain_world, 'e, 'a) op"

definition write_world :: "'b env \<Rightarrow> string \<Rightarrow> json \<Rightarrow> 'b chain_world \<Rightarrow> 'b chain_world" where
  "write_world env p v w = w\<lparr>cw_disk := write_json env p v (cw_disk w)\<rparr>"

section \<open>What a call carries\<close>

record weights_request =
  rq_epoch :: int
  rq_weights :: "(string, pyfloat) dict"
  rq_active :: "string list"
  rq_spec_version :: int
  rq_fallback_reason :: "string option"

text \<open>What is known when a receipt is written; absent parts are \<open>None\<close>.\<close>

record receipt_parts =
  rp_state :: "jdict option"
  rp_mapping :: "uid_mapping option"
  rp_payload :: "payload option"
  rp_submission :: "jdict option"
  rp_read_back :: json
  rp_extra :: "jdict option"

definition no_parts :: receipt_parts where
  "no_parts = \<lparr>rp_state = None, rp_mapping = None, rp_payload = None, rp_submission = None,
     rp_read_back = JNull, rp_extra = None\<rparr>"

definition receipt_json ::
  "subtensor_chain \<Rightarrow> weights_request \<Rightarrow> string \<Rightarrow> string \<Rightarrow> receipt_parts \<Rightarrow> json" where
  "receipt_json c rq mode reason parts =
     (let state = (case rp_state parts of None \<Rightarrow> [] | Some s \<Rightarrow> s);
          m = (case rp_mapping parts of
                 None \<Rightarrow> \<lparr>hotkey_to_uid = [], dropped_hotkeys = rq_active rq\<rparr> | Some m \<Rightarrow> m);
          digest = (case rp_payload parts of None \<Rightarrow> JNull | Some p \<Rightarrow> JStr (pl_digest p))
      in JObj ([(''epoch_id'', JInt (rq_epoch rq)), (''mode'', JStr mode), (''reason'', JStr reason),
           (''network'', JStr (sc_network c)), (''netuid'', opt_int (sc_netuid c)),
           (''spec_version'', JInt (rq_spec_version rq)),
           (''validator'', JObj [(''hotkey'', jget state ''validator_hotkey''), (''uid'', jget state ''validator_uid'')]),
           (''chain_state'', JObj state),
           (''active_hotkey_to_uid'', JObj (map (\<lambda>(hk, uid). (hk, JInt uid)) (hotkey_to_uid m))),
           (''dropped_hotkeys'', JArr (map JStr (dropped_hotkeys m))),
           (''normalized_weights'', JObj (dict_of_keys (sort (rq_active rq))
              (\<lambda>hk. JFloat (dict_get_default (rq_weights rq) hk (Fin 0))))),
           (''payload'', (case rp_payload parts of None \<Rightarrow> JNull | Some p \<Rightarrow> payload_json p)),
           (''payload_digest'', digest), (''submission'', opt_obj (rp_submission parts)),
           (''read_back'', rp_read_back parts)]
         @ (case rp_extra parts of None \<Rightarrow> [] | Some x \<Rightarrow> [(''extra'', JObj x)])))"

definition receipt_handle :: "subtensor_chain \<Rightarrow> int \<Rightarrow> receipt_parts \<Rightarrow> jdict" where
  "receipt_handle c epoch_id parts =
     [(''receipt_file'', JStr (chain_receipt_name epoch_id)),
      (''payload_digest'', (case rp_payload parts of None \<Rightarrow> JNull | Some p \<Rightarrow> JStr (pl_digest p))),
      (''netuid'', opt_int (sc_netuid c)),
      (''n_uids'', JInt (case rp_payload parts of None \<Rightarrow> 0 | Some p \<Rightarrow> int (length (pl_uids p))))]"

text \<open>Write the receipt and return the result that refers to it.\<close>

definition conclude ::
  "'b env \<Rightarrow> subtensor_chain \<Rightarrow> weights_request \<Rightarrow> string \<Rightarrow> string \<Rightarrow> receipt_parts
     \<Rightarrow> ('b, 'e, chain_weight_result) chain_op" where
  "conclude env c rq mode reason parts =
     bind_op (modify_op (write_world env (chain_receipt_path (rq_epoch rq)) (receipt_json c rq mode reason parts)))
       (\<lambda>_. return_op \<lparr>res_mode = mode, res_receipt = Some (receipt_handle c (rq_epoch rq) parts), res_reason = Some reason\<rparr>)"

datatype attempt_status = Started | Ambiguous_attempt | Completed_attempt

fun status_text :: "attempt_status \<Rightarrow> string" where
  "status_text Started = ''started''"
| "status_text Ambiguous_attempt = ''ambiguous''"
| "status_text Completed_attempt = ''completed''"

definition attempt_json ::
  "subtensor_chain \<Rightarrow> weights_request \<Rightarrow> payload \<Rightarrow> attempt_status \<Rightarrow> jdict option \<Rightarrow> string option \<Rightarrow> string option \<Rightarrow> json" where
  "attempt_json c rq p status submission receipt_file error_type =
     JObj [(''version'', JInt 1), (''epoch_id'', JInt (rq_epoch rq)), (''mode'', JStr ''live_attempt''),
       (''status'', JStr (status_text status)), (''network'', JStr (sc_network c)), (''netuid'', opt_int (sc_netuid c)),
       (''spec_version'', JInt (rq_spec_version rq)), (''payload_digest'', JStr (pl_digest p)),
       (''payload'', payload_json p), (''submission'', opt_obj submission),
       (''receipt_file'', opt_str receipt_file), (''error_type'', opt_str error_type)]"

definition write_attempt ::
  "'b env \<Rightarrow> subtensor_chain \<Rightarrow> weights_request \<Rightarrow> payload \<Rightarrow> attempt_status \<Rightarrow> jdict option \<Rightarrow> string option \<Rightarrow> string option
     \<Rightarrow> ('b, 'e, unit) chain_op" where
  "write_attempt env c rq p status submission receipt_file error_type =
     modify_op (write_world env (chain_attempt_path (rq_epoch rq))
       (attempt_json c rq p status submission receipt_file error_type))"

section \<open>Gates\<close>

definition missing_extrinsic_gates :: "host \<Rightarrow> subtensor_chain \<Rightarrow> string list" where
  "missing_extrinsic_gates h c =
     (if sc_allow_extrinsics c then [] else [''client_flag''])
     @ (if environ h ''DOLORES_ALLOW_EXTRINSICS'' = Some ''1'' then [] else [''env''])
     @ (if sc_publish c = ''live'' then [] else [''cli_live''])
     @ (if sc_confirmation c = live_confirmation then [] else [''confirmation''])"

definition extrinsics_allowed :: "host \<Rightarrow> subtensor_chain \<Rightarrow> bool" where
  "extrinsics_allowed h c = (missing_extrinsic_gates h c = [])"

section \<open>The SDK's response\<close>

definition json_scalar :: "'b env \<Rightarrow> json \<Rightarrow> json" where
  "json_scalar env v = (case v of JArr xs \<Rightarrow> JStr (render env v) | JObj d \<Rightarrow> JStr (render env v) | _ \<Rightarrow> v)"

fun first_present :: "jdict \<Rightarrow> string list \<Rightarrow> json" where
  "first_present d [] = JNull"
| "first_present d (k # ks) = (if jget d k \<noteq> JNull then jget d k else first_present d ks)"

definition metadata_value :: "json \<Rightarrow> string list \<Rightarrow> json" where
  "metadata_value source names = first_present (obj_of source) names"

definition optional_submission_field :: "'b env \<Rightarrow> string \<Rightarrow> json \<Rightarrow> string list \<Rightarrow> jdict" where
  "optional_submission_field env target source names =
     (let v = metadata_value source names in if v = JNull then [] else [(target, json_scalar env v)])"

definition text_or_empty :: "'b env \<Rightarrow> json \<Rightarrow> string" where
  "text_or_empty env v =
     (let w = or_else v (JStr []) in case w of JStr s \<Rightarrow> s | _ \<Rightarrow> render env w)"

text \<open>A dictionary and an object are read alike but for the names of three fields.\<close>

definition submission_from_response :: "'b env \<Rightarrow> bool \<times> jdict \<Rightarrow> jdict" where
  "submission_from_response env response =
     (let (is_dict, d) = response;
          receipt = jget d ''extrinsic_receipt'';
          message = jget_or d ''message'' (jget_or d (if is_dict then ''error'' else ''error_message'') (JStr []));
          included = jget d (if is_dict then ''included'' else ''is_included'');
          finalized = jget d (if is_dict then ''finalized'' else ''is_finalized'')
      in [(''success'', JBool (truthy (jget_or d ''success'' (jget_or d ''is_success'' (JBool False))))),
          (''message'', JStr (text_or_empty env message)),
          (''block_hash'', json_scalar env (or_else (jget d ''block_hash'') (metadata_value receipt [''block_hash'']))),
          (''extrinsic_hash'', json_scalar env
             (or_else (jget d ''extrinsic_hash'') (metadata_value receipt [''extrinsic_hash'']))),
          (''included'', json_scalar env
             (if included \<noteq> JNull then included else metadata_value receipt [''is_included'', ''included''])),
          (''finalized'', json_scalar env
             (if finalized \<noteq> JNull then finalized else metadata_value receipt [''is_finalized'', ''finalized'']))]
         @ optional_submission_field env ''block_number'' receipt [''block_number'']
         @ optional_submission_field env ''extrinsic_index'' receipt [''extrinsic_idx'', ''extrinsic_index'']
         @ optional_submission_field env ''receipt_success'' receipt [''is_success''])"

definition submission_from_error :: "exn \<Rightarrow> jdict" where
  "submission_from_error e =
     [(''success'', JBool False), (''message'', JStr (exn_text e)), (''block_hash'', JNull), (''extrinsic_hash'', JNull),
      (''included'', JBool False), (''finalized'', JBool False)]"

section \<open>Publication\<close>

datatype apply_error = Ambiguous_submission string | Apply_raised exn

definition skip_reasons :: "string list" where
  "skip_reasons = [''all_zero'', ''epoch_degraded_all_infra'']"

definition runtime_error :: "string \<Rightarrow> exn" where
  "runtime_error text = \<lparr>exn_type = ''RuntimeError'', exn_text = text\<rparr>"

text \<open>Whether the weights read back are the emitted ones.\<close>

definition expected_pairs :: "payload \<Rightarrow> exn + json" where
  "expected_pairs p =
     (if length (pl_uids p) \<noteq> length (pl_weights p)
      then Inl \<lparr>exn_type = ''ValueError'', exn_text = ''zip() arguments differ in length''\<rparr>
      else Inr (JArr (map pair_json (zip (pl_uids p) (pl_weights p)))))"

definition read_back_matches :: "json \<Rightarrow> json \<Rightarrow> bool" where
  "read_back_matches read_back expected =
     (if is_jobj read_back \<and> has_key (obj_of read_back) ''matches_submitted''
      then truthy (jget (obj_of read_back) ''matches_submitted'')
      else truthy read_back \<and> py_eq (jget (obj_of read_back) ''weights_u16'') expected)"

text \<open>
  From the response on: what the code checks before it writes the receipt.  The result is the
  submission record as far as it is known and either an exception or the reason and the read-back.
\<close>

definition judge_submission ::
  "'b env \<Rightarrow> substrate \<Rightarrow> jdict \<Rightarrow> payload \<Rightarrow> exn + (bool \<times> jdict) \<Rightarrow> jdict option \<times> (exn + (string \<times> json))" where
  "judge_submission env st state p response =
     (case response of
        Inl e \<Rightarrow> (None, Inl e)
      | Inr r \<Rightarrow>
          let submission = submission_from_response env r; reveal = jget state ''commit_reveal_enabled'' in
          (Some submission,
           if \<not> truthy (jget submission ''success'') then
             Inl (runtime_error (text_or_empty env
               (or_else (jget submission ''message'') (JStr ''set_weights returned non-success''))))
           else
             bind_result (st_read_back st (int_of_json (jget state ''validator_uid''))) (\<lambda>read_back.
             if reveal = JBool True then Inr (''submitted_commit_reveal'', read_back)
             else
               bind_result (expected_pairs p) (\<lambda>expected.
               if read_back_matches read_back expected then Inr (''submitted_ok'', read_back)
               else Inl (runtime_error ''post-submit weight read-back mismatch'')))))"

text \<open>The signing call: the archive as it is now goes into the record of calls.\<close>

definition call_set_weights :: "substrate \<Rightarrow> payload \<Rightarrow> int \<Rightarrow> ('b, 'e, exn + (bool \<times> jdict)) chain_op" where
  "call_set_weights st p version =
     bind_op get_op (\<lambda>w.
     bind_op (modify_op (\<lambda>w. w\<lparr>cw_calls := cw_calls w
        @ [(\<lparr>call_uids = pl_uids p, call_weights = pl_weights p, call_version = version\<rparr>, cw_disk w)]\<rparr>)) (\<lambda>_.
     return_op (st_set_weights st (pl_uids p) (pl_weights p) version)))"

definition submit_live ::
  "'b env \<Rightarrow> subtensor_chain \<Rightarrow> substrate \<Rightarrow> weights_request \<Rightarrow> jdict \<Rightarrow> uid_mapping \<Rightarrow> payload
     \<Rightarrow> ('b, apply_error, chain_weight_result) chain_op" where
  "submit_live env c st rq state m p =
     bind_op (write_attempt env c rq p Started None None None) (\<lambda>_.
     bind_op (call_set_weights st p (rq_spec_version rq)) (\<lambda>response.
     (case judge_submission env st state p response of
        (submission, Inl e) \<Rightarrow>
          bind_op (write_attempt env c rq p Ambiguous_attempt
              (Some (case submission of None \<Rightarrow> submission_from_error e | Some s \<Rightarrow> s)) None (Some (exn_type e))) (\<lambda>_.
          fail_op (Ambiguous_submission (chain_attempt_path (rq_epoch rq))))
      | (submission, Inr (reason, read_back)) \<Rightarrow>
          bind_op (conclude env c rq ''submitted'' reason
              (no_parts\<lparr>rp_state := Some state, rp_mapping := Some m, rp_payload := Some p,
                 rp_submission := submission, rp_read_back := read_back\<rparr>)) (\<lambda>result.
          bind_op (write_attempt env c rq p Completed_attempt submission
              (Some (chain_receipt_name (rq_epoch rq))) None) (\<lambda>_.
          return_op result)))))"

definition all_zero_weights :: "(string, pyfloat) dict \<Rightarrow> bool" where
  "all_zero_weights weights = list_all (\<lambda>v. v = Fin 0) (dict_values weights)"

definition subtensor_apply_weights ::
  "'b env \<Rightarrow> host \<Rightarrow> subtensor_chain \<Rightarrow> exn + substrate \<Rightarrow> weights_request
     \<Rightarrow> ('b, apply_error, chain_weight_result) chain_op" where
  "subtensor_apply_weights env h c connection rq =
     (let degraded = (case rq_fallback_reason rq of None \<Rightarrow> False | Some r \<Rightarrow> r \<in> set skip_reasons) in
      if degraded \<or> all_zero_weights (rq_weights rq) then
        conclude env c rq ''skipped''
          (case rq_fallback_reason rq of
             None \<Rightarrow> ''all_zero'' | Some r \<Rightarrow> if r \<in> set skip_reasons then r else ''all_zero'') no_parts
      else if sc_netuid c = None then conclude env c rq ''error'' ''netuid_unset'' no_parts
      else
        (case bind_result connection (\<lambda>st. bind_result (preflight c st) (\<lambda>state. Inr (st, state))) of
           Inl e \<Rightarrow>
             conclude env c rq ''error'' ''rpc_unreachable''
               (no_parts\<lparr>rp_extra := Some [(''error'', JStr (exn_text e))]\<rparr>)
         | Inr (st, state) \<Rightarrow>
             (case readiness_skip_reason c state of
                Some reason \<Rightarrow>
                  conclude env c rq
                    (if reason \<in> set [''netuid_absent'', ''validator_unregistered''] then ''error'' else ''skipped'')
                    reason (no_parts\<lparr>rp_state := Some state\<rparr>)
              | None \<Rightarrow>
                  bind_op (lift_op (map_error Apply_raised (map_hotkeys st (rq_active rq)))) (\<lambda>m.
                  if hotkey_to_uid m = [] then
                    conclude env c rq ''skipped'' ''no_registered_miners''
                      (no_parts\<lparr>rp_state := Some state, rp_mapping := Some m\<rparr>)
                  else
                    bind_op (lift_op (map_error Apply_raised
                       (build_payload env c st (rq_weights rq) m (rq_spec_version rq)))) (\<lambda>p.
                    let parts = no_parts\<lparr>rp_state := Some state, rp_mapping := Some m, rp_payload := Some p\<rparr> in
                    if sc_publish c = ''dry-run'' then conclude env c rq ''dry_run'' ''dry_run_ok'' parts
                    else if \<not> extrinsics_allowed h c then
                      conclude env c rq ''error'' ''extrinsics_not_allowed''
                        (parts\<lparr>rp_extra := Some [(''missing_gates'', JArr (map JStr (missing_extrinsic_gates h c)))]\<rparr>)
                    else submit_live env c st rq state m p)))))"

definition null_apply_weights :: "weights_request \<Rightarrow> ('b, apply_error, chain_weight_result) chain_op" where
  "null_apply_weights rq =
     return_op \<lparr>res_mode = ''fallback'', res_receipt = None,
       res_reason = or_text (rq_fallback_reason rq) (Some ''offline'')\<rparr>"

text \<open>The client a configuration selects, with what connecting to the network yields.\<close>

definition apply_weights ::
  "'b env \<Rightarrow> host \<Rightarrow> exn + substrate \<Rightarrow> chain_client \<Rightarrow> weights_request
     \<Rightarrow> ('b, apply_error, chain_weight_result) chain_op" where
  "apply_weights env h connection client rq =
     (case client of
        Null_chain \<Rightarrow> null_apply_weights rq
      | Subtensor_chain c \<Rightarrow> subtensor_apply_weights env h c connection rq)"

section \<open>Outcomes\<close>

lemma conclude_eq:
  "conclude env c rq mode reason parts w =
     (Inr \<lparr>res_mode = mode, res_receipt = Some (receipt_handle c (rq_epoch rq) parts), res_reason = Some reason\<rparr>,
      write_world env (chain_receipt_path (rq_epoch rq)) (receipt_json c rq mode reason parts) w)"
  by (simp add: conclude_def return_op_def)

lemma write_attempt_eq [simp]:
  "bind_op (write_attempt env c rq p status sub rf et) f w =
     f () (write_world env (chain_attempt_path (rq_epoch rq)) (attempt_json c rq p status sub rf et) w)"
  by (simp add: write_attempt_def)

lemma call_set_weights_eq [simp]:
  "bind_op (call_set_weights st p version) f w =
     f (st_set_weights st (pl_uids p) (pl_weights p) version)
       (w\<lparr>cw_calls := cw_calls w
          @ [(\<lparr>call_uids = pl_uids p, call_weights = pl_weights p, call_version = version\<rparr>, cw_disk w)]\<rparr>)"
  by (simp add: call_set_weights_def bind_op_def get_op_def modify_op_def return_op_def)

text \<open>What an application of weights did to the world, for a given request.\<close>

definition concluded ::
  "'b env \<Rightarrow> subtensor_chain \<Rightarrow> weights_request \<Rightarrow> 'b chain_world \<Rightarrow> chain_weight_result \<Rightarrow> 'b chain_world \<Rightarrow> bool" where
  "concluded env c rq w r w' \<longleftrightarrow>
     (\<exists>mode reason parts. mode \<in> set [''skipped'', ''error'', ''dry_run'']
        \<and> r = \<lparr>res_mode = mode, res_receipt = Some (receipt_handle c (rq_epoch rq) parts), res_reason = Some reason\<rparr>
        \<and> w' = write_world env (chain_receipt_path (rq_epoch rq)) (receipt_json c rq mode reason parts) w)"

definition started_world ::
  "'b env \<Rightarrow> subtensor_chain \<Rightarrow> weights_request \<Rightarrow> payload \<Rightarrow> 'b chain_world \<Rightarrow> 'b chain_world" where
  "started_world env c rq p w =
     (let w1 = write_world env (chain_attempt_path (rq_epoch rq)) (attempt_json c rq p Started None None None) w in
      w1\<lparr>cw_calls := cw_calls w1 @ [(\<lparr>call_uids = pl_uids p, call_weights = pl_weights p,
           call_version = rq_spec_version rq\<rparr>, cw_disk w1)]\<rparr>)"

definition submitted_result :: "subtensor_chain \<Rightarrow> weights_request \<Rightarrow> string \<Rightarrow> receipt_parts \<Rightarrow> chain_weight_result" where
  "submitted_result c rq reason parts =
     \<lparr>res_mode = ''submitted'', res_receipt = Some (receipt_handle c (rq_epoch rq) parts), res_reason = Some reason\<rparr>"

definition live_ready :: "host \<Rightarrow> subtensor_chain \<Rightarrow> exn + substrate \<Rightarrow> weights_request \<Rightarrow> bool" where
  "live_ready h c connection rq \<longleftrightarrow>
     extrinsics_allowed h c \<and> sc_netuid c \<noteq> None \<and> \<not> all_zero_weights (rq_weights rq)
     \<and> (\<exists>st state m. connection = Inr st \<and> preflight c st = Inr state \<and> readiness_skip_reason c state = None
          \<and> map_hotkeys st (rq_active rq) = Inr m \<and> hotkey_to_uid m \<noteq> [])"

definition submitted ::
  "'b env \<Rightarrow> subtensor_chain \<Rightarrow> weights_request \<Rightarrow> 'b chain_world \<Rightarrow> chain_weight_result \<Rightarrow> 'b chain_world \<Rightarrow> bool" where
  "submitted env c rq w r w' \<longleftrightarrow>
     (\<exists>p reason parts sub. r = submitted_result c rq reason parts
        \<and> w' = write_world env (chain_attempt_path (rq_epoch rq))
                 (attempt_json c rq p Completed_attempt sub (Some (chain_receipt_name (rq_epoch rq))) None)
               (write_world env (chain_receipt_path (rq_epoch rq)) (receipt_json c rq ''submitted'' reason parts)
                 (started_world env c rq p w)))"

definition left_ambiguous ::
  "'b env \<Rightarrow> subtensor_chain \<Rightarrow> weights_request \<Rightarrow> 'b chain_world \<Rightarrow> apply_error \<Rightarrow> 'b chain_world \<Rightarrow> bool" where
  "left_ambiguous env c rq w e w' \<longleftrightarrow>
     (\<exists>p sub et. e = Ambiguous_submission (chain_attempt_path (rq_epoch rq))
        \<and> w' = write_world env (chain_attempt_path (rq_epoch rq))
                 (attempt_json c rq p Ambiguous_attempt sub None et) (started_world env c rq p w))"

lemma submit_live_Inr: "submit_live env c st rq state m p w = (Inr r, w') \<Longrightarrow> submitted env c rq w r w'"
  by (auto simp: submit_live_def submitted_def submitted_result_def started_world_def Let_def
      conclude_eq bind_op_def [of "conclude _ _ _ _ _ _"] bind_op_def [of "write_attempt _ _ _ _ _ _ _ _"]
      write_attempt_def modify_op_def split: prod.splits sum.splits)

lemma submit_live_Inl: "submit_live env c st rq state m p w = (Inl e, w') \<Longrightarrow> left_ambiguous env c rq w e w'"
  by (auto simp: submit_live_def left_ambiguous_def started_world_def Let_def
      conclude_eq bind_op_def [of "conclude _ _ _ _ _ _"] bind_op_def [of "write_attempt _ _ _ _ _ _ _ _"]
      write_attempt_def modify_op_def split: prod.splits sum.splits)

lemma bind_lift_eq: "r = Inr a \<Longrightarrow> bind_op (lift_op r) f w = f a w"
  by (simp add: op_plumbing)

lemma bind_lift_error: "r = Inl e \<Longrightarrow> bind_op (lift_op r) f w = (Inl e, w)"
  by (simp add: op_plumbing)

lemma concludedI:
  "conclude env c rq mode reason parts w = (x, w') \<Longrightarrow> mode \<in> set [''skipped'', ''error'', ''dry_run''] \<Longrightarrow>
   \<exists>r. x = Inr r \<and> concluded env c rq w r w'"
  by (auto simp: conclude_eq concluded_def)

lemma subtensor_cases:
  assumes "subtensor_apply_weights env h c connection rq w = (x, w')"
  shows "(\<exists>r. x = Inr r \<and> concluded env c rq w r w')
    \<or> (\<exists>e. x = Inl (Apply_raised e) \<and> w' = w)
    \<or> live_ready h c connection rq
       \<and> ((\<exists>r. x = Inr r \<and> submitted env c rq w r w') \<or> (\<exists>e. x = Inl e \<and> left_ambiguous env c rq w e w'))"
proof -
  let ?degraded = "case rq_fallback_reason rq of None \<Rightarrow> False | Some r \<Rightarrow> r \<in> set skip_reasons"
  show ?thesis
  proof (cases "?degraded \<or> all_zero_weights (rq_weights rq) \<or> sc_netuid c = None")
    case True
    with assms obtain mode reason parts where "conclude env c rq mode reason parts w = (x, w')"
        "mode \<in> set [''skipped'', ''error'', ''dry_run'']"
      unfolding subtensor_apply_weights_def Let_def by (auto split: if_splits)
    then show ?thesis by (blast dest: concludedI)
  next
    case no_skip: False
    show ?thesis
    proof (cases "bind_result connection (\<lambda>st. bind_result (preflight c st) (\<lambda>state. Inr (st, state)))")
      case (Inl e)
      with assms no_skip obtain parts where "conclude env c rq ''error'' ''rpc_unreachable'' parts w = (x, w')"
        unfolding subtensor_apply_weights_def Let_def by auto
      from concludedI [OF this] show ?thesis by simp
    next
      case (Inr both)
      obtain st state where both: "both = (st, state)" by (cases both)
      with Inr have conn: "connection = Inr st" "preflight c st = Inr state" by auto
      show ?thesis
      proof (cases "readiness_skip_reason c state")
        case (Some reason)
        with assms no_skip conn obtain mode parts where "conclude env c rq mode reason parts w = (x, w')"
            "mode \<in> set [''skipped'', ''error'', ''dry_run'']"
          unfolding subtensor_apply_weights_def Let_def by (auto split: if_splits)
        then show ?thesis by (blast dest: concludedI)
      next
        case ready: None
        show ?thesis
        proof (cases "map_hotkeys st (rq_active rq)")
          case (Inl e)
          with assms no_skip conn ready show ?thesis
            unfolding subtensor_apply_weights_def Let_def by (auto simp: bind_lift_error)
        next
          case m: (Inr m)
          show ?thesis
          proof (cases "hotkey_to_uid m = []")
            case True
            with assms no_skip conn ready m obtain parts
              where "conclude env c rq ''skipped'' ''no_registered_miners'' parts w = (x, w')"
              unfolding subtensor_apply_weights_def Let_def by (auto simp: bind_lift_eq)
            from concludedI [OF this] show ?thesis by simp
          next
            case mapped: False
            show ?thesis
            proof (cases "build_payload env c st (rq_weights rq) m (rq_spec_version rq)")
              case (Inl e)
              with assms no_skip conn ready m mapped show ?thesis
                unfolding subtensor_apply_weights_def Let_def by (auto simp: bind_lift_eq bind_lift_error)
            next
              case p: (Inr p)
              show ?thesis
              proof (cases "sc_publish c = ''dry-run'' \<or> \<not> extrinsics_allowed h c")
                case True
                with assms no_skip conn ready m mapped p obtain mode reason parts
                  where "conclude env c rq mode reason parts w = (x, w')" "mode \<in> set [''skipped'', ''error'', ''dry_run'']"
                  unfolding subtensor_apply_weights_def Let_def by (auto simp: bind_lift_eq split: if_splits)
                then show ?thesis by (blast dest: concludedI)
              next
                case False
                with assms no_skip conn ready m mapped p
                have live: "submit_live env c st rq state m p w = (x, w')"
                  unfolding subtensor_apply_weights_def Let_def by (auto simp: bind_lift_eq)
                have "live_ready h c connection rq"
                  using no_skip conn ready m mapped False by (auto simp: live_ready_def)
                moreover have "(\<exists>r. x = Inr r \<and> submitted env c rq w r w') \<or> (\<exists>e. x = Inl e \<and> left_ambiguous env c rq w e w')"
                  using live by (cases x) (auto dest: submit_live_Inr submit_live_Inl)
                ultimately show ?thesis by blast
              qed
            qed
          qed
        qed
      qed
    qed
  qed
qed

section \<open>The contract of a chain client\<close>

definition disk_changed_only :: "'b disk \<Rightarrow> 'b disk \<Rightarrow> string set \<Rightarrow> bool" where
  "disk_changed_only fs fs' ps \<longleftrightarrow> (\<forall>p. p \<notin> ps \<longrightarrow> fs' p = fs p)"

text \<open>
  What the epoch engine relies on: a recoverable mode, a canonical receipt file for every mode but
  the fallback, with the result's mode and reason in it, a completed attempt for a submission and
  an untouched attempt file otherwise, and no other file written.
\<close>

locale chain_contract =
  fixes env :: "'b env"
    and publish :: "weights_request \<Rightarrow> ('b, apply_error, chain_weight_result) chain_op"
  assumes recoverable: "publish rq w = (Inr r, w') \<Longrightarrow> is_ok (marker_mode_check (rq_epoch rq) r)"
    and receipt: "json_codec env \<Longrightarrow> publish rq w = (Inr r, w') \<Longrightarrow> res_mode r \<noteq> ''fallback'' \<Longrightarrow>
      \<exists>d. load_json_object env (cw_disk w') (chain_receipt_path (rq_epoch rq)) = Inr d
        \<and> check_receipt (rq_epoch rq) (res_mode r) (result_reason r) d = Inr ()"
    and fallback: "publish rq w = (Inr r, w') \<Longrightarrow> res_mode r = ''fallback'' \<Longrightarrow> w' = w"
    and attempt: "json_codec env \<Longrightarrow> publish rq w = (Inr r, w') \<Longrightarrow> res_mode r = ''submitted'' \<Longrightarrow>
      \<exists>d. load_json_object env (cw_disk w') (chain_attempt_path (rq_epoch rq)) = Inr d
        \<and> check_attempt (rq_epoch rq) d = Inr ()"
    and no_attempt: "publish rq w = (Inr r, w') \<Longrightarrow> res_mode r \<noteq> ''submitted'' \<Longrightarrow>
      cw_disk w' (chain_attempt_path (rq_epoch rq)) = cw_disk w (chain_attempt_path (rq_epoch rq))"
    and frame: "publish rq w = (x, w') \<Longrightarrow>
      disk_changed_only (cw_disk w) (cw_disk w') {chain_receipt_path (rq_epoch rq), chain_attempt_path (rq_epoch rq)}"
begin

text \<open>The archive after the engine has written the snapshot, the panel sidecar and the weights of an epoch.\<close>

definition with_artifacts :: "int \<Rightarrow> jdict \<Rightarrow> jdict \<Rightarrow> jdict \<Rightarrow> 'b disk \<Rightarrow> 'b disk" where
  "with_artifacts n miner_state panel weights fs =
     write_json env (weights_path n) (JObj weights)
     (write_json env (solver_panel_path n) (JObj panel)
     (write_json env (miner_state_snapshot_path n) (JObj miner_state) fs))"

lemma ready:
  assumes "publish rq w = (Inr r, w')" "rq_epoch rq = n"
    and codec: "json_codec env"
    and fresh: "cw_disk w (chain_receipt_path n) = None" "cw_disk w (chain_attempt_path n) = None"
    and ms: "list_all is_number (dict_values ms)"
    and ws: "jget ws ''epoch_id'' = JInt n" "jget ws ''weight_result'' = result_record r"
    and ps: "jget ps ''epoch_id'' = JInt n"
  shows "artifacts_ready env (with_artifacts n ms ps ws (cw_disk w')) n r"
proof -
  let ?fs = "with_artifacts n ms ps ws (cw_disk w')"
  have rec: "is_ok (marker_mode_check n r)" using recoverable assms(1,2) by blast
  have keep: "?fs (chain_receipt_path n) = cw_disk w' (chain_receipt_path n)"
    "?fs (chain_attempt_path n) = cw_disk w' (chain_attempt_path n)"
    by (simp_all add: with_artifacts_def)
  have loads: "load_json_object env ?fs (miner_state_snapshot_path n) = Inr (canon_fields ms)"
    "load_json_object env ?fs (weights_path n) = Inr (canon_fields ws)"
    "load_json_object env ?fs (solver_panel_path n) = Inr (canon_fields ps)"
    by (simp_all add: with_artifacts_def codec)
  have files: "is_file ?fs (miner_state_snapshot_path n)" "is_file ?fs (weights_path n)" "is_file ?fs (solver_panel_path n)"
    by (simp_all add: with_artifacts_def is_file_def)
  have receipt_file: "is_file ?fs (chain_receipt_path n) = (res_mode r \<noteq> ''fallback'')"
    using receipt [OF codec assms(1)] fallback [OF assms(1)] fresh(1) assms(2) keep
    by (auto simp: is_file_def dest!: load_is_file)
  have attempt_file: "is_file ?fs (chain_attempt_path n) = (res_mode r = ''submitted'')"
    using attempt [OF codec assms(1)] no_attempt [OF assms(1)] fresh(2) assms(2) keep
    by (cases "res_mode r = ''submitted''") (auto simp: is_file_def dest!: load_is_file)
  have numeric: "list_all is_number (dict_values (canon_fields ms))"
    using ms by (simp add: list_all_iff dict_values_def canon_fields_def comp_def)
  have weights_ok: "check_weights n (res_mode r) (result_reason r) (canon_fields ws) = Inr ()"
    using ws by (cases "res_reason r")
      (simp_all add: check_weights_def result_record_def or_else_def result_reason_def)
  have summary: "\<exists>s. receipt_summary env ?fs n (res_mode r) (result_reason r) = Inr s"
    using receipt [OF codec assms(1)] assms(2) load_cong [of ?fs "chain_receipt_path n" "cw_disk w'" env] keep(1)
    by (auto simp: receipt_summary_parts)
  have att: "\<exists>d. load_json_object env ?fs (chain_attempt_path n) = Inr d \<and> check_attempt n d = Inr ()"
    if "res_mode r = ''submitted''"
    using attempt [OF codec assms(1) that] assms(2) load_cong [of ?fs "chain_attempt_path n" "cw_disk w'" env] keep(2) by auto
  have "list_all (\<lambda>a. is_file ?fs (canonical_path n a) = required_for (res_mode r) a) all_artifacts"
    using files receipt_file attempt_file by (simp add: all_artifacts_def)
  moreover have "is_ok (check_contents env ?fs n (res_mode r) (result_reason r))"
    using loads numeric weights_ok summary att ps
    by (auto simp: is_ok_iff check_contents_parts)
  ultimately show ?thesis using rec by (simp add: artifacts_ready_def)
qed

end

text \<open>The offline client.\<close>

interpretation null: chain_contract env null_apply_weights for env
  by unfold_locales
    (auto simp: null_apply_weights_def marker_mode_check_def recoverable_chain_modes_def disk_changed_only_def)

lemma receipt_ok:
  assumes "json_codec env"
  shows "\<exists>d. load_json_object env (cw_disk (write_world env (chain_receipt_path (rq_epoch rq))
            (receipt_json c rq mode reason parts) w)) (chain_receipt_path (rq_epoch rq)) = Inr d
        \<and> check_receipt (rq_epoch rq) mode reason d = Inr ()"
  using assms by (simp add: write_world_def receipt_json_def Let_def check_receipt_def)

lemma attempt_ok:
  assumes "json_codec env"
  shows "\<exists>d. load_json_object env (cw_disk (write_world env (chain_attempt_path (rq_epoch rq))
            (attempt_json c rq p Completed_attempt sub (Some (chain_receipt_name (rq_epoch rq))) None) w))
            (chain_attempt_path (rq_epoch rq)) = Inr d
        \<and> check_attempt (rq_epoch rq) d = Inr ()"
  using assms by (simp add: write_world_def attempt_json_def check_attempt_def)

lemma mode_check_receipt:
  "mode \<in> set recoverable_chain_modes \<Longrightarrow> mode \<noteq> ''fallback'' \<Longrightarrow>
   is_ok (marker_mode_check n \<lparr>res_mode = mode, res_receipt = Some (receipt_handle c n parts), res_reason = reason\<rparr>)"
  by (simp add: marker_mode_check_def receipt_handle_def)

lemma subtensor_Inr:
  "subtensor_apply_weights env h c connection rq w = (Inr r, w') \<Longrightarrow>
   concluded env c rq w r w' \<or> submitted env c rq w r w'"
  using subtensor_cases [of env h c connection rq w "Inr r" w'] by auto

interpretation subtensor: chain_contract env "subtensor_apply_weights env h c connection" for env h c connection
proof
  fix rq w w' and r :: chain_weight_result
  assume "subtensor_apply_weights env h c connection rq w = (Inr r, w')"
  note cases = subtensor_Inr [OF this]
  show "is_ok (marker_mode_check (rq_epoch rq) r)"
    using cases by (auto simp: concluded_def submitted_def submitted_result_def recoverable_chain_modes_def
        intro!: mode_check_receipt)
next
  fix rq w w' and r :: chain_weight_result
  assume codec: "json_codec env" and "subtensor_apply_weights env h c connection rq w = (Inr r, w')"
  note cases = subtensor_Inr [OF this(2)]
  show "\<exists>d. load_json_object env (cw_disk w') (chain_receipt_path (rq_epoch rq)) = Inr d
        \<and> check_receipt (rq_epoch rq) (res_mode r) (result_reason r) d = Inr ()"
    using cases
  proof
    assume "concluded env c rq w r w'"
    then show ?thesis using receipt_ok [OF codec] by (auto simp: concluded_def result_reason_def)
  next
    assume "submitted env c rq w r w'"
    then obtain p reason parts sub where r: "r = submitted_result c rq reason parts" and
      w': "w' = write_world env (chain_attempt_path (rq_epoch rq))
           (attempt_json c rq p Completed_attempt sub (Some (chain_receipt_name (rq_epoch rq))) None)
           (write_world env (chain_receipt_path (rq_epoch rq)) (receipt_json c rq ''submitted'' reason parts)
             (started_world env c rq p w))" by (auto simp: submitted_def)
    have "load_json_object env (cw_disk w') (chain_receipt_path (rq_epoch rq)) =
        load_json_object env (cw_disk (write_world env (chain_receipt_path (rq_epoch rq))
          (receipt_json c rq ''submitted'' reason parts) (started_world env c rq p w))) (chain_receipt_path (rq_epoch rq))"
      unfolding w' by (rule load_cong) (simp add: write_world_def)
    then show ?thesis using receipt_ok [OF codec] by (simp add: r submitted_result_def result_reason_def)
  qed
next
  fix rq w w' and r :: chain_weight_result
  assume "subtensor_apply_weights env h c connection rq w = (Inr r, w')" and m: "res_mode r = ''fallback''"
  note cases = subtensor_Inr [OF this(1)]
  show "w' = w" using cases m by (auto simp: concluded_def submitted_def submitted_result_def)
next
  fix rq w w' and r :: chain_weight_result
  assume codec: "json_codec env" and "subtensor_apply_weights env h c connection rq w = (Inr r, w')"
    and m: "res_mode r = ''submitted''"
  note cases = subtensor_Inr [OF this(2)]
  show "\<exists>d. load_json_object env (cw_disk w') (chain_attempt_path (rq_epoch rq)) = Inr d
        \<and> check_attempt (rq_epoch rq) d = Inr ()"
    using cases m attempt_ok [OF codec] by (auto simp: concluded_def submitted_def)
next
  fix rq w w' and r :: chain_weight_result
  assume "subtensor_apply_weights env h c connection rq w = (Inr r, w')" and m: "res_mode r \<noteq> ''submitted''"
  note cases = subtensor_Inr [OF this(1)]
  show "cw_disk w' (chain_attempt_path (rq_epoch rq)) = cw_disk w (chain_attempt_path (rq_epoch rq))"
    using cases m by (auto simp: concluded_def submitted_def submitted_result_def write_world_def)
next
  fix rq w w' and x :: "apply_error + chain_weight_result"
  assume "subtensor_apply_weights env h c connection rq w = (x, w')"
  note cases = subtensor_cases [OF this]
  show "disk_changed_only (cw_disk w) (cw_disk w') {chain_receipt_path (rq_epoch rq), chain_attempt_path (rq_epoch rq)}"
    using cases by (auto simp: disk_changed_only_def concluded_def submitted_def left_ambiguous_def
        started_world_def Let_def write_world_def)
qed

interpretation client: chain_contract env "apply_weights env h connection client" for env h connection client
proof (cases client)
  case Null_chain
  then show "chain_contract env (apply_weights env h connection client)"
    using null.chain_contract_axioms by (simp add: apply_weights_def [abs_def])
next
  case (Subtensor_chain c)
  then show "chain_contract env (apply_weights env h connection client)"
    using subtensor.chain_contract_axioms by (simp add: apply_weights_def [abs_def])
qed

section \<open>Signing\<close>

lemma write_world_calls [simp]: "cw_calls (write_world env p v w) = cw_calls w"
  by (simp add: write_world_def)

lemma concluded_calls: "concluded env c rq w r w' \<Longrightarrow> cw_calls w' = cw_calls w"
  by (auto simp: concluded_def)

text \<open>The attempt record on an archive has the given status.\<close>

definition attempt_status_on :: "'b env \<Rightarrow> 'b disk \<Rightarrow> int \<Rightarrow> attempt_status \<Rightarrow> bool" where
  "attempt_status_on env fs n status \<longleftrightarrow>
     (\<exists>d. load_json_object env fs (chain_attempt_path n) = Inr d \<and> py_eq (jget d ''epoch_id'') (JInt n)
        \<and> jget d ''mode'' = JStr ''live_attempt'' \<and> jget d ''status'' = JStr (status_text status))"

lemma attempt_written:
  "json_codec env \<Longrightarrow> fs (chain_attempt_path (rq_epoch rq)) = Some (dumps env (attempt_json c rq p status sub rf et)) \<Longrightarrow>
   attempt_status_on env fs (rq_epoch rq) status"
  by (simp add: attempt_status_on_def attempt_json_def)

lemma started_world_calls:
  "json_codec env \<Longrightarrow> \<exists>call fs. cw_calls (started_world env c rq p w) = cw_calls w @ [(call, fs)]
     \<and> call_version call = rq_spec_version rq \<and> attempt_status_on env fs (rq_epoch rq) Started"
  by (auto simp: started_world_def Let_def intro!: attempt_written) (simp add: write_world_def)

lemma live_outcome_calls:
  assumes "json_codec env" "submitted env c rq w r w' \<or> left_ambiguous env c rq w e w'"
  shows "\<exists>call fs. cw_calls w' = cw_calls w @ [(call, fs)] \<and> attempt_status_on env fs (rq_epoch rq) Started"
  using assms(2) started_world_calls [OF assms(1), of c rq _ w] by (fastforce simp: submitted_def left_ambiguous_def)

lemma no_missing_gates:
  "extrinsics_allowed h c \<longleftrightarrow> sc_allow_extrinsics c \<and> environ h ''DOLORES_ALLOW_EXTRINSICS'' = Some ''1''
     \<and> sc_publish c = ''live'' \<and> sc_confirmation c = live_confirmation"
  by (auto simp: extrinsics_allowed_def missing_extrinsic_gates_def)

section \<open>Properties\<close>

definition live_host :: host where
  "live_host = sample_host\<lparr>environ := (\<lambda>n. if n = ''DOLORES_ALLOW_EXTRINSICS'' then Some ''1'' else None)\<rparr>"

definition sample_request :: weights_request where
  "sample_request = \<lparr>rq_epoch = 1, rq_weights = [(''m'', Fin 1)], rq_active = [''m''], rq_spec_version = 1,
     rq_fallback_reason = Some ''offline''\<rparr>"

definition empty_world :: "json chain_world" where
  "empty_world = \<lparr>cw_disk = (\<lambda>_. None), cw_calls = []\<rparr>"

definition mismatching_substrate :: substrate where
  "mismatching_substrate = sample_substrate\<lparr>st_read_back := (\<lambda>u. Inr (JObj [(''weights_u16'', JArr [])]))\<rparr>"

definition sample_apply :: "substrate \<Rightarrow> (apply_error + chain_weight_result) \<times> json chain_world" where
  "sample_apply st = apply_weights plain_env live_host (Inr st) (Subtensor_chain sample_chain) sample_request empty_world"

lemma sample_submission:
  "map_option res_mode (case fst (sample_apply sample_substrate) of Inl _ \<Rightarrow> None | Inr r \<Rightarrow> Some r) = Some ''submitted''"
  "length (cw_calls (snd (sample_apply sample_substrate))) = 1"
  by code_simp+

lemma sample_mismatch:
  "fst (sample_apply mismatching_substrate) = Inl (Ambiguous_submission (chain_attempt_path 1))"
  by code_simp

text \<open>What a signing call tells of the client and the disk it was made on.\<close>

lemma calls_need_gates:
  assumes "json_codec env" "apply_weights env h connection client rq w = (x, w')" "cw_calls w' \<noteq> cw_calls w"
  shows "\<exists>c. client = Subtensor_chain c \<and> sc_allow_extrinsics c
    \<and> environ h ''DOLORES_ALLOW_EXTRINSICS'' = Some ''1'' \<and> sc_publish c = ''live''
    \<and> sc_confirmation c = live_confirmation \<and> live_ready h c connection rq
    \<and> (\<exists>call fs. cw_calls w' = cw_calls w @ [(call, fs)] \<and> attempt_status_on env fs (rq_epoch rq) Started)"
proof (cases client)
  case Null_chain
  with assms show ?thesis by (simp add: apply_weights_def null_apply_weights_def)
next
  case (Subtensor_chain c)
  with assms(2) have s: "subtensor_apply_weights env h c connection rq w = (x, w')" by (simp add: apply_weights_def)
  with assms(3) subtensor_cases [OF s] concluded_calls have live: "live_ready h c connection rq"
    and out: "(\<exists>r. submitted env c rq w r w') \<or> (\<exists>e. left_ambiguous env c rq w e w')" by blast+
  from out live_outcome_calls [OF assms(1)] have
    "\<exists>call fs. cw_calls w' = cw_calls w @ [(call, fs)] \<and> attempt_status_on env fs (rq_epoch rq) Started" by blast
  moreover have "extrinsics_allowed h c" using live by (simp add: live_ready_def)
  ultimately show ?thesis using Subtensor_chain live by (simp add: no_missing_gates)
qed

text \<open>C2: weights are signed at most once per application, and only by a chain client whose four gates
  are open, on a ready network with a registered miner and weights that are not all zero; the record of
  the attempt is on disk before the call.\<close>

theorem signing_requires_gates:
  assumes "json_codec env" "apply_weights env h connection client rq w = (x, w')" "cw_calls w' \<noteq> cw_calls w"
  shows "\<exists>c. client = Subtensor_chain c \<and> sc_allow_extrinsics c
    \<and> environ h ''DOLORES_ALLOW_EXTRINSICS'' = Some ''1'' \<and> sc_publish c = ''live''
    \<and> sc_confirmation c = live_confirmation \<and> live_ready h c connection rq
    \<and> (\<exists>call fs. cw_calls w' = cw_calls w @ [(call, fs)] \<and> attempt_status_on env fs (rq_epoch rq) Started)"
  by (rule calls_need_gates [OF assms])

theorem signing_requires_gates_witness:
  "\<exists>call fs. cw_calls (snd (sample_apply sample_substrate)) = [(call, fs)]
     \<and> attempt_status_on plain_env fs 1 Started"
proof -
  obtain x w' where a: "sample_apply sample_substrate = (x, w')" by (cases "sample_apply sample_substrate")
  with sample_submission(2) have "cw_calls w' \<noteq> cw_calls empty_world" by (auto simp: empty_world_def)
  from signing_requires_gates [OF plain_env_codec a [unfolded sample_apply_def] this] show ?thesis
    by (auto simp: a empty_world_def sample_request_def)
qed

text \<open>C5: once the signing call has been made there are two outcomes: a submitted result with its receipt
  and a completed attempt on disk, or the ambiguity error with the attempt recorded as ambiguous and no
  receipt written; without the call no attempt is recorded.\<close>

theorem signing_outcomes:
  assumes "json_codec env" "subtensor_apply_weights env h c connection rq w = (x, w')"
  shows "(if cw_calls w' = cw_calls w
    then cw_disk w' (chain_attempt_path (rq_epoch rq)) = cw_disk w (chain_attempt_path (rq_epoch rq))
    else (\<exists>r. x = Inr r \<and> res_mode r = ''submitted'' \<and> attempt_status_on env (cw_disk w') (rq_epoch rq) Completed_attempt)
      \<or> (x = Inl (Ambiguous_submission (chain_attempt_path (rq_epoch rq)))
          \<and> attempt_status_on env (cw_disk w') (rq_epoch rq) Ambiguous_attempt
          \<and> cw_disk w' (chain_receipt_path (rq_epoch rq)) = cw_disk w (chain_receipt_path (rq_epoch rq))))"
  using subtensor_cases [OF assms(2)]
proof (elim disjE conjE exE)
  fix r assume "x = Inr r" "concluded env c rq w r w'"
  then show ?thesis by (auto simp: concluded_def write_world_def)
next
  fix e assume "x = Inl (Apply_raised e)" "w' = w"
  then show ?thesis by simp
next
  fix r assume x: "x = Inr r" and s: "submitted env c rq w r w'"
  then have "cw_calls w' \<noteq> cw_calls w" using live_outcome_calls [OF assms(1), of c rq w r w'] by auto
  moreover obtain p sub rf where "cw_disk w' (chain_attempt_path (rq_epoch rq)) =
      Some (dumps env (attempt_json c rq p Completed_attempt sub rf None))"
    using s by (auto simp: submitted_def write_world_def)
  then have "attempt_status_on env (cw_disk w') (rq_epoch rq) Completed_attempt" by (rule attempt_written [OF assms(1)])
  moreover have "res_mode r = ''submitted''" using s by (auto simp: submitted_def submitted_result_def)
  ultimately show ?thesis using x by simp
next
  fix e assume x: "x = Inl e" and s: "left_ambiguous env c rq w e w'"
  then have "cw_calls w' \<noteq> cw_calls w" using live_outcome_calls [OF assms(1), of c rq w _ w' e] by auto
  moreover obtain p sub et where "cw_disk w' (chain_attempt_path (rq_epoch rq)) =
      Some (dumps env (attempt_json c rq p Ambiguous_attempt sub None et))"
    using s by (auto simp: left_ambiguous_def write_world_def)
  then have "attempt_status_on env (cw_disk w') (rq_epoch rq) Ambiguous_attempt" by (rule attempt_written [OF assms(1)])
  moreover have "e = Ambiguous_submission (chain_attempt_path (rq_epoch rq))"
      "cw_disk w' (chain_receipt_path (rq_epoch rq)) = cw_disk w (chain_receipt_path (rq_epoch rq))"
    using s by (auto simp: left_ambiguous_def write_world_def started_world_def Let_def)
  ultimately show ?thesis using x by simp
qed

theorem signing_outcomes_witness:
  "attempt_status_on plain_env (cw_disk (snd (sample_apply mismatching_substrate))) 1 Ambiguous_attempt"
proof -
  obtain w' where a: "sample_apply mismatching_substrate = (Inl (Ambiguous_submission (chain_attempt_path 1)), w')"
    using sample_mismatch by (cases "sample_apply mismatching_substrate") auto
  then have s: "subtensor_apply_weights plain_env live_host sample_chain (Inr mismatching_substrate) sample_request
      empty_world = (Inl (Ambiguous_submission (chain_attempt_path 1)), w')"
    by (simp add: sample_apply_def apply_weights_def)
  have calls: "length (cw_calls (snd (sample_apply mismatching_substrate))) = 1" by code_simp
  from signing_outcomes [OF plain_env_codec s] a calls show ?thesis
    by (auto simp: empty_world_def sample_request_def split: if_splits)
qed

text \<open>Whatever client publishes the weights of a fresh epoch, if it returns a result then, once the
  miner state, the panel sidecar and the weights with that result are written, publishing the
  completion marker succeeds and verifies.\<close>

lemma published_epoch_commits:
  assumes "json_codec env" "hex_digest env" "apply_weights env h connection client rq w = (Inr r, w')" "rq_epoch rq = n"
    and "cw_disk w (chain_receipt_path n) = None" "cw_disk w (chain_attempt_path n) = None"
    and "list_all is_number (dict_values ms)"
    and "jget ws ''epoch_id'' = JInt n" "jget ws ''weight_result'' = result_record r" "jget ps ''epoch_id'' = JInt n"
  shows "\<exists>fs' c. write_epoch_completion_marker env n r
      (write_json env (weights_path n) (JObj ws) (write_json env (solver_panel_path n) (JObj ps)
        (write_json env (miner_state_snapshot_path n) (JObj ms) (cw_disk w')))) = (Inr (completion_marker_path n), fs')
    \<and> verify_epoch_completion env fs' n = Inr c \<and> cmp_mode c = res_mode r"
  using publish_verifies [OF assms(1,2) client.ready [OF assms(3,4,1,5,6,7,8,9,10)]]
  by (auto simp: client.with_artifacts_def)

lemma published_epoch_commits_instance:
  "\<exists>r fs' c. write_epoch_completion_marker plain_env 1 r
      (write_json plain_env (weights_path 1) (JObj [(''epoch_id'', JInt 1), (''weight_result'', result_record r)])
        (write_json plain_env (solver_panel_path 1) (JObj [(''epoch_id'', JInt 1)])
        (write_json plain_env (miner_state_snapshot_path 1) (JObj [(''m'', JFloat (Fin 1))])
          (cw_disk (snd (sample_apply sample_substrate)))))) = (Inr (completion_marker_path 1), fs')
    \<and> verify_epoch_completion plain_env fs' 1 = Inr c \<and> cmp_mode c = ''submitted''"
proof -
  obtain r w' where a: "sample_apply sample_substrate = (Inr r, w')" and m: "res_mode r = ''submitted''"
    using sample_submission(1) by (cases "sample_apply sample_substrate") (auto split: sum.splits)
  have "list_all is_number (dict_values [(''m'', JFloat (Fin 1))])" by (simp add: dict_values_def is_number_def)
  from published_epoch_commits [OF plain_env_codec plain_env_digest a [unfolded sample_apply_def] _ _ _ this,
      of 1 "[(''epoch_id'', JInt 1), (''weight_result'', result_record r)]" "[(''epoch_id'', JInt 1)]"]
  show ?thesis by (auto simp: a m empty_world_def sample_request_def)
qed

text \<open>When every miner with a positive weight is unregistered but one with weight zero is registered,
  the live client signs an empty weight vector and records it as submitted.\<close>

lemma empty_vector_signed:
  "case apply_weights plain_env live_host (Inr sample_substrate) (Subtensor_chain sample_chain)
      \<lparr>rq_epoch = 1, rq_weights = [(''m'', Fin 0), (''gone'', Fin 1)], rq_active = [''m'', ''gone''],
       rq_spec_version = 1, rq_fallback_reason = Some ''offline''\<rparr> empty_world
   of (x, w') \<Rightarrow> map (\<lambda>(call, fs). (call_uids call, call_weights call)) (cw_calls w') = [([], [])]"
  by code_simp

end
