(* ===== verification/Packaging.thy ===== *)
theory Packaging
  imports Config
begin

text \<open>
  \<open>src/dolores_subnet/packaging.py\<close> and \<open>protocol.py\<close>: conversion between engine task packages
  and wire payloads.  The engine's \<open>TaskPackage\<close> is the argument \<open>model_validate\<close>, which
  takes the fields of a package to a task or to a failure; a task is what the subnet reads of it.
  Details of errors, which no code reads, are abbreviated where they quote values.
\<close>

section \<open>Engine tasks\<close>

record engine_task =
  et_id :: string
  et_hash :: string
  et_task_type :: string
  et_difficulty :: string
  et_concepts :: "string list"
  et_reference_files :: "(string, string) dict"
  et_starter_files :: "(string, string) dict"
  et_fields :: jdict

text \<open>A pydantic validation error, by its first location and message, or another exception.\<close>

datatype engine_failure = Validation_failure "string list" string | Engine_exception string

type_synonym model_validate = "jdict \<Rightarrow> engine_failure + engine_task"

record wire_error =
  we_reason :: string
  we_detail :: string

definition wire_failure :: "string \<Rightarrow> string \<Rightarrow> wire_error" where
  "wire_failure reason detail = \<lparr>we_reason = reason, we_detail = detail\<rparr>"

section \<open>Protocol records\<close>

record wire_submission =
  ws_schema_version :: string
  ws_task_id :: string
  ws_package_hash :: string
  ws_package :: jdict
  ws_family :: string
  ws_difficulty :: string

definition wire_to_dict :: "wire_submission \<Rightarrow> jdict" where
  "wire_to_dict s =
     [(''schema_version'', JStr (ws_schema_version s)), (''task_id'', JStr (ws_task_id s)),
      (''package_hash'', JStr (ws_package_hash s)), (''package'', JObj (ws_package s)),
      (''family'', JStr (ws_family s)), (''declared_difficulty'', JStr (ws_difficulty s))]"

definition wire_commitment :: "'b env \<Rightarrow> wire_submission \<Rightarrow> string" where
  "wire_commitment env s = json_digest env (JObj (wire_to_dict s))"

record task_submission =
  ts_miner_uid :: string
  ts_task_id :: string
  ts_package_uri :: string
  ts_package_hash :: string
  ts_metadata :: jdict

definition to_commit_payload :: "task_submission \<Rightarrow> jdict" where
  "to_commit_payload s =
     [(''miner_uid'', JStr (ts_miner_uid s)), (''task_id'', JStr (ts_task_id s)),
      (''package_uri'', JStr (ts_package_uri s)), (''package_hash'', JStr (ts_package_hash s)),
      (''metadata'', JObj (ts_metadata s))]"

definition task_commitment :: "'b env \<Rightarrow> task_submission \<Rightarrow> string" where
  "task_commitment env s = json_digest env (JObj (to_commit_payload s))"

record validation_score =
  vs_valid :: bool
  vs_score :: pyfloat

definition to_weight_signal :: "validation_score \<Rightarrow> pyfloat" where
  "to_weight_signal s = (if \<not> vs_valid s then Fin 0 else clip01 (vs_score s))"

section \<open>Packaging\<close>

definition canonical_size :: "'b env \<Rightarrow> jdict \<Rightarrow> int" where
  "canonical_size env payload = compact_size env (JObj payload)"

definition wire_size_ok :: "'b env \<Rightarrow> jdict \<Rightarrow> int \<Rightarrow> bool" where
  "wire_size_ok env payload max_bytes = (canonical_size env payload \<le> max_bytes)"

definition author_tests_key :: string where
  "author_tests_key = ''author_tests''"

definition legacy_hidden_tests_key :: string where
  "legacy_hidden_tests_key = ''hidden_tests''"

text \<open>\<open>d.pop(k, None)\<close>.\<close>

definition dict_pop :: "('k, 'v) dict \<Rightarrow> 'k \<Rightarrow> ('k, 'v) dict" where
  "dict_pop d k = filter (\<lambda>kv. fst kv \<noteq> k) d"

fun family_of_concepts :: "string list \<Rightarrow> string option" where
  "family_of_concepts [] = None"
| "family_of_concepts (c # cs) =
     (if starts_with c ''family:'' then Some (drop 7 c) else family_of_concepts cs)"

definition task_family :: "engine_task \<Rightarrow> string" where
  "task_family t = (case family_of_concepts (et_concepts t) of Some f \<Rightarrow> f | None \<Rightarrow> et_task_type t)"

definition wire_package :: "engine_task \<Rightarrow> jdict" where
  "wire_package t =
     dict_set (dict_pop (et_fields t) legacy_hidden_tests_key) author_tests_key
       (jget_or (et_fields t) legacy_hidden_tests_key (JObj []))"

definition to_wire :: "'b env \<Rightarrow> int \<Rightarrow> engine_task \<Rightarrow> wire_error + jdict" where
  "to_wire env max_bytes t =
     (let submission = wire_to_dict \<lparr>ws_schema_version = schema_version_const, ws_task_id = et_id t,
        ws_package_hash = et_hash t, ws_package = wire_package t, ws_family = task_family t,
        ws_difficulty = et_difficulty t\<rparr>
      in if \<not> wire_size_ok env submission max_bytes
         then Inl (wire_failure ''size'' (''wire payload is '' @ show_int (canonical_size env submission) @ '' bytes''))
         else Inr submission)"

definition engine_package_from_wire :: "jdict \<Rightarrow> wire_error + jdict" where
  "engine_package_from_wire package =
     (if has_key package legacy_hidden_tests_key
      then Inl (wire_failure ''parse_execution_material''
        ''wire package must use 'author_tests'; validator holdout is private'')
      else if \<not> has_key package author_tests_key
      then Inl (wire_failure ''parse_execution_material'' (''wire package missing 'author_tests'' @ [CHR 0x27]))
      else (case jget package author_tests_key of
              JObj tests \<Rightarrow> Inr (dict_set (dict_pop package author_tests_key) legacy_hidden_tests_key (JObj tests))
            | _ \<Rightarrow> Inl (wire_failure ''parse_execution_material'' ''author_tests must be a mapping'')))"

text \<open>\<open>repr\<close> of a key name, which has no quotes and only printable characters.\<close>

definition single_quoted :: "string \<Rightarrow> string" where
  "single_quoted s = CHR 0x27 # s @ [CHR 0x27]"

definition require_key :: "jdict \<Rightarrow> string \<Rightarrow> wire_error + unit" where
  "require_key payload key =
     require (has_key payload key) (wire_failure (''missing_'' @ key) (''wire payload missing '' @ single_quoted key))"

definition validation_detail :: "string list \<Rightarrow> string \<Rightarrow> string" where
  "validation_detail loc message =
     (let l = join ''.'' loc in (if l = [] then ''package'' else l) @ '': '' @ message)"

definition validation_reason :: "string list \<Rightarrow> string \<Rightarrow> string" where
  "validation_reason loc message =
     (if loc \<noteq> [] \<and> hd loc \<in> set [''starter_files'', ''reference_files'', ''public_tests'', ''hidden_tests'']
      then ''parse_path''
      else if contains (lower message) ''reference file'' \<or> contains (lower message) ''public or hidden tests''
      then ''parse_execution_material''
      else ''parse'')"

fun engine_wire_error :: "engine_failure \<Rightarrow> wire_error" where
  "engine_wire_error (Validation_failure loc message) =
     wire_failure (validation_reason loc message) (validation_detail loc message)"
| "engine_wire_error (Engine_exception text) = wire_failure ''parse'' text"

definition from_wire :: "'b env \<Rightarrow> model_validate \<Rightarrow> int \<Rightarrow> json \<Rightarrow> wire_error + engine_task" where
  "from_wire env validate_model max_bytes payload =
     (case payload of
        JObj d \<Rightarrow>
          if \<not> wire_size_ok env d max_bytes
          then Inl (wire_failure ''size'' (''wire payload is '' @ show_int (canonical_size env d) @ '' bytes''))
          else
            bind_result (require_key d ''schema_version'') (\<lambda>_.
            bind_result (require_key d ''task_id'') (\<lambda>_.
            bind_result (require_key d ''package_hash'') (\<lambda>_.
            bind_result (require_key d ''package'') (\<lambda>_.
            if jget d ''schema_version'' \<noteq> JStr schema_version_const
            then Inl (wire_failure ''schema_version'' (''expected '' @ schema_version_const))
            else (case jget d ''package'' of
                    JObj package \<Rightarrow>
                      bind_result (engine_package_from_wire package) (\<lambda>fields.
                      bind_result (map_error engine_wire_error (validate_model fields)) (\<lambda>task.
                      if jget d ''task_id'' \<noteq> JStr (et_id task)
                      then Inl (wire_failure ''task_id'' (''payload task_id '' @ render env (jget d ''task_id'')
                        @ '' != package '' @ render env (JStr (et_id task))))
                      else if jget d ''package_hash'' \<noteq> JStr (et_hash task)
                      then Inl (wire_failure ''hash_match'' (''claimed '' @ text_of_json env (jget d ''package_hash'')
                        @ '' != recomputed '' @ et_hash task))
                      else Inr task))
                  | _ \<Rightarrow> Inl (wire_failure ''package_type'' ''package must be a dict''))))))
      | _ \<Rightarrow> Inl (wire_failure ''payload_type'' ''wire payload must be a dict''))"

text \<open>\<open>loads_wire_json\<close> on the parsed content of a file.\<close>

definition loads_wire_json :: "string \<Rightarrow> json \<Rightarrow> wire_error + jdict" where
  "loads_wire_json path v =
     (case v of JObj d \<Rightarrow> Inr d | _ \<Rightarrow> Inl (wire_failure ''payload_type'' (path @ '' must contain a JSON object'')))"

section \<open>Round trip\<close>

lemma has_key_set [simp]: "has_key (dict_set d k v) k' \<longleftrightarrow> k' = k \<or> has_key d k'"
  by (simp add: has_key_def dict_set_def update_conv)

lemma map_of_filter_other: "k' \<noteq> k \<Longrightarrow> map_of (filter (\<lambda>kv. fst kv \<noteq> k) d) k' = map_of d k'"
  by (induction d) auto

lemma has_key_pop [simp]: "has_key (dict_pop d k) k' \<longleftrightarrow> k' \<noteq> k \<and> has_key d k'"
proof (cases "k' = k")
  case True
  have "map_of (filter (\<lambda>kv. fst kv \<noteq> k) d) k = None" by (induction d) auto
  with True show ?thesis by (simp add: has_key_def dict_pop_def)
next
  case False
  then show ?thesis by (simp add: has_key_def dict_pop_def map_of_filter_other)
qed

lemma jget_set_same [simp]: "jget (dict_set d k v) k = v"
  by (simp add: jget_def dict_get_default_def dict_set_def update_conv)

lemma dict_set_new: "\<not> has_key d k \<Longrightarrow> dict_set d k v = d @ [(k, v)]"
  by (induction d) (auto simp: dict_set_def has_key_def)

lemma dict_pop_append [simp]: "dict_pop (d @ e) k = dict_pop d k @ dict_pop e k"
  by (simp add: dict_pop_def)

lemma dict_pop_absent: "\<not> has_key d k \<Longrightarrow> dict_pop d k = d"
  by (induction d) (auto simp: dict_pop_def has_key_def split: if_splits)

lemma mset_move_last:
  "distinct (map fst d) \<Longrightarrow> map_of d k = Some v \<Longrightarrow> mset (dict_pop d k @ [(k, v)]) = mset d"
proof (induction d)
  case (Cons kv d)
  show ?case
  proof (cases "fst kv = k")
    case True
    have "(k, u) \<notin> set d" for u using Cons.prems(1) True by (auto simp: image_iff)
    then have "dict_pop d k = d" unfolding dict_pop_def by (intro filter_True) auto
    with True Cons.prems(2) show ?thesis by (cases kv) (auto simp: dict_pop_def)
  next
    case False
    with Cons show ?thesis by (auto simp: dict_pop_def split: if_splits)
  qed
qed simp

text \<open>A task whose fields are those of a package: distinct keys, hidden tests in a mapping, no author tests.\<close>

definition packaged :: "engine_task \<Rightarrow> bool" where
  "packaged t = (distinct (map fst (et_fields t)) \<and> is_jobj (jget (et_fields t) legacy_hidden_tests_key)
     \<and> \<not> has_key (et_fields t) author_tests_key)"

lemma engine_package_wire:
  assumes "packaged t"
  shows "\<exists>fields. engine_package_from_wire (wire_package t) = Inr fields \<and> mset fields = mset (et_fields t)"
proof -
  obtain tests where tests: "jget (et_fields t) legacy_hidden_tests_key = JObj tests"
    using assms by (auto simp: packaged_def elim: is_jobj.elims)
  then have m: "map_of (et_fields t) legacy_hidden_tests_key = Some (JObj tests)"
    by (auto simp: jget_def dict_get_default_def split: option.splits)
  then have w: "wire_package t = dict_pop (et_fields t) legacy_hidden_tests_key @ [(author_tests_key, JObj tests)]"
    using assms by (simp add: wire_package_def jget_or_def dict_get_default_def dict_set_new packaged_def)
  have keys: "author_tests_key \<noteq> legacy_hidden_tests_key"
    by (simp add: author_tests_key_def legacy_hidden_tests_key_def)
  have "engine_package_from_wire (wire_package t) =
      Inr (dict_pop (et_fields t) legacy_hidden_tests_key @ [(legacy_hidden_tests_key, JObj tests)])"
  proof -
    have set: "wire_package t = dict_set (dict_pop (et_fields t) legacy_hidden_tests_key) author_tests_key (JObj tests)"
      using m by (simp add: wire_package_def jget_or_def dict_get_default_def)
    have pop: "dict_pop (wire_package t) author_tests_key = dict_pop (et_fields t) legacy_hidden_tests_key"
    proof -
      have "dict_pop (dict_pop (et_fields t) legacy_hidden_tests_key) author_tests_key
          = dict_pop (et_fields t) legacy_hidden_tests_key"
        using assms by (intro dict_pop_absent) (simp add: packaged_def)
      then show ?thesis by (simp add: w) (simp add: dict_pop_def)
    qed
    have "\<not> has_key (wire_package t) legacy_hidden_tests_key" using keys by (simp add: set)
    moreover have "has_key (wire_package t) author_tests_key" by (simp add: set)
    moreover have "jget (wire_package t) author_tests_key = JObj tests" by (simp add: set)
    ultimately show ?thesis by (simp add: engine_package_from_wire_def pop dict_set_new)
  qed
  moreover have "mset (dict_pop (et_fields t) legacy_hidden_tests_key @ [(legacy_hidden_tests_key, JObj tests)])
      = mset (et_fields t)"
    using assms m by (intro mset_move_last) (simp_all add: packaged_def)
  ultimately show ?thesis by blast
qed

section \<open>Properties\<close>

text \<open>A task sent over the wire parses back to itself, when the engine rebuilds the task from its own
  fields in any key order.\<close>

lemma wire_round_trip:
  assumes "to_wire env max_bytes t = Inr d" "packaged t"
    and "\<And>fields. mset fields = mset (et_fields t) \<Longrightarrow> validate_model fields = Inr t"
  shows "from_wire env validate_model max_bytes (JObj d) = Inr t"
proof -
  obtain fields where f: "engine_package_from_wire (wire_package t) = Inr fields" "mset fields = mset (et_fields t)"
    using engine_package_wire [OF assms(2)] by blast
  have size: "wire_size_ok env d max_bytes" using assms(1) by (auto simp: to_wire_def Let_def split: if_splits)
  have "d = wire_to_dict \<lparr>ws_schema_version = schema_version_const, ws_task_id = et_id t,
        ws_package_hash = et_hash t, ws_package = wire_package t, ws_family = task_family t,
        ws_difficulty = et_difficulty t\<rparr>"
    using assms(1) by (auto simp: to_wire_def Let_def split: if_splits)
  then have "jget d ''schema_version'' = JStr schema_version_const" "jget d ''task_id'' = JStr (et_id t)"
    "jget d ''package_hash'' = JStr (et_hash t)" "jget d ''package'' = JObj (wire_package t)"
    "has_key d ''schema_version''" "has_key d ''task_id''" "has_key d ''package_hash''" "has_key d ''package''"
    by (simp_all add: wire_to_dict_def)
  then show ?thesis using size f(1) assms(3) [OF f(2)] by (simp add: from_wire_def require_key_def)
qed

definition sample_task :: engine_task where
  "sample_task = \<lparr>et_id = ''t1'', et_hash = ''h1'', et_task_type = ''parser_roundtrip'', et_difficulty = ''core'',
     et_concepts = [''family:parser'', ''archetype:escape_delim'', ''target_band:core'', ''delim:comma'', ''special:backslash''],
     et_reference_files = [(''solution.py'', ''x'')], et_starter_files = [(''solution.py'', ''y'')],
     et_fields = [(''task_id'', JStr ''t1''), (''hidden_tests'', JObj [])]\<rparr>"

definition sample_wire :: jdict where
  "sample_wire = (case to_wire plain_env 1000 sample_task of Inl _ \<Rightarrow> [] | Inr d \<Rightarrow> d)"

lemma sample_wire_ok: "is_ok (to_wire plain_env 1000 sample_task)" "packaged sample_task"
  by code_simp+

lemma wire_round_trip_instance:
  "from_wire plain_env (\<lambda>_. Inr sample_task) 1000 (JObj sample_wire) = Inr sample_task"
proof -
  have "to_wire plain_env 1000 sample_task = Inr sample_wire"
    using sample_wire_ok(1) by (auto simp: is_ok_iff sample_wire_def)
  from wire_round_trip [OF this sample_wire_ok(2)] show ?thesis by simp
qed

end
