(* ===== verification/Gates.thy ===== *)
theory Gates
  imports Packaging
begin

text \<open>
  \<open>src/dolores_subnet/gates.py\<close>: the deterministic gates every wire submission passes before it is
  executed, with the context of one epoch: accepted submissions per miner and the hashes seen.
\<close>

section \<open>State and decisions\<close>

record gate_context =
  ctx_quota :: int
  seen_hashes :: "string list"
  miner_counts :: "(string, int) dict"

definition new_context :: "int \<Rightarrow> gate_context" where
  "new_context quota = \<lparr>ctx_quota = quota, seen_hashes = [], miner_counts = []\<rparr>"

record gate_failure =
  gf_gate :: string
  gf_reason :: string
  gf_detail :: string

record gate_decision =
  gd_passed :: bool
  gd_gates :: "(string, bool) dict"
  gd_task :: "engine_task option"
  gd_hash :: "string option"
  gd_failure :: "gate_failure option"

definition gate_names :: "string list" where
  "gate_names = [''schema_version'', ''size'', ''parse'', ''hash_match'', ''quota'', ''epoch_duplicate'']"

text \<open>The gates before the failing one are true, it and the later ones are false.\<close>

fun gates_until :: "string \<Rightarrow> string list \<Rightarrow> (string, bool) dict" where
  "gates_until g [] = []"
| "gates_until g (n # ns) = (if n = g then map (\<lambda>m. (m, False)) (n # ns) else (n, True) # gates_until g ns)"

definition gate_fail :: "string \<Rightarrow> string \<Rightarrow> string \<Rightarrow> gate_decision" where
  "gate_fail gate reason detail =
     \<lparr>gd_passed = False, gd_gates = gates_until gate gate_names, gd_task = None, gd_hash = None,
      gd_failure = Some \<lparr>gf_gate = gate, gf_reason = reason, gf_detail = detail\<rparr>\<rparr>"

text \<open>The parse gate: the engine's task or the reason and detail of the failure.\<close>

definition parse_gate :: "model_validate \<Rightarrow> jdict \<Rightarrow> (string \<times> string) + engine_task" where
  "parse_gate validate_model payload =
     (case jget payload ''package'' of
        JObj package \<Rightarrow>
          (case engine_package_from_wire package of
             Inl e \<Rightarrow> Inl (''invalid:'' @ we_reason e, we_detail e)
           | Inr engine_fields \<Rightarrow>
               (case validate_model engine_fields of
                  Inl (Validation_failure loc message) \<Rightarrow> Inl (''invalid:parse'', validation_detail loc message)
                | Inl (Engine_exception text) \<Rightarrow> Inl (''invalid:parse'', text)
                | Inr task \<Rightarrow> Inr task))
      | _ \<Rightarrow> Inl (''invalid:parse'', ''package must be a dict''))"

definition run_pre_gates ::
  "'b env \<Rightarrow> model_validate \<Rightarrow> int \<Rightarrow> jdict \<Rightarrow> string \<Rightarrow> gate_context \<Rightarrow> gate_decision \<times> gate_context" where
  "run_pre_gates env validate_model max_bytes payload miner_hotkey ctx =
     (if jget payload ''schema_version'' \<noteq> JStr schema_version_const then
        (gate_fail ''schema_version'' ''invalid:schema_version'' (''expected '' @ schema_version_const), ctx)
      else if \<not> wire_size_ok env payload max_bytes then
        (gate_fail ''size'' ''invalid:size'' (show_int (canonical_size env payload) @ '' bytes''), ctx)
      else
        (case parse_gate validate_model payload of
           Inl (reason, detail) \<Rightarrow> (gate_fail ''parse'' reason detail, ctx)
         | Inr task \<Rightarrow>
             let claimed = jget payload ''package_hash''; count = dict_get_default (miner_counts ctx) miner_hotkey 0 in
             if claimed \<noteq> JStr (et_hash task) then
               (gate_fail ''hash_match'' ''invalid:hash_match''
                  (text_of_json env claimed @ '' != '' @ et_hash task), ctx)
             else if ctx_quota ctx \<le> count then
               (gate_fail ''quota'' ''invalid:quota'' (miner_hotkey @ '' quota '' @ show_int (ctx_quota ctx)), ctx)
             else if et_hash task \<in> set (seen_hashes ctx) then
               (gate_fail ''epoch_duplicate'' ''invalid:epoch_duplicate'' (et_hash task), ctx)
             else
               (\<lparr>gd_passed = True, gd_gates = map (\<lambda>g. (g, True)) gate_names, gd_task = Some task,
                 gd_hash = Some (et_hash task), gd_failure = None\<rparr>,
                ctx\<lparr>miner_counts := dict_set (miner_counts ctx) miner_hotkey (count + 1),
                    seen_hashes := et_hash task # seen_hashes ctx\<rparr>)))"

text \<open>The submissions of an epoch, one after the other.\<close>

fun run_gates ::
  "'b env \<Rightarrow> model_validate \<Rightarrow> int \<Rightarrow> (string \<times> jdict) list \<Rightarrow> gate_context \<Rightarrow> gate_decision list \<times> gate_context" where
  "run_gates env validate_model max_bytes [] ctx = ([], ctx)"
| "run_gates env validate_model max_bytes ((miner, payload) # rest) ctx =
     (case run_pre_gates env validate_model max_bytes payload miner ctx of
        (d, ctx1) \<Rightarrow>
          (case run_gates env validate_model max_bytes rest ctx1 of (ds, ctx2) \<Rightarrow> (d # ds, ctx2)))"

section \<open>The epoch's invariant\<close>

text \<open>No miner is over quota, no hash is taken twice, and every accepted submission is counted once.\<close>

definition counts_total :: "(string, int) dict \<Rightarrow> int" where
  "counts_total d = sum_list (dict_values d)"

definition gate_invariant :: "gate_context \<Rightarrow> bool" where
  "gate_invariant ctx \<longleftrightarrow>
     distinct (seen_hashes ctx) \<and> distinct (dict_keys (miner_counts ctx))
     \<and> (\<forall>n \<in> set (dict_values (miner_counts ctx)). 0 \<le> n \<and> n \<le> ctx_quota ctx)
     \<and> counts_total (miner_counts ctx) = int (length (seen_hashes ctx))"

lemma counts_total_set:
  "distinct (dict_keys d) \<Longrightarrow> counts_total (dict_set d k (dict_get_default d k 0 + 1)) = counts_total d + 1"
proof (induction d)
  case Nil
  then show ?case by (simp add: counts_total_def dict_values_def dict_set_def dict_get_default_def)
next
  case (Cons kv d)
  obtain k' v where kv: "kv = (k', v)" by (cases kv)
  from Cons have d: "distinct (dict_keys d)" by (simp add: dict_keys_def)
  show ?case
  proof (cases "k' = k")
    case True
    then show ?thesis by (simp add: kv counts_total_def dict_values_def dict_set_def dict_get_default_def)
  next
    case False
    then have "dict_get_default (kv # d) k 0 = dict_get_default d k 0" by (simp add: kv dict_get_default_def)
    with False Cons.IH [OF d] show ?thesis by (simp add: kv counts_total_def dict_values_def dict_set_def)
  qed
qed

lemma values_set: "distinct (dict_keys d) \<Longrightarrow> x \<in> set (dict_values (dict_set d k v)) \<Longrightarrow> x = v \<or> x \<in> set (dict_values d)"
  by (induction d) (auto simp: dict_values_def dict_set_def dict_keys_def split: if_splits)

lemma default_in_values: "dict_get_default d k 0 = 0 \<or> dict_get_default d k 0 \<in> set (dict_values d)"
  by (auto simp: dict_get_default_def dict_values_def split: option.splits dest!: map_of_SomeD intro: rev_image_eqI)

lemma run_pre_gates_cases:
  obtains (failed) g r d where "run_pre_gates env vm mb payload miner ctx = (gate_fail g r d, ctx)" "g \<in> set gate_names"
  | (passed) task where "parse_gate vm payload = Inr task" "jget payload ''package_hash'' = JStr (et_hash task)"
      "dict_get_default (miner_counts ctx) miner 0 < ctx_quota ctx" "et_hash task \<notin> set (seen_hashes ctx)"
      "jget payload ''schema_version'' = JStr schema_version_const" "wire_size_ok env payload mb"
      "run_pre_gates env vm mb payload miner ctx =
         (\<lparr>gd_passed = True, gd_gates = map (\<lambda>g. (g, True)) gate_names, gd_task = Some task,
           gd_hash = Some (et_hash task), gd_failure = None\<rparr>,
          ctx\<lparr>miner_counts := dict_set (miner_counts ctx) miner (dict_get_default (miner_counts ctx) miner 0 + 1),
              seen_hashes := et_hash task # seen_hashes ctx\<rparr>)"
proof (cases "jget payload ''schema_version'' = JStr schema_version_const \<and> wire_size_ok env payload mb")
  case False
  then show thesis
    by (cases "jget payload ''schema_version'' = JStr schema_version_const")
      (auto simp: run_pre_gates_def gate_names_def intro!: failed)
next
  case True
  show thesis
  proof (cases "parse_gate vm payload")
    case (Inl rd)
    with True show thesis by (cases rd) (auto simp: run_pre_gates_def gate_names_def intro!: failed)
  next
    case (Inr task)
    let ?count = "dict_get_default (miner_counts ctx) miner 0"
    show thesis
    proof (cases "jget payload ''package_hash'' = JStr (et_hash task) \<and> ?count < ctx_quota ctx
        \<and> et_hash task \<notin> set (seen_hashes ctx)")
      case True2: True
      show thesis by (rule passed [OF Inr]) (use True True2 Inr in \<open>simp_all add: run_pre_gates_def Let_def\<close>)
    next
      case no: False
      consider "jget payload ''package_hash'' \<noteq> JStr (et_hash task)"
        | "jget payload ''package_hash'' = JStr (et_hash task)" "ctx_quota ctx \<le> ?count"
        | "jget payload ''package_hash'' = JStr (et_hash task)" "\<not> ctx_quota ctx \<le> ?count" "et_hash task \<in> set (seen_hashes ctx)"
        using no by linarith
      then show thesis
        by cases (use True Inr in \<open>auto simp: run_pre_gates_def Let_def gate_names_def intro!: failed\<close>)
    qed
  qed
qed

lemma run_pre_gates_invariant:
  assumes "gate_invariant ctx"
  shows "gate_invariant (snd (run_pre_gates env vm mb payload miner ctx))"
proof (cases rule: run_pre_gates_cases [of env vm mb payload miner ctx])
  case (failed g r d)
  with assms show ?thesis by simp
next
  case (passed task)
  let ?c = "dict_get_default (miner_counts ctx) miner 0"
  have c: "0 \<le> ?c" using assms default_in_values [of "miner_counts ctx" miner] by (auto simp: gate_invariant_def)
  have keys: "distinct (dict_keys (miner_counts ctx))" using assms by (simp add: gate_invariant_def)
  have "\<forall>n \<in> set (dict_values (dict_set (miner_counts ctx) miner (?c + 1))). 0 \<le> n \<and> n \<le> ctx_quota ctx"
    using assms c passed(3) values_set [OF keys] by (fastforce simp: gate_invariant_def)
  with passed assms keys counts_total_set [OF keys] show ?thesis by (simp add: gate_invariant_def)
qed

lemma run_gates_snd:
  "snd (run_gates env vm mb ((miner, payload) # subs) ctx)
     = snd (run_gates env vm mb subs (snd (run_pre_gates env vm mb payload miner ctx)))"
  by (simp split: prod.split)

lemma run_gates_invariant:
  "gate_invariant ctx \<Longrightarrow> gate_invariant (snd (run_gates env vm mb subs ctx))"
proof (induction subs arbitrary: ctx)
  case (Cons s subs)
  obtain miner payload where s: "s = (miner, payload)" by (cases s)
  show ?case unfolding s run_gates_snd by (rule Cons.IH [OF run_pre_gates_invariant [OF Cons.prems]])
qed simp

lemma run_pre_gates_quota [simp]: "ctx_quota (snd (run_pre_gates env vm mb payload miner ctx)) = ctx_quota ctx"
  by (cases rule: run_pre_gates_cases [of env vm mb payload miner ctx]) simp_all

lemma run_gates_quota [simp]: "ctx_quota (snd (run_gates env vm mb subs ctx)) = ctx_quota ctx"
proof (induction subs arbitrary: ctx)
  case (Cons s subs)
  obtain miner payload where s: "s = (miner, payload)" by (cases s)
  show ?case unfolding s run_gates_snd Cons.IH by simp
qed simp

text \<open>The accepted submissions are the hashes seen.\<close>

lemma run_gates_accepted:
  "run_gates env vm mb subs ctx = (ds, ctx') \<Longrightarrow>
   seen_hashes ctx' = rev (map (\<lambda>d. the (gd_hash d)) (filter gd_passed ds)) @ seen_hashes ctx"
proof (induction subs arbitrary: ctx ds ctx')
  case (Cons s subs)
  obtain miner payload where s: "s = (miner, payload)" by (cases s)
  obtain d ctx1 where d: "run_pre_gates env vm mb payload miner ctx = (d, ctx1)" by fastforce
  obtain ds1 ctx2 where ds1: "run_gates env vm mb subs ctx1 = (ds1, ctx2)" by fastforce
  have step: "seen_hashes ctx1 = (if gd_passed d then the (gd_hash d) # seen_hashes ctx else seen_hashes ctx)"
    by (cases rule: run_pre_gates_cases [of env vm mb payload miner ctx]) (use d in \<open>auto simp: gate_fail_def\<close>)
  from Cons.prems d ds1 Cons.IH [OF ds1] step show ?case by (auto simp: s)
qed simp

section \<open>Properties\<close>

text \<open>A submission passes exactly when all six gates hold; then the context counts it and remembers its
  hash, and otherwise the context is unchanged, with the gates before the failing one true and the
  others false.\<close>

lemma gates_decide:
  assumes "run_pre_gates env vm mb payload miner ctx = (d, ctx')"
  shows "if gd_passed d
    then (\<exists>task. gd_task d = Some task \<and> gd_hash d = Some (et_hash task) \<and> parse_gate vm payload = Inr task
           \<and> jget payload ''package_hash'' = JStr (et_hash task) \<and> wire_size_ok env payload mb
           \<and> jget payload ''schema_version'' = JStr schema_version_const
           \<and> dict_get_default (miner_counts ctx) miner 0 < ctx_quota ctx \<and> et_hash task \<notin> set (seen_hashes ctx)
           \<and> seen_hashes ctx' = et_hash task # seen_hashes ctx
           \<and> dict_get (miner_counts ctx') miner = Some (dict_get_default (miner_counts ctx) miner 0 + 1))
         \<and> list_all (\<lambda>(g, b). b) (gd_gates d) \<and> dict_keys (gd_gates d) = gate_names
    else ctx' = ctx \<and> (\<exists>f. gd_failure d = Some f \<and> gf_gate f \<in> set gate_names
           \<and> gd_gates d = gates_until (gf_gate f) gate_names)"
  using assms
  by (cases rule: run_pre_gates_cases [of env vm mb payload miner ctx])
    (auto simp: gate_fail_def list_all_iff dict_keys_def comp_def)

lemma sample_gate: "gd_passed (fst (run_pre_gates plain_env (\<lambda>_. Inr sample_task) 1000 sample_wire ''m'' (new_context 4)))"
  by code_simp

lemma gates_decide_instance:
  "dict_get (miner_counts (snd (run_pre_gates plain_env (\<lambda>_. Inr sample_task) 1000 sample_wire ''m'' (new_context 4)))) ''m'' = Some 1"
proof -
  obtain d c where e: "run_pre_gates plain_env (\<lambda>_. Inr sample_task) 1000 sample_wire ''m'' (new_context 4) = (d, c)"
    by fastforce
  with gates_decide [OF e] sample_gate show ?thesis by (auto simp: new_context_def dict_get_default_def)
qed

text \<open>C35: over all submissions of an epoch no miner has more accepted submissions than the quota, no package
  is accepted twice, and the counts add up to the number accepted.\<close>

theorem gates_epoch_quota:
  assumes "run_gates env vm mb subs (new_context quota) = (ds, ctx)" "0 \<le> quota"
  shows "distinct (map (\<lambda>d. the (gd_hash d)) (filter gd_passed ds))
    \<and> (\<forall>n \<in> set (dict_values (miner_counts ctx)). n \<le> quota)
    \<and> counts_total (miner_counts ctx) = int (length (filter gd_passed ds))"
proof -
  have "gate_invariant (new_context quota)"
    by (simp add: gate_invariant_def new_context_def dict_keys_def dict_values_def counts_total_def)
  then have inv: "gate_invariant ctx" using run_gates_invariant [of "new_context quota" env vm mb subs] assms(1) by simp
  have q: "ctx_quota ctx = quota" using run_gates_quota [of env vm mb subs "new_context quota"]
    unfolding assms(1) by (simp add: new_context_def)
  have "seen_hashes ctx = rev (map (\<lambda>d. the (gd_hash d)) (filter gd_passed ds))"
    using run_gates_accepted [OF assms(1)] by (simp add: new_context_def)
  with inv q show ?thesis by (simp add: gate_invariant_def)
qed

theorem gates_epoch_quota_witness:
  "map gd_passed (fst (run_gates plain_env (\<lambda>_. Inr sample_task) 1000 [(''m'', sample_wire), (''n'', sample_wire)] (new_context 4)))
     = [True, False]
   \<and> counts_total (miner_counts (snd (run_gates plain_env (\<lambda>_. Inr sample_task) 1000
       [(''m'', sample_wire), (''n'', sample_wire)] (new_context 4)))) = 1"
proof -
  let ?g = "run_gates plain_env (\<lambda>_. Inr sample_task) 1000 [(''m'', sample_wire), (''n'', sample_wire)] (new_context 4)"
  have p: "map gd_passed (fst ?g) = [True, False]" by code_simp
  obtain ds c where e: "?g = (ds, c)" by fastforce
  from p have "map gd_passed ds = [True, False]" unfolding e by simp
  then have "length (filter gd_passed ds) = 1" by (auto simp: map_eq_Cons_conv)
  with gates_epoch_quota [OF e] p show ?thesis unfolding e by simp
qed

end
