(* ===== verification/Holdout.thy ===== *)
theory Holdout
  imports Packaging
begin

text \<open>
  \<open>src/dolores_subnet/holdout.py\<close>: the validator-private holdout.  Arguments are what lies outside
  the file: the keyed hash that seeds the generator, \<open>random.Random\<close>'s bounded draw (on which
  \<open>randint\<close>, \<open>choice\<close> and \<open>shuffle\<close> rest as in the standard library), the symbol tables
  of the engine, text renderings, and the verifier that runs a plan against candidate files.
\<close>

section \<open>Policy\<close>

datatype symbol_kind = Delimiter | Escape | Quote

datatype holdout_error =
    Secret_missing
  | Base_hash_differs
  | Ambiguous_concept string
  | Unsupported_family string
  | Unsupported_parser string string
  | Reference_count
  | Reference_not_module
  | Unknown_symbol symbol_kind string

definition policy_version :: string where
  "policy_version = ''parser-core-v1''"

definition supported_family :: string where
  "supported_family = ''parser_roundtrip''"

definition supported_archetypes :: "string list" where
  "supported_archetypes = [''escape_delim'', ''error_contract'', ''quoted_fields'']"

fun or_missing :: "string \<Rightarrow> string" where
  "or_missing [] = ''missing''"
| "or_missing (c # s) = c # s"

fun kind_name :: "symbol_kind \<Rightarrow> string" where
  "kind_name Delimiter = ''delimiter''"
| "kind_name Escape = ''escape''"
| "kind_name Quote = ''quote''"

fun holdout_text :: "holdout_error \<Rightarrow> string" where
  "holdout_text Secret_missing = ''validator holdout secret is required''"
| "holdout_text Base_hash_differs = ''base package hash does not match task content''"
| "holdout_text (Ambiguous_concept k) = ''ambiguous concept: '' @ k"
| "holdout_text (Unsupported_family f) = ''unsupported family for cohort: '' @ or_missing f"
| "holdout_text (Unsupported_parser a b) =
     ''unsupported parser policy: archetype='' @ or_missing a @ '' band='' @ or_missing b"
| "holdout_text Reference_count = ''supported parser task must have exactly one reference file''"
| "holdout_text Reference_not_module = ''supported parser reference must be one root Python module''"
| "holdout_text (Unknown_symbol k slug) = ''unknown parser '' @ kind_name k @ '': '' @ or_missing slug"

fun concept_map_from :: "(string, string) dict \<Rightarrow> string list \<Rightarrow> holdout_error + (string, string) dict" where
  "concept_map_from concepts [] = Inr concepts"
| "concept_map_from concepts (v # vs) =
     (case split_once (CHR '':'') v of
        None \<Rightarrow> concept_map_from concepts vs
      | Some (key, item) \<Rightarrow>
          (case dict_get concepts key of
             Some old \<Rightarrow>
               if old \<noteq> item then Inl (Ambiguous_concept key)
               else concept_map_from (dict_set concepts key item) vs
           | None \<Rightarrow> concept_map_from (dict_set concepts key item) vs))"

definition concept_map :: "string list \<Rightarrow> holdout_error + (string, string) dict" where
  "concept_map values = concept_map_from [] values"

text \<open>\<open>PurePosixPath\<close>: the parts of a path, and suffix and stem of its last one.\<close>

definition path_parts :: "string \<Rightarrow> string list" where
  "path_parts p =
     (if starts_with p ''/'' then [''/''] else [])
     @ filter (\<lambda>w. w \<noteq> [] \<and> w \<noteq> ''.'') (split_on (CHR ''/'') p)"

definition split_suffix :: "string \<Rightarrow> string \<times> string" where
  "split_suffix name =
     (let ext = takeWhile (\<lambda>c. c \<noteq> CHR ''.'') (rev name); rest = drop (length ext) (rev name) in
      if ext \<noteq> [] \<and> 1 < length rest then (rev (tl rest), CHR ''.'' # rev ext) else (name, []))"

definition is_ident_start :: "char \<Rightarrow> bool" where
  "is_ident_start c =
     (let n = (of_char c :: nat) in
      (65 \<le> n \<and> n \<le> 90) \<or> (97 \<le> n \<and> n \<le> 122) \<or> n = 95 \<or> n = 170 \<or> n = 181 \<or> n = 186
      \<or> (192 \<le> n \<and> n \<noteq> 215 \<and> n \<noteq> 247))"

definition is_ident_char :: "char \<Rightarrow> bool" where
  "is_ident_char c = (let n = (of_char c :: nat) in is_ident_start c \<or> (48 \<le> n \<and> n \<le> 57) \<or> n = 183)"

definition is_identifier :: "string \<Rightarrow> bool" where
  "is_identifier s = (s \<noteq> [] \<and> is_ident_start (hd s) \<and> list_all is_ident_char s)"

definition reference_module :: "(string, string) dict \<Rightarrow> holdout_error + string" where
  "reference_module files =
     (case files of
        [(name, content)] \<Rightarrow>
          (case path_parts name of
             [part] \<Rightarrow>
               (case split_suffix part of
                  (stem, suffix) \<Rightarrow>
                    if suffix = ''.py'' \<and> is_identifier stem then Inr stem else Inl Reference_not_module)
           | _ \<Rightarrow> Inl Reference_not_module)
      | _ \<Rightarrow> Inl Reference_count)"

record 'r holdout_env =
  symbol_table :: "symbol_kind \<Rightarrow> (string, string) dict"
  keyed_seed :: "string \<Rightarrow> string \<Rightarrow> string"
  text_digest :: "string \<Rightarrow> string"
  py_repr :: "string \<Rightarrow> string"
  cases_text :: "string list list \<Rightarrow> string"
  rand_init :: "string \<Rightarrow> 'r"
  rand_below :: "nat \<Rightarrow> 'r \<Rightarrow> nat \<times> 'r"

definition symbol_for :: "'r holdout_env \<Rightarrow> symbol_kind \<Rightarrow> string \<Rightarrow> holdout_error + string" where
  "symbol_for he kind slug =
     (case dict_get (symbol_table he kind) slug of None \<Rightarrow> Inl (Unknown_symbol kind slug) | Some c \<Rightarrow> Inr c)"

definition special_kind :: "string \<Rightarrow> symbol_kind" where
  "special_kind archetype = (if archetype = ''quoted_fields'' then Quote else Escape)"

definition validate_holdout_support ::
  "'r holdout_env \<Rightarrow> engine_task \<Rightarrow> holdout_error + (string \<times> string \<times> (string, string) dict \<times> string)" where
  "validate_holdout_support he task =
     bind_result (concept_map (et_concepts task)) (\<lambda>concepts.
     let family = et_task_type task; archetype = dict_get_default concepts ''archetype'' [];
         band = dict_get_default concepts ''target_band'' [] in
     if family \<noteq> supported_family then Inl (Unsupported_family family)
     else if archetype \<notin> set supported_archetypes \<or> band \<noteq> ''core'' then Inl (Unsupported_parser archetype band)
     else
       bind_result (reference_module (et_reference_files task)) (\<lambda>module_name.
       bind_result (symbol_for he Delimiter (dict_get_default concepts ''delim'' [])) (\<lambda>_.
       bind_result (symbol_for he (special_kind archetype) (dict_get_default concepts ''special'' [])) (\<lambda>_.
       Inr (family, archetype, concepts, module_name)))))"

section \<open>Private cases\<close>

definition rand_range :: "'r holdout_env \<Rightarrow> nat \<Rightarrow> nat \<Rightarrow> 'r \<Rightarrow> nat \<times> 'r" where
  "rand_range he a b r = (case rand_below he (b - a + 1) r of (k, r') \<Rightarrow> (a + k, r'))"

definition rand_choice :: "'r holdout_env \<Rightarrow> 'a list \<Rightarrow> 'r \<Rightarrow> 'a \<times> 'r" where
  "rand_choice he xs r = (case rand_below he (length xs) r of (k, r') \<Rightarrow> (xs ! k, r'))"

fun rand_repeat :: "nat \<Rightarrow> ('r \<Rightarrow> 'a \<times> 'r) \<Rightarrow> 'r \<Rightarrow> 'a list \<times> 'r" where
  "rand_repeat 0 f r = ([], r)"
| "rand_repeat (Suc n) f r =
     (case f r of (x, r1) \<Rightarrow> (case rand_repeat n f r1 of (xs, r2) \<Rightarrow> (x # xs, r2)))"

definition token_alphabet :: string where
  "token_alphabet = ''abcdefghijkmnpqrstuvwxyz23456789''"

definition rand_token :: "'r holdout_env \<Rightarrow> string \<Rightarrow> string \<Rightarrow> 'r \<Rightarrow> string \<times> 'r" where
  "rand_token he delimiter special r =
     (case rand_range he 2 10 r of (len, r1) \<Rightarrow>
     (case rand_repeat len (rand_choice he token_alphabet) r1 of (val, r2) \<Rightarrow>
     (case rand_choice he [delimiter, special, delimiter @ special, special @ special] r2 of (marker, r3) \<Rightarrow>
     (case rand_range he 0 (length val) r3 of (offset, r4) \<Rightarrow>
       (take offset val @ marker @ drop offset val, r4)))))"

text \<open>\<open>shuffle\<close>: from the last position down, exchange with a position at or before it.\<close>

fun shuffle_down :: "'r holdout_env \<Rightarrow> nat \<Rightarrow> 'a list \<Rightarrow> 'r \<Rightarrow> 'a list \<times> 'r" where
  "shuffle_down he 0 xs r = (xs, r)"
| "shuffle_down he (Suc i) xs r =
     (case rand_below he (i + 2) r of (j, r1) \<Rightarrow>
        shuffle_down he i (xs[Suc i := xs ! j, j := xs ! Suc i]) r1)"

definition rand_shuffle :: "'r holdout_env \<Rightarrow> 'a list \<Rightarrow> 'r \<Rightarrow> 'a list \<times> 'r" where
  "rand_shuffle he xs r = shuffle_down he (length xs - 1) xs r"

definition rand_case :: "'r holdout_env \<Rightarrow> string \<Rightarrow> string \<Rightarrow> 'r \<Rightarrow> string list \<times> 'r" where
  "rand_case he delimiter special r =
     (case rand_range he 1 6 r of (n, r1) \<Rightarrow> rand_repeat n (rand_token he delimiter special) r1)"

definition fixed_cases :: "string \<Rightarrow> string \<Rightarrow> string list list" where
  "fixed_cases delimiter special =
     [[[]], [[], delimiter, special, []], [delimiter @ special @ delimiter],
      [special @ special, delimiter @ delimiter]]"

definition private_cases :: "'r holdout_env \<Rightarrow> 'r \<Rightarrow> string \<Rightarrow> string \<Rightarrow> string list list" where
  "private_cases he r delimiter special =
     (case rand_repeat 20 (rand_case he delimiter special) r of (drawn, r1) \<Rightarrow>
        fst (rand_shuffle he (fixed_cases delimiter special @ drawn) r1))"

section \<open>The private test\<close>

definition quotes2 :: string where
  "quotes2 = [CHR 0x27, CHR 0x27]"

definition quoted :: "string \<Rightarrow> string" where
  "quoted s = CHR 0x27 # s @ [CHR 0x27]"

definition expected_format_lines :: "string \<Rightarrow> string list" where
  "expected_format_lines archetype =
     (if archetype = ''quoted_fields'' then
        [''def _expected_format(fields):'', ''    parts = []'', ''    for field in fields:'',
         ''        if DELIMITER in field or SPECIAL in field:'',
         ''            body = field.replace(SPECIAL, SPECIAL + SPECIAL)'',
         ''            parts.append(SPECIAL + body + SPECIAL)'', ''        else:'',
         ''            parts.append(field)'', ''    return DELIMITER.join(parts)'']
      else
        [''def _expected_format(fields):'', ''    parts = []'', ''    for field in fields:'',
         ''        encoded = []'', ''        for character in field:'',
         ''            if character == SPECIAL or character == DELIMITER:'',
         ''                encoded.append(SPECIAL)'', ''            encoded.append(character)'',
         ''        parts.append('' @ quotes2 @ ''.join(encoded))'', ''    return DELIMITER.join(parts)''])"

definition render_test_source ::
  "'r holdout_env \<Rightarrow> string \<Rightarrow> string \<Rightarrow> string \<Rightarrow> string \<Rightarrow> string list list \<Rightarrow> string" where
  "render_test_source he module_name archetype delimiter special cases =
     join [CHR 0x0A]
       ([''from '' @ module_name @ '' import format_record, parse_record'', [],
         ''DELIMITER = '' @ py_repr he delimiter, ''SPECIAL = '' @ py_repr he special,
         ''CASES = '' @ cases_text he cases, []]
        @ expected_format_lines archetype
        @ [[], ''def test_validator_private_round_trips():'', ''    for fields in CASES:'',
           ''        expected = _expected_format(fields)'',
           ''        assert format_record(fields) == expected'',
           ''        assert parse_record(expected) == fields'']
        @ (if archetype = ''error_contract'' then
             [[], ''def test_validator_private_dangling_escape_contract():'',
              ''    marker = '' @ py_repr he special, ''    try:'',
              ''        parse_record('' @ quoted ''private'' @ '' + marker)'', ''    except ValueError:'', ''        return'',
              ''    raise AssertionError('' @ quoted ''dangling escape must raise ValueError'' @ '')'']
           else []))
     @ [CHR 0x0A]"

record holdout_plan =
  hp_task :: engine_task
  hp_test_name :: string
  hp_test_source :: string
  hp_family :: string
  hp_archetype :: string
  hp_case_count :: nat
  hp_case_digest :: string
  hp_seed_digest :: string

definition build_holdout_plan ::
  "'r holdout_env \<Rightarrow> engine_task \<Rightarrow> string \<Rightarrow> string \<Rightarrow> holdout_error + holdout_plan" where
  "build_holdout_plan he task package_hash secret =
     (if secret = [] then Inl Secret_missing
      else if et_hash task \<noteq> package_hash then Inl Base_hash_differs
      else
        bind_result (validate_holdout_support he task) (\<lambda>(family, archetype, concepts, module_name).
        bind_result (symbol_for he Delimiter (dict_get_default concepts ''delim'' [])) (\<lambda>delimiter.
        bind_result (symbol_for he (special_kind archetype) (dict_get_default concepts ''special'' [])) (\<lambda>special.
        let seed = keyed_seed he secret (policy_version @ '':'' @ package_hash);
            cases = private_cases he (rand_init he seed) delimiter special;
            source = render_test_source he module_name archetype delimiter special cases;
            digest = text_digest he source
        in Inr \<lparr>hp_task = task, hp_test_name = ''test_validator_holdout_'' @ take 12 digest @ ''.py'',
             hp_test_source = source, hp_family = family, hp_archetype = archetype,
             hp_case_count = length cases, hp_case_digest = digest, hp_seed_digest = text_digest he seed\<rparr>))))"

section \<open>Probes\<close>

definition is_line_break :: "char \<Rightarrow> bool" where
  "is_line_break c = (let n = (of_char c :: nat) in (10 \<le> n \<and> n \<le> 13) \<or> (28 \<le> n \<and> n \<le> 30) \<or> n = 133)"

text \<open>\<open>s.splitlines()\<close>, with the line read so far.\<close>

function split_lines_from :: "string \<Rightarrow> string \<Rightarrow> string list" where
  "split_lines_from line [] = (if line = [] then [] else [line])"
| "split_lines_from line (c # s) =
     (if c = CHR 0x0D then line # split_lines_from [] (case s of d # t \<Rightarrow> if d = CHR 0x0A then t else s | [] \<Rightarrow> s)
      else if is_line_break c then line # split_lines_from [] s
      else split_lines_from (line @ [c]) s)"
  by pat_completeness auto

termination split_lines_from
  by (relation "measure (\<lambda>(line, s). length s)") (auto split: list.splits)

definition split_lines :: "string \<Rightarrow> string list" where
  "split_lines s = split_lines_from [] s"

definition probe_drop_marker :: string where
  "probe_drop_marker = ''# PROBE-DROP''"

definition strip_probe_drop_lines :: "string \<Rightarrow> string" where
  "strip_probe_drop_lines content =
     (let stripped = join [CHR 0x0A] (filter (\<lambda>l. \<not> contains l probe_drop_marker) (split_lines content)) in
      if ends_with content [CHR 0x0A] \<and> \<not> ends_with stripped [CHR 0x0A] then stripped @ [CHR 0x0A] else stripped)"

definition probe_candidates :: "engine_task \<Rightarrow> (string, (string, string) dict) dict" where
  "probe_candidates task =
     (if et_starter_files task \<noteq> [] then [(''starter_files'', et_starter_files task)] else [])
     @ (let stripped = map (\<lambda>(p, content). (p, strip_probe_drop_lines content)) (et_reference_files task) in
        if stripped \<noteq> et_reference_files task then [(''family_edge_removed'', stripped)] else [])"

section \<open>Evidence\<close>

text \<open>What the subnet reads of the engine's verification result.\<close>

record safety_finding =
  sf_message :: string
  sf_record :: json

record verification =
  vf_status :: string
  vf_backend :: json
  vf_requested_backend :: json
  vf_execution_mode :: json
  vf_executed :: bool
  vf_containerized :: bool
  vf_image :: json
  vf_fallback_reason :: "string option"
  vf_error_summary :: "string option"
  vf_safety_findings :: "safety_finding list"
  vf_logs_hash :: "string option"

record holdout_evidence =
  he_passed :: bool
  he_status :: string
  he_reason :: string
  he_family :: string
  he_archetype :: string
  he_base_package_hash :: string
  he_case_count :: nat
  he_case_digest :: string
  he_reference_passed :: bool
  he_containerized :: bool
  he_executed :: bool
  he_logs_hash :: "string option"
  he_probes_caught :: "(string, bool) dict"

definition evidence_record :: "holdout_evidence \<Rightarrow> jdict" where
  "evidence_record e =
     [(''passed'', JBool (he_passed e)), (''status'', JStr (he_status e)), (''reason'', JStr (he_reason e)),
      (''policy_version'', JStr policy_version), (''family'', JStr (he_family e)),
      (''archetype'', JStr (he_archetype e)), (''base_package_hash'', JStr (he_base_package_hash e)),
      (''case_count'', JInt (int (he_case_count e))), (''case_digest'', JStr (he_case_digest e)),
      (''reference_passed'', JBool (he_reference_passed e)), (''containerized'', JBool (he_containerized e)),
      (''executed'', JBool (he_executed e)), (''logs_hash'', opt_str (he_logs_hash e)),
      (''probes_caught'', JObj (map (\<lambda>(p, b). (p, JBool b)) (dict_sorted (he_probes_caught e))))]"

text \<open>The verifier: a plan and candidate files instead of the reference, if any.\<close>

type_synonym runner = "holdout_plan \<Rightarrow> (string, string) dict option \<Rightarrow> verification"

definition isolated :: "bool \<Rightarrow> verification \<Rightarrow> bool" where
  "isolated require_containerized v =
     (if require_containerized then vf_containerized v \<and> vf_executed v else vf_executed v)"

definition run_probes :: "runner \<Rightarrow> bool \<Rightarrow> holdout_plan \<Rightarrow> engine_task \<Rightarrow> (string, bool) dict" where
  "run_probes runner rc plan task =
     map (\<lambda>(probe, files). (probe, vf_status (runner plan (Some files)) \<noteq> ''passed'' \<and> isolated rc (runner plan (Some files))))
       (probe_candidates task)"

definition evaluate_holdout ::
  "'r holdout_env \<Rightarrow> runner \<Rightarrow> bool \<Rightarrow> engine_task \<Rightarrow> string \<Rightarrow> string \<Rightarrow> holdout_error + holdout_evidence" where
  "evaluate_holdout he runner rc task package_hash secret =
     (case build_holdout_plan he task package_hash secret of
        Inl e \<Rightarrow>
          bind_result (concept_map (et_concepts task)) (\<lambda>concepts.
          Inr \<lparr>he_passed = False, he_status = (if secret = [] then ''infra_error'' else ''unsupported''),
               he_reason = holdout_text e, he_family = et_task_type task,
               he_archetype = dict_get_default concepts ''archetype'' [], he_base_package_hash = package_hash,
               he_case_count = 0, he_case_digest = [], he_reference_passed = False, he_containerized = False,
               he_executed = False, he_logs_hash = None, he_probes_caught = []\<rparr>)
      | Inr plan \<Rightarrow>
          let reference = runner plan None;
              reference_ok = (vf_status reference = ''passed'');
              isolation_ok = isolated rc reference;
              probes = (if reference_ok \<and> isolation_ok then run_probes runner rc plan task else []);
              all_caught = list_all (\<lambda>(p, b). b) probes;
              verdict =
                (if \<not> vf_executed reference then
                   (''infra_error'', (case or_text (vf_fallback_reason reference) None of
                      Some r \<Rightarrow> r | None \<Rightarrow> ''validator holdout did not execute''))
                 else if rc \<and> \<not> vf_containerized reference then
                   (''infra_error'', ''validator holdout was not containerized'')
                 else if \<not> reference_ok then (''failed'', ''reference failed validator-owned holdout'')
                 else if probes = [] then (''failed'', ''no validator holdout probe was available'')
                 else if \<not> all_caught then (''failed'', ''validator-owned holdout missed a known-wrong probe'')
                 else (''passed'', []))
          in Inr \<lparr>he_passed = (reference_ok \<and> isolation_ok \<and> probes \<noteq> [] \<and> all_caught), he_status = fst verdict,
               he_reason = snd verdict, he_family = hp_family plan, he_archetype = hp_archetype plan,
               he_base_package_hash = package_hash, he_case_count = hp_case_count plan,
               he_case_digest = hp_case_digest plan, he_reference_passed = reference_ok,
               he_containerized = vf_containerized reference, he_executed = vf_executed reference,
               he_logs_hash = vf_logs_hash reference, he_probes_caught = probes\<rparr>)"

section \<open>Facts about the cases\<close>

definition lawful_draw :: "'r holdout_env \<Rightarrow> bool" where
  "lawful_draw he \<longleftrightarrow> (\<forall>n r. 0 < n \<longrightarrow> fst (rand_below he n r) < n)"

lemma below: "lawful_draw he \<Longrightarrow> 0 < n \<Longrightarrow> rand_below he n r = (k, r') \<Longrightarrow> k < n"
  unfolding lawful_draw_def by (metis fst_conv)

lemma rand_repeat_length: "rand_repeat n f r = (xs, r') \<Longrightarrow> length xs = n"
  by (induction n arbitrary: r xs) (auto split: prod.splits)

lemma rand_repeat_all:
  "rand_repeat n f r = (xs, r') \<Longrightarrow> (\<And>r x r'. f r = (x, r') \<Longrightarrow> P x) \<Longrightarrow> x \<in> set xs \<Longrightarrow> P x"
proof (induction n arbitrary: r xs)
  case (Suc n)
  obtain y r1 where y: "f r = (y, r1)" by fastforce
  obtain ys r2 where ys: "rand_repeat n f r1 = (ys, r2)" by fastforce
  from Suc.prems(1) y ys have "xs = y # ys" "r2 = r'" by auto
  with Suc.prems(2,3) Suc.IH [of r1 ys] y ys show ?case by auto
qed simp

lemma shuffle_mset:
  assumes "lawful_draw he" "i < length xs \<or> i = 0"
  shows "mset (fst (shuffle_down he i xs r)) = mset xs"
  using assms(2)
proof (induction i arbitrary: xs r)
  case (Suc i)
  obtain j r1 where j: "rand_below he (i + 2) r = (j, r1)" by fastforce
  have "j < i + 2" using below [OF assms(1) _ j] by simp
  with Suc.prems have len: "j < length xs" "Suc i < length xs" by auto
  have "mset (fst (shuffle_down he (Suc i) xs r)) = mset (fst (shuffle_down he i (xs[Suc i := xs ! j, j := xs ! Suc i]) r1))"
    using j by simp
  also have "\<dots> = mset (xs[Suc i := xs ! j, j := xs ! Suc i])"
    using len by (intro Suc.IH) simp
  also have "\<dots> = mset xs" using mset_swap [OF len(1,2)] by simp
  finally show ?case .
qed simp

lemma private_cases_mset:
  assumes "lawful_draw he"
  shows "\<exists>drawn. mset (private_cases he r d s) = mset (fixed_cases d s) + mset drawn \<and> length drawn = 20
     \<and> (\<forall>c \<in> set drawn. 1 \<le> length c \<and> length c \<le> 6)"
proof -
  obtain drawn r1 where dr: "rand_repeat 20 (rand_case he d s) r = (drawn, r1)" by fastforce
  have "1 \<le> length c \<and> length c \<le> 6" if "c \<in> set drawn" for c
  proof (rule rand_repeat_all [OF dr _ that])
    fix r x r' assume "rand_case he d s r = (x, r')"
    then obtain k r2 where k: "rand_below he 6 r = (k, r2)" and x: "rand_repeat (1 + k) (rand_token he d s) r2 = (x, r')"
      by (auto simp: rand_case_def rand_range_def split: prod.splits)
    show "1 \<le> length x \<and> length x \<le> 6" using below [OF assms _ k] rand_repeat_length [OF x] by simp
  qed
  moreover have "mset (private_cases he r d s) = mset (fixed_cases d s @ drawn)"
    unfolding private_cases_def dr rand_shuffle_def
    using shuffle_mset [OF assms, of "length (fixed_cases d s @ drawn) - 1" "fixed_cases d s @ drawn" r1]
    by (simp add: fixed_cases_def)
  ultimately show ?thesis using rand_repeat_length [OF dr] by auto
qed

lemma evaluate_passed_iff:
  assumes "evaluate_holdout he runner rc task h secret = Inr e"
  shows "he_passed e \<longleftrightarrow> he_status e = ''passed''"
  using assms
  by (auto simp: evaluate_holdout_def Let_def isolated_def split: sum.splits if_splits)

section \<open>Properties\<close>

definition sample_holdout_env :: "nat holdout_env" where
  "sample_holdout_env =
     \<lparr>symbol_table = (\<lambda>k. [(''comma'', '',''), (''backslash'', [CHR 0x5C])]), keyed_seed = (\<lambda>k m. k @ m),
      text_digest = (\<lambda>s. replicate 64 CHR ''0''), py_repr = quoted, cases_text = (\<lambda>cs. ''[]''),
      rand_init = length, rand_below = (\<lambda>n r. (0, r))\<rparr>"

definition sample_verification :: "string \<Rightarrow> verification" where
  "sample_verification s = \<lparr>vf_status = s, vf_backend = JNull, vf_requested_backend = JNull, vf_execution_mode = JNull,
     vf_executed = True, vf_containerized = True, vf_image = JNull, vf_fallback_reason = None,
     vf_error_summary = None, vf_safety_findings = [], vf_logs_hash = None\<rparr>"

definition sample_runner :: runner where
  "sample_runner plan candidate = sample_verification (if candidate = None then ''passed'' else ''failed'')"

lemma sample_lawful: "lawful_draw sample_holdout_env"
  by (simp add: lawful_draw_def sample_holdout_env_def)

lemma sample_evidence:
  "is_ok (evaluate_holdout sample_holdout_env sample_runner True sample_task ''h1'' ''secret'')"
  "map_option he_passed (case evaluate_holdout sample_holdout_env sample_runner True sample_task ''h1'' ''secret'' of
     Inl _ \<Rightarrow> None | Inr e \<Rightarrow> Some e) = Some True"
  by code_simp+

lemma passed_evidence:
  assumes "evaluate_holdout he runner rc task h secret = Inr e" "he_passed e"
  shows "secret \<noteq> [] \<and> et_hash task = h \<and> et_task_type task = supported_family
    \<and> (\<exists>plan. build_holdout_plan he task h secret = Inr plan
         \<and> vf_status (runner plan None) = ''passed'' \<and> isolated rc (runner plan None)
         \<and> probe_candidates task \<noteq> []
         \<and> (\<forall>(p, files) \<in> set (probe_candidates task).
              vf_status (runner plan (Some files)) \<noteq> ''passed'' \<and> isolated rc (runner plan (Some files))))"
proof -
  obtain plan where plan: "build_holdout_plan he task h secret = Inr plan"
    using assms by (auto simp: evaluate_holdout_def split: sum.splits)
  then have policy: "secret \<noteq> []" "et_hash task = h" "et_task_type task = supported_family"
    by (auto simp: build_holdout_plan_def validate_holdout_support_def Let_def split: if_splits)
  have run: "vf_status (runner plan None) = ''passed''" "isolated rc (runner plan None)"
    "run_probes runner rc plan task \<noteq> []" "list_all (\<lambda>(p, b). b) (run_probes runner rc plan task)"
    using assms plan by (auto simp: evaluate_holdout_def Let_def split: if_splits)
  then show ?thesis using plan policy by (auto simp: run_probes_def list_all_iff)
qed

text \<open>C34: evidence counts as passed exactly when its status is passed; then the package is within the
  cohort's policy, the reference passed in an isolated run, and there is a known-wrong probe and every
  probe failed in an isolated run.\<close>

theorem holdout_pass_means:
  assumes "evaluate_holdout he runner rc task h secret = Inr e"
  shows "(he_passed e \<longleftrightarrow> he_status e = ''passed'')
    \<and> (he_passed e \<longrightarrow> secret \<noteq> [] \<and> et_hash task = h \<and> et_task_type task = supported_family
         \<and> (\<exists>plan. build_holdout_plan he task h secret = Inr plan
              \<and> vf_status (runner plan None) = ''passed'' \<and> isolated rc (runner plan None)
              \<and> probe_candidates task \<noteq> []
              \<and> (\<forall>(p, files) \<in> set (probe_candidates task).
                   vf_status (runner plan (Some files)) \<noteq> ''passed'' \<and> isolated rc (runner plan (Some files)))))"
  using evaluate_passed_iff [OF assms] passed_evidence [OF assms] by blast

theorem holdout_pass_means_witness:
  "\<exists>e. evaluate_holdout sample_holdout_env sample_runner True sample_task ''h1'' ''secret'' = Inr e
     \<and> he_status e = ''passed''"
proof -
  obtain e where e: "evaluate_holdout sample_holdout_env sample_runner True sample_task ''h1'' ''secret'' = Inr e"
    using sample_evidence(1) by (auto simp: is_ok_iff)
  with holdout_pass_means [OF e] sample_evidence(2) show ?thesis by simp
qed

text \<open>Whatever the secret, the private cases are the four edge cases and twenty drawn ones of one to six
  fields, in some order.\<close>

lemma private_cases_cover_edges:
  assumes "lawful_draw he"
  shows "length (private_cases he r d s) = 24
    \<and> set (fixed_cases d s) \<subseteq> set (private_cases he r d s)
    \<and> (\<forall>c \<in> set (private_cases he r d s). 1 \<le> length c \<and> length c \<le> 6)"
proof -
  obtain drawn where m: "mset (private_cases he r d s) = mset (fixed_cases d s) + mset drawn" "length drawn = 20"
     "\<forall>c \<in> set drawn. 1 \<le> length c \<and> length c \<le> 6"
    using private_cases_mset [OF assms] by blast
  have set: "set (private_cases he r d s) = set (fixed_cases d s) \<union> set drawn"
    using arg_cong [OF m(1), of set_mset] by simp
  have "length (private_cases he r d s) = length (fixed_cases d s) + length drawn"
    using arg_cong [OF m(1), of size] by simp
  moreover have "\<forall>c \<in> set (fixed_cases d s). 1 \<le> length c \<and> length c \<le> 6" by (simp add: fixed_cases_def)
  ultimately show ?thesis using m(2,3) set by (auto simp: fixed_cases_def)
qed

lemma private_cases_cover_edges_instance:
  "length (private_cases sample_holdout_env 5 '','' ''q'') = 24"
  using private_cases_cover_edges [OF sample_lawful] by blast

text \<open>A task with two values for one concept makes the evaluation itself raise, although the policy error is
  caught: the handler reads the concepts again.\<close>

lemma ambiguous_concepts_escape:
  "evaluate_holdout he runner rc (sample_task\<lparr>et_concepts := [''delim:comma'', ''delim:pipe'']\<rparr>) ''h1'' ''secret''
     = Inl (Ambiguous_concept ''delim'')"
  by (simp add: evaluate_holdout_def build_holdout_plan_def validate_holdout_support_def concept_map_def
      sample_task_def dict_get_def dict_set_def)

section \<open>Scanning evidence for private material\<close>

text \<open>
  The pattern asks for a string literal without escapes that holds a name and is followed by a colon, in the serialised
  record.
\<close>

definition plain_char :: "char \<Rightarrow> bool" where
  "plain_char c = (c \<noteq> CHR 0x22 \<and> c \<noteq> CHR 0x5C)"

definition key_with :: "string \<Rightarrow> string \<Rightarrow> bool" where
  "key_with name s =
     (contains (takeWhile plain_char s) name
      \<and> (case dropWhile plain_char s of
           [] \<Rightarrow> False
         | c # t \<Rightarrow> c = CHR 0x22 \<and> starts_with (dropWhile is_space t) '':''))"

fun mentions_key :: "string \<Rightarrow> string \<Rightarrow> bool" where
  "mentions_key name [] = False"
| "mentions_key name (c # s) = (c = CHR 0x22 \<and> key_with name s \<or> mentions_key name s)"

definition forbidden_names :: "string list" where
  "forbidden_names = [''cases'', ''test_source'', ''holdout_task'', ''secret'']"

definition evidence_contains_active_material :: "(jdict \<Rightarrow> string) \<Rightarrow> jdict \<Rightarrow> bool" where
  "evidence_contains_active_material serialise evidence =
     list_ex (\<lambda>name. mentions_key name (lower (serialise evidence))) forbidden_names"

lemma mentions_key_append: "mentions_key name t \<Longrightarrow> mentions_key name (s @ t)"
  by (induction s) auto

text \<open>A key with a forbidden name in it is found wherever it stands in the text.\<close>

lemma forbidden_key_found:
  assumes "lower (serialise r) = s @ CHR 0x22 # k @ CHR 0x22 # CHR '':'' # t" "list_all plain_char k"
    and "name \<in> set forbidden_names" "contains k name"
  shows "evidence_contains_active_material serialise r"
proof -
  have run: "takeWhile plain_char (k @ CHR 0x22 # CHR '':'' # t) = k" "dropWhile plain_char (k @ CHR 0x22 # CHR '':'' # t) = CHR 0x22 # CHR '':'' # t"
    using assms(2) by (simp_all add: list_all_iff takeWhile_append2 dropWhile_append2 plain_char_def)
  have "\<not> is_space CHR '':''" by code_simp
  then have "key_with name (k @ CHR 0x22 # CHR '':'' # t)"
    using assms(4) by (simp add: key_with_def run starts_with_def)
  then have "mentions_key name (lower (serialise r))" using assms(1) by (simp add: mentions_key_append)
  with assms(3) show ?thesis by (auto simp: evidence_contains_active_material_def list_ex_iff)
qed

end
