(* ===== verification/Bridge.thy ===== *)
theory Bridge
  imports Gates Holdout Chain
begin

text \<open>
  \<open>src/dolores_subnet/bridge.py\<close>: from a wire payload to the outcome that is scored.  The engine's
  pipeline is an argument that takes the task and the panel file to its result or an exception; deletions from the
  engine's archive (\<open>purge_task\<close>) are collected in the state, next to the gate context of the
  epoch.
\<close>

section \<open>Outcomes\<close>

record submission_outcome =
  so_status :: string
  so_task_id :: string
  so_package_hash :: json
  so_task_value :: pyfloat
  so_gates :: "(string, bool) dict"
  so_components :: "(string, pyfloat) dict"
  so_verification :: jdict
  so_holdout :: jdict
  so_reason :: string
  so_panel_rows :: "jdict list"

definition outcome ::
  "string \<Rightarrow> string \<Rightarrow> json \<Rightarrow> (string, bool) dict \<Rightarrow> string \<Rightarrow> submission_outcome" where
  "outcome status task_id package_hash gates reason =
     \<lparr>so_status = status, so_task_id = task_id, so_package_hash = package_hash, so_task_value = Fin 0,
      so_gates = gates, so_components = [], so_verification = [], so_holdout = [], so_reason = reason,
      so_panel_rows = []\<rparr>"

definition floats_json :: "(string, pyfloat) dict \<Rightarrow> json" where
  "floats_json d = JObj (map (\<lambda>(k, v). (k, JFloat v)) d)"

definition bools_json :: "(string, bool) dict \<Rightarrow> json" where
  "bools_json d = JObj (map (\<lambda>(k, v). (k, JBool v)) d)"

definition outcome_record :: "int \<Rightarrow> string \<Rightarrow> int \<Rightarrow> submission_outcome \<Rightarrow> jdict" where
  "outcome_record epoch_id miner_hotkey miner_uid o1 =
     [(''epoch_id'', JInt epoch_id), (''miner_hotkey'', JStr miner_hotkey), (''miner_uid'', JInt miner_uid),
      (''task_id'', JStr (so_task_id o1)), (''package_hash'', so_package_hash o1), (''status'', JStr (so_status o1)),
      (''reason'', JStr (so_reason o1)), (''pre_gates'', bools_json (so_gates o1)),
      (''task_value'', JFloat (so_task_value o1)), (''components'', floats_json (so_components o1)),
      (''verification'', JObj (so_verification o1)), (''holdout'', JObj (so_holdout o1))]"

section \<open>Pipeline results\<close>

record pipeline_result =
  pr_error :: "string option"
  pr_status :: string
  pr_verification :: "verification option"
  pr_score :: "engine_score option"
  pr_rows :: "jdict list"

definition is_word_char :: "char \<Rightarrow> bool" where
  "is_word_char c =
     (is_ident_char c \<and> c \<noteq> CHR 0xB7 \<or> of_char c \<in> set [178, 179, 185, 188, 189, 190 :: nat])"

text \<open>The rest after a match of \<open>in \d+(\.\d+)?s\<close> with a word boundary at its end.\<close>

definition duration_match :: "string \<Rightarrow> string option" where
  "duration_match s =
     (if \<not> starts_with s ''in '' then None
      else
        let r = drop 3 s; r1 = dropWhile is_digit r;
            r2 = (case r1 of
                    c # t \<Rightarrow> if c = CHR ''.'' \<and> takeWhile is_digit t \<noteq> [] then dropWhile is_digit t else r1
                  | [] \<Rightarrow> [])
        in if takeWhile is_digit r = [] then None
           else (case r2 of
                   c # t \<Rightarrow>
                     if c = CHR ''s'' \<and> (case t of [] \<Rightarrow> True | d # _ \<Rightarrow> \<not> is_word_char d) then Some t else None
                 | [] \<Rightarrow> None))"

lemma dropWhile_length: "length (dropWhile P xs) \<le> length xs"
  by (rule length_dropWhile_le)

lemma duration_match_shorter: "duration_match s = Some t \<Longrightarrow> length t < length s"
proof -
  assume m: "duration_match s = Some t"
  let ?r = "drop 3 s"
  let ?r1 = "dropWhile is_digit ?r"
  have "length ?r \<le> length s" by simp
  moreover have "length ?r1 \<le> length ?r" by (rule dropWhile_length)
  moreover have "length (dropWhile is_digit u) \<le> length u" for u by (rule dropWhile_length)
  ultimately show ?thesis using m
    by (auto simp: duration_match_def Let_def split: if_splits list.splits)
      (metis Suc_leD Suc_le_eq dropWhile_length le_trans length_Cons length_drop diff_le_self)+
qed

function stable_summary_from :: "bool \<Rightarrow> string \<Rightarrow> string" where
  "stable_summary_from prev [] = []"
| "stable_summary_from prev (c # s) =
     (case (if prev then None else duration_match (c # s)) of
        Some t \<Rightarrow> ''in <duration>s'' @ stable_summary_from True t
      | None \<Rightarrow> c # stable_summary_from (is_word_char c) s)"
  by pat_completeness auto

termination stable_summary_from
  by (relation "measure (\<lambda>(prev, s). length s)")
    (auto split: if_splits dest!: duration_match_shorter)

definition stable_error_summary :: "string option \<Rightarrow> string option" where
  "stable_error_summary v = map_option (stable_summary_from False) v"

definition is_infra_error :: "verification \<Rightarrow> bool" where
  "is_infra_error v = (\<not> vf_executed v \<and> vf_fallback_reason v \<noteq> None \<and> vf_safety_findings v = [])"

definition verification_summary :: "verification \<Rightarrow> jdict" where
  "verification_summary v =
     [(''status'', JStr (vf_status v)), (''backend'', vf_backend v), (''requested_backend'', vf_requested_backend v),
      (''execution_mode'', vf_execution_mode v), (''executed'', JBool (vf_executed v)),
      (''containerized'', JBool (vf_containerized v)), (''image'', vf_image v),
      (''fallback_reason'', opt_str (vf_fallback_reason v)),
      (''error_summary'', opt_str (stable_error_summary (vf_error_summary v))),
      (''safety_findings'', JArr (map sf_record (vf_safety_findings v)))]"

definition noncontainerized_allowed :: "string list" where
  "noncontainerized_allowed = [''rejected'', ''review'', ''invalid'', ''infra_error'']"

text \<open>The outcome and the hashes to purge from the engine's archive.\<close>

definition outcome_from_pipeline ::
  "string \<Rightarrow> pipeline_result \<Rightarrow> string \<Rightarrow> string \<Rightarrow> (string, bool) dict \<Rightarrow> jdict \<Rightarrow> submission_outcome \<times> string list" where
  "outcome_from_pipeline backend_name result task_id task_hash gates holdout =
     (let purge = (if task_hash = [] then [] else [task_hash]);
          err = (case pr_error result of None \<Rightarrow> [] | Some e \<Rightarrow> e) in
      case pr_verification result of
        None \<Rightarrow>
          ((outcome ''invalid'' task_id (JStr task_hash) gates
              (''pipeline:'' @ (if err = [] then pr_status result else err)))\<lparr>so_holdout := holdout\<rparr>, [])
      | Some v \<Rightarrow>
          if err \<noteq> [] then
            ((outcome ''invalid'' task_id (JStr task_hash) gates (''pipeline:'' @ err))\<lparr>so_holdout := holdout\<rparr>, [])
          else if is_infra_error v then
            ((outcome ''infra_error'' task_id (JStr task_hash) gates
                (case or_text (vf_fallback_reason v) None of Some r \<Rightarrow> r | None \<Rightarrow> ''infrastructure failure''))
               \<lparr>so_verification := verification_summary v, so_holdout := holdout\<rparr>, purge)
          else
            (case vf_safety_findings v of
               f # fs \<Rightarrow>
                 ((outcome ''rejected'' task_id (JStr task_hash) gates (''safety:'' @ sf_message f))
                    \<lparr>so_verification := verification_summary v, so_holdout := holdout\<rparr>, [])
             | [] \<Rightarrow>
                 let components = (case pr_score result of None \<Rightarrow> [] | Some s \<Rightarrow> score_components s);
                     lifecycle = (case pr_score result of None \<Rightarrow> pr_status result | Some s \<Rightarrow> lifecycle_status s);
                     task_value = (case pr_score result of None \<Rightarrow> Fin 0 | Some s \<Rightarrow> task_value_from_score s);
                     reason = (if vf_status v = ''failed'' \<and> vf_executed v then ''verification failed'' else lifecycle)
                 in if backend_name = ''docker'' \<and> \<not> vf_containerized v \<and> lifecycle \<notin> set noncontainerized_allowed then
                      ((outcome ''infra_error'' task_id (JStr task_hash) gates
                          ''docker accepted without containerized execution'')
                         \<lparr>so_verification := verification_summary v, so_holdout := holdout\<rparr>, purge)
                    else
                      ((outcome lifecycle task_id (JStr task_hash) gates reason)
                         \<lparr>so_task_value := task_value, so_components := components,
                           so_verification := verification_summary v, so_holdout := holdout,
                           so_panel_rows := pr_rows result\<rparr>, [])))"

section \<open>Validation of one submission\<close>

record bridge_state =
  br_context :: gate_context
  br_purged :: "string list"

text \<open>\<open>Attribute_error\<close> is what reading \<open>task_id\<close> of a package that is no mapping raises.\<close>

datatype bridge_error = Attribute_error | Holdout_raised holdout_error | Pipeline_raised exn

text \<open>The engine and the verifier; running the pipeline may raise.\<close>

record 'r engine =
  en_validate :: model_validate
  en_pipeline :: "engine_task \<Rightarrow> string \<Rightarrow> exn + pipeline_result"
  en_holdout :: "'r holdout_env"
  en_runner :: runner

definition reserved_wire_keys :: "string list" where
  "reserved_wire_keys = [''wire_error'']"

definition reserved_in :: "jdict \<Rightarrow> string list" where
  "reserved_in wire = filter (has_key wire) reserved_wire_keys"

definition reserved_outcome :: "'b env \<Rightarrow> jdict \<Rightarrow> submission_outcome" where
  "reserved_outcome env wire =
     (let package_task_id = (case jget wire ''package'' of JObj p \<Rightarrow> jget p ''task_id'' | _ \<Rightarrow> JNull) in
      outcome ''invalid''
        (text_of_json env (jget_or wire ''task_id'' (or_else package_task_id (JStr ''unknown''))))
        (jget wire ''package_hash'') [(''reserved_keys'', False)]
        (''invalid:reserved_key:'' @ join '','' (sort (reserved_in wire))))"

text \<open>
  The default of \<open>wire.get("task_id", ...)\<close> is evaluated first: it reads \<open>task_id\<close> of the
  package whether or not it is needed.
\<close>

definition wire_task_id :: "'b env \<Rightarrow> jdict \<Rightarrow> bridge_error + string" where
  "wire_task_id env wire =
     (case jget_or wire ''package'' (JObj []) of
        JObj p \<Rightarrow> Inr (text_of_json env (jget_or wire ''task_id'' (jget_or p ''task_id'' (JStr ''unknown''))))
      | _ \<Rightarrow> Inl Attribute_error)"

definition unsupported_outcome ::
  "engine_task \<Rightarrow> string \<Rightarrow> (string, bool) dict \<Rightarrow> holdout_error \<Rightarrow> submission_outcome" where
  "unsupported_outcome task task_hash gates e =
     (outcome ''rejected'' (et_id task) (JStr task_hash) gates (''holdout:unsupported:'' @ holdout_text e))
       \<lparr>so_holdout := [(''passed'', JBool False), (''status'', JStr ''unsupported''), (''reason'', JStr (holdout_text e)),
          (''policy_version'', JStr policy_version), (''base_package_hash'', JStr task_hash)]\<rparr>"

definition holdout_failure_outcome ::
  "engine_task \<Rightarrow> string \<Rightarrow> (string, bool) dict \<Rightarrow> verification \<Rightarrow> holdout_evidence \<Rightarrow> submission_outcome" where
  "holdout_failure_outcome task task_hash gates v e =
     (outcome (if he_status e = ''infra_error'' then ''infra_error'' else ''rejected'') (et_id task) (JStr task_hash) gates
        (''holdout:'' @ he_status e @ '':'' @ he_reason e))
       \<lparr>so_verification := verification_summary v, so_holdout := evidence_record e\<rparr>"

definition run_validated ::
  "'r engine \<Rightarrow> subnet_config \<Rightarrow> string \<Rightarrow> engine_task \<Rightarrow> string \<Rightarrow> (string, bool) dict
     \<Rightarrow> bridge_error + (submission_outcome \<times> string list)" where
  "run_validated en cfg panel task task_hash gates =
     bind_result (map_error Pipeline_raised (en_pipeline en task panel)) (\<lambda>result.
      let wants_holdout = (holdout_required cfg \<and>
            (case pr_verification result of None \<Rightarrow> False | Some v \<Rightarrow> vf_status v = ''passed'')) in
      if \<not> wants_holdout then Inr (outcome_from_pipeline (backend cfg) result (et_id task) task_hash gates [])
      else
        (case pr_verification result of
           None \<Rightarrow> Inr (outcome_from_pipeline (backend cfg) result (et_id task) task_hash gates [])
         | Some v \<Rightarrow>
             bind_result (map_error Holdout_raised
                (evaluate_holdout (en_holdout en) (en_runner en) True task
                   (if task_hash = [] then et_hash task else task_hash)
                   (case holdout_secret cfg of None \<Rightarrow> [] | Some s \<Rightarrow> s))) (\<lambda>evidence.
             if \<not> he_passed evidence then
               Inr (holdout_failure_outcome task task_hash gates v evidence,
                    if task_hash = [] then [] else [task_hash])
             else Inr (outcome_from_pipeline (backend cfg) result (et_id task) task_hash gates (evidence_record evidence)))))"

definition validate_submission ::
  "'b env \<Rightarrow> 'r engine \<Rightarrow> subnet_config \<Rightarrow> string \<Rightarrow> string \<Rightarrow> jdict
     \<Rightarrow> (bridge_state, bridge_error, submission_outcome) op" where
  "validate_submission env en cfg panel miner_hotkey wire s =
     (if reserved_in wire \<noteq> [] then (Inr (reserved_outcome env wire), s)
      else
        (case run_pre_gates env (en_validate en) (max_package_bytes cfg) wire miner_hotkey (br_context s) of
           (decision, ctx) \<Rightarrow>
             let s1 = s\<lparr>br_context := ctx\<rparr> in
             (case wire_task_id env wire of
                Inl e \<Rightarrow> (Inl e, s1)
              | Inr task_id \<Rightarrow>
                  (case (gd_task decision, gd_hash decision) of
                     (Some task, Some task_hash) \<Rightarrow>
                       (case (if holdout_required cfg
                              then map_error Some (validate_holdout_support (en_holdout en) task)
                              else Inl None) of
                          Inl (Some e) \<Rightarrow> (Inr (unsupported_outcome task task_hash (gd_gates decision) e), s1)
                        | _ \<Rightarrow>
                            (case run_validated en cfg panel task task_hash (gd_gates decision) of
                               Inl e \<Rightarrow> (Inl e, s1)
                             | Inr (out, purged) \<Rightarrow> (Inr out, s1\<lparr>br_purged := br_purged s1 @ purged\<rparr>)))
                   | _ \<Rightarrow>
                       (Inr (outcome ''invalid'' task_id (jget wire ''package_hash'') (gd_gates decision)
                          (case gd_failure decision of None \<Rightarrow> ''invalid'' | Some f \<Rightarrow> gf_reason f)), s1)))))"

section \<open>What an outcome with value went through\<close>

lemma outcome_value [simp]: "so_task_value (outcome st t h g r) = Fin 0"
  by (simp add: outcome_def)

lemma pipeline_value:
  assumes "outcome_from_pipeline be result tid th gates ho = (out, purged)" "so_task_value out \<noteq> Fin 0"
  shows "\<exists>v sc. pr_verification result = Some v \<and> pr_score result = Some sc \<and> lifecycle_status sc = ''accepted''
    \<and> so_status out = ''accepted'' \<and> so_task_value out = task_value_from_score sc
    \<and> vf_safety_findings v = [] \<and> \<not> is_infra_error v \<and> (be = ''docker'' \<longrightarrow> vf_containerized v)
    \<and> so_gates out = gates \<and> so_holdout out = ho"
proof -
  have acc: "lifecycle_status sc = ''accepted''" if "task_value_from_score sc \<noteq> Fin 0" for sc
    using that by (auto simp: task_value_from_score_def split: if_splits)
  let ?err = "case pr_error result of None \<Rightarrow> [] | Some e \<Rightarrow> e"
  obtain v where v: "pr_verification result = Some v"
    using assms by (cases "pr_verification result") (auto simp: outcome_from_pipeline_def Let_def)
  have ok: "?err = []" "\<not> is_infra_error v" "vf_safety_findings v = []"
    using assms v by (auto simp: outcome_from_pipeline_def Let_def split: if_splits list.splits)
  obtain sc where sc: "pr_score result = Some sc"
    using assms v ok by (cases "pr_score result") (auto simp: outcome_from_pipeline_def Let_def split: if_splits)
  have docker: "\<not> (be = ''docker'' \<and> \<not> vf_containerized v \<and> lifecycle_status sc \<notin> set noncontainerized_allowed)"
    using assms v ok sc by (auto simp: outcome_from_pipeline_def Let_def split: if_splits)
  with assms(1) v ok sc have out: "so_task_value out = task_value_from_score sc" "so_status out = lifecycle_status sc"
      "so_gates out = gates" "so_holdout out = ho"
    by (auto simp: outcome_from_pipeline_def Let_def outcome_def)
  with acc assms(2) have "lifecycle_status sc = ''accepted''" by simp
  then show ?thesis using v ok sc out docker by (simp add: noncontainerized_allowed_def)
qed

lemma pipeline_unit: "outcome_from_pipeline be result tid th gates ho = (out, purged) \<Longrightarrow> in_unit (so_task_value out)"
proof -
  assume o: "outcome_from_pipeline be result tid th gates ho = (out, purged)"
  show ?thesis
  proof (cases "so_task_value out = Fin 0")
    case False
    from pipeline_value [OF o False] show ?thesis using task_value_unit by auto
  qed simp
qed

text \<open>The secret a configuration has, empty where it has none.\<close>

definition secret_of :: "subnet_config \<Rightarrow> string" where
  "secret_of cfg = (case holdout_secret cfg of None \<Rightarrow> [] | Some s \<Rightarrow> s)"

text \<open>
  What a task went through on its way to a value: the engine ran it and accepted it without findings, in a container where
  Docker is configured; where the holdout is required, the task is within its policy and a passed verification was followed
  by the holdout of this very task, under the validator's own secret and in containers, whose evidence is the one recorded.
\<close>

definition engine_accepted :: "'r engine \<Rightarrow> subnet_config \<Rightarrow> string \<Rightarrow> engine_task \<Rightarrow> verification \<Rightarrow> submission_outcome \<Rightarrow> bool" where
  "engine_accepted en cfg panel task v out \<longleftrightarrow>
     (\<exists>result sc. en_pipeline en task panel = Inr result \<and> pr_verification result = Some v \<and> pr_score result = Some sc
        \<and> lifecycle_status sc = ''accepted'' \<and> so_task_value out = task_value_from_score sc)
     \<and> vf_safety_findings v = [] \<and> (backend cfg = ''docker'' \<longrightarrow> vf_containerized v)"

definition holdout_confirmed :: "'r engine \<Rightarrow> subnet_config \<Rightarrow> engine_task \<Rightarrow> submission_outcome \<Rightarrow> bool" where
  "holdout_confirmed en cfg task out \<longleftrightarrow>
     secret_of cfg \<noteq> []
     \<and> (\<exists>e. evaluate_holdout (en_holdout en) (en_runner en) True task (et_hash task) (secret_of cfg) = Inr e
           \<and> he_passed e \<and> so_holdout out = evidence_record e)
     \<and> (\<exists>plan. build_holdout_plan (en_holdout en) task (et_hash task) (secret_of cfg) = Inr plan
           \<and> vf_status (en_runner en plan None) = ''passed'' \<and> isolated True (en_runner en plan None)
           \<and> probe_candidates task \<noteq> []
           \<and> (\<forall>(p, files) \<in> set (probe_candidates task).
                vf_status (en_runner en plan (Some files)) \<noteq> ''passed'' \<and> isolated True (en_runner en plan (Some files))))"

lemma run_validated_value:
  assumes "run_validated en cfg panel task (et_hash task) gates = Inr (out, purged)" "so_task_value out \<noteq> Fin 0"
  shows "\<exists>v. engine_accepted en cfg panel task v out \<and> so_status out = ''accepted'' \<and> so_gates out = gates
    \<and> (holdout_required cfg \<and> vf_status v = ''passed'' \<longrightarrow> holdout_confirmed en cfg task out)"
proof -
  obtain result where result: "en_pipeline en task panel = Inr result"
    using assms(1) by (auto simp: run_validated_def map_error_Inr)
  show ?thesis
  proof (cases "holdout_required cfg \<and> (case pr_verification result of None \<Rightarrow> False | Some v \<Rightarrow> vf_status v = ''passed'')")
    case False
    with assms(1) result have o: "outcome_from_pipeline (backend cfg) result (et_id task) (et_hash task) gates [] = (out, purged)"
      by (simp add: run_validated_def Let_def split: if_splits)
    from pipeline_value [OF o assms(2)] False result show ?thesis by (auto simp: engine_accepted_def)
  next
    case True
    then obtain v where v: "pr_verification result = Some v" by (auto split: option.splits)
    from assms True v result obtain e where e: "he_passed e"
      "evaluate_holdout (en_holdout en) (en_runner en) True task (et_hash task) (secret_of cfg) = Inr e"
      "outcome_from_pipeline (backend cfg) result (et_id task) (et_hash task) gates (evidence_record e) = (out, purged)"
      by (auto simp: run_validated_def Let_def holdout_failure_outcome_def secret_of_def split: if_splits)
    have "so_holdout out = evidence_record e" using pipeline_value [OF e(3) assms(2)] by blast
    with e(2) passed_evidence [OF e(2,1)] e(1) have "holdout_confirmed en cfg task out"
      unfolding holdout_confirmed_def by blast
    with pipeline_value [OF e(3) assms(2)] result show ?thesis by (auto simp: engine_accepted_def)
  qed
qed

lemma validate_submission_value:
  assumes "validate_submission env en cfg panel miner wire s = (Inr out, s')" "so_task_value out \<noteq> Fin 0"
  shows "\<exists>d ctx task th purged. run_pre_gates env (en_validate en) (max_package_bytes cfg) wire miner (br_context s) = (d, ctx)
    \<and> gd_task d = Some task \<and> gd_hash d = Some th
    \<and> run_validated en cfg panel task th (gd_gates d) = Inr (out, purged)
    \<and> (holdout_required cfg \<longrightarrow> is_ok (validate_holdout_support (en_holdout en) task))
    \<and> br_context s' = ctx \<and> reserved_in wire = []"
  using assms
  by (auto simp: validate_submission_def Let_def reserved_outcome_def unsupported_outcome_def map_error_Inl is_ok_iff
      split: if_splits prod.splits sum.splits option.splits)

section \<open>Properties\<close>

definition sample_engine :: "nat engine" where
  "sample_engine = \<lparr>en_validate = (\<lambda>_. Inr sample_task),
     en_pipeline = (\<lambda>t p. Inr \<lparr>pr_error = None, pr_status = ''accepted'', pr_verification = Some (sample_verification ''passed''),
       pr_score = Some \<lparr>lifecycle_status = ''accepted'', aggregate_score = Fin 1, runtime_cost = Fin 1,
         score_components = [(''frontier_difficulty'', Fin 1)]\<rparr>, pr_rows = []\<rparr>),
     en_holdout = sample_holdout_env, en_runner = sample_runner\<rparr>"

definition sample_cfg :: subnet_config where
  "sample_cfg = (case from_env sample_host (no_args\<lparr>arg_holdout_secret := Some ''secret''\<rparr>) of
     Inr c \<Rightarrow> c | Inl e \<Rightarrow> undefined)"

definition sample_bridge :: bridge_state where
  "sample_bridge = \<lparr>br_context = new_context 4, br_purged = []\<rparr>"

lemma sample_validated:
  "case fst (validate_submission plain_env sample_engine sample_cfg ''panel'' ''m'' sample_wire sample_bridge) of
     Inl _ \<Rightarrow> False | Inr out \<Rightarrow> so_task_value out = Fin 1 \<and> so_status out = ''accepted''"
  by code_simp

text \<open>C9: a submission is worth something only after every check, each of them on the task that its payload holds: the payload
  names the schema, is within the size and parses to the task, names the task's own hash, its miner is below the quota and
  the hash is new in the epoch; the engine accepted the task without safety findings, in a container where Docker is
  configured; and where the holdout is required, the task is within the holdout policy, and a passed verification was
  confirmed by the holdout of that task under the validator's secret, with an isolated pass of the reference and isolated
  failures of all probes, whose evidence is the one recorded.\<close>

theorem value_requires_all_checks:
  assumes "validate_submission env en cfg panel miner wire s = (Inr out, s')" "so_task_value out \<noteq> Fin 0"
  shows "\<exists>task v. \<not> has_key wire ''wire_error'' \<and> jget wire ''schema_version'' = JStr schema_version_const
    \<and> wire_size_ok env wire (max_package_bytes cfg) \<and> parse_gate (en_validate en) wire = Inr task
    \<and> jget wire ''package_hash'' = JStr (et_hash task)
    \<and> dict_get_default (miner_counts (br_context s)) miner 0 < ctx_quota (br_context s)
    \<and> et_hash task \<notin> set (seen_hashes (br_context s)) \<and> et_hash task \<in> set (seen_hashes (br_context s'))
    \<and> so_status out = ''accepted'' \<and> so_gates out = map (\<lambda>g. (g, True)) gate_names
    \<and> engine_accepted en cfg panel task v out
    \<and> (holdout_required cfg \<longrightarrow> is_ok (validate_holdout_support (en_holdout en) task))
    \<and> (holdout_required cfg \<and> vf_status v = ''passed'' \<longrightarrow> holdout_confirmed en cfg task out)"
proof -
  obtain d ctx task th purged where d: "run_pre_gates env (en_validate en) (max_package_bytes cfg) wire miner (br_context s) = (d, ctx)"
    "gd_task d = Some task" "gd_hash d = Some th" "run_validated en cfg panel task th (gd_gates d) = Inr (out, purged)"
    "holdout_required cfg \<longrightarrow> is_ok (validate_holdout_support (en_holdout en) task)" "br_context s' = ctx" "reserved_in wire = []"
    using validate_submission_value [OF assms] by blast
  have gates: "jget wire ''schema_version'' = JStr schema_version_const" "wire_size_ok env wire (max_package_bytes cfg)"
    "parse_gate (en_validate en) wire = Inr task" "jget wire ''package_hash'' = JStr (et_hash task)"
    "dict_get_default (miner_counts (br_context s)) miner 0 < ctx_quota (br_context s)"
    "et_hash task \<notin> set (seen_hashes (br_context s))" "et_hash task \<in> set (seen_hashes ctx)"
    "th = et_hash task" "gd_gates d = map (\<lambda>g. (g, True)) gate_names"
    using d(1-3) by (auto simp: run_pre_gates_def gate_fail_def Let_def split: if_splits sum.splits)
  have "\<not> has_key wire ''wire_error''" using d(7) by (simp add: reserved_in_def reserved_wire_keys_def split: if_splits)
  with run_validated_value [OF d(4) [unfolded gates(8)] assms(2)] gates d(5,6) show ?thesis by metis
qed

theorem value_requires_all_checks_witness:
  "\<exists>out s' task. validate_submission plain_env sample_engine sample_cfg ''panel'' ''m'' sample_wire sample_bridge = (Inr out, s')
     \<and> parse_gate (en_validate sample_engine) sample_wire = Inr task \<and> holdout_confirmed sample_engine sample_cfg task out"
proof -
  obtain r s' where v: "validate_submission plain_env sample_engine sample_cfg ''panel'' ''m'' sample_wire sample_bridge = (r, s')"
    by fastforce
  with sample_validated obtain out where out: "r = Inr out" "so_task_value out = Fin 1" by (auto split: sum.splits)
  have cfg: "holdout_required sample_cfg" by code_simp
  from value_requires_all_checks [OF v [unfolded out(1)]] out(2) obtain task vf where
    "parse_gate (en_validate sample_engine) sample_wire = Inr task" "engine_accepted sample_engine sample_cfg ''panel'' task vf out"
    "vf_status vf = ''passed'' \<longrightarrow> holdout_confirmed sample_engine sample_cfg task out" using cfg by auto
  then show ?thesis using v out(1) by (auto simp: engine_accepted_def sample_engine_def sample_verification_def)
qed

text \<open>Every outcome of a submission has its value in the unit interval.\<close>

lemma outcome_value_bounds:
  assumes "validate_submission env en cfg panel miner wire s = (Inr out, s')"
  shows "in_unit (so_task_value out)"
proof (cases "so_task_value out = Fin 0")
  case False
  obtain d ctx task th purged where d: "run_pre_gates env (en_validate en) (max_package_bytes cfg) wire miner (br_context s) = (d, ctx)"
    "gd_task d = Some task" "gd_hash d = Some th" "run_validated en cfg panel task th (gd_gates d) = Inr (out, purged)"
    using validate_submission_value [OF assms False] by blast
  have "th = et_hash task"
    using d(1-3) by (auto simp: run_pre_gates_def gate_fail_def Let_def split: if_splits sum.splits)
  from run_validated_value [OF d(4) [unfolded this] False] show ?thesis using task_value_unit by (auto simp: engine_accepted_def)
qed simp

lemma outcome_value_bounds_instance:
  "\<exists>out s'. validate_submission plain_env sample_engine sample_cfg ''panel'' ''m'' sample_wire sample_bridge = (Inr out, s')
     \<and> in_unit (so_task_value out)"
proof -
  obtain r s' where v: "validate_submission plain_env sample_engine sample_cfg ''panel'' ''m'' sample_wire sample_bridge = (r, s')"
    by fastforce
  with sample_validated obtain out where out: "r = Inr out" by (auto split: sum.splits)
  from outcome_value_bounds [OF v [unfolded out]] v out show ?thesis by blast
qed

text \<open>A payload whose package is present but is no mapping makes validation raise, not return an invalid
  outcome, whatever else it contains.\<close>

lemma package_not_mapping_raises:
  assumes "has_key wire ''package''" "\<not> is_jobj (jget wire ''package'')" "\<not> has_key wire ''wire_error''"
  shows "fst (validate_submission env en cfg panel miner wire s) = Inl Attribute_error"
proof -
  have "jget_or wire ''package'' (JObj []) = jget wire ''package''"
    using assms(1) by (auto simp: jget_or_def jget_def dict_get_default_def has_key_def split: option.splits)
  then have "wire_task_id env wire = Inl Attribute_error"
    using assms(2) by (cases "jget wire ''package''") (simp_all add: wire_task_id_def)
  moreover have "reserved_in wire = []" using assms(3) by (simp add: reserved_in_def reserved_wire_keys_def)
  ultimately show ?thesis by (simp add: validate_submission_def Let_def split: prod.split)
qed

lemma package_not_mapping_raises_instance:
  "fst (validate_submission plain_env sample_engine sample_cfg ''panel'' ''m'' [(''package'', JStr ''x'')] sample_bridge)
     = Inl Attribute_error"
  using package_not_mapping_raises [of "[(''package'', JStr ''x'')]"] by simp

end
