(* ===== verification/Panel.thy ===== *)
theory Panel
  imports Chain
begin

text \<open>
  \<open>src/dolores_subnet/panel.py\<close>: the solver-panel session of one epoch, with its spend gates, its
  task budget, its cache of measured solve rates and the evidence it records.  The panel file (its
  SHA-256 and its solvers, or the exception of loading them) and the parsed lines of the cache file
  are arguments.
\<close>

section \<open>Python values\<close>

definition type_error :: "string \<Rightarrow> exn" where
  "type_error text = \<lparr>exn_type = ''TypeError'', exn_text = text\<rparr>"

definition value_error :: "string \<Rightarrow> exn" where
  "value_error text = \<lparr>exn_type = ''ValueError'', exn_text = text\<rparr>"

text \<open>\<open>float(v)\<close>.\<close>

definition py_float :: "'b env \<Rightarrow> json \<Rightarrow> exn + pyfloat" where
  "py_float env v =
     (case v of
        JStr s \<Rightarrow> (case text_float env s of None \<Rightarrow> Inl (value_error ''could not convert string to float'') | Some f \<Rightarrow> Inr f)
      | JInt i \<Rightarrow>
          if is_fin (to_float (of_int i)) then Inr (to_float (of_int i))
          else Inl \<lparr>exn_type = ''OverflowError'', exn_text = ''int too large to convert to float''\<rparr>
      | JBool b \<Rightarrow> Inr (Fin (if b then 1 else 0))
      | JFloat f \<Rightarrow> Inr f
      | _ \<Rightarrow> Inl (type_error ''float() argument must be a string or a real number''))"

fun int_exn :: "int_error + int \<Rightarrow> exn + int" where
  "int_exn (Inr n) = Inr n"
| "int_exn (Inl Not_a_number_type) = Inl (type_error ''int() argument must be a string or a real number'')"
| "int_exn (Inl Not_a_number_text) = Inl (value_error ''invalid literal for int()'')"
| "int_exn (Inl Infinite_value) = Inl \<lparr>exn_type = ''OverflowError'', exn_text = ''cannot convert float infinity to integer''\<rparr>"

section \<open>Session\<close>

definition spend_env :: string where
  "spend_env = ''DOLORES_ALLOW_PROVIDER_SPEND''"

definition credential_env :: "string \<Rightarrow> string option" where
  "credential_env provider = (if provider = ''fireworks'' then Some ''FIREWORKS_API_KEY'' else None)"

definition deterministic_row_keys :: "string list" where
  "deterministic_row_keys = [''solver_id'', ''model'', ''provider'', ''attempt_id'', ''passed'', ''error_class'']"

definition volatile_row_keys :: "string list" where
  "volatile_row_keys = [''duration_ms'', ''token_usage'', ''prompt_tokens'', ''completion_tokens'', ''cost_estimate'', ''finish_reason'']"

datatype panel_error =
    Panel_config_missing string
  | Provider_spend_not_allowed "string list"
  | Credential_missing string string
  | Panel_raised exn

text \<open>Solve rates by task hash (any JSON value that can be a key) and panel digest.\<close>

type_synonym panel_cache = "((json \<times> string) \<times> jdict) list"

record panel_session =
  ps_active :: bool
  ps_dry_run :: bool
  ps_budget :: int
  ps_entries :: "jdict list"
  ps_cache :: panel_cache
  ps_digest :: "string option"
  ps_specs :: "jdict list"
  ps_stored :: "jdict list"

text \<open>
  \<open>pf_config\<close> is the panel file if it exists: digest and solvers; \<open>pf_cache\<close> the lines of the cache
  file that are not blank, each parsed or \<open>None\<close>.
\<close>

record panel_files =
  pf_config :: "(string \<times> (exn + jdict list)) option"
  pf_cache :: "json option list"

definition missing_spend_gates :: "host \<Rightarrow> subnet_config \<Rightarrow> string list" where
  "missing_spend_gates h cfg =
     (if allow_provider_spend cfg then [] else [''allow_provider_spend flag (--allow-provider-spend)''])
     @ (if environ h spend_env = Some ''1'' then [] else [spend_env @ ''=1 environment variable''])
     @ (if panel_max_tasks cfg \<le> 0 then [''positive panel_max_tasks budget (--panel-max-tasks)''] else [])"

fun assert_credentials :: "'b env \<Rightarrow> host \<Rightarrow> jdict list \<Rightarrow> panel_error + unit" where
  "assert_credentials env h [] = Inr ()"
| "assert_credentials env h (spec # specs) =
     (let provider = lower (text_of_json env (jget_or spec ''provider'' (JStr []))) in
      case credential_env provider of
        None \<Rightarrow> assert_credentials env h specs
      | Some name \<Rightarrow>
          if env_get h name [] = [] then Inl (Credential_missing name provider)
          else assert_credentials env h specs)"

fun cache_put :: "panel_cache \<Rightarrow> json \<Rightarrow> string \<Rightarrow> jdict \<Rightarrow> panel_cache" where
  "cache_put [] h digest r = [((h, digest), r)]"
| "cache_put (((h', digest'), r') # c) h digest r =
     (if py_eq h' h \<and> digest' = digest then ((h', digest'), r) # c else ((h', digest'), r') # cache_put c h digest r)"

fun cache_get :: "panel_cache \<Rightarrow> json \<Rightarrow> string \<Rightarrow> jdict option" where
  "cache_get [] h digest = None"
| "cache_get (((h', digest'), r) # c) h digest =
     (if py_eq h' h \<and> digest' = digest then Some r else cache_get c h digest)"

fun load_cache :: "string \<Rightarrow> json option list \<Rightarrow> panel_cache \<Rightarrow> exn + panel_cache" where
  "load_cache digest [] c = Inr c"
| "load_cache digest (None # ls) c = Inl \<lparr>exn_type = ''JSONDecodeError'', exn_text = ''invalid cache line''\<rparr>"
| "load_cache digest (Some (JObj r) # ls) c =
     (if jget r ''panel_digest'' \<noteq> JStr digest then load_cache digest ls c
      else if \<not> has_key r ''task_hash'' then Inl \<lparr>exn_type = ''KeyError'', exn_text = ''task_hash''\<rparr>
      else if \<not> hashable (jget r ''task_hash'') then Inl (type_error ''unhashable type'')
      else load_cache digest ls (cache_put c (jget r ''task_hash'') digest r))"
| "load_cache digest (Some _ # ls) c = Inl \<lparr>exn_type = ''AttributeError'', exn_text = ''object has no attribute get''\<rparr>"

definition inactive_session :: "subnet_config \<Rightarrow> panel_session" where
  "inactive_session cfg =
     \<lparr>ps_active = (panel_mode cfg = ''calibrate''), ps_dry_run = panel_dry_run cfg, ps_budget = panel_max_tasks cfg,
      ps_entries = [], ps_cache = [], ps_digest = None, ps_specs = [], ps_stored = []\<rparr>"

definition open_session :: "'b env \<Rightarrow> host \<Rightarrow> subnet_config \<Rightarrow> panel_files \<Rightarrow> panel_error + panel_session" where
  "open_session env h cfg files =
     (let s = inactive_session cfg in
      if \<not> ps_active s then Inr s
      else
        (case pf_config files of
           None \<Rightarrow> Inl (Panel_config_missing (panel_calibrate_path cfg))
         | Some (digest, loaded) \<Rightarrow>
             bind_result (map_error Panel_raised loaded) (\<lambda>specs.
             bind_result
               (if ps_dry_run s then Inr ()
                else if missing_spend_gates h cfg \<noteq> [] then Inl (Provider_spend_not_allowed (missing_spend_gates h cfg))
                else assert_credentials env h specs) (\<lambda>_.
             bind_result (map_error Panel_raised (load_cache digest (pf_cache files) [])) (\<lambda>cache.
             Inr (s\<lparr>ps_digest := Some digest, ps_specs := specs, ps_cache := cache\<rparr>))))))"

section \<open>Planning\<close>

text \<open>\<open>cached_solve_rate\<close>; \<open>JNull\<close> is Python's \<open>None\<close>.\<close>

definition cached_solve_rate :: "panel_session \<Rightarrow> json \<Rightarrow> exn + json" where
  "cached_solve_rate s task_hash =
     (case ps_digest s of
        None \<Rightarrow> Inr JNull
      | Some digest \<Rightarrow>
          if \<not> ps_active s \<or> \<not> truthy task_hash then Inr JNull
          else if \<not> hashable task_hash then Inl (type_error ''unhashable type'')
          else (case cache_get (ps_cache s) task_hash digest of
                  None \<Rightarrow> Inr JNull | Some r \<Rightarrow> Inr (jget r ''clean_solve_rate'')))"

datatype panel_plan = Plan_mock | Plan_cache | Plan_dry_run | Plan_live | Plan_exhausted | Plan_gate_failed

fun plan_text :: "panel_plan \<Rightarrow> string" where
  "plan_text Plan_mock = ''mock''"
| "plan_text Plan_cache = ''cache''"
| "plan_text Plan_dry_run = ''dry_run''"
| "plan_text Plan_live = ''live''"
| "plan_text Plan_exhausted = ''budget_exhausted''"
| "plan_text Plan_gate_failed = ''gate_failed''"

definition plan :: "json \<Rightarrow> (panel_session, exn, panel_plan) op" where
  "plan task_hash s =
     (if \<not> ps_active s then (Inr Plan_mock, s)
      else
        (case cached_solve_rate s task_hash of
           Inl e \<Rightarrow> (Inl e, s)
         | Inr rate \<Rightarrow>
             if rate \<noteq> JNull then (Inr Plan_cache, s)
             else if ps_dry_run s then (Inr Plan_dry_run, s)
             else if ps_budget s \<le> 0 then (Inr Plan_exhausted, s)
             else (Inr Plan_live, s\<lparr>ps_budget := ps_budget s - 1\<rparr>)))"

definition refund :: "panel_session \<Rightarrow> panel_session" where
  "refund s = s\<lparr>ps_budget := ps_budget s + 1\<rparr>"

definition panel_path_for :: "subnet_config \<Rightarrow> panel_plan \<Rightarrow> string" where
  "panel_path_for cfg p = (if p = Plan_live then panel_calibrate_path cfg else panel_path cfg)"

definition planned_attempts :: "panel_session \<Rightarrow> exn + int" where
  "planned_attempts s =
     bind_result (map_result (\<lambda>spec. int_exn (py_int (jget_or spec ''attempts'' (JInt 1)))) (ps_specs s))
       (\<lambda>ns. Inr (sum_list ns))"

section \<open>Evidence\<close>

definition project_row :: "string list \<Rightarrow> jdict \<Rightarrow> json" where
  "project_row keys row = JObj (map (\<lambda>k. (k, jget row k)) keys)"

text \<open>The record goes into the cache and, as a line, to the cache file.\<close>

definition cache_store :: "string \<Rightarrow> pyfloat \<Rightarrow> jdict list \<Rightarrow> panel_session \<Rightarrow> panel_session" where
  "cache_store task_hash clean_rate rows s =
     (let r = [(''task_hash'', JStr task_hash), (''panel_digest'', opt_str (ps_digest s)),
               (''clean_solve_rate'', JFloat clean_rate),
               (''rows'', JArr (map (project_row deterministic_row_keys) (filter (\<lambda>row. \<not> is_infra_row row) rows)))]
      in s\<lparr>ps_cache := cache_put (ps_cache s) (JStr task_hash) (case ps_digest s of None \<Rightarrow> [] | Some d \<Rightarrow> d) r,
           ps_stored := ps_stored s @ [r]\<rparr>)"

text \<open>A task with live rows has passed the gates, so its hash is the engine's text.\<close>

definition record_evidence ::
  "'b env \<Rightarrow> panel_plan \<Rightarrow> string \<Rightarrow> json \<Rightarrow> jdict list \<Rightarrow> json \<Rightarrow> (panel_session, exn, unit) op" where
  "record_evidence env p task_id task_hash rows cached_rate s =
     (let entry = [(''task_id'', JStr task_id), (''task_hash'', task_hash), (''source'', JStr (plan_text p))];
          add = (\<lambda>extra s. s\<lparr>ps_entries := ps_entries s @ [entry @ extra]\<rparr>) in
      if \<not> ps_active s then (Inr (), s)
      else if p = Plan_live \<and> rows \<noteq> [] then
        (let rate = clean_solve_rate_from_rows rows;
             stored = (case (rate, task_hash) of
                         (Some r, JStr (c # cs)) \<Rightarrow> cache_store (c # cs) r rows s | _ \<Rightarrow> s)
         in (Inr (), add [(''clean_solve_rate'', (case rate of None \<Rightarrow> JNull | Some r \<Rightarrow> JFloat r)),
                (''attempts'', JArr (map (project_row deterministic_row_keys) rows)),
                (''volatile'', JArr (map (project_row volatile_row_keys) rows))] stored))
      else if p = Plan_cache then (Inr (), add [(''clean_solve_rate'', cached_rate)] s)
      else if p = Plan_dry_run then
        (case planned_attempts s of
           Inl e \<Rightarrow> (Inl e, s)
         | Inr n \<Rightarrow> (Inr (), add [(''estimated_attempts'', JInt n),
             (''models'', JArr (map (\<lambda>spec. JStr (text_of_json env (jget spec ''model''))) (ps_specs s)))] s))
      else (Inr (), add [] s))"

text \<open>The sidecar of an active session.\<close>

definition sidecar :: "subnet_config \<Rightarrow> int \<Rightarrow> panel_session \<Rightarrow> jdict option" where
  "sidecar cfg epoch_id s =
     (if \<not> ps_active s then None
      else Some ([(''epoch_id'', JInt epoch_id), (''mode'', JStr (if ps_dry_run s then ''dry_run'' else ''calibrate'')),
           (''panel_config'', JStr (panel_calibrate_path cfg)), (''panel_digest'', opt_str (ps_digest s)),
           (''budget'', JObj [(''max_tasks'', JInt (panel_max_tasks cfg)), (''remaining'', JInt (ps_budget s))]),
           (''tasks'', JArr (map JObj (ps_entries s)))]
         @ (if ps_dry_run s
            then [(''estimated_total_attempts'',
                    JInt (sum_list (map (\<lambda>e. int_of_json (jget_or e ''estimated_attempts'' (JInt 0))) (ps_entries s))))]
            else [])))"

end
