(* ===== verification/Atomic.thy ===== *)
theory Atomic
  imports Prelude "HOL-Library.Word" "HOL-Library.Sublist"
begin

text \<open>
  \<open>src/dolores_subnet/atomic.py\<close>: replacing a file and appending to a log, as sequences of calls
  on a file system.  A directory maps names to inodes; what a process sees and what survives a loss of
  power are kept apart: an inode's bytes survive exactly when they have been synced since the last
  write, a directory entry surely survives once the directory has been synced, and before that either
  the old or the new entry may be found.  Any call may raise, and the process may be killed between any
  two of them.
\<close>

section \<open>The file system\<close>

type_synonym bytes = string

record filesys =
  dir_now :: "string \<Rightarrow> nat option"
  dir_durable :: "string \<Rightarrow> nat option"
  node_bytes :: "nat \<Rightarrow> bytes"
  node_mode :: "nat \<Rightarrow> 9 word"
  synced_nodes :: "nat set"
  next_node :: nat

datatype fs_call =
    Create string
  | Chmod string "9 word"
  | Write string bytes
  | Fsync string
  | Replace string string
  | Fsync_directory
  | Unlink string

definition on_node :: "string \<Rightarrow> (nat \<Rightarrow> filesys \<Rightarrow> filesys) \<Rightarrow> filesys \<Rightarrow> filesys" where
  "on_node p f fs = (case dir_now fs p of None \<Rightarrow> fs | Some i \<Rightarrow> f i fs)"

fun run_call :: "fs_call \<Rightarrow> filesys \<Rightarrow> filesys" where
  "run_call (Create p) fs =
     (let i = next_node fs in
      fs\<lparr>dir_now := (dir_now fs)(p \<mapsto> i), node_bytes := (node_bytes fs)(i := []), node_mode := (node_mode fs)(i := 384),
         synced_nodes := synced_nodes fs - {i}, next_node := Suc i\<rparr>)"
| "run_call (Chmod p m) fs = on_node p (\<lambda>i fs. fs\<lparr>node_mode := (node_mode fs)(i := m)\<rparr>) fs"
| "run_call (Write p bs) fs =
     on_node p (\<lambda>i fs. fs\<lparr>node_bytes := (node_bytes fs)(i := node_bytes fs i @ bs),
       synced_nodes := synced_nodes fs - {i}\<rparr>) fs"
| "run_call (Fsync p) fs = on_node p (\<lambda>i fs. fs\<lparr>synced_nodes := insert i (synced_nodes fs)\<rparr>) fs"
| "run_call (Replace p q) fs =
     on_node p (\<lambda>i fs. fs\<lparr>dir_now := (dir_now fs)(q \<mapsto> i, p := None)\<rparr>) fs"
| "run_call Fsync_directory fs = fs\<lparr>dir_durable := dir_now fs\<rparr>"
| "run_call (Unlink p) fs = fs\<lparr>dir_now := (dir_now fs)(p := None)\<rparr>"

definition run_calls :: "fs_call list \<Rightarrow> filesys \<Rightarrow> filesys" where
  "run_calls cs fs = fold run_call cs fs"

definition contents :: "filesys \<Rightarrow> string \<Rightarrow> bytes option" where
  "contents fs p = map_option (node_bytes fs) (dir_now fs p)"

text \<open>What may be found at a name after a loss of power.\<close>

definition survives :: "filesys \<Rightarrow> string \<Rightarrow> bytes option \<Rightarrow> bool" where
  "survives fs p c \<longleftrightarrow>
     (\<exists>e. (e = dir_now fs p \<or> e = dir_durable fs p)
        \<and> (case e of None \<Rightarrow> c = None
            | Some i \<Rightarrow> if i \<in> synced_nodes fs then c = Some (node_bytes fs i) else c \<noteq> None))"

text \<open>A file whose last change is durable.\<close>

definition settled :: "filesys \<Rightarrow> string \<Rightarrow> bool" where
  "settled fs p \<longleftrightarrow> dir_now fs p = dir_durable fs p \<and> (case dir_now fs p of None \<Rightarrow> True | Some i \<Rightarrow> i \<in> synced_nodes fs)"

definition wf_filesys :: "filesys \<Rightarrow> bool" where
  "wf_filesys fs \<longleftrightarrow> (\<forall>p i. dir_now fs p = Some i \<or> dir_durable fs p = Some i \<longrightarrow> i < next_node fs)"

section \<open>The primitives\<close>

text \<open>
  \<open>_write_all\<close> with the answers of \<open>os.write\<close>: the chunks written and whether all of the
  view was.
\<close>

function write_all :: "(nat \<Rightarrow> int) \<Rightarrow> nat \<Rightarrow> bytes \<Rightarrow> bytes list \<times> bool" where
  "write_all answer k view =
     (if view = [] then ([], True)
      else if answer k \<le> 0 then ([], False)
      else case write_all answer (Suc k) (drop (nat (answer k)) view) of
             (chunks, ok) \<Rightarrow> (take (nat (answer k)) view # chunks, ok))"
  by pat_completeness auto

termination write_all
  by (relation "measure (\<lambda>(answer, k, view). length view)") auto

declare write_all.simps [simp del]

text \<open>The mode of a replaced file is kept; a new file gets \<open>0o600\<close>, which is 384.\<close>

definition file_mode :: "filesys \<Rightarrow> string \<Rightarrow> 9 word" where
  "file_mode fs p = (case dir_now fs p of None \<Rightarrow> 384 | Some i \<Rightarrow> node_mode fs i)"

text \<open>
  The calls of \<open>atomic_write_bytes\<close> and whether it returns.  \<open>fault\<close> is the number of
  the call that raises, if one does; the first is \<open>mkstemp\<close>, outside the handler, and later ones
  have the temporary file removed.
\<close>

definition atomic_write_bytes ::
  "filesys \<Rightarrow> string \<Rightarrow> string \<Rightarrow> bytes \<Rightarrow> (nat \<Rightarrow> int) \<Rightarrow> nat option \<Rightarrow> fs_call list \<times> bool" where
  "atomic_write_bytes fs destination temp payload answer fault =
     (case write_all answer 0 payload of
        (chunks, ok) \<Rightarrow>
          let start = [Create temp, Chmod temp (file_mode fs destination)] @ map (Write temp) chunks;
              body = (if ok then start @ [Fsync temp, Replace temp destination, Fsync_directory] else start);
              failed = (case fault of
                          None \<Rightarrow> if ok then None else Some (length body)
                        | Some k \<Rightarrow> if k < length body then Some k else if ok then None else Some (length body))
          in case failed of
               None \<Rightarrow> (body, True)
             | Some k \<Rightarrow> (if k = 0 then [] else take k body @ [Unlink temp], False))"

text \<open>\<open>append_jsonl_fsync\<close>: the file is opened for appending, and created when it is missing.\<close>

definition append_fsync ::
  "filesys \<Rightarrow> string \<Rightarrow> bytes \<Rightarrow> (nat \<Rightarrow> int) \<Rightarrow> nat option \<Rightarrow> fs_call list \<times> bool" where
  "append_fsync fs destination data answer fault =
     (case write_all answer 0 data of
        (chunks, ok) \<Rightarrow>
          let start = (if dir_now fs destination = None then [Create destination] else []) @ map (Write destination) chunks;
              body = (if ok then start @ [Fsync destination, Fsync_directory] else start)
          in case fault of
               None \<Rightarrow> (body, ok)
             | Some k \<Rightarrow> if k < length body then (take k body, False) else (body, ok))"

definition atomic_replace_file :: "string \<Rightarrow> string \<Rightarrow> fs_call list" where
  "atomic_replace_file source destination = [Fsync source, Replace source destination, Fsync_directory]"

section \<open>Chunks\<close>

lemma write_all_chunks:
  "write_all answer k view = (chunks, ok) \<Longrightarrow> (ok \<longrightarrow> concat chunks = view) \<and> (\<exists>rest. view = concat chunks @ rest)"
proof (induction answer k view arbitrary: chunks rule: write_all.induct)
  case (1 answer k view)
  show ?case
  proof (cases "view = [] \<or> answer k \<le> 0")
    case True
    then show ?thesis using "1.prems" by (subst (asm) write_all.simps) (auto split: if_splits)
  next
    case False
    then obtain cs where cs: "write_all answer (Suc k) (drop (nat (answer k)) view) = (cs, ok)"
        "chunks = take (nat (answer k)) view # cs"
      using "1.prems" by (subst (asm) write_all.simps) (auto split: prod.splits)
    from False "1.IH" [of cs] cs(1)
    have ih: "(ok \<longrightarrow> concat cs = drop (nat (answer k)) view) \<and> (\<exists>rest. drop (nat (answer k)) view = concat cs @ rest)"
      by blast
    then obtain rest where rest: "drop (nat (answer k)) view = concat cs @ rest" by blast
    have "view = take (nat (answer k)) view @ (concat cs @ rest)"
      using rest append_take_drop_id [of "nat (answer k)" view] by metis
    then have "view = concat chunks @ rest" using cs(2) by simp
    moreover have "concat chunks = view" if ok using ih that cs(2) by simp
    ultimately show ?thesis by blast
  qed
qed

lemma write_all_whole: "\<forall>k. 0 < answer k \<Longrightarrow> \<exists>chunks. write_all answer k view = (chunks, True)"
proof (induction "length view" arbitrary: k view rule: less_induct)
  case less
  show ?case
  proof (cases "view = []")
    case True
    then show ?thesis by (subst write_all.simps) simp
  next
    case False
    have "length (drop (nat (answer k)) view) < length view" using less.prems False by simp
    from less.hyps [OF this less.prems, of "Suc k"] obtain cs where
      "write_all answer (Suc k) (drop (nat (answer k)) view) = (cs, True)" by blast
    moreover have "\<not> answer k \<le> 0" using less.prems by (simp add: not_le)
    ultimately show ?thesis using False by (subst write_all.simps) simp
  qed
qed

section \<open>A replacement in progress\<close>

lemma run_calls_simps [simp]:
  "run_calls [] fs = fs"
  "run_calls (c # cs) fs = run_calls cs (run_call c fs)"
  "run_calls (as @ bs) fs = run_calls bs (run_calls as fs)"
  by (simp_all add: run_calls_def)

text \<open>
  While the temporary file is being filled, the directory only has it in addition, and every inode
  below it is as it was.
\<close>

definition filling :: "filesys \<Rightarrow> string \<Rightarrow> bytes \<Rightarrow> filesys \<Rightarrow> bool" where
  "filling fs temp bs gs \<longleftrightarrow>
     dir_now gs = (dir_now fs)(temp \<mapsto> next_node fs) \<and> dir_durable gs = dir_durable fs
     \<and> node_bytes gs (next_node fs) = bs
     \<and> (\<forall>i < next_node fs. node_bytes gs i = node_bytes fs i \<and> node_mode gs i = node_mode fs i
          \<and> (i \<in> synced_nodes gs \<longleftrightarrow> i \<in> synced_nodes fs))"

lemma filling_start: "filling fs temp [] (run_call (Chmod temp m) (run_call (Create temp) fs))"
  by (simp add: filling_def on_node_def Let_def)

lemma filling_write: "filling fs temp bs gs \<Longrightarrow> filling fs temp (bs @ c) (run_call (Write temp c) gs)"
  by (auto simp: filling_def on_node_def)

lemma filling_writes: "filling fs temp bs gs \<Longrightarrow> filling fs temp (bs @ concat cs) (run_calls (map (Write temp) cs) gs)"
proof (induction cs arbitrary: bs gs)
  case (Cons c cs)
  from Cons.IH [OF filling_write [OF Cons.prems, of c]] show ?case by simp
qed simp

lemma filling_fsync: "filling fs temp bs gs \<Longrightarrow> filling fs temp bs (run_call (Fsync temp) gs)"
  by (auto simp: filling_def on_node_def)

lemma wf_bound: "wf_filesys fs \<Longrightarrow> dir_now fs p = Some i \<Longrightarrow> i < next_node fs"
  "wf_filesys fs \<Longrightarrow> dir_durable fs p = Some i \<Longrightarrow> i < next_node fs"
  by (auto simp: wf_filesys_def)

lemma filling_other:
  assumes "filling fs temp bs gs" "wf_filesys fs" "p \<noteq> temp"
  shows "contents gs p = contents fs p" "survives gs p c \<longleftrightarrow> survives fs p c"
proof -
  have now: "dir_now gs p = dir_now fs p" "dir_durable gs p = dir_durable fs p"
    using assms by (simp_all add: filling_def)
  have node: "node_bytes gs i = node_bytes fs i \<and> (i \<in> synced_nodes gs \<longleftrightarrow> i \<in> synced_nodes fs)"
    if "dir_now fs p = Some i \<or> dir_durable fs p = Some i" for i
    using that wf_bound [OF assms(2)] assms(1) by (auto simp: filling_def)
  show "contents gs p = contents fs p"
    using now node by (cases "dir_now fs p") (auto simp: contents_def)
  show "survives gs p c \<longleftrightarrow> survives fs p c"
    unfolding survives_def now using node by (intro ex_cong1 conj_cong) (auto split: option.splits)
qed

lemma settled_survives: "settled fs p \<Longrightarrow> survives fs p c \<longleftrightarrow> c = contents fs p"
  by (auto simp: settled_def survives_def contents_def split: option.splits)

text \<open>Before the rename nothing but the temporary name has changed, after it nothing but the destination.\<close>

definition unpublished :: "filesys \<Rightarrow> string \<Rightarrow> filesys \<Rightarrow> bool" where
  "unpublished fs temp gs \<longleftrightarrow>
     (\<forall>p. p \<noteq> temp \<longrightarrow> contents gs p = contents fs p \<and> (\<forall>c. survives gs p c \<longleftrightarrow> survives fs p c))"

definition published :: "filesys \<Rightarrow> string \<Rightarrow> string \<Rightarrow> bytes \<Rightarrow> 9 word \<Rightarrow> filesys \<Rightarrow> bool" where
  "published fs destination temp payload mode gs \<longleftrightarrow>
     dir_now gs = (dir_now fs)(destination \<mapsto> next_node fs, temp := None)
     \<and> node_bytes gs (next_node fs) = payload \<and> node_mode gs (next_node fs) = mode \<and> next_node fs \<in> synced_nodes gs
     \<and> (dir_durable gs = dir_durable fs \<or> dir_durable gs = dir_now gs)
     \<and> (\<forall>i < next_node fs. node_bytes gs i = node_bytes fs i \<and> (i \<in> synced_nodes gs \<longleftrightarrow> i \<in> synced_nodes fs))"

lemma unpublished_refl: "unpublished fs temp fs"
  by (simp add: unpublished_def)

lemma filling_unpublished: "filling fs temp bs gs \<Longrightarrow> wf_filesys fs \<Longrightarrow> unpublished fs temp gs"
  unfolding unpublished_def using filling_other by blast

lemma unlink_other:
  assumes "p \<noteq> temp"
  shows "contents (run_call (Unlink temp) gs) p = contents gs p"
    and "survives (run_call (Unlink temp) gs) p c \<longleftrightarrow> survives gs p c"
  using assms by (simp_all add: contents_def survives_def cong: option.case_cong)

lemma unpublished_unlink: "unpublished fs temp gs \<Longrightarrow> unpublished fs temp (run_call (Unlink temp) gs)"
  by (simp add: unpublished_def unlink_other del: run_call.simps)

lemma published_unlink:
  "published fs destination temp payload mode gs \<Longrightarrow> published fs destination temp payload mode (run_call (Unlink temp) gs)"
  by (auto simp: published_def fun_upd_idem_iff)

lemma published_contents:
  assumes "published fs destination temp payload mode gs" "wf_filesys fs" "dir_now fs temp = None" "temp \<noteq> destination"
  shows "contents gs = (contents fs)(destination \<mapsto> payload)"
proof
  fix p
  show "contents gs p = ((contents fs)(destination \<mapsto> payload)) p"
    using assms wf_bound(1) [OF assms(2), of p]
    by (cases "dir_now fs p") (auto simp: published_def contents_def)
qed

lemma published_survives:
  assumes "published fs destination temp payload mode gs" "wf_filesys fs" "settled fs destination" "temp \<noteq> destination"
    and "survives gs destination c"
  shows "c = contents fs destination \<or> c = Some payload"
proof -
  from assms(1,4) have now: "dir_now gs destination = Some (next_node fs)" "next_node fs \<in> synced_nodes gs"
      "node_bytes gs (next_node fs) = payload"
    and dur: "dir_durable gs destination = dir_durable fs destination \<or> dir_durable gs destination = Some (next_node fs)"
    and old: "\<And>i. i < next_node fs \<Longrightarrow> node_bytes gs i = node_bytes fs i \<and> (i \<in> synced_nodes gs \<longleftrightarrow> i \<in> synced_nodes fs)"
    by (auto simp: published_def)
  from assms(3) have st: "dir_now fs destination = dir_durable fs destination"
      "\<And>i. dir_now fs destination = Some i \<Longrightarrow> i \<in> synced_nodes fs"
    by (auto simp: settled_def split: option.splits)
  from assms(5) obtain e where e: "e = dir_now gs destination \<or> e = dir_durable gs destination"
    "case e of None \<Rightarrow> c = None | Some i \<Rightarrow> if i \<in> synced_nodes gs then c = Some (node_bytes gs i) else c \<noteq> None"
    by (auto simp: survives_def)
  show ?thesis
  proof (cases "e = Some (next_node fs)")
    case True
    with e(2) now show ?thesis by simp
  next
    case False
    with e(1) now dur st have fs: "e = dir_now fs destination" by auto
    show ?thesis
    proof (cases e)
      case None
      with e(2) fs show ?thesis by (auto simp: contents_def)
    next
      case (Some i)
      with fs wf_bound(1) [OF assms(2)] have "i < next_node fs" by auto
      with e(2) Some fs st(2) [of i] old [of i] show ?thesis by (auto simp: contents_def)
    qed
  qed
qed

definition write_start :: "filesys \<Rightarrow> string \<Rightarrow> string \<Rightarrow> bytes list \<Rightarrow> fs_call list" where
  "write_start fs destination temp chunks = [Create temp, Chmod temp (file_mode fs destination)] @ map (Write temp) chunks"

text \<open>The mode is set right after creation, and later calls on the temporary file keep it.\<close>

definition filling_with :: "filesys \<Rightarrow> string \<Rightarrow> 9 word \<Rightarrow> bytes \<Rightarrow> filesys \<Rightarrow> bool" where
  "filling_with fs temp mode bs gs \<longleftrightarrow> filling fs temp bs gs \<and> node_mode gs (next_node fs) = mode"

lemma filling_with_chunks:
  "filling_with fs temp (file_mode fs destination) (concat cs)
     (run_calls (map (Write temp) cs) (run_call (Chmod temp (file_mode fs destination)) (run_call (Create temp) fs)))"
proof -
  have mode: "node_mode (run_calls (map (Write temp) cs) gs) = node_mode gs" for gs
    by (induction cs arbitrary: gs) (simp_all add: on_node_def split: option.splits)
  show ?thesis
    using filling_writes [OF filling_start [of fs temp "file_mode fs destination"], of cs]
    by (simp add: filling_with_def mode on_node_def Let_def)
qed

lemma write_start_stages:
  assumes "wf_filesys fs"
  shows "unpublished fs temp (run_calls (take j (write_start fs destination temp chunks)) fs)"
proof (cases "j < 2")
  case True
  have "filling fs temp [] (run_call (Create temp) fs)" by (simp add: filling_def Let_def)
  with True show ?thesis
    using filling_unpublished [OF _ assms] unpublished_refl
    by (cases j) (auto simp: write_start_def)
next
  case False
  then have "take j (write_start fs destination temp chunks)
      = [Create temp, Chmod temp (file_mode fs destination)] @ map (Write temp) (take (j - 2) chunks)"
    by (simp add: write_start_def take_map take_Cons' numeral_2_eq_2)
  moreover have "filling fs temp (concat (take (j - 2) chunks)) (run_calls (map (Write temp) (take (j - 2) chunks))
      (run_call (Chmod temp (file_mode fs destination)) (run_call (Create temp) fs)))"
    using filling_with_chunks by (simp add: filling_with_def del: run_call.simps)
  ultimately show ?thesis using filling_unpublished [OF _ assms] by (simp del: run_call.simps)
qed

lemma publish_stages:
  assumes "wf_filesys fs" "temp \<noteq> destination"
    and gs: "gs = run_calls (write_start fs destination temp chunks) fs"
  shows "unpublished fs temp (run_calls (take j [Fsync temp, Replace temp destination, Fsync_directory]) gs)
    \<or> published fs destination temp (concat chunks) (file_mode fs destination)
        (run_calls (take j [Fsync temp, Replace temp destination, Fsync_directory]) gs)"
    and "published fs destination temp (concat chunks) (file_mode fs destination)
        (run_calls [Fsync temp, Replace temp destination, Fsync_directory] gs)"
    and "dir_durable (run_calls [Fsync temp, Replace temp destination, Fsync_directory] gs)
      = dir_now (run_calls [Fsync temp, Replace temp destination, Fsync_directory] gs)"
proof -
  have f: "filling_with fs temp (file_mode fs destination) (concat chunks) gs"
    using filling_with_chunks gs by (simp add: write_start_def)
  have synced: "filling fs temp (concat chunks) (run_call (Fsync temp) gs)"
    using f filling_fsync by (simp add: filling_with_def del: run_call.simps)
  have renamed: "published fs destination temp (concat chunks) (file_mode fs destination)
      (run_call (Replace temp destination) (run_call (Fsync temp) gs))"
    using f assms(2) by (auto simp: filling_with_def filling_def published_def on_node_def fun_upd_twist)
  then have durable: "published fs destination temp (concat chunks) (file_mode fs destination)
      (run_call Fsync_directory (run_call (Replace temp destination) (run_call (Fsync temp) gs)))"
    by (auto simp: published_def)
  show "published fs destination temp (concat chunks) (file_mode fs destination)
        (run_calls [Fsync temp, Replace temp destination, Fsync_directory] gs)"
    using durable by simp
  show "dir_durable (run_calls [Fsync temp, Replace temp destination, Fsync_directory] gs)
      = dir_now (run_calls [Fsync temp, Replace temp destination, Fsync_directory] gs)" by simp
  consider "j = 0" | "j = 1" | "j = 2" | "3 \<le> j" by linarith
  then show "unpublished fs temp (run_calls (take j [Fsync temp, Replace temp destination, Fsync_directory]) gs)
    \<or> published fs destination temp (concat chunks) (file_mode fs destination)
        (run_calls (take j [Fsync temp, Replace temp destination, Fsync_directory]) gs)"
  proof cases
    case 1
    with f filling_unpublished [OF _ assms(1)] show ?thesis by (auto simp: filling_with_def)
  next
    case 2
    with filling_unpublished [OF synced assms(1)] show ?thesis by simp
  next
    case 3
    then show ?thesis using renamed by simp
  next
    case 4
    then show ?thesis using durable by simp
  qed
qed

section \<open>Replacement\<close>

lemma atomic_write_shape:
  assumes "atomic_write_bytes fs destination temp payload answer fault = (calls, returned)"
    and "write_all answer 0 payload = (chunks, ok)"
  shows "\<exists>body. body = write_start fs destination temp chunks
       @ (if ok then [Fsync temp, Replace temp destination, Fsync_directory] else [])
     \<and> (if returned then ok \<and> calls = body
        else calls = [] \<or> (\<exists>k. 0 < k \<and> calls = take k body @ [Unlink temp]))"
  using assms
  by (auto simp: atomic_write_bytes_def write_start_def Let_def split: if_splits option.splits)

text \<open>Every state a replacement goes through.\<close>

lemma replacement_stages:
  assumes "wf_filesys fs" "temp \<noteq> destination" "dir_now fs temp = None"
    and calls: "atomic_write_bytes fs destination temp payload answer fault = (calls, returned)"
  shows "unpublished fs temp (run_calls (take n calls) fs)
    \<or> published fs destination temp payload (file_mode fs destination) (run_calls (take n calls) fs)"
proof -
  obtain chunks ok where w: "write_all answer 0 payload = (chunks, ok)" by fastforce
  let ?start = "write_start fs destination temp chunks"
  let ?finish = "[Fsync temp, Replace temp destination, Fsync_directory]"
  let ?body = "?start @ (if ok then ?finish else [])"
  let ?fine = "\<lambda>gs. unpublished fs temp gs \<or> published fs destination temp payload (file_mode fs destination) gs"
  have body: "?fine (run_calls (take j ?body) fs)" for j
  proof (cases "ok \<and> length ?start \<le> j")
    case True
    with write_all_chunks [OF w] publish_stages(1) [OF assms(1,2) refl, of "j - length ?start" chunks]
    show ?thesis by (auto simp del: run_call.simps run_calls_simps(1,2))
  next
    case False
    then have "take j ?body = take j ?start" by (cases ok) auto
    then show ?thesis using write_start_stages [OF assms(1)] by (simp only: simp_thms)
  qed
  moreover define b where "b = ?body"
  ultimately have fine: "?fine (run_calls (take j b) fs)" for j by simp
  from atomic_write_shape [OF calls w] consider "calls = b" | "calls = []"
    | k where "calls = take k b @ [Unlink temp]" by (auto simp: b_def split: if_splits)
  then show ?thesis
  proof cases
    case 1
    with fine show ?thesis by simp
  next
    case 2
    then show ?thesis using unpublished_refl by simp
  next
    case (3 k)
    show ?thesis
    proof (cases "n \<le> length (take k b)")
      case True
      with 3 fine [of "min n k"] show ?thesis by (simp add: min.commute)
    next
      case False
      then have "length calls \<le> n" using 3 by (auto simp: min_def split: if_splits)
      then have "take n calls = take k b @ [Unlink temp]" using 3 by (simp only: take_all)
      with fine [of k] unpublished_unlink published_unlink show ?thesis
        by (auto simp del: run_call.simps)
    qed
  qed
qed

lemma replacement_cleans_up:
  assumes "wf_filesys fs" "temp \<noteq> destination" "dir_now fs temp = None"
    and calls: "atomic_write_bytes fs destination temp payload answer fault = (calls, returned)"
  shows "contents (run_calls calls fs) temp = None"
    and "returned \<Longrightarrow> published fs destination temp payload (file_mode fs destination) (run_calls calls fs)
      \<and> dir_durable (run_calls calls fs) = dir_now (run_calls calls fs)"
proof -
  obtain chunks ok where w: "write_all answer 0 payload = (chunks, ok)" by fastforce
  note shape = atomic_write_shape [OF calls w]
  show pub: "published fs destination temp payload (file_mode fs destination) (run_calls calls fs)
      \<and> dir_durable (run_calls calls fs) = dir_now (run_calls calls fs)" if returned
    using that shape write_all_chunks [OF w] publish_stages(2,3) [OF assms(1,2) refl, of chunks]
    by (auto simp del: run_call.simps run_calls_simps(1,2))
  show "contents (run_calls calls fs) temp = None"
  proof (cases returned)
    case True
    with pub show ?thesis by (simp add: published_def contents_def)
  next
    case False
    with shape assms(3) show ?thesis by (auto simp: contents_def)
  qed
qed

text \<open>C19: when the process is killed or the power is lost at any point of a replacement, the destination
  holds its old or its whole new content; when it returns the new content is durable, with the old
  file's mode; when it raises, one of the two contents is in place and no temporary file is left.  No
  other file changes.\<close>

theorem replacement_is_atomic:
  assumes "wf_filesys fs" "settled fs destination" "dir_now fs temp = None" "temp \<noteq> destination"
    and "atomic_write_bytes fs destination temp payload answer fault = (calls, returned)"
    and "c = contents (run_calls (take n calls) fs) destination \<or> survives (run_calls (take n calls) fs) destination c"
  shows "(c = contents fs destination \<or> c = Some payload)
    \<and> (if returned
       then contents (run_calls calls fs) = (contents fs)(destination \<mapsto> payload) \<and> settled (run_calls calls fs) destination
         \<and> file_mode (run_calls calls fs) destination = file_mode fs destination
       else contents (run_calls calls fs) = contents fs \<or> contents (run_calls calls fs) = (contents fs)(destination \<mapsto> payload))"
proof
  note st = replacement_stages [OF assms(1,4,3,5)] and finished = replacement_cleans_up [OF assms(1,4,3,5)]
  have content: "contents gs = (contents fs)(destination \<mapsto> payload)"
    if "published fs destination temp payload m gs" for gs m
    by (rule published_contents [OF that assms(1,3,4)])
  show "c = contents fs destination \<or> c = Some payload"
    using st [of n]
  proof
    assume "unpublished fs temp (run_calls (take n calls) fs)"
    with assms(6,4) settled_survives [OF assms(2)] show ?thesis by (auto simp: unpublished_def)
  next
    assume p: "published fs destination temp payload (file_mode fs destination) (run_calls (take n calls) fs)"
    from assms(6) content [OF p] published_survives [OF p assms(1,2,4)] show ?thesis by auto
  qed
  show "if returned
       then contents (run_calls calls fs) = (contents fs)(destination \<mapsto> payload) \<and> settled (run_calls calls fs) destination
         \<and> file_mode (run_calls calls fs) destination = file_mode fs destination
       else contents (run_calls calls fs) = contents fs \<or> contents (run_calls calls fs) = (contents fs)(destination \<mapsto> payload)"
  proof (cases returned)
    case True
    with finished(2) content assms(4) show ?thesis
      by (auto simp: published_def settled_def file_mode_def)
  next
    case False
    have "contents (run_calls calls fs) = contents fs" if "unpublished fs temp (run_calls calls fs)"
    proof
      fix p
      show "contents (run_calls calls fs) p = contents fs p"
        using that finished(1) assms(3) by (cases "p = temp") (auto simp: unpublished_def contents_def)
    qed
    with st [of "length calls"] content False show ?thesis by auto
  qed
qed

text \<open>A directory with one file, which is being replaced.\<close>

definition sample_filesys :: filesys where
  "sample_filesys = \<lparr>dir_now = [''state'' \<mapsto> 0], dir_durable = [''state'' \<mapsto> 0], node_bytes = (\<lambda>_. ''old''),
     node_mode = (\<lambda>_. 420), synced_nodes = {0}, next_node = 1\<rparr>"

lemma sample_filesys_wf: "wf_filesys sample_filesys" "settled sample_filesys ''state''"
  by (auto simp: wf_filesys_def settled_def sample_filesys_def split: if_splits)

theorem replacement_is_atomic_witness:
  "contents (run_calls (fst (atomic_write_bytes sample_filesys ''state'' ''.state.tmp'' ''newer'' (\<lambda>_. 2) None)) sample_filesys)
     ''state'' \<in> {Some ''old'', Some ''newer''}"
proof -
  obtain calls r where c: "atomic_write_bytes sample_filesys ''state'' ''.state.tmp'' ''newer'' (\<lambda>_. 2) None = (calls, r)"
    by fastforce
  have "dir_now sample_filesys ''.state.tmp'' = None" "contents sample_filesys ''state'' = Some ''old''"
    by (simp_all add: sample_filesys_def contents_def)
  with replacement_is_atomic [OF sample_filesys_wf _ _ c, of _ "length calls"] c show ?thesis by auto
qed

section \<open>Appending\<close>

definition file_text :: "filesys \<Rightarrow> string \<Rightarrow> bytes" where
  "file_text fs p = (case contents fs p of None \<Rightarrow> [] | Some b \<Rightarrow> b)"

lemma writes_text:
  assumes "dir_now fs p = Some i"
  shows "dir_now (run_calls (map (Write p) cs) fs) p = Some i"
    and "node_bytes (run_calls (map (Write p) cs) fs) i = node_bytes fs i @ concat cs"
  using assms by (induction cs arbitrary: fs) (simp_all add: on_node_def)

lemma syncs_text:
  "contents (run_calls (take n [Fsync p, Fsync_directory]) fs) q = contents fs q"
proof -
  consider "n = 0" | "n = 1" | "2 \<le> n" by linarith
  then show ?thesis
    by cases (simp_all add: contents_def on_node_def split: option.splits)
qed

lemma file_text_node: "dir_now fs p = Some i \<Longrightarrow> file_text fs p = node_bytes fs i"
  by (simp add: file_text_def contents_def)

lemma appending_text:
  assumes "dir_now fs p = Some i"
  shows "\<exists>m. file_text (run_calls (take n (map (Write p) chunks @ [Fsync p, Fsync_directory])) fs) p
    = file_text fs p @ concat (take m chunks)"
    and "file_text (run_calls (map (Write p) chunks @ [Fsync p, Fsync_directory]) fs) p = file_text fs p @ concat chunks"
    and "settled (run_calls (map (Write p) chunks @ [Fsync p, Fsync_directory]) fs) p"
proof -
  have w: "file_text (run_calls (map (Write p) cs) fs) p = file_text fs p @ concat cs" for cs
    using writes_text [OF assms, of cs] assms by (simp add: file_text_node)
  then show "\<exists>m. file_text (run_calls (take n (map (Write p) chunks @ [Fsync p, Fsync_directory])) fs) p
    = file_text fs p @ concat (take m chunks)"
    using syncs_text by (auto simp: file_text_def take_map simp del: run_call.simps)
  show "file_text (run_calls (map (Write p) chunks @ [Fsync p, Fsync_directory]) fs) p = file_text fs p @ concat chunks"
    using w [of chunks] syncs_text [of 2 p] by (simp add: file_text_def numeral_2_eq_2 del: run_call.simps)
  show "settled (run_calls (map (Write p) chunks @ [Fsync p, Fsync_directory]) fs) p"
    using writes_text(1) [OF assms, of chunks] by (simp add: settled_def on_node_def)
qed

lemma concat_take_prefix: "prefix (concat (take m xs)) (concat xs)"
  by (metis append_take_drop_id concat_append prefixI)

text \<open>
  At every point of an append the log is its old text and a prefix of the record; when it returns, all
  of the record is there and durable.
\<close>

lemma append_stages:
  assumes "append_fsync fs p line answer fault = (calls, returned)"
  shows "\<exists>part. prefix part line \<and> file_text (run_calls (take n calls) fs) p = file_text fs p @ part"
    and "returned \<Longrightarrow> file_text (run_calls calls fs) p = file_text fs p @ line \<and> settled (run_calls calls fs) p"
proof -
  obtain chunks ok where w: "write_all answer 0 line = (chunks, ok)" by fastforce
  let ?pre = "if dir_now fs p = None then [Create p] else []"
  let ?body = "?pre @ map (Write p) chunks @ (if ok then [Fsync p, Fsync_directory] else [])"
  have shape: "\<exists>k. calls = take k ?body" "returned \<Longrightarrow> ok \<and> calls = ?body"
    using assms w by (auto simp: append_fsync_def Let_def split: option.splits if_splits
        intro: exI [of _ "length ?body"])
  have pre: "file_text (run_calls ?pre fs) p = file_text fs p" "\<exists>i. dir_now (run_calls ?pre fs) p = Some i"
    by (auto simp: file_text_def contents_def Let_def split: option.splits)
  then obtain i where i: "dir_now (run_calls ?pre fs) p = Some i" by blast
  from write_all_chunks [OF w] have pf: "prefix (concat (take m chunks)) line" for m
    using concat_take_prefix [of m chunks] by (auto intro: prefix_order.trans)
  have body: "\<exists>part. prefix part line \<and> file_text (run_calls (take j ?body) fs) p = file_text fs p @ part" for j
  proof (cases "length ?pre \<le> j")
    case False
    then have "j = 0" by (auto split: if_splits)
    then show ?thesis by simp
  next
    case True
    define rest where "rest = map (Write p) chunks @ [Fsync p, Fsync_directory]"
    have part: "\<exists>l. take m (map (Write p) chunks @ (if ok then [Fsync p, Fsync_directory] else [])) = take l rest" for m
    proof (cases ok)
      case False
      then have "take m (map (Write p) chunks @ (if ok then [Fsync p, Fsync_directory] else [])) = take (min m (length chunks)) rest"
        by (simp add: rest_def min_def take_map)
      then show ?thesis by blast
    qed (auto simp: rest_def simp del: take_append)
    have "take j ?body = ?pre @ take (j - length ?pre) (map (Write p) chunks @ (if ok then [Fsync p, Fsync_directory] else []))"
      using True by (simp only: take_append) simp
    with part [of "j - length ?pre"] obtain l where "take j ?body = ?pre @ take l rest" by metis
    then have "run_calls (take j ?body) fs = run_calls (take l rest) (run_calls ?pre fs)" by simp
    with appending_text(1) [OF i, of l chunks] pre(1) pf show ?thesis by (auto simp: rest_def simp del: run_call.simps)
  qed
  from shape(1) obtain k where "calls = take k ?body" by blast
  then have "take n calls = take (min n k) ?body" by (simp only: take_take)
  with body [of "min n k"] show "\<exists>part. prefix part line \<and> file_text (run_calls (take n calls) fs) p = file_text fs p @ part"
    by (simp only:)
  assume returned
  with shape(2) have c: "ok" "calls = ?pre @ map (Write p) chunks @ [Fsync p, Fsync_directory]" by auto
  have "run_calls calls fs = run_calls (map (Write p) chunks @ [Fsync p, Fsync_directory]) (run_calls ?pre fs)"
    by (simp only: c run_calls_simps)
  with appending_text(2,3) [OF i, of chunks] pre(1) write_all_chunks [OF w] c(1)
  show "file_text (run_calls calls fs) p = file_text fs p @ line \<and> settled (run_calls calls fs) p" by simp
qed

end
