(* ===== verification/Jsonl.thy ===== *)
theory Jsonl
  imports Atomic Json
begin

text \<open>
  The submission log (\<open>read_jsonl_tolerating_torn_final\<close> and \<open>repair_jsonl_tail\<close> of
  \<open>src/dolores_subnet/epoch.py\<close>): records in lines, of which the last may have been torn by a crash
  during an append.  Decoding and parsing one line is an argument, \<open>None\<close> standing for a
  \<open>UnicodeDecodeError\<close> or a \<open>JSONDecodeError\<close>; the number in an error is that of the line.
\<close>

section \<open>Reading\<close>

definition newline :: char where
  "newline = CHR 0x0A"

definition byte_space :: "char \<Rightarrow> bool" where
  "byte_space c = (let n = (of_char c :: nat) in (9 \<le> n \<and> n \<le> 13) \<or> n = 32)"

definition blank :: "bytes \<Rightarrow> bool" where
  "blank line = list_all byte_space line"

datatype jsonl_error =
    Corrupt_record nat
  | Not_an_object_record nat
  | Unterminated_not_an_object

text \<open>The loop over the lines; the flag says that the last line has no newline.\<close>

fun read_lines :: "(bytes \<Rightarrow> json option) \<Rightarrow> bool \<Rightarrow> nat \<Rightarrow> bytes list \<Rightarrow> jsonl_error + jdict list" where
  "read_lines parse torn k [] = Inr []"
| "read_lines parse torn k (line # lines) =
     (if blank line then read_lines parse torn (Suc k) lines
      else (case parse line of
              None \<Rightarrow> if torn \<and> lines = [] then Inr [] else Inl (Corrupt_record k)
            | Some (JObj d) \<Rightarrow> bind_result (read_lines parse torn (Suc k) lines) (\<lambda>rows. Inr (d # rows))
            | Some _ \<Rightarrow> Inl (Not_an_object_record k)))"

definition terminated :: "bytes \<Rightarrow> bool" where
  "terminated raw = ends_with raw [newline]"

definition read_jsonl :: "(bytes \<Rightarrow> json option) \<Rightarrow> bytes \<Rightarrow> jsonl_error + jdict list" where
  "read_jsonl parse raw =
     (let lines = split_on newline raw in
      read_lines parse (\<not> terminated raw) 1 (if terminated raw then butlast lines else lines))"

section \<open>Repair\<close>

text \<open>The part up to and with the last newline, and the rest.\<close>

definition split_tail :: "bytes \<Rightarrow> bytes \<times> bytes" where
  "split_tail raw =
     (rev (dropWhile (\<lambda>c. c \<noteq> newline) (rev raw)), rev (takeWhile (\<lambda>c. c \<noteq> newline) (rev raw)))"

text \<open>
  \<open>None\<close> is a file that does not exist.  The result says whether the file was rewritten, and
  what it holds then.
\<close>

definition repair_tail :: "(bytes \<Rightarrow> json option) \<Rightarrow> bytes option \<Rightarrow> jsonl_error + (bool \<times> bytes option)" where
  "repair_tail parse file =
     (case file of
        None \<Rightarrow> Inr (False, None)
      | Some raw \<Rightarrow>
          if raw = [] \<or> terminated raw then bind_result (read_jsonl parse raw) (\<lambda>_. Inr (False, Some raw))
          else
            (case split_tail raw of
               (prefix_part, tail) \<Rightarrow>
                 bind_result (if prefix_part = [] then Inr [] else read_lines parse False 1 (butlast (split_on newline prefix_part)))
                   (\<lambda>_. case parse tail of
                      None \<Rightarrow> Inr (True, Some prefix_part)
                    | Some (JObj d) \<Rightarrow> Inr (True, Some (raw @ [newline]))
                    | Some _ \<Rightarrow> Inl Unterminated_not_an_object)))"

section \<open>Lines\<close>

lemma split_on_newline_last: "\<exists>w v ws. split_on newline (xs @ [newline]) = w # v # ws"
proof (induction xs)
  case (Cons x xs)
  then show ?case by auto
qed simp

text \<open>A newline splits a text into the lines before it and the lines after it.\<close>

lemma split_on_append:
  "split_on newline (xs @ newline # ys) = butlast (split_on newline (xs @ [newline])) @ split_on newline ys"
proof (induction xs)
  case (Cons x xs)
  from split_on_newline_last [of xs] obtain w v ws where "split_on newline (xs @ [newline]) = w # v # ws" by blast
  with Cons show ?case by auto
qed simp

lemma split_no_newline: "newline \<notin> set tail \<Longrightarrow> split_on newline tail = [tail]"
  by (induction tail) auto

lemma split_tail_cases:
  obtains (one_line) "split_tail raw = ([], raw)" "newline \<notin> set raw"
  | (lines) xs tail where "raw = xs @ newline # tail" "newline \<notin> set tail" "split_tail raw = (xs @ [newline], tail)"
proof (cases "newline \<in> set raw")
  case False
  then have "dropWhile (\<lambda>c. c \<noteq> newline) (rev raw) = []" "takeWhile (\<lambda>c. c \<noteq> newline) (rev raw) = rev raw"
    by (auto simp: takeWhile_eq_all_conv)
  with False one_line show ?thesis by (simp add: split_tail_def)
next
  case True
  then obtain ys zs where "rev raw = ys @ newline # zs" "newline \<notin> set ys"
    by (metis set_rev split_list_first)
  moreover from this have "raw = rev zs @ newline # rev ys" by (metis rev_append rev.simps(2) rev_rev_ident append_assoc append_Cons append_Nil)
  moreover have "takeWhile (\<lambda>c. c \<noteq> newline) (ys @ newline # zs) = ys" "dropWhile (\<lambda>c. c \<noteq> newline) (ys @ newline # zs) = newline # zs"
    if "newline \<notin> set ys" using that by (induction ys) auto
  ultimately have "raw = rev zs @ newline # rev ys" "newline \<notin> set (rev ys)" "split_tail raw = (rev zs @ [newline], rev ys)"
    by (simp_all add: split_tail_def)
  with lines show ?thesis by blast
qed

lemma terminated_snoc [simp]: "terminated (xs @ [newline])"
  by (simp add: terminated_def)

lemma terminated_tail: "newline \<notin> set tail \<Longrightarrow> terminated (xs @ newline # tail) \<longleftrightarrow> tail = []"
  by (cases tail rule: rev_cases) (auto simp: terminated_def ends_with_def)

lemma read_lines_append:
  "read_lines parse torn k (xs @ ys) =
     bind_result (read_lines parse (torn \<and> ys = []) k xs) (\<lambda>rows.
       bind_result (read_lines parse torn (k + length xs) ys) (\<lambda>rows'. Inr (rows @ rows')))"
proof (induction xs arbitrary: k)
  case Nil
  then show ?case by (cases "read_lines parse torn k ys") simp_all
next
  case (Cons x xs)
  show ?case
    by (cases "read_lines parse (torn \<and> ys = []) (Suc k) xs"; cases "read_lines parse torn (k + Suc (length xs)) ys")
      (auto simp: Cons.IH split: option.splits json.splits)
qed

text \<open>The complete lines of a text that ends in a newline.\<close>

definition whole_lines :: "bytes \<Rightarrow> bytes list" where
  "whole_lines raw = butlast (split_on newline raw)"

lemma read_terminated: "raw = [] \<or> terminated raw \<Longrightarrow> read_jsonl parse raw = read_lines parse False 1 (whole_lines raw)"
proof (cases "terminated raw")
  case False
  then have "read_jsonl parse [] = read_lines parse False 1 (whole_lines [])"
    by (simp add: read_jsonl_def whole_lines_def blank_def terminated_def ends_with_def)
  moreover assume "raw = [] \<or> terminated raw"
  ultimately show ?thesis using False by simp
qed (simp add: read_jsonl_def whole_lines_def Let_def)

lemma read_with_tail:
  assumes "newline \<notin> set tail" "tail \<noteq> []"
  shows "read_jsonl parse (xs @ newline # tail) = read_lines parse True 1 (whole_lines (xs @ [newline]) @ [tail])"
    and "read_jsonl parse tail = read_lines parse True 1 [tail]"
proof -
  show "read_jsonl parse (xs @ newline # tail) = read_lines parse True 1 (whole_lines (xs @ [newline]) @ [tail])"
    using assms split_on_append [of xs tail]
    by (simp add: read_jsonl_def terminated_tail split_no_newline whole_lines_def)
  have "\<not> terminated tail"
    using assms by (cases tail rule: rev_cases) (auto simp: terminated_def ends_with_def)
  then show "read_jsonl parse tail = read_lines parse True 1 [tail]"
    using assms by (simp add: read_jsonl_def split_no_newline)
qed

lemma whole_lines_snoc:
  assumes "newline \<notin> set tail"
  shows "whole_lines (xs @ newline # tail @ [newline]) = whole_lines (xs @ [newline]) @ [tail]"
    and "whole_lines (tail @ [newline]) = [tail]"
proof -
  have one: "split_on newline (tail @ [newline]) = [tail, []]"
    using assms by (induction tail) auto
  then show "whole_lines (tail @ [newline]) = [tail]" by (simp add: whole_lines_def)
  from split_on_append [of xs "tail @ [newline]"] one
  show "whole_lines (xs @ newline # tail @ [newline]) = whole_lines (xs @ [newline]) @ [tail]"
    by (simp add: whole_lines_def butlast_append)
qed

text \<open>A log in good order ends in a newline or is empty, and all its records can be read.\<close>

definition log_rows :: "(bytes \<Rightarrow> json option) \<Rightarrow> bytes \<Rightarrow> jdict list \<Rightarrow> bool" where
  "log_rows parse raw rows \<longleftrightarrow> (raw = [] \<or> terminated raw) \<and> read_jsonl parse raw = Inr rows"

lemma terminated_split: "terminated raw \<Longrightarrow> \<exists>xs. raw = xs @ [newline]"
  by (metis append_take_drop_id ends_with_def terminated_def)

lemma read_lines_torn: "read_lines parse False k xs = Inr rows \<Longrightarrow> read_lines parse torn k xs = Inr rows"
  by (induction xs arbitrary: k rows) (auto split: if_splits option.splits json.splits)

text \<open>The log with a last line that has no newline.\<close>

lemma read_torn_tail:
  assumes "log_rows parse raw rows" "newline \<notin> set tail" "tail \<noteq> []"
  shows "read_jsonl parse (raw @ tail) =
      bind_result (read_lines parse True (1 + length (whole_lines raw)) [tail]) (\<lambda>last. Inr (rows @ last))"
proof (cases "raw = []")
  case True
  with assms read_with_tail(2) [OF assms(2,3)] show ?thesis
    by (cases "read_lines parse True (Suc 0) [tail]")
      (auto simp: log_rows_def whole_lines_def read_jsonl_def blank_def terminated_def ends_with_def)
next
  case False
  with assms obtain xs where xs: "raw = xs @ [newline]" using terminated_split by (auto simp: log_rows_def)
  have "read_lines parse False 1 (whole_lines raw) = Inr rows"
    using assms(1) read_terminated [of raw parse] by (simp add: log_rows_def)
  with xs read_with_tail(1) [OF assms(2,3), of parse xs] show ?thesis
    by (simp add: read_lines_append)
qed

lemma append_line:
  assumes "log_rows parse raw rows" "newline \<notin> set line" "\<not> blank line" "parse line = Some (JObj d)"
  shows "log_rows parse (raw @ line @ [newline]) (rows @ [d])"
proof -
  have "whole_lines (raw @ line @ [newline]) = whole_lines raw @ [line]"
  proof (cases "raw = []")
    case False
    with assms(1) obtain xs where "raw = xs @ [newline]" using terminated_split by (auto simp: log_rows_def)
    with whole_lines_snoc(1) [OF assms(2)] show ?thesis by simp
  qed (use whole_lines_snoc(2) [OF assms(2)] in \<open>simp add: whole_lines_def\<close>)
  moreover have "terminated (raw @ line @ [newline])" by (metis append_assoc terminated_snoc)
  moreover have "read_lines parse False 1 (whole_lines raw) = Inr rows"
    using assms(1) read_terminated [of raw parse] by (simp add: log_rows_def)
  ultimately show ?thesis using assms(3,4) by (simp add: log_rows_def read_terminated read_lines_append)
qed

lemma split_tail_append: "newline \<notin> set tail \<Longrightarrow> raw = [] \<or> terminated raw \<Longrightarrow> split_tail (raw @ tail) = (raw, tail)"
proof -
  assume t: "newline \<notin> set tail" and raw: "raw = [] \<or> terminated raw"
  have "takeWhile (\<lambda>c. c \<noteq> newline) (rev tail @ zs) = rev tail @ takeWhile (\<lambda>c. c \<noteq> newline) zs"
    "dropWhile (\<lambda>c. c \<noteq> newline) (rev tail @ zs) = dropWhile (\<lambda>c. c \<noteq> newline) zs" for zs
    using t by (auto intro!: takeWhile_append2 dropWhile_append2)
  with raw show ?thesis by (auto simp: split_tail_def dest: terminated_split)
qed

text \<open>Every text is a part that is empty or ends in a newline and a tail without newline.\<close>

lemma tail_cases:
  obtains start tail where "raw = start @ tail" "newline \<notin> set tail" "start = [] \<or> terminated start"
proof (cases rule: split_tail_cases [of raw])
  case one_line
  with that [of "[]" raw] show ?thesis by simp
next
  case (lines xs tail)
  with that [of "xs @ [newline]" tail] show ?thesis by simp
qed

lemma not_terminated_tail: "newline \<notin> set tail \<Longrightarrow> tail \<noteq> [] \<Longrightarrow> start @ tail \<noteq> [] \<and> \<not> terminated (start @ tail)"
  by (cases tail rule: rev_cases) (auto simp: terminated_def ends_with_def)

lemma repair_with_tail:
  assumes "newline \<notin> set tail" "tail \<noteq> []" "start = [] \<or> terminated start"
  shows "repair_tail parse (Some (start @ tail)) =
    bind_result (read_jsonl parse start) (\<lambda>_. case parse tail of
        None \<Rightarrow> Inr (True, Some start)
      | Some (JObj d) \<Rightarrow> Inr (True, Some ((start @ tail) @ [newline]))
      | Some _ \<Rightarrow> Inl Unterminated_not_an_object)"
proof -
  have "read_jsonl parse [] = Inr []"
    by (simp add: read_jsonl_def blank_def terminated_def ends_with_def)
  then have "(if start = [] then Inr [] else read_lines parse False 1 (butlast (split_on newline start))) = read_jsonl parse start"
    using read_terminated [OF assms(3)] by (simp add: whole_lines_def)
  then show ?thesis
    using not_terminated_tail [OF assms(1,2), of start] split_tail_append [OF assms(1,3)]
    unfolding repair_tail_def by (simp only: option.case prod.case if_False simp_thms)
qed

text \<open>Repairing the tail of the log succeeds exactly when the log can be read, changes nothing that can be
  read, and leaves the log empty or ending in a newline, so that the next append starts a line of its own.\<close>

lemma repair_keeps_rows:
  assumes "\<And>b. blank b \<Longrightarrow> parse b = None"
  shows "case repair_tail parse (Some raw) of
      Inl e \<Rightarrow> \<not> is_ok (read_jsonl parse raw)
    | Inr (changed, raw') \<Rightarrow> (changed \<longleftrightarrow> raw' \<noteq> Some raw)
        \<and> (\<exists>repaired rows. raw' = Some repaired \<and> log_rows parse repaired rows \<and> read_jsonl parse raw = Inr rows)"
proof -
  obtain start tail where t: "raw = start @ tail" "newline \<notin> set tail" "start = [] \<or> terminated start"
    by (rule tail_cases)
  show ?thesis
  proof (cases "tail = []")
    case True
    with t have "raw = [] \<or> terminated raw" by simp
    then show ?thesis
      by (cases "read_jsonl parse raw") (auto simp: repair_tail_def log_rows_def)
  next
    case False
    note repair = repair_with_tail [OF t(2) False t(3), of parse, folded t(1)]
    show ?thesis
    proof (cases "read_jsonl parse start")
      case (Inl e)
      have "\<not> is_ok (read_jsonl parse raw)"
      proof (cases "start = []")
        case True
        with Inl show ?thesis by (simp add: read_jsonl_def blank_def terminated_def ends_with_def)
      next
        case start: False
        with t(3) obtain xs where xs: "start = xs @ [newline]" using terminated_split by blast
        have "read_lines parse False 1 (whole_lines start) = Inl e" using Inl read_terminated [OF t(3)] by simp
        with xs t(1) read_with_tail(1) [OF t(2) False, of parse xs] show ?thesis
          by (auto simp: read_lines_append is_ok_iff)
      qed
      with repair Inl show ?thesis by simp
    next
      case (Inr rows)
      then have log: "log_rows parse start rows" using t(3) by (simp add: log_rows_def)
      note read = read_torn_tail [OF log t(2) False, folded t(1)]
      show ?thesis
      proof (cases "parse tail")
        case None
        with repair Inr read log False t(1) show ?thesis by simp
      next
        case (Some j)
        with assms have "\<not> blank tail" by auto
        with repair Inr read append_line [OF log t(2)] Some t(1) show ?thesis
          by (cases j) auto
      qed
    qed
  qed
qed

text \<open>A parser that knows the empty object, and how it appears in a log.\<close>

definition sample_parse :: "bytes \<Rightarrow> json option" where
  "sample_parse line = (if line = ''{}'' then Some (JObj []) else None)"

lemma sample_parse_blank: "blank b \<Longrightarrow> sample_parse b = None"
  by (auto simp: sample_parse_def blank_def byte_space_def)

definition sample_log :: bytes where
  "sample_log = ''{}'' @ [newline, CHR ''{'']"

lemma repair_keeps_rows_instance:
  "\<exists>repaired rows. repair_tail sample_parse (Some sample_log) = Inr (True, Some repaired)
     \<and> log_rows sample_parse repaired rows \<and> read_jsonl sample_parse sample_log = Inr rows"
proof -
  have r: "repair_tail sample_parse (Some sample_log) = Inr (True, Some (''{}'' @ [newline]))" by code_simp
  show ?thesis using repair_keeps_rows [of sample_parse sample_log, OF sample_parse_blank] unfolding r by auto
qed

text \<open>C22: the process may be killed at any point of an append to the log: the records before it can still be
  read, and the new one is either there or not; after the repair at the start of the next epoch the same
  records are read and further appends succeed.  An append that returns has its record in the log.\<close>

theorem log_survives_kill:
  assumes "log_rows parse (file_text fs p) rows"
    and "newline \<notin> set text" "\<not> blank text" "parse text = Some (JObj d)"
    and "\<And>part. strict_prefix part text \<Longrightarrow> parse part = None"
    and "append_fsync fs p (text @ [newline]) answer fault = (calls, returned)"
  shows "(\<exists>found changed repaired. (found = rows \<or> found = rows @ [d])
      \<and> read_jsonl parse (file_text (run_calls (take n calls) fs) p) = Inr found
      \<and> repair_tail parse (Some (file_text (run_calls (take n calls) fs) p)) = Inr (changed, Some repaired)
      \<and> log_rows parse repaired found)
    \<and> (returned \<longrightarrow> log_rows parse (file_text (run_calls calls fs) p) (rows @ [d]) \<and> settled (run_calls calls fs) p)"
proof
  obtain part where part: "prefix part (text @ [newline])" "file_text (run_calls (take n calls) fs) p = file_text fs p @ part"
    using append_stages(1) [OF assms(6)] by blast
  let ?raw = "file_text fs p"
  have start: "?raw = [] \<or> terminated ?raw" "read_jsonl parse ?raw = Inr rows"
    using assms(1) by (auto simp: log_rows_def)
  have full: "log_rows parse (?raw @ text @ [newline]) (rows @ [d])" by (rule append_line [OF assms(1-4)])
  have nonempty: "text \<noteq> []" using assms(3) by (auto simp: blank_def)
  consider "part = []" | "part = text @ [newline]" | "part = text" | "strict_prefix part text" "part \<noteq> []"
    using part(1) by (auto simp: strict_prefix_def)
  then have "\<exists>found changed repaired. (found = rows \<or> found = rows @ [d]) \<and> read_jsonl parse (?raw @ part) = Inr found
      \<and> repair_tail parse (Some (?raw @ part)) = Inr (changed, Some repaired) \<and> log_rows parse repaired found"
  proof cases
    case 1
    then show ?thesis using start assms(1) by (auto simp: repair_tail_def)
  next
    case 2
    then show ?thesis using full by (auto simp: repair_tail_def log_rows_def)
  next
    case 3
    then show ?thesis
      using read_torn_tail [OF assms(1,2) nonempty] repair_with_tail [OF assms(2) nonempty start(1), of parse] start(2) assms(3,4) full
      by auto
  next
    case 4
    then have tail: "newline \<notin> set part" "parse part = None"
      using assms(2,5) by (auto simp: strict_prefix_def prefix_def)
    show ?thesis
      using read_torn_tail [OF assms(1) tail(1) 4(2)] repair_with_tail [OF tail(1) 4(2) start(1), of parse] start(2) tail(2) assms(1)
      by auto
  qed
  with part(2) show "\<exists>found changed repaired. (found = rows \<or> found = rows @ [d])
      \<and> read_jsonl parse (file_text (run_calls (take n calls) fs) p) = Inr found
      \<and> repair_tail parse (Some (file_text (run_calls (take n calls) fs) p)) = Inr (changed, Some repaired)
      \<and> log_rows parse repaired found" by simp
  show "returned \<longrightarrow> log_rows parse (file_text (run_calls calls fs) p) (rows @ [d]) \<and> settled (run_calls calls fs) p"
    using append_stages(2) [OF assms(6)] full by auto
qed

theorem log_survives_kill_witness:
  "\<exists>found. read_jsonl sample_parse
      (file_text (run_calls (take 2 (fst (append_fsync sample_filesys ''log'' (''{}'' @ [newline]) (\<lambda>_. 1) None))) sample_filesys) ''log'')
    = Inr found"
proof -
  obtain calls r where c: "append_fsync sample_filesys ''log'' (''{}'' @ [newline]) (\<lambda>_. 1) None = (calls, r)" by fastforce
  have "log_rows sample_parse (file_text sample_filesys ''log'') []" by code_simp
  moreover have "newline \<notin> set ''{}''" "\<not> blank ''{}''" "sample_parse ''{}'' = Some (JObj [])" by code_simp+
  moreover have "sample_parse part = None" if "strict_prefix part ''{}''" for part
    using that by (auto simp: sample_parse_def)
  ultimately show ?thesis using log_survives_kill [OF _ _ _ _ _ c, of sample_parse "[]" "[]" 2] c by auto
qed

end
