(* ===== verification/Epoch.thy ===== *)
theory Epoch
  imports Validator_State Publication Bridge Panel Jsonl
begin

text \<open>
  \<open>run_epoch\<close> of \<open>src/dolores_subnet/epoch.py\<close>: one epoch from the miners' submissions to the
  completion marker, and \<open>replay_epoch\<close>, which derives scores and weights again from what was
  archived.  The submission log is the list of its records as they are read back, or the error of
  reading it; how records become lines is the subject of the theory of the log.  The hook that
  announces the phases of the epoch is an argument.
\<close>

section \<open>Miners\<close>

record miner =
  mn_hotkey :: string
  mn_uid :: int
  mn_terminal_status :: "string option"
  mn_terminal_reason :: "string option"
  mn_submissions :: "int \<Rightarrow> int \<Rightarrow> jdict list"

definition terminal :: "miner \<Rightarrow> bool" where
  "terminal m = (or_text (mn_terminal_status m) None \<noteq> None)"

definition terminal_outcome :: "miner \<Rightarrow> submission_outcome option" where
  "terminal_outcome m =
     (case or_text (mn_terminal_status m) None of
        None \<Rightarrow> None
      | Some status \<Rightarrow>
          Some (outcome status (''terminal_'' @ status @ ''_'' @ show_int (mn_uid m)) JNull
            [(if status = ''unreachable'' then ''transport'' else ''wire'', False)]
            (case or_text (mn_terminal_reason m) None of None \<Rightarrow> status | Some r \<Rightarrow> r)))"

definition collect :: "miner list \<Rightarrow> int \<Rightarrow> int \<Rightarrow> (miner \<times> jdict) list" where
  "collect miners epoch_id quota =
     concat (map (\<lambda>m. map (\<lambda>p. (m, p)) (mn_submissions m epoch_id quota)) (filter (\<lambda>m. \<not> terminal m) miners))"

definition submission_key :: "'b env \<Rightarrow> miner \<times> jdict \<Rightarrow> string" where
  "submission_key env x = text_of_json env (jget_or (snd x) ''package_hash'' (JStr []))"

section \<open>State and errors\<close>

record 'b epoch_world =
  ew_chain :: "'b chain_world"
  ew_bridge :: bridge_state
  ew_session :: panel_session
  ew_log :: "jsonl_error + jdict list"

datatype epoch_error =
    Phase_rejected validator_error
  | Log_corrupt jsonl_error
  | Panel_failed panel_error
  | Bridge_failed bridge_error
  | Chain_failed apply_error
  | Python_raised exn
  | Not_complete string string
  | Marker_failed completion_error

type_synonym ('b, 'a) epoch_op = "('b epoch_world, epoch_error, 'a) op"

definition on_chain :: "('e \<Rightarrow> epoch_error) \<Rightarrow> ('b chain_world, 'e, 'a) op \<Rightarrow> ('b, 'a) epoch_op" where
  "on_chain f m w = (case m (ew_chain w) of (r, c) \<Rightarrow> (map_error f r, w\<lparr>ew_chain := c\<rparr>))"

definition on_archive :: "('e \<Rightarrow> epoch_error) \<Rightarrow> ('b disk, 'e, 'a) op \<Rightarrow> ('b, 'a) epoch_op" where
  "on_archive f m = on_chain f (\<lambda>c. case m (cw_disk c) of (r, fs) \<Rightarrow> (r, c\<lparr>cw_disk := fs\<rparr>))"

definition on_bridge :: "(bridge_state, bridge_error, 'a) op \<Rightarrow> ('b, 'a) epoch_op" where
  "on_bridge m w = (case m (ew_bridge w) of (r, b) \<Rightarrow> (map_error Bridge_failed r, w\<lparr>ew_bridge := b\<rparr>))"

definition on_session :: "(panel_session, exn, 'a) op \<Rightarrow> ('b, 'a) epoch_op" where
  "on_session m w = (case m (ew_session w) of (r, s) \<Rightarrow> (map_error Python_raised r, w\<lparr>ew_session := s\<rparr>))"

definition archive_json :: "'b env \<Rightarrow> string \<Rightarrow> json \<Rightarrow> ('b, unit) epoch_op" where
  "archive_json env p v = on_chain Chain_failed (modify_op (write_world env p v))"

text \<open>\<open>append_submission\<close>: the time stamp is set where the record has none.\<close>

definition append_submission :: "string \<Rightarrow> jdict \<Rightarrow> ('b, unit) epoch_op" where
  "append_submission created_at rec =
     modify_op (\<lambda>w. w\<lparr>ew_log := bind_result (ew_log w) (\<lambda>rows. Inr (rows @ [canon_fields
       (if has_key rec ''created_at'' then rec else rec @ [(''created_at'', JStr created_at)])]))\<rparr>)"

section \<open>Evaluation\<close>

text \<open>Everything an epoch is given.\<close>

record ('b, 'r) epoch_input =
  in_env :: "'b env"
  in_host :: host
  in_config :: subnet_config
  in_engine :: "'r engine"
  in_files :: panel_files
  in_connection :: "exn + substrate"
  in_client :: chain_client
  in_epoch :: int
  in_quota :: int
  in_created_at :: string
  in_duration_ms :: int

definition record_outcome :: "('b, 'r) epoch_input \<Rightarrow> miner \<Rightarrow> submission_outcome \<Rightarrow> ('b, unit) epoch_op" where
  "record_outcome x m out =
     append_submission (in_created_at x) (outcome_record (in_epoch x) (mn_hotkey m) (mn_uid m) out)"

fun record_terminals :: "('b, 'r) epoch_input \<Rightarrow> miner list \<Rightarrow> ('b, (miner \<times> submission_outcome) list) epoch_op" where
  "record_terminals x [] = return_op []"
| "record_terminals x (m # ms) =
     (case terminal_outcome m of
        None \<Rightarrow> record_terminals x ms
      | Some out \<Rightarrow>
          bind_op (record_outcome x m out) (\<lambda>_.
          bind_op (record_terminals x ms) (\<lambda>outs. return_op ((m, out) # outs))))"

text \<open>
  After validation: a reserved slot goes back when the outcome has no panel rows, a cached solve rate
  replaces the mock one, and the evidence is recorded.
\<close>

definition settle_plan ::
  "'b env \<Rightarrow> panel_plan \<Rightarrow> submission_outcome \<Rightarrow> (panel_session, exn, submission_outcome) op" where
  "settle_plan env p out =
     (if p = Plan_live \<and> so_panel_rows out = [] then
        bind_op (modify_op refund) (\<lambda>_.
        bind_op (record_evidence env Plan_gate_failed (so_task_id out) (so_package_hash out) [] JNull) (\<lambda>_.
        return_op out))
      else if p = Plan_cache then
        bind_op get_op (\<lambda>s.
        bind_op (lift_op (cached_solve_rate s (so_package_hash out))) (\<lambda>rate.
        bind_op (lift_op (if rate = JNull \<or> fle (so_task_value out) (Fin 0) then Inr None
                          else bind_result (py_float env rate) (\<lambda>r. Inr (Some r)))) (\<lambda>measured.
        let out' = out\<lparr>so_task_value := recalibrated_task_value (so_task_value out) (so_components out) measured\<rparr> in
        bind_op (record_evidence env p (so_task_id out') (so_package_hash out') [] rate) (\<lambda>_. return_op out'))))
      else if p \<noteq> Plan_mock then
        bind_op (record_evidence env p (so_task_id out) (so_package_hash out) (so_panel_rows out) JNull) (\<lambda>_. return_op out)
      else return_op out)"

definition evaluate_one :: "('b, 'r) epoch_input \<Rightarrow> miner \<times> jdict \<Rightarrow> ('b, miner \<times> submission_outcome) epoch_op" where
  "evaluate_one x mp =
     (let (m, payload) = mp in
      bind_op (on_session (plan (jget payload ''package_hash''))) (\<lambda>p.
      bind_op get_op (\<lambda>w.
      bind_op (on_bridge (validate_submission (in_env x) (in_engine x) (in_config x)
         (if ps_active (ew_session w) then panel_path_for (in_config x) p else panel_path (in_config x))
         (mn_hotkey m) payload)) (\<lambda>out.
      bind_op (on_session (settle_plan (in_env x) p out)) (\<lambda>out'.
      bind_op (record_outcome x m out') (\<lambda>_. return_op (m, out')))))))"

fun evaluate_all :: "('b, 'r) epoch_input \<Rightarrow> (miner \<times> jdict) list \<Rightarrow> ('b, (miner \<times> submission_outcome) list) epoch_op" where
  "evaluate_all x [] = return_op []"
| "evaluate_all x (mp # mps) =
     bind_op (evaluate_one x mp) (\<lambda>out. bind_op (evaluate_all x mps) (\<lambda>outs. return_op (out # outs)))"

section \<open>Scores\<close>

type_synonym outcomes = "(miner \<times> submission_outcome) list"

definition statuses_of :: "outcomes \<Rightarrow> string \<Rightarrow> string list" where
  "statuses_of outs hotkey = map (\<lambda>(m, out). so_status out) (filter (\<lambda>(m, out). mn_hotkey m = hotkey) outs)"

definition values_of :: "outcomes \<Rightarrow> string \<Rightarrow> pyfloat list" where
  "values_of outs hotkey =
     map (\<lambda>(m, out). so_task_value out)
       (filter (\<lambda>(m, out). mn_hotkey m = hotkey \<and> so_status out \<noteq> ''infra_error'') outs)"

text \<open>Task values by package hash: keys are compared as Python does, and must be hashable.\<close>

fun key_put :: "(json \<times> pyfloat) list \<Rightarrow> json \<Rightarrow> pyfloat \<Rightarrow> (json \<times> pyfloat) list" where
  "key_put [] k v = [(k, v)]"
| "key_put ((k', v') # d) k v = (if py_eq k' k then (k', v) # d else (k', v') # key_put d k v)"

fun collect_task_values :: "outcomes \<Rightarrow> (json \<times> pyfloat) list \<Rightarrow> exn + (json \<times> pyfloat) list" where
  "collect_task_values [] d = Inr d"
| "collect_task_values ((m, out) # outs) d =
     (let h = so_package_hash out in
      if \<not> truthy h then collect_task_values outs d
      else if \<not> hashable h then Inl (type_error ''unhashable type'')
      else collect_task_values outs (key_put d h (so_task_value out)))"

fun numeric_key :: "json \<Rightarrow> bool" where
  "numeric_key (JInt i) = True"
| "numeric_key (JFloat f) = True"
| "numeric_key (JBool b) = True"
| "numeric_key _ = False"

definition json_key :: "'b env \<Rightarrow> json \<Rightarrow> string" where
  "json_key env k = (case k of JBool b \<Rightarrow> if b then ''true'' else ''false'' | _ \<Rightarrow> text_of_json env k)"

text \<open>
  \<open>dict(sorted(task_values.items()))\<close>: sorting raises when text and numbers are mixed.  The order is not
  observable in the artifact, which is written with sorted keys.
\<close>

definition sorted_task_values :: "'b env \<Rightarrow> (json \<times> pyfloat) list \<Rightarrow> exn + (string, pyfloat) dict" where
  "sorted_task_values env d =
     (if list_all is_jstr (map fst d) \<or> list_all numeric_key (map fst d)
      then Inr (dict_sorted (map (\<lambda>(k, v). (json_key env k, v)) d))
      else Inl (type_error ''unorderable keys''))"

fun floats_of_fields :: "'b env \<Rightarrow> jdict \<Rightarrow> exn + (string, pyfloat) dict" where
  "floats_of_fields env [] = Inr []"
| "floats_of_fields env ((k, v) # d) =
     bind_result (py_float env v) (\<lambda>f. bind_result (floats_of_fields env d) (\<lambda>fs. Inr ((k, f) # fs)))"

definition load_miner_state :: "'b env \<Rightarrow> 'b disk \<Rightarrow> exn + (string, pyfloat) dict" where
  "load_miner_state env fs =
     (case fs miner_state_path of
        None \<Rightarrow> Inr []
      | Some b \<Rightarrow>
          (case loads env b of
             None \<Rightarrow> Inl \<lparr>exn_type = ''JSONDecodeError'', exn_text = ''invalid miner state''\<rparr>
           | Some (JObj d) \<Rightarrow> floats_of_fields env d
           | Some _ \<Rightarrow> Inl \<lparr>exn_type = ''AttributeError'', exn_text = ''object has no attribute items''\<rparr>))"

record epoch_scoring =
  es_epoch_scores :: "(string, pyfloat) dict"
  es_ema :: "(string, pyfloat) dict"
  es_weights :: "(string, pyfloat) dict"
  es_degraded :: bool
  es_reason :: "string option"

definition infra_only :: "outcomes \<Rightarrow> string \<Rightarrow> bool" where
  "infra_only outs hotkey =
     (statuses_of outs hotkey \<noteq> [] \<and> list_all (\<lambda>st. st = ''infra_error'') (statuses_of outs hotkey))"

definition score_epoch :: "pyfloat \<Rightarrow> int \<Rightarrow> string list \<Rightarrow> outcomes \<Rightarrow> (string, pyfloat) dict \<Rightarrow> epoch_scoring" where
  "score_epoch alpha quota active outs previous =
     (let scores = top_k_epoch_scores (dict_of_keys active (values_of outs)) quota;
          ema = update_ema_scores previous scores alpha (filter (infra_only outs) active);
          weights = normalize_active_weights ema active
      in \<lparr>es_epoch_scores = scores, es_ema = ema, es_weights = weights,
          es_degraded = list_ex (\<lambda>(m, out). so_status out = ''infra_error'') outs,
          es_reason =
            (if outs \<noteq> [] \<and> list_all (\<lambda>(m, out). so_status out = ''infra_error'') outs then Some ''epoch_degraded_all_infra''
             else if all_zero_weights weights then Some ''all_zero'' else None)\<rparr>)"

definition scores_json :: "(string, pyfloat) dict \<Rightarrow> json" where
  "scores_json d = floats_json (dict_sorted d)"

definition weights_artifact ::
  "('b, 'r) epoch_input \<Rightarrow> (string, pyfloat) dict \<Rightarrow> epoch_scoring \<Rightarrow> chain_weight_result \<Rightarrow> jdict" where
  "weights_artifact x task_values sc r =
     [(''epoch_id'', JInt (in_epoch x)),
      (''config'', JObj [(''quota'', JInt (in_quota x)), (''top_k'', JInt (in_quota x)),
         (''ema_alpha'', JFloat (ema_alpha (in_config x)))]),
      (''task_values'', floats_json task_values), (''epoch_scores'', scores_json (es_epoch_scores sc)),
      (''ema_state'', scores_json (es_ema sc)), (''weights'', scores_json (es_weights sc)),
      (''degraded'', JBool (es_degraded sc)), (''weight_result'', result_record r),
      (''timing'', JObj [(''created_at'', JStr (in_created_at x)), (''duration_ms'', JInt (in_duration_ms x))])]"

section \<open>The epoch\<close>

record epoch_result =
  er_weights :: "(string, pyfloat) dict"
  er_epoch_scores :: "(string, pyfloat) dict"
  er_chain_result :: chain_weight_result
  er_marker_path :: string

text \<open>The sidecar is written, read back and written again.\<close>

definition persist_sidecar :: "('b, 'r) epoch_input \<Rightarrow> ('b, unit) epoch_op" where
  "persist_sidecar x =
     (let env = in_env x; p = solver_panel_path (in_epoch x) in
      bind_op get_op (\<lambda>w.
      (case sidecar (in_config x) (in_epoch x) (ew_session w) of
         None \<Rightarrow>
           archive_json env p (JObj [(''epoch_id'', JInt (in_epoch x)), (''mode'', JStr ''mock''), (''tasks'', JArr [])])
       | Some d \<Rightarrow>
           bind_op (archive_json env p (JObj d)) (\<lambda>_.
           bind_op get_op (\<lambda>w'.
           bind_op (lift_op (map_error (\<lambda>e. Marker_failed (Load_failed Panel_sidecar e))
               (load_json_object env (cw_disk (ew_chain w')) p))) (\<lambda>payload.
           archive_json env p (JObj payload)))))))"

definition publish_epoch ::
  "('b, 'r) epoch_input \<Rightarrow> (string, pyfloat) dict \<Rightarrow> epoch_scoring \<Rightarrow> chain_weight_result \<Rightarrow> ('b, string) epoch_op" where
  "publish_epoch x task_values sc r =
     (let env = in_env x; n = in_epoch x in
      bind_op (archive_json env (miner_state_snapshot_path n) (scores_json (es_ema sc))) (\<lambda>_.
      bind_op (persist_sidecar x) (\<lambda>_.
      bind_op (archive_json env (weights_path n) (JObj (weights_artifact x task_values sc r))) (\<lambda>_.
      if res_mode r \<notin> set recoverable_chain_modes then
        fail_op (Not_complete (res_mode r) (case or_text (res_reason r) None of None \<Rightarrow> ''unknown'' | Some t \<Rightarrow> t))
      else
        bind_op (on_archive Marker_failed (write_epoch_completion_marker env n r)) (\<lambda>marker.
        bind_op (archive_json env miner_state_path (scores_json (es_ema sc))) (\<lambda>_.
        return_op marker))))))"

text \<open>Evaluation up to the scores.\<close>

definition evaluate_epoch ::
  "('b, 'r) epoch_input \<Rightarrow> miner list \<Rightarrow> ('b, outcomes) epoch_op" where
  "evaluate_epoch x miners =
     bind_op get_op (\<lambda>w.
     bind_op (lift_op (map_error Log_corrupt (ew_log w))) (\<lambda>_.
     bind_op (lift_op (map_error Panel_failed (open_session (in_env x) (in_host x) (in_config x) (in_files x)))) (\<lambda>session.
     bind_op (modify_op (\<lambda>w. w\<lparr>ew_session := session, ew_bridge := \<lparr>br_context = new_context (in_quota x), br_purged = []\<rparr>\<rparr>)) (\<lambda>_.
     bind_op (record_terminals x miners) (\<lambda>terminals.
     bind_op (evaluate_all x (sort_key (submission_key (in_env x)) (collect miners (in_epoch x) (in_quota x)))) (\<lambda>evaluated.
     return_op (terminals @ evaluated)))))))"

definition epoch_request :: "('b, 'r) epoch_input \<Rightarrow> string list \<Rightarrow> epoch_scoring \<Rightarrow> weights_request" where
  "epoch_request x active sc =
     \<lparr>rq_epoch = in_epoch x, rq_weights = es_weights sc, rq_active = active, rq_spec_version = spec_version (in_config x),
      rq_fallback_reason = Some (case es_reason sc of None \<Rightarrow> ''offline'' | Some r \<Rightarrow> r)\<rparr>"

text \<open>No hook.\<close>

definition no_hook :: "string \<Rightarrow> ('b disk, validator_error, unit) op" where
  "no_hook name = return_op ()"

definition run_epoch ::
  "('b, 'r) epoch_input \<Rightarrow> (string \<Rightarrow> ('b disk, validator_error, unit) op) \<Rightarrow> miner list \<Rightarrow> ('b, epoch_result) epoch_op" where
  "run_epoch x hook miners =
     bind_op (on_archive Phase_rejected (hook ''evaluating'')) (\<lambda>_.
     bind_op (evaluate_epoch x miners) (\<lambda>outs.
     bind_op (lift_op (map_error Python_raised (collect_task_values outs []))) (\<lambda>task_values.
     bind_op get_op (\<lambda>w.
     bind_op (lift_op (map_error Python_raised (load_miner_state (in_env x) (cw_disk (ew_chain w))))) (\<lambda>previous.
     let active = map mn_hotkey miners;
         sc = score_epoch (ema_alpha (in_config x)) (in_quota x) active outs previous in
     bind_op (on_archive Phase_rejected (hook ''weights_submitting'')) (\<lambda>_.
     bind_op (on_chain Chain_failed (apply_weights (in_env x) (in_host x) (in_connection x) (in_client x)
        (epoch_request x active sc))) (\<lambda>r.
     bind_op (lift_op (map_error Python_raised (sorted_task_values (in_env x) task_values))) (\<lambda>task_values'.
     bind_op (publish_epoch x task_values' sc r) (\<lambda>marker.
     bind_op (on_archive Phase_rejected (hook ''committed'')) (\<lambda>_.
     return_op \<lparr>er_weights = es_weights sc, er_epoch_scores = es_epoch_scores sc, er_chain_result = r,
       er_marker_path = marker\<rparr>))))))))))"

section \<open>Plumbing\<close>

lemma map_error_Inr_sym [simp]: "Inr a = map_error g r \<longleftrightarrow> r = Inr a"
  by (metis map_error_Inr)

lemma archive_json_eq [simp]:
  "bind_op (archive_json env p v) f w = f () (w\<lparr>ew_chain := write_world env p v (ew_chain w)\<rparr>)"
  by (simp add: archive_json_def on_chain_def modify_op_def bind_op_def)

lemma archive_json_run [simp]:
  "archive_json env p v w = (Inr (), w\<lparr>ew_chain := write_world env p v (ew_chain w)\<rparr>)"
  by (simp add: archive_json_def on_chain_def modify_op_def)

lemma cw_disk_write [simp]: "cw_disk (write_world env p v c) = write_json env p v (cw_disk c)"
  by (simp add: write_world_def)

lemma write_json_twice [simp]: "write_json env p v (write_json env p u fs) = write_json env p v fs"
  by (simp add: write_json_def)

lemma write_world_twice [simp]: "write_world env p v (write_world env p u c) = write_world env p v c"
  by (simp add: write_world_def)

text \<open>The sidecar that ends up in the archive.\<close>

definition sidecar_fields :: "('b, 'r) epoch_input \<Rightarrow> panel_session \<Rightarrow> jdict" where
  "sidecar_fields x s =
     (case sidecar (in_config x) (in_epoch x) s of
        None \<Rightarrow> [(''epoch_id'', JInt (in_epoch x)), (''mode'', JStr ''mock''), (''tasks'', JArr [])]
      | Some d \<Rightarrow> canon_fields d)"

lemma sidecar_epoch: "jget (sidecar_fields x s) ''epoch_id'' = JInt (in_epoch x)"
  by (auto simp: sidecar_fields_def sidecar_def split: option.splits)

lemma persist_sidecar_eq:
  "json_codec (in_env x) \<Longrightarrow> persist_sidecar x w =
     (Inr (), w\<lparr>ew_chain := write_world (in_env x) (solver_panel_path (in_epoch x)) (JObj (sidecar_fields x (ew_session w))) (ew_chain w)\<rparr>)"
  by (simp add: persist_sidecar_def sidecar_fields_def Let_def bind_op_def get_op_def lift_op_def split: option.split)

lemma numbers_floats: "list_all is_number (dict_values (map (\<lambda>(k, v). (k, JFloat v)) d))"
  by (induction d) (auto simp: dict_values_def is_number_def)

lemma scores_json_obj: "scores_json d = JObj (map (\<lambda>(k, v). (k, JFloat v)) (dict_sorted d))"
  by (simp add: scores_json_def floats_json_def)

lemma artifact_fields:
  "jget (weights_artifact x tv sc r) ''epoch_id'' = JInt (in_epoch x)"
  "jget (weights_artifact x tv sc r) ''weight_result'' = result_record r"
  by (simp_all add: weights_artifact_def)

lemma canonical_path_not_rolling [simp]: "canonical_path n a \<noteq> miner_state_path"
  by (cases a) simp_all

section \<open>Publication of an epoch\<close>

text \<open>
  Whatever client published the weights of a fresh epoch: if it returned, publishing the artifacts
  succeeds, and the archive then has a verified completion marker with the client's mode and the
  rolling miner state of the epoch.
\<close>

lemma publish_epoch_ok:
  assumes env: "env = in_env x" "json_codec env" "hex_digest env"
    and r: "apply_weights env h connection client rq c0 = (Inr r, ew_chain w)" "rq_epoch rq = in_epoch x"
    and fresh: "cw_disk c0 (chain_receipt_path (in_epoch x)) = None" "cw_disk c0 (chain_attempt_path (in_epoch x)) = None"
  shows "\<exists>w' c. publish_epoch x tv sc r w = (Inr (completion_marker_path (in_epoch x)), w')
    \<and> verify_epoch_completion env (cw_disk (ew_chain w')) (in_epoch x) = Inr c \<and> cmp_mode c = res_mode r
    \<and> load_json_object env (cw_disk (ew_chain w')) (weights_path (in_epoch x)) = Inr (canon_fields (weights_artifact x tv sc r))
    \<and> cw_disk (ew_chain w') miner_state_path = Some (dumps env (scores_json (es_ema sc)))
    \<and> cw_calls (ew_chain w') = cw_calls (ew_chain w) \<and> ew_log w' = ew_log w"
proof -
  let ?n = "in_epoch x"
  let ?ms = "map (\<lambda>(k, v). (k, JFloat v)) (dict_sorted (es_ema sc))"
  let ?ws = "weights_artifact x tv sc r"
  let ?ps = "sidecar_fields x (ew_session w)"
  let ?c = "write_world env (weights_path ?n) (JObj ?ws) (write_world env (solver_panel_path ?n) (JObj ?ps)
      (write_world env (miner_state_snapshot_path ?n) (JObj ?ms) (ew_chain w)))"
  have ready: "artifacts_ready env (cw_disk ?c) ?n r"
    using client.ready [OF r env(2) fresh numbers_floats [of "dict_sorted (es_ema sc)"] artifact_fields sidecar_epoch, of "ew_session w" tv sc]
    by (simp add: client.with_artifacts_def)
  have mode: "res_mode r \<in> set recoverable_chain_modes"
    using ready by (auto simp: artifacts_ready_def dest: marker_mode_recoverable)
  obtain fs' c where pub: "write_epoch_completion_marker env ?n r (cw_disk ?c) = (Inr (completion_marker_path ?n), fs')"
    "verify_epoch_completion env fs' ?n = Inr c" "cmp_mode c = res_mode r"
    "\<And>p. p \<noteq> completion_marker_path ?n \<Longrightarrow> fs' p = cw_disk ?c p"
    using publish_verifies [OF env(2,3) ready] by blast
  let ?w' = "w\<lparr>ew_chain := write_world env miner_state_path (JObj ?ms) (?c\<lparr>cw_disk := fs'\<rparr>)\<rparr>"
  have run: "publish_epoch x tv sc r w = (Inr (completion_marker_path ?n), ?w')"
    using mode pub(1) env(1,2)
    by (simp add: publish_epoch_def Let_def bind_op_def scores_json_obj persist_sidecar_eq on_archive_def on_chain_def
        return_op_def)
  have "verify_epoch_completion env (cw_disk (ew_chain ?w')) ?n = verify_epoch_completion env fs' ?n"
    by (rule verify_cong) simp_all
  moreover have "load_json_object env (cw_disk (ew_chain ?w')) (weights_path ?n) = Inr (canon_fields ?ws)"
    using pub(4) [of "weights_path ?n"] env(2) by simp
  ultimately show ?thesis using run pub(2,3) by (auto simp: scores_json_obj write_world_def)
qed

section \<open>The log of an epoch\<close>

definition log_row :: "('b, 'r) epoch_input \<Rightarrow> miner \<times> submission_outcome \<Rightarrow> jdict" where
  "log_row x mo = canon_fields (outcome_record (in_epoch x) (mn_hotkey (fst mo)) (mn_uid (fst mo)) (snd mo)
     @ [(''created_at'', JStr (in_created_at x))])"

lemma record_outcome_eq:
  "record_outcome x m out w = (Inr (), w\<lparr>ew_log := bind_result (ew_log w) (\<lambda>rows. Inr (rows @ [log_row x (m, out)]))\<rparr>)"
  by (simp add: record_outcome_def append_submission_def modify_op_def log_row_def outcome_record_def)

lemma record_terminals_run:
  assumes "ew_log w = Inr rows"
  shows "\<exists>outs. record_terminals x ms w = (Inr outs, w\<lparr>ew_log := Inr (rows @ map (log_row x) outs)\<rparr>)
    \<and> set (map fst outs) = {m \<in> set ms. terminal_outcome m \<noteq> None}"
  using assms
proof (induction ms arbitrary: w rows)
  case (Cons m ms)
  show ?case
  proof (cases "terminal_outcome m")
    case None
    from Cons.IH [OF Cons.prems] obtain outs where
      "record_terminals x ms w = (Inr outs, w\<lparr>ew_log := Inr (rows @ map (log_row x) outs)\<rparr>)"
      "set (map fst outs) = {m \<in> set ms. terminal_outcome m \<noteq> None}" by blast
    moreover have "{n \<in> set (m # ms). terminal_outcome n \<noteq> None} = {m \<in> set ms. terminal_outcome m \<noteq> None}"
      using None by auto
    ultimately show ?thesis using None by auto
  next
    case (Some out)
    let ?w = "w\<lparr>ew_log := Inr (rows @ [log_row x (m, out)])\<rparr>"
    from Cons.IH [of ?w "rows @ [log_row x (m, out)]"] obtain outs where
      "record_terminals x ms ?w = (Inr outs, w\<lparr>ew_log := Inr (rows @ log_row x (m, out) # map (log_row x) outs)\<rparr>)"
      "set (map fst outs) = {m \<in> set ms. terminal_outcome m \<noteq> None}" by auto
    with Some Cons.prems show ?thesis
      by (auto simp: bind_op_def record_outcome_eq return_op_def intro!: exI [of _ "(m, out) # outs"])
  qed
qed (simp add: return_op_def)

text \<open>What one evaluation leaves alone, and its row in the log.\<close>

lemma evaluate_one_run:
  assumes "evaluate_one x (m, payload) w = (Inr mo, w')" "ew_log w = Inr rows"
  shows "fst mo = m \<and> ew_log w' = Inr (rows @ [log_row x mo]) \<and> ew_chain w' = ew_chain w
    \<and> (\<exists>p s1 out s2. plan (jget payload ''package_hash'') (ew_session w) = (Inr p, s1)
         \<and> settle_plan (in_env x) p out s1 = (Inr (snd mo), s2) \<and> ew_session w' = s2)"
  using assms
  by (auto simp: evaluate_one_def Let_def bind_op_def on_session_def on_bridge_def get_op_def record_outcome_eq
      return_op_def split: prod.splits sum.splits elim!: map_error.elims)

lemma evaluate_all_run:
  assumes "evaluate_all x mps w = (Inr mos, w')" "ew_log w = Inr rows"
  shows "map fst mos = map fst mps \<and> ew_log w' = Inr (rows @ map (log_row x) mos) \<and> ew_chain w' = ew_chain w"
  using assms
proof (induction mps arbitrary: w rows mos)
  case (Cons mp mps)
  obtain m payload where mp: "mp = (m, payload)" by fastforce
  from Cons.prems(1) obtain mo w1 mos' where one: "evaluate_one x (m, payload) w = (Inr mo, w1)"
    and all: "evaluate_all x mps w1 = (Inr mos', w')" "mos = mo # mos'"
    by (auto simp: mp bind_op_Inr)
  note first = evaluate_one_run [OF one Cons.prems(2)]
  from Cons.IH [OF all(1)] first all(2) mp show ?case by auto
qed simp

lemma collect_miners:
  "fst ` set (collect miners n quota) = {m \<in> set miners. \<not> terminal m \<and> mn_submissions m n quota \<noteq> []}"
proof -
  have "fst ` set (map (\<lambda>p. (m, p)) ps) = (if ps = [] then {} else {m})" for m :: miner and ps :: "jdict list"
    by (cases ps) (auto simp: image_image)
  then show ?thesis by (auto simp: collect_def image_UN split: if_splits)
qed

lemma evaluate_epoch_run:
  assumes "evaluate_epoch x miners w = (Inr outs, w')"
  shows "\<exists>rows. ew_log w = Inr rows \<and> ew_log w' = Inr (rows @ map (log_row x) outs) \<and> ew_chain w' = ew_chain w
    \<and> set (map fst outs) = {m \<in> set miners. terminal m \<or> mn_submissions m (in_epoch x) (in_quota x) \<noteq> []}"
proof -
  obtain rows session where rows: "ew_log w = Inr rows"
    and s: "open_session (in_env x) (in_host x) (in_config x) (in_files x) = Inr session"
    using assms by (auto simp: evaluate_epoch_def bind_op_Inr)
  let ?w1 = "w\<lparr>ew_session := session, ew_bridge := \<lparr>br_context = new_context (in_quota x), br_purged = []\<rparr>\<rparr>"
  obtain ts where ts: "record_terminals x miners ?w1 = (Inr ts, ?w1\<lparr>ew_log := Inr (rows @ map (log_row x) ts)\<rparr>)"
      "set (map fst ts) = {m \<in> set miners. terminal_outcome m \<noteq> None}"
    using record_terminals_run [of ?w1 rows x miners] rows by auto
  let ?mps = "sort_key (submission_key (in_env x)) (collect miners (in_epoch x) (in_quota x))"
  obtain es where es: "evaluate_all x ?mps (?w1\<lparr>ew_log := Inr (rows @ map (log_row x) ts)\<rparr>) = (Inr es, w')" "outs = ts @ es"
    using assms rows s ts(1) by (auto simp: evaluate_epoch_def bind_op_Inr bind_lift_Inr)
  have run: "map fst es = map fst ?mps" "ew_log w' = Inr ((rows @ map (log_row x) ts) @ map (log_row x) es)" "ew_chain w' = ew_chain w"
    using evaluate_all_run [OF es(1), of "rows @ map (log_row x) ts"] by simp_all
  have "set (map fst es) = set (map fst ?mps)" by (simp only: run(1))
  also have "\<dots> = {m \<in> set miners. \<not> terminal m \<and> mn_submissions m (in_epoch x) (in_quota x) \<noteq> []}"
    using collect_miners by simp
  finally have "set (map fst es) = {m \<in> set miners. \<not> terminal m \<and> mn_submissions m (in_epoch x) (in_quota x) \<noteq> []}" .
  moreover have "terminal_outcome m \<noteq> None \<longleftrightarrow> terminal m" for m
    by (simp add: terminal_outcome_def terminal_def split: option.split)
  ultimately show ?thesis using rows run es(2) ts(2) by auto
qed

section \<open>The panel budget\<close>

text \<open>
  What the evidence says of the paid panel: the entries of tasks that were charged, and of all tasks for which a slot was
  reserved, which are the only ones that may have run on it.  A slot whose outcome came back without panel rows is given
  back, be it that the panel never ran or that the holdout rejected the task after it ran.
\<close>

definition source_count :: "string list \<Rightarrow> panel_session \<Rightarrow> nat" where
  "source_count sources s = length (filter (\<lambda>e. jget e ''source'' \<in> JStr ` set sources) (ps_entries s))"

abbreviation charged_entries :: "panel_session \<Rightarrow> nat" where
  "charged_entries s \<equiv> source_count [''live''] s"

abbreviation reserved_entries :: "panel_session \<Rightarrow> nat" where
  "reserved_entries s \<equiv> source_count [''live'', ''gate_failed''] s"

text \<open>
  Between submissions every slot of the budget is free or has an entry of a charged run, and a session
  that is inactive or dry has reserved none.
\<close>

definition budget_inv :: "int \<Rightarrow> bool \<Rightarrow> panel_session \<Rightarrow> bool" where
  "budget_inv budget live s \<longleftrightarrow>
     int (charged_entries s) + ps_budget s = budget \<and> (ps_active s \<and> \<not> ps_dry_run s \<longleftrightarrow> live)
     \<and> (reserved_entries s \<noteq> 0 \<longrightarrow> live) \<and> (live \<longrightarrow> 0 \<le> ps_budget s)"

lemma source_count_append [simp]:
  "source_count sources (s\<lparr>ps_entries := es @ [e]\<rparr>) =
     source_count sources (s\<lparr>ps_entries := es\<rparr>) + (if jget e ''source'' \<in> JStr ` set sources then 1 else 0)"
  by (simp add: source_count_def)

lemma record_evidence_live:
  assumes "record_evidence env p t h rows rate s = (Inr u, s')" "ps_active s"
  shows "charged_entries s' = (if p = Plan_live then Suc (charged_entries s) else charged_entries s)
    \<and> reserved_entries s' = (if p = Plan_live \<or> p = Plan_gate_failed then Suc (reserved_entries s) else reserved_entries s)
    \<and> ps_budget s' = ps_budget s \<and> ps_active s' = ps_active s \<and> ps_dry_run s' = ps_dry_run s"
  using assms
  by (cases p) (auto simp: record_evidence_def Let_def source_count_def cache_store_def
      split: if_splits sum.splits option.splits json.splits list.splits)

lemma record_evidence_inactive: "\<not> ps_active s \<Longrightarrow> record_evidence env p t h rows rate s = (Inr (), s)"
  by (simp add: record_evidence_def)

lemma settle_plan_budget:
  assumes "plan h s = (Inr p, s1)" "settle_plan env p out s1 = (Inr out', s2)" "budget_inv budget live s"
  shows "budget_inv budget live s2"
proof (cases "ps_active s")
  case False
  then have "p = Plan_mock" "s1 = s" using assms(1) by (auto simp: plan_def)
  with assms(2,3) show ?thesis by (auto simp: settle_plan_def)
next
  case True
  have p: "p \<noteq> Plan_mock" "p \<noteq> Plan_gate_failed" "s1 = (if p = Plan_live then s\<lparr>ps_budget := ps_budget s - 1\<rparr> else s)"
    "p = Plan_live \<longrightarrow> \<not> ps_dry_run s \<and> 0 < ps_budget s"
    using assms(1) True by (auto simp: plan_def split: sum.splits if_splits)
  then have active: "ps_active s1" "ps_dry_run s1 = ps_dry_run s" "charged_entries s1 = charged_entries s"
    using True by (simp_all add: source_count_def)
  consider (refund) "p = Plan_live" "so_panel_rows out = []" | (cached) "p = Plan_cache"
    | (other) "p \<noteq> Plan_cache" "\<not> (p = Plan_live \<and> so_panel_rows out = [])" by blast
  then show ?thesis
  proof cases
    case refund
    then obtain u where "record_evidence env Plan_gate_failed (so_task_id out) (so_package_hash out) [] JNull (refund s1) = (Inr u, s2)"
      using assms(2) by (auto simp: settle_plan_def bind_op_Inr)
    from record_evidence_live [OF this] assms(3) p active refund(1) show ?thesis
      by (auto simp: budget_inv_def refund_def source_count_def)
  next
    case cached
    then obtain u t h' r where "record_evidence env p t h' [] r s1 = (Inr u, s2)"
      using assms(2) p(1) by (auto simp: settle_plan_def bind_op_Inr bind_lift_Inr Let_def)
    from record_evidence_live [OF this] assms(3) p active cached show ?thesis by (auto simp: budget_inv_def)
  next
    case other
    then obtain u where "record_evidence env p (so_task_id out) (so_package_hash out) (so_panel_rows out) JNull s1 = (Inr u, s2)"
      using assms(2) p(1) by (auto simp: settle_plan_def bind_op_Inr)
    from record_evidence_live [OF this] assms(3) p active show ?thesis
      by (cases "p = Plan_live") (auto simp: budget_inv_def)
  qed
qed

lemma evaluate_all_budget:
  assumes "evaluate_all x mps w = (Inr mos, w')" "ew_log w = Inr rows" "budget_inv budget live (ew_session w)"
  shows "budget_inv budget live (ew_session w')"
  using assms
proof (induction mps arbitrary: w rows mos)
  case (Cons mp mps)
  obtain m payload where mp: "mp = (m, payload)" by fastforce
  from Cons.prems(1) obtain mo w1 mos' where one: "evaluate_one x (m, payload) w = (Inr mo, w1)"
    and all: "evaluate_all x mps w1 = (Inr mos', w')"
    by (auto simp: mp bind_op_Inr)
  from evaluate_one_run [OF one Cons.prems(2)] settle_plan_budget Cons.prems(3)
  have "ew_log w1 = Inr (rows @ [log_row x mo])" "budget_inv budget live (ew_session w1)" by blast+
  with Cons.IH [OF all] show ?case by blast
qed simp

lemma open_session_budget:
  assumes "open_session env h cfg files = Inr s"
  shows "charged_entries s = 0 \<and> reserved_entries s = 0 \<and> ps_budget s = panel_max_tasks cfg
    \<and> (ps_active s \<and> \<not> ps_dry_run s \<longrightarrow> panel_mode cfg = ''calibrate'' \<and> \<not> panel_dry_run cfg
         \<and> missing_spend_gates h cfg = [])"
  using assms
  by (auto simp: open_session_def inactive_session_def source_count_def Let_def split: if_splits option.splits prod.splits)

text \<open>The same epoch with another pipeline.\<close>

definition with_pipeline ::
  "('b, 'r) epoch_input \<Rightarrow> (engine_task \<Rightarrow> string \<Rightarrow> exn + pipeline_result) \<Rightarrow> ('b, 'r) epoch_input" where
  "with_pipeline x pl = x\<lparr>in_engine := (in_engine x)\<lparr>en_pipeline := pl\<rparr>\<rparr>"

lemma with_pipeline_fields [simp]:
  "in_env (with_pipeline x pl) = in_env x" "in_host (with_pipeline x pl) = in_host x" "in_config (with_pipeline x pl) = in_config x"
  "in_files (with_pipeline x pl) = in_files x" "in_epoch (with_pipeline x pl) = in_epoch x" "in_quota (with_pipeline x pl) = in_quota x"
  "in_created_at (with_pipeline x pl) = in_created_at x" "record_outcome (with_pipeline x pl) = record_outcome x"
  by (simp_all add: with_pipeline_def record_outcome_def fun_eq_iff)

lemma with_pipeline_terminals [simp]: "record_terminals (with_pipeline x pl) ms = record_terminals x ms"
  by (induction x ms rule: record_terminals.induct) (auto split: option.split)

definition agree_elsewhere :: "('b, 'r) epoch_input \<Rightarrow> (engine_task \<Rightarrow> string \<Rightarrow> exn + pipeline_result) \<Rightarrow> bool" where
  "agree_elsewhere x pl \<longleftrightarrow> (\<forall>t p. p \<noteq> panel_calibrate_path (in_config x) \<longrightarrow> pl t p = en_pipeline (in_engine x) t p)"

lemma validate_submission_other:
  assumes "\<And>t. pl t panel = en_pipeline en t panel"
  shows "validate_submission env (en\<lparr>en_pipeline := pl\<rparr>) cfg panel miner wire = validate_submission env en cfg panel miner wire"
proof
  let ?en' = "en\<lparr>en_pipeline := pl\<rparr>"
  have parts: "en_validate ?en' = en_validate en" "en_holdout ?en' = en_holdout en" "en_runner ?en' = en_runner en"
    "\<And>t. en_pipeline ?en' t panel = en_pipeline en t panel"
    by (simp_all add: assms)
  have run: "run_validated ?en' cfg panel task th gates = run_validated en cfg panel task th gates" for task th gates
    unfolding run_validated_def parts by (rule refl)
  show "validate_submission env ?en' cfg panel miner wire s = validate_submission env en cfg panel miner wire s" for s
    unfolding validate_submission_def parts run by (rule refl)
qed

text \<open>Only a submission that is planned live can tell a pipeline from one that differs on the paid panel.\<close>

lemma evaluate_one_other:
  assumes "agree_elsewhere x pl" "panel_path (in_config x) \<noteq> panel_calibrate_path (in_config x)"
    and "\<And>s1. plan (jget payload ''package_hash'') (ew_session w) \<noteq> (Inr Plan_live, s1)"
  shows "evaluate_one (with_pipeline x pl) (m, payload) w = evaluate_one x (m, payload) w"
proof -
  have elsewhere: "validate_submission env (in_engine (with_pipeline x pl)) cfg panel hk wire = validate_submission env (in_engine x) cfg panel hk wire"
    if "panel \<noteq> panel_calibrate_path (in_config x)" for env cfg panel hk wire
  proof -
    have "in_engine (with_pipeline x pl) = (in_engine x)\<lparr>en_pipeline := pl\<rparr>" by (simp add: with_pipeline_def)
    with validate_submission_other assms(1) that show ?thesis by (metis agree_elsewhere_def)
  qed
  show ?thesis
  proof (cases "plan (jget payload ''package_hash'') (ew_session w)")
    case (Pair r s1)
    show ?thesis
    proof (cases r)
      case (Inr p)
      with Pair assms(3) have "p \<noteq> Plan_live" by blast
      with assms(2) have "panel_path_for (in_config x) p \<noteq> panel_calibrate_path (in_config x)" by (simp add: panel_path_for_def)
      note same = elsewhere [OF this] elsewhere [OF assms(2)]
      from Pair Inr show ?thesis by (simp add: same evaluate_one_def on_session_def bind_op_def get_op_def)
    qed (simp add: Pair evaluate_one_def on_session_def bind_op_def)
  qed
qed

lemma settle_plan_reserves:
  assumes "plan h s = (Inr p, s1)" "settle_plan env p out s1 = (Inr out', s2)"
  shows "reserved_entries s2 = (if p = Plan_live then Suc (reserved_entries s) else reserved_entries s)
    \<and> ps_active s2 = ps_active s \<and> ps_dry_run s2 = ps_dry_run s"
proof (cases "ps_active s")
  case False
  then have "p = Plan_mock" "s1 = s" using assms(1) by (auto simp: plan_def)
  with assms(2) False show ?thesis by (auto simp: settle_plan_def bind_op_Inr record_evidence_inactive)
next
  case True
  have p: "p \<noteq> Plan_mock" "p \<noteq> Plan_gate_failed" "s1 = (if p = Plan_live then s\<lparr>ps_budget := ps_budget s - 1\<rparr> else s)"
    using assms(1) True by (auto simp: plan_def split: sum.splits if_splits)
  have s1: "ps_active s1" "ps_active (refund s1)" "reserved_entries s1 = reserved_entries s" "reserved_entries (refund s1) = reserved_entries s"
    "ps_dry_run s1 = ps_dry_run s" "ps_dry_run (refund s1) = ps_dry_run s"
    using p(3) True by (auto simp: source_count_def refund_def)
  consider (refund) "p = Plan_live" "so_panel_rows out = []" | (cached) "p = Plan_cache"
    | (other) "p \<noteq> Plan_cache" "\<not> (p = Plan_live \<and> so_panel_rows out = [])" by blast
  then show ?thesis
  proof cases
    case refund
    then obtain u where "record_evidence env Plan_gate_failed (so_task_id out) (so_package_hash out) [] JNull (refund s1) = (Inr u, s2)"
      using assms(2) by (auto simp: settle_plan_def bind_op_Inr)
    from record_evidence_live [OF this s1(2)] s1 True refund(1) show ?thesis by auto
  next
    case cached
    then obtain u t h' rate where "record_evidence env p t h' [] rate s1 = (Inr u, s2)"
      using assms(2) p(1) by (auto simp: settle_plan_def bind_op_Inr bind_lift_Inr Let_def)
    from record_evidence_live [OF this s1(1)] s1 True cached show ?thesis by auto
  next
    case other
    then obtain u where "record_evidence env p (so_task_id out) (so_package_hash out) (so_panel_rows out) JNull s1 = (Inr u, s2)"
      using assms(2) p(1) by (auto simp: settle_plan_def bind_op_Inr)
    from record_evidence_live [OF this s1(1)] s1 True p(2) show ?thesis by auto
  qed
qed

lemma evaluate_all_reserves:
  assumes "evaluate_all x mps w = (Inr mos, w')" "ew_log w = Inr rows"
  shows "reserved_entries (ew_session w) \<le> reserved_entries (ew_session w')"
  using assms
proof (induction mps arbitrary: w rows mos)
  case (Cons mp mps)
  obtain m payload where mp: "mp = (m, payload)" by fastforce
  from Cons.prems(1) obtain mo w1 mos' where one: "evaluate_one x (m, payload) w = (Inr mo, w1)"
    and all: "evaluate_all x mps w1 = (Inr mos', w')" by (auto simp: mp bind_op_Inr)
  note run = evaluate_one_run [OF one Cons.prems(2)]
  then have "reserved_entries (ew_session w) \<le> reserved_entries (ew_session w1)"
    using settle_plan_reserves by (metis le_SucI order_refl)
  with Cons.IH [OF all] run show ?case by force
qed simp

lemma evaluate_all_other:
  assumes "agree_elsewhere x pl" "panel_path (in_config x) \<noteq> panel_calibrate_path (in_config x)"
    and "evaluate_all x mps w = (Inr mos, w')" "ew_log w = Inr rows" "reserved_entries (ew_session w') = reserved_entries (ew_session w)"
  shows "evaluate_all (with_pipeline x pl) mps w = (Inr mos, w')"
  using assms(3-)
proof (induction mps arbitrary: w rows mos)
  case (Cons mp mps)
  obtain m payload where mp: "mp = (m, payload)" by fastforce
  from Cons.prems(1) obtain mo w1 mos' where one: "evaluate_one x (m, payload) w = (Inr mo, w1)"
    and all: "evaluate_all x mps w1 = (Inr mos', w')" "mos = mo # mos'" by (auto simp: mp bind_op_Inr)
  obtain p s1 out where run: "ew_log w1 = Inr (rows @ [log_row x mo])" "plan (jget payload ''package_hash'') (ew_session w) = (Inr p, s1)"
      "settle_plan (in_env x) p out s1 = (Inr (snd mo), ew_session w1)"
    using evaluate_one_run [OF one Cons.prems(2)] by blast
  have "reserved_entries (ew_session w1) \<le> reserved_entries (ew_session w')" by (rule evaluate_all_reserves [OF all(1) run(1)])
  with settle_plan_reserves [OF run(2,3)] Cons.prems(3) have p: "p \<noteq> Plan_live" "reserved_entries (ew_session w1) = reserved_entries (ew_session w)"
    by (auto split: if_splits)
  have "evaluate_one (with_pipeline x pl) (m, payload) w = (Inr mo, w1)"
    using evaluate_one_other [OF assms(1,2)] one p(1) run(2) by simp
  moreover have "evaluate_all (with_pipeline x pl) mps w1 = (Inr mos', w')"
    using Cons.IH [OF all(1) run(1)] Cons.prems(3) p(2) by simp
  ultimately show ?case using mp all(2) by (simp add: bind_op_def)
qed simp

text \<open>A session that is inactive or dry plans nothing live, so there the paid panel makes no difference at all.\<close>

lemma evaluate_all_idle:
  assumes "agree_elsewhere x pl" "panel_path (in_config x) \<noteq> panel_calibrate_path (in_config x)"
    and "ew_log w = Inr rows" "\<not> (ps_active (ew_session w) \<and> \<not> ps_dry_run (ew_session w))"
  shows "evaluate_all (with_pipeline x pl) mps w = evaluate_all x mps w"
  using assms(3-)
proof (induction mps arbitrary: w rows)
  case (Cons mp mps)
  obtain m payload where mp: "mp = (m, payload)" by fastforce
  have same: "evaluate_one (with_pipeline x pl) (m, payload) w = evaluate_one x (m, payload) w"
    by (rule evaluate_one_other [OF assms(1,2)]) (use Cons.prems(2) in \<open>auto simp: plan_def split: sum.splits if_splits\<close>)
  show ?case
  proof (cases "evaluate_one x (m, payload) w")
    case (Pair r w1)
    show ?thesis
    proof (cases r)
      case (Inr mo)
      note run = evaluate_one_run [OF Pair [unfolded Inr] Cons.prems(1)]
      then have "\<not> (ps_active (ew_session w1) \<and> \<not> ps_dry_run (ew_session w1))"
        using settle_plan_reserves Cons.prems(2) by metis
      with Cons.IH [of w1] run same Pair Inr mp show ?thesis by (auto simp: bind_op_def)
    qed (use same Pair mp in \<open>simp add: bind_op_def\<close>)
  qed
qed simp

definition spend_gates_open :: "('b, 'r) epoch_input \<Rightarrow> bool" where
  "spend_gates_open x \<longleftrightarrow>
     panel_mode (in_config x) = ''calibrate'' \<and> \<not> panel_dry_run (in_config x) \<and> allow_provider_spend (in_config x)
     \<and> environ (in_host x) spend_env = Some ''1'' \<and> 0 < panel_max_tasks (in_config x)"

text \<open>How an epoch starts: the session and the terminals.\<close>

lemma evaluate_epoch_start:
  assumes "ew_log w = Inr rows" "open_session (in_env x) (in_host x) (in_config x) (in_files x) = Inr session"
  obtains w1 ts where "ew_session w1 = session" "is_ok (ew_log w1)"
    "evaluate_epoch x miners w = (case evaluate_all x (sort_key (submission_key (in_env x)) (collect miners (in_epoch x) (in_quota x))) w1 of
       (Inl e, w') \<Rightarrow> (Inl e, w') | (Inr es, w') \<Rightarrow> (Inr (ts @ es), w'))"
    "evaluate_epoch (with_pipeline x pl) miners w =
      (case evaluate_all (with_pipeline x pl) (sort_key (submission_key (in_env x)) (collect miners (in_epoch x) (in_quota x))) w1 of
       (Inl e, w') \<Rightarrow> (Inl e, w') | (Inr es, w') \<Rightarrow> (Inr (ts @ es), w'))"
proof -
  let ?w1 = "w\<lparr>ew_session := session, ew_bridge := \<lparr>br_context = new_context (in_quota x), br_purged = []\<rparr>\<rparr>"
  obtain ts where ts: "record_terminals x miners ?w1 = (Inr ts, ?w1\<lparr>ew_log := Inr (rows @ map (log_row x) ts)\<rparr>)"
    using record_terminals_run [of ?w1 rows x miners] assms(1) by auto
  show ?thesis
    by (rule that [of "?w1\<lparr>ew_log := Inr (rows @ map (log_row x) ts)\<rparr>" ts])
      (use assms ts in \<open>simp_all add: evaluate_epoch_def bind_op_def lift_op_def return_op_def get_op_def modify_op_def is_ok_iff split: prod.split sum.split\<close>)
qed

lemma evaluate_epoch_unopened:
  assumes "\<nexists>rows session. ew_log w = Inr rows \<and> open_session (in_env x) (in_host x) (in_config x) (in_files x) = Inr session"
  shows "evaluate_epoch (with_pipeline x pl) miners w = evaluate_epoch x miners w \<and> \<not> is_ok (fst (evaluate_epoch x miners w))"
  using assms by (cases "ew_log w"; cases "open_session (in_env x) (in_host x) (in_config x) (in_files x)")
    (auto simp: evaluate_epoch_def bind_op_def get_op_def lift_op_def)

lemma open_session_gates:
  assumes "open_session (in_env x) (in_host x) (in_config x) (in_files x) = Inr session"
  shows "ps_active session \<and> \<not> ps_dry_run session \<longrightarrow> spend_gates_open x"
    and "budget_inv (panel_max_tasks (in_config x)) (ps_active session \<and> \<not> ps_dry_run session) session"
proof -
  note opened = open_session_budget [OF assms]
  then show gates: "ps_active session \<and> \<not> ps_dry_run session \<longrightarrow> spend_gates_open x"
    by (auto simp: missing_spend_gates_def spend_gates_open_def split: if_splits)
  then have "ps_active session \<and> \<not> ps_dry_run session \<longrightarrow> 0 \<le> panel_max_tasks (in_config x)" by (auto simp: spend_gates_open_def)
  with opened show "budget_inv (panel_max_tasks (in_config x)) (ps_active session \<and> \<not> ps_dry_run session) session"
    unfolding budget_inv_def by simp
qed

text \<open>C25: the paid panel is consulted only behind every spend gate: unless the session calibrates, is no dry run, has the flag, the
  environment switch and a positive budget, an epoch is the same whatever the engine would answer on that panel.  An epoch
  for which that answer matters shows it by an entry with a reserved slot; then the gates were open, and the charged
  runs and the slots left make up the budget.  Runs whose outcome carries no rows, among them one that the holdout
  rejects, are entries that are reserved but not charged, so it is the charged runs that the budget bounds.\<close>

theorem paid_panel_within_gates:
  assumes "agree_elsewhere x pl" "panel_path (in_config x) \<noteq> panel_calibrate_path (in_config x)"
  shows "(evaluate_epoch (with_pipeline x pl) miners w \<noteq> evaluate_epoch x miners w \<longrightarrow> spend_gates_open x)
    \<and> (\<forall>outs w'. evaluate_epoch x miners w = (Inr outs, w') \<longrightarrow>
         (evaluate_epoch (with_pipeline x pl) miners w \<noteq> (Inr outs, w') \<longrightarrow> reserved_entries (ew_session w') \<noteq> 0)
         \<and> (reserved_entries (ew_session w') \<noteq> 0 \<longrightarrow> spend_gates_open x
              \<and> int (charged_entries (ew_session w')) + ps_budget (ew_session w') = panel_max_tasks (in_config x)
              \<and> 0 \<le> ps_budget (ew_session w')))"
proof (cases "\<exists>rows session. ew_log w = Inr rows \<and> open_session (in_env x) (in_host x) (in_config x) (in_files x) = Inr session")
  case False
  from evaluate_epoch_unopened [OF this, of pl miners] show ?thesis by auto
next
  case True
  then obtain rows session where "ew_log w = Inr rows"
    and s: "open_session (in_env x) (in_host x) (in_config x) (in_files x) = Inr session" by blast
  let ?mps = "sort_key (submission_key (in_env x)) (collect miners (in_epoch x) (in_quota x))"
  obtain w1 ts where w1_session: "ew_session w1 = session" and w1_log: "is_ok (ew_log w1)"
    and here: "evaluate_epoch x miners w = (case evaluate_all x ?mps w1 of (Inl e, w') \<Rightarrow> (Inl e, w') | (Inr es, w') \<Rightarrow> (Inr (ts @ es), w'))"
    and there: "evaluate_epoch (with_pipeline x pl) miners w =
      (case evaluate_all (with_pipeline x pl) ?mps w1 of (Inl e, w') \<Rightarrow> (Inl e, w') | (Inr es, w') \<Rightarrow> (Inr (ts @ es), w'))"
    by (rule evaluate_epoch_start [OF \<open>ew_log w = Inr rows\<close> s])
  obtain rows1 where w1: "ew_session w1 = session" "ew_log w1 = Inr rows1" using w1_session w1_log by (auto simp: is_ok_iff)
  let ?live = "ps_active session \<and> \<not> ps_dry_run session"
  note gates = open_session_gates(1) [OF s] and opened = open_session_budget [OF s]
  have idle: "evaluate_epoch (with_pipeline x pl) miners w = evaluate_epoch x miners w" if "\<not> ?live"
    using evaluate_all_idle [OF assms w1(2)] that w1(1) here there by simp
  have budget: "budget_inv (panel_max_tasks (in_config x)) ?live (ew_session w')" if "evaluate_all x ?mps w1 = (Inr es, w')" for es w'
    using evaluate_all_budget [OF that w1(2)] open_session_gates(2) [OF s] w1(1) by simp
  have silent: "evaluate_epoch (with_pipeline x pl) miners w = evaluate_epoch x miners w"
    if "evaluate_all x ?mps w1 = (Inr es, w')" "reserved_entries (ew_session w') = 0" for es w'
    using evaluate_all_other [OF assms that(1) w1(2)] that opened w1(1) here there by simp
  show ?thesis
  proof (intro conjI impI allI)
    assume "evaluate_epoch (with_pipeline x pl) miners w \<noteq> evaluate_epoch x miners w"
    with idle gates show "spend_gates_open x" by blast
  next
    fix outs w' assume run: "evaluate_epoch x miners w = (Inr outs, w')"
    then obtain es where es: "evaluate_all x ?mps w1 = (Inr es, w')" using here by (auto split: prod.splits sum.splits)
    {
      assume "evaluate_epoch (with_pipeline x pl) miners w \<noteq> (Inr outs, w')"
      with silent [OF es] run show "reserved_entries (ew_session w') \<noteq> 0" by metis
    }
    assume "reserved_entries (ew_session w') \<noteq> 0"
    with budget [OF es] have ?live "int (charged_entries (ew_session w')) + ps_budget (ew_session w') = panel_max_tasks (in_config x)"
      "0 \<le> ps_budget (ew_session w')" by (auto simp: budget_inv_def)
    with gates show "spend_gates_open x" "int (charged_entries (ew_session w')) + ps_budget (ew_session w') = panel_max_tasks (in_config x)"
      "0 \<le> ps_budget (ew_session w')" by blast+
  qed
qed

definition sample_miner :: "string \<Rightarrow> jdict list \<Rightarrow> miner" where
  "sample_miner hotkey payloads = \<lparr>mn_hotkey = hotkey, mn_uid = 1, mn_terminal_status = None, mn_terminal_reason = None,
     mn_submissions = (\<lambda>n q. payloads)\<rparr>"

definition sample_input :: "(json, nat) epoch_input" where
  "sample_input = \<lparr>in_env = plain_env, in_host = sample_host, in_config = sample_cfg, in_engine = sample_engine,
     in_files = \<lparr>pf_config = None, pf_cache = []\<rparr>, in_connection = Inl (runtime_error ''offline''), in_client = Null_chain,
     in_epoch = 1, in_quota = 3, in_created_at = ''now'', in_duration_ms = 5\<rparr>"

definition sample_world :: "json epoch_world" where
  "sample_world = \<lparr>ew_chain = empty_world, ew_bridge = sample_bridge, ew_session = inactive_session sample_cfg, ew_log = Inr []\<rparr>"

definition pipeline_with_rows :: "jdict list \<Rightarrow> engine_task \<Rightarrow> string \<Rightarrow> exn + pipeline_result" where
  "pipeline_with_rows rows t p = bind_result (en_pipeline sample_engine t p) (\<lambda>r. Inr (r\<lparr>pr_rows := rows\<rparr>))"

definition calibrated_input :: "(json, nat) epoch_input" where
  "calibrated_input = sample_input\<lparr>in_config := sample_cfg\<lparr>panel_mode := ''calibrate'', allow_provider_spend := True\<rparr>,
     in_host := sample_host\<lparr>environ := (\<lambda>_. Some ''1'')\<rparr>, in_files := \<lparr>pf_config = Some (''digest'', Inr []), pf_cache = []\<rparr>,
     in_engine := sample_engine\<lparr>en_pipeline := pipeline_with_rows [[(''passed'', JBool True)]]\<rparr>\<rparr>"

definition other_pipeline :: "engine_task \<Rightarrow> string \<Rightarrow> exn + pipeline_result" where
  "other_pipeline t p = pipeline_with_rows (if p = panel_calibrate_path (in_config calibrated_input) then [] else [[(''passed'', JBool True)]]) t p"

lemma calibrated_run:
  "case evaluate_epoch calibrated_input [sample_miner ''m'' [sample_wire]] sample_world of
     (r, w) \<Rightarrow> is_ok r \<and> charged_entries (ew_session w) = 1"
  "case evaluate_epoch (with_pipeline calibrated_input other_pipeline) [sample_miner ''m'' [sample_wire]] sample_world of
     (r, w) \<Rightarrow> charged_entries (ew_session w) = 0"
  "panel_path (in_config calibrated_input) \<noteq> panel_calibrate_path (in_config calibrated_input)"
  by code_simp+

theorem paid_panel_within_gates_witness:
  "\<exists>outs w'. evaluate_epoch calibrated_input [sample_miner ''m'' [sample_wire]] sample_world = (Inr outs, w')
     \<and> spend_gates_open calibrated_input \<and> reserved_entries (ew_session w') \<noteq> 0
     \<and> 1 + ps_budget (ew_session w') = panel_max_tasks (in_config calibrated_input)"
proof -
  obtain outs w' where run: "evaluate_epoch calibrated_input [sample_miner ''m'' [sample_wire]] sample_world = (Inr outs, w')"
    and live: "charged_entries (ew_session w') = 1"
    using calibrated_run(1) by (auto simp: is_ok_iff split: prod.splits)
  have other: "evaluate_epoch (with_pipeline calibrated_input other_pipeline) [sample_miner ''m'' [sample_wire]] sample_world \<noteq> (Inr outs, w')"
    using calibrated_run(2) live by auto
  have "agree_elsewhere calibrated_input other_pipeline"
    by (simp add: agree_elsewhere_def other_pipeline_def) (simp add: calibrated_input_def)
  from paid_panel_within_gates [OF this calibrated_run(3)] run other live show ?thesis by (metis of_nat_1)
qed

text \<open>A task that ran on the paid panel, passed verification and then failed the private holdout is
  archived without panel rows, and its slot of the panel budget is given back although it was used.\<close>

lemma holdout_failure_refunds_slot:
  assumes "run_validated en cfg panel task th gates = Inr (out, purged)" "holdout_required cfg"
    and "en_pipeline en task panel = Inr result" "pr_verification result = Some v" "vf_status v = ''passed''"
    and "evaluate_holdout (en_holdout en) (en_runner en) True task (if th = [] then et_hash task else th)
           (case holdout_secret cfg of None \<Rightarrow> [] | Some k \<Rightarrow> k) = Inr e" "\<not> he_passed e"
    and "plan h s = (Inr Plan_live, s1)"
  shows "so_panel_rows out = [] \<and> ps_budget s1 = ps_budget s - 1
    \<and> (\<exists>s2. settle_plan env Plan_live out s1 = (Inr out, s2) \<and> ps_budget s2 = ps_budget s)"
proof -
  have rows: "so_panel_rows out = []"
    using assms(1-7) by (auto simp: run_validated_def Let_def holdout_failure_outcome_def outcome_def)
  have s1: "ps_budget s1 = ps_budget s - 1" "ps_active s1"
    using assms(8) by (auto simp: plan_def split: if_splits sum.splits)
  with rows show ?thesis
    by (auto simp: settle_plan_def bind_op_def lift_op_def modify_op_def return_op_def record_evidence_def refund_def)
qed

definition failing_runner :: runner where
  "failing_runner p candidate = sample_verification ''failed''"

definition failing_engine :: "nat engine" where
  "failing_engine = sample_engine\<lparr>en_runner := failing_runner,
     en_pipeline := pipeline_with_rows [[(''passed'', JBool True)]]\<rparr>"

lemma failing_holdout:
  "case evaluate_holdout sample_holdout_env failing_runner True sample_task ''h1'' ''secret'' of
     Inl _ \<Rightarrow> False | Inr e \<Rightarrow> \<not> he_passed e"
  "is_ok (run_validated failing_engine sample_cfg ''panel'' sample_task ''h1'' [])"
  "holdout_required sample_cfg \<and> holdout_secret sample_cfg = Some ''secret''"
  by code_simp+

lemma holdout_failure_refunds_slot_instance:
  "\<exists>out purged. run_validated failing_engine sample_cfg ''panel'' sample_task ''h1'' [] = Inr (out, purged)
     \<and> (\<exists>result. en_pipeline failing_engine sample_task ''panel'' = Inr result \<and> pr_rows result \<noteq> []) \<and> so_panel_rows out = []"
proof -
  obtain out purged where run: "run_validated failing_engine sample_cfg ''panel'' sample_task ''h1'' [] = Inr (out, purged)"
    using failing_holdout(2) by (auto simp: is_ok_iff)
  obtain e where e: "evaluate_holdout sample_holdout_env failing_runner True sample_task ''h1'' ''secret'' = Inr e" "\<not> he_passed e"
    using failing_holdout(1) by (auto split: sum.splits)
  have live: "plan JNull ((inactive_session sample_cfg)\<lparr>ps_active := True, ps_dry_run := False, ps_budget := 1\<rparr>)
      = (Inr Plan_live, (inactive_session sample_cfg)\<lparr>ps_active := True, ps_dry_run := False, ps_budget := 0\<rparr>)"
    by (simp add: plan_def cached_solve_rate_def inactive_session_def)
  obtain result where v: "en_pipeline failing_engine sample_task ''panel'' = Inr result" "pr_verification result = Some (sample_verification ''passed'')"
    "vf_status (sample_verification ''passed'') = ''passed''" "pr_rows result \<noteq> []"
    by (simp add: failing_engine_def sample_engine_def sample_verification_def pipeline_with_rows_def)
  have "evaluate_holdout (en_holdout failing_engine) (en_runner failing_engine) True sample_task
      (if ''h1'' = [] then et_hash sample_task else ''h1'') (case holdout_secret sample_cfg of None \<Rightarrow> [] | Some k \<Rightarrow> k) = Inr e"
    using failing_holdout(3) e(1) by (simp add: failing_engine_def sample_engine_def)
  from holdout_failure_refunds_slot [OF run conjunct1 [OF failing_holdout(3)] v(1,2,3) this e(2) live] run v(1,4)
  show ?thesis by blast
qed

section \<open>An epoch from the start to its marker\<close>

lemma no_hook_eq [simp]: "bind_op (on_archive f (no_hook name)) g w = g () w"
  by (simp add: on_archive_def on_chain_def no_hook_def return_op_def bind_op_def)

lemma no_hook_run [simp]: "on_archive f (no_hook name) w = (Inr (), w)"
  by (simp add: on_archive_def on_chain_def no_hook_def return_op_def)

lemma bind_op_return: "m w = (Inr a, w') \<Longrightarrow> bind_op m f w = f a w'"
  by (simp add: bind_op_def)

lemma lift_bind: "bind_op (lift_op (Inr a)) f w = f a w" "bind_op (lift_op (Inl e)) g w = (Inl e, w)"
  by (simp_all add: bind_op_def lift_op_def)

definition epoch_scores :: "('b, 'r) epoch_input \<Rightarrow> miner list \<Rightarrow> outcomes \<Rightarrow> (string, pyfloat) dict \<Rightarrow> epoch_scoring" where
  "epoch_scores x miners outs previous =
     score_epoch (ema_alpha (in_config x)) (in_quota x) (map mn_hotkey miners) outs previous"

lemma run_epoch_after_client:
  assumes "evaluate_epoch x miners w = (Inr outs, w1)" "collect_task_values outs [] = Inr tv"
    and "load_miner_state (in_env x) (cw_disk (ew_chain w)) = Inr previous" "sc = epoch_scores x miners outs previous"
    and "apply_weights (in_env x) (in_host x) (in_connection x) (in_client x)
           (epoch_request x (map mn_hotkey miners) sc) (ew_chain w) = (Inr r, c')"
  shows "run_epoch x no_hook miners w =
    (case sorted_task_values (in_env x) tv of
       Inl e \<Rightarrow> (Inl (Python_raised e), w1\<lparr>ew_chain := c'\<rparr>)
     | Inr tv' \<Rightarrow> bind_op (publish_epoch x tv' sc r) (\<lambda>marker.
         return_op \<lparr>er_weights = es_weights sc, er_epoch_scores = es_epoch_scores sc, er_chain_result = r, er_marker_path = marker\<rparr>)
         (w1\<lparr>ew_chain := c'\<rparr>))"
proof -
  have w1: "ew_chain w1 = ew_chain w" using evaluate_epoch_run [OF assms(1)] by blast
  let ?publish = "on_chain Chain_failed (apply_weights (in_env x) (in_host x) (in_connection x) (in_client x)
      (epoch_request x (map mn_hotkey miners) sc))"
  have published: "?publish w1 = (Inr r, w1\<lparr>ew_chain := c'\<rparr>)"
    using assms(5) w1 by (simp add: on_chain_def)
  show ?thesis
    unfolding run_epoch_def Let_def no_hook_eq bind_op_return [of "evaluate_epoch x miners" w, OF assms(1)]
    by (cases "sorted_task_values (in_env x) tv")
      (simp_all add: assms(2,3) w1 bind_op_return [of ?publish w1, OF published] no_hook_run lift_bind flip: epoch_scores_def assms(4))
qed

lemma epoch_run:
  assumes "json_codec (in_env x)" "hex_digest (in_env x)"
    and "evaluate_epoch x miners w = (Inr outs, w1)" "ew_log w = Inr rows"
    and "collect_task_values outs [] = Inr tv" "sorted_task_values (in_env x) tv = Inr tv'"
    and "load_miner_state (in_env x) (cw_disk (ew_chain w)) = Inr previous" "sc = epoch_scores x miners outs previous"
    and "apply_weights (in_env x) (in_host x) (in_connection x) (in_client x)
           (epoch_request x (map mn_hotkey miners) sc) (ew_chain w) = (Inr r, c')"
    and "cw_disk (ew_chain w) (chain_receipt_path (in_epoch x)) = None"
    and "cw_disk (ew_chain w) (chain_attempt_path (in_epoch x)) = None"
  shows "\<exists>w' c. run_epoch x no_hook miners w =
      (Inr \<lparr>er_weights = es_weights sc, er_epoch_scores = es_epoch_scores sc, er_chain_result = r,
         er_marker_path = completion_marker_path (in_epoch x)\<rparr>, w')
    \<and> verify_epoch_completion (in_env x) (cw_disk (ew_chain w')) (in_epoch x) = Inr c \<and> cmp_mode c = res_mode r
    \<and> cw_disk (ew_chain w') miner_state_path = Some (dumps (in_env x) (scores_json (es_ema sc)))
    \<and> ew_log w' = Inr (rows @ map (log_row x) outs)"
proof -
  let ?w2 = "w1\<lparr>ew_chain := c'\<rparr>"
  have r: "apply_weights (in_env x) (in_host x) (in_connection x) (in_client x)
           (epoch_request x (map mn_hotkey miners) sc) (ew_chain w) = (Inr r, ew_chain ?w2)"
    using assms(9) by simp
  from publish_epoch_ok [OF refl assms(1,2) r _ assms(10,11), of tv' sc] obtain w' c where
    "publish_epoch x tv' sc r ?w2 = (Inr (completion_marker_path (in_epoch x)), w')"
    "verify_epoch_completion (in_env x) (cw_disk (ew_chain w')) (in_epoch x) = Inr c" "cmp_mode c = res_mode r"
    "cw_disk (ew_chain w') miner_state_path = Some (dumps (in_env x) (scores_json (es_ema sc)))" "ew_log w' = ew_log w1"
    by (auto simp: epoch_request_def)
  moreover have "ew_log w1 = Inr (rows @ map (log_row x) outs)"
    using evaluate_epoch_run [OF assms(3)] assms(4) by auto
  ultimately show ?thesis
    using run_epoch_after_client [OF assms(3,5,7,8,9)] assms(6) by (auto simp: bind_op_def return_op_def)
qed

text \<open>When the submissions can be evaluated and the chain client returns a result, an epoch without
  receipt or attempt on disk runs to its end: it returns the weights it published, its completion marker
  verifies with the client's mode, the rolling miner state is that of the epoch, and every outcome is one
  record of the log.\<close>

lemma epoch_completes:
  assumes "json_codec (in_env x)" "hex_digest (in_env x)"
    and "evaluate_epoch x miners w = (Inr outs, w1)" "ew_log w = Inr rows"
    and "collect_task_values outs [] = Inr tv" "sorted_task_values (in_env x) tv = Inr tv'"
    and "load_miner_state (in_env x) (cw_disk (ew_chain w)) = Inr previous" "sc = epoch_scores x miners outs previous"
    and "apply_weights (in_env x) (in_host x) (in_connection x) (in_client x)
           (epoch_request x (map mn_hotkey miners) sc) (ew_chain w) = (Inr r, c')"
    and "cw_disk (ew_chain w) (chain_receipt_path (in_epoch x)) = None"
    and "cw_disk (ew_chain w) (chain_attempt_path (in_epoch x)) = None"
  shows "\<exists>w' c. run_epoch x no_hook miners w =
      (Inr \<lparr>er_weights = es_weights sc, er_epoch_scores = es_epoch_scores sc, er_chain_result = r,
         er_marker_path = completion_marker_path (in_epoch x)\<rparr>, w')
    \<and> verify_epoch_completion (in_env x) (cw_disk (ew_chain w')) (in_epoch x) = Inr c \<and> cmp_mode c = res_mode r
    \<and> cw_disk (ew_chain w') miner_state_path = Some (dumps (in_env x) (scores_json (es_ema sc)))
    \<and> ew_log w' = Inr (rows @ map (log_row x) outs)"
  by (rule epoch_run [OF assms])

lemma sample_evaluated:
  "case evaluate_epoch sample_input [sample_miner ''m'' [sample_wire]] sample_world of
     (Inl _, _) \<Rightarrow> False
   | (Inr outs, w1) \<Rightarrow> map (\<lambda>(m, out). (mn_hotkey m, so_status out, so_package_hash out)) outs = [(''m'', ''accepted'', JStr ''h1'')]"
  by code_simp

lemma one_task_value:
  "map (\<lambda>(m, out). (mn_hotkey m, so_status out, so_package_hash out)) outs = [(''m'', ''accepted'', JStr ''h1'')] \<Longrightarrow>
   \<exists>v. collect_task_values outs [] = Inr [(JStr ''h1'', v)]"
  by (cases outs) auto

lemma epoch_completes_instance:
  "\<exists>res w' c. run_epoch sample_input no_hook [sample_miner ''m'' [sample_wire]] sample_world = (Inr res, w')
     \<and> verify_epoch_completion plain_env (cw_disk (ew_chain w')) 1 = Inr c \<and> cmp_mode c = ''fallback''"
proof -
  obtain outs w1 where run: "evaluate_epoch sample_input [sample_miner ''m'' [sample_wire]] sample_world = (Inr outs, w1)"
    and one: "map (\<lambda>(m, out). (mn_hotkey m, so_status out, so_package_hash out)) outs = [(''m'', ''accepted'', JStr ''h1'')]"
    using sample_evaluated by (auto split: prod.splits sum.splits)
  from one_task_value [OF one] obtain v where tv: "collect_task_values outs [] = Inr [(JStr ''h1'', v)]" by blast
  have s: "in_env sample_input = plain_env" "in_client sample_input = Null_chain" "in_epoch sample_input = 1"
    "ew_log sample_world = Inr []" "cw_disk (ew_chain sample_world) p = None" for p
    by (simp_all add: sample_input_def sample_world_def empty_world_def)
  have sorted: "sorted_task_values (in_env sample_input) [(JStr ''h1'', v)] = Inr [(''h1'', v)]"
    by (simp add: sorted_task_values_def json_key_def text_of_json_def dict_sorted_def)
  have prev: "load_miner_state (in_env sample_input) (cw_disk (ew_chain sample_world)) = Inr []"
    by (simp add: load_miner_state_def s)
  show ?thesis
    using epoch_completes [OF _ _ run s(4) tv sorted prev refl, unfolded s apply_weights_def, simplified,
        OF plain_env_codec plain_env_digest]
    by (auto simp: null_apply_weights_def)
qed

text \<open>C40: package hashes are taken from the payloads as they are, also of invalid ones: when one is text and
  another a number, the epoch raises while it builds its artifacts, after the weights have been published
  (and signed, with a live client), and no completion marker is written.\<close>

theorem mixed_hashes_abort_after_publication:
  assumes "evaluate_epoch x miners w = (Inr outs, w1)" "collect_task_values outs [] = Inr tv"
    and "JStr h \<in> set (map fst tv)" "JInt i \<in> set (map fst tv)"
    and "load_miner_state (in_env x) (cw_disk (ew_chain w)) = Inr previous" "sc = epoch_scores x miners outs previous"
    and "apply_weights (in_env x) (in_host x) (in_connection x) (in_client x)
           (epoch_request x (map mn_hotkey miners) sc) (ew_chain w) = (Inr r, c')"
  shows "run_epoch x no_hook miners w = (Inl (Python_raised (type_error ''unorderable keys'')), w1\<lparr>ew_chain := c'\<rparr>)
    \<and> cw_disk c' (completion_marker_path (in_epoch x)) = cw_disk (ew_chain w) (completion_marker_path (in_epoch x))"
proof
  have "sorted_task_values (in_env x) tv = Inl (type_error ''unorderable keys'')"
    using assms(3,4) by (force simp: sorted_task_values_def list_all_iff)
  with run_epoch_after_client [OF assms(1,2,5,6,7)]
  show "run_epoch x no_hook miners w = (Inl (Python_raised (type_error ''unorderable keys'')), w1\<lparr>ew_chain := c'\<rparr>)"
    by simp
  show "cw_disk c' (completion_marker_path (in_epoch x)) = cw_disk (ew_chain w) (completion_marker_path (in_epoch x))"
    using client.frame [OF assms(7)] by (simp add: disk_changed_only_def epoch_request_def)
qed

definition live_input :: "(json, nat) epoch_input" where
  "live_input = sample_input\<lparr>in_host := live_host, in_connection := Inr sample_substrate, in_client := Subtensor_chain sample_chain\<rparr>"

definition mixed_miners :: "miner list" where
  "mixed_miners = [sample_miner ''m'' [sample_wire], sample_miner ''b'' [[(''package_hash'', JInt 1)]]]"

lemma mixed_evaluated:
  "case evaluate_epoch live_input mixed_miners sample_world of
     (Inl _, _) \<Rightarrow> False
   | (Inr outs, w1) \<Rightarrow> (case collect_task_values outs [] of Inl _ \<Rightarrow> False | Inr tv \<Rightarrow> map fst tv = [JStr ''h1'', JInt 1])
       \<and> is_ok (fst (apply_weights plain_env live_host (Inr sample_substrate) (Subtensor_chain sample_chain)
           (epoch_request live_input [''m'', ''b''] (epoch_scores live_input mixed_miners outs [])) empty_world))
       \<and> length (cw_calls (snd (apply_weights plain_env live_host (Inr sample_substrate) (Subtensor_chain sample_chain)
           (epoch_request live_input [''m'', ''b''] (epoch_scores live_input mixed_miners outs [])) empty_world))) = 1"
  by code_simp

theorem mixed_hashes_abort_after_publication_witness:
  "\<exists>w'. run_epoch live_input no_hook mixed_miners sample_world = (Inl (Python_raised (type_error ''unorderable keys'')), w')
     \<and> length (cw_calls (ew_chain w')) = 1 \<and> cw_disk (ew_chain w') (completion_marker_path 1) = None"
proof -
  obtain outs w1 tv where run: "evaluate_epoch live_input mixed_miners sample_world = (Inr outs, w1)"
    and tv: "collect_task_values outs [] = Inr tv" "map fst tv = [JStr ''h1'', JInt 1]"
    using mixed_evaluated by (auto split: prod.splits sum.splits)
  let ?sc = "epoch_scores live_input mixed_miners outs []"
  let ?call = "apply_weights plain_env live_host (Inr sample_substrate) (Subtensor_chain sample_chain)
      (epoch_request live_input [''m'', ''b''] ?sc) empty_world"
  have "is_ok (fst ?call)" and one: "length (cw_calls (snd ?call)) = 1"
    using mixed_evaluated run tv(1) by simp_all
  then obtain r where "fst ?call = Inr r" by (auto simp: is_ok_iff)
  then have r: "?call = (Inr r, snd ?call)" by (metis prod.collapse)
  have s: "in_env live_input = plain_env" "in_host live_input = live_host" "in_connection live_input = Inr sample_substrate"
    "in_client live_input = Subtensor_chain sample_chain" "in_epoch live_input = 1" "map mn_hotkey mixed_miners = [''m'', ''b'']"
    "ew_chain sample_world = empty_world" "cw_disk empty_world p = None" for p
    by (simp_all add: live_input_def sample_input_def sample_world_def empty_world_def mixed_miners_def sample_miner_def)
  have prev: "load_miner_state (in_env live_input) (cw_disk (ew_chain sample_world)) = Inr []"
    by (simp add: load_miner_state_def s)
  have mem: "JStr ''h1'' \<in> set (map fst tv)" "JInt 1 \<in> set (map fst tv)" unfolding tv(2) by simp_all
  from mixed_hashes_abort_after_publication [OF run tv(1) mem prev refl, unfolded s, OF r] one
  show ?thesis by (auto simp: s)
qed

end
