(* ===== verification/Json_Text.thy ===== *)
theory Json_Text
  imports Files
begin

text \<open>
  The compact serialisation of flat objects, \<open>json.dumps(payload, sort_keys=True, separators=(",", ":"),
  ensure_ascii=True)\<close> for the values that are signed: text, integers and \<open>None\<close>.  It is
  injective: a decoder reads the values back.
\<close>

section \<open>Serialisation\<close>

datatype scalar = Null_scalar | Int_scalar int | Text_scalar string

definition hex_char :: "nat \<Rightarrow> char" where
  "hex_char n = (if n < 10 then char_of (48 + n) else char_of (87 + n))"

text \<open>Control characters, quotes, backslashes and what is not ASCII are escaped.\<close>

definition escape_char :: "char \<Rightarrow> string" where
  "escape_char c =
     (let n = (of_char c :: nat) in
      if c = CHR 0x22 \<or> c = CHR 0x5C then [CHR 0x5C, c]
      else if n = 8 then [CHR 0x5C, CHR ''b''] else if n = 9 then [CHR 0x5C, CHR ''t'']
      else if n = 10 then [CHR 0x5C, CHR ''n''] else if n = 12 then [CHR 0x5C, CHR ''f'']
      else if n = 13 then [CHR 0x5C, CHR ''r'']
      else if 32 \<le> n \<and> n < 127 then [c]
      else [CHR 0x5C, CHR ''u'', CHR ''0'', CHR ''0'', hex_char (n div 16), hex_char (n mod 16)])"

definition quote_text :: "string \<Rightarrow> string" where
  "quote_text s = CHR 0x22 # concat (map escape_char s) @ [CHR 0x22]"

fun scalar_text :: "scalar \<Rightarrow> string" where
  "scalar_text Null_scalar = ''null''"
| "scalar_text (Int_scalar i) = show_int i"
| "scalar_text (Text_scalar s) = quote_text s"

type_synonym scalars = "(string \<times> scalar) list"

definition item_text :: "string \<times> scalar \<Rightarrow> string" where
  "item_text kv = quote_text (fst kv) @ '':'' @ scalar_text (snd kv)"

definition compact_object :: "scalars \<Rightarrow> string" where
  "compact_object d = ''{'' @ join '','' (map item_text (sort_key fst d)) @ ''}''"

section \<open>Decoding\<close>

definition hex_val :: "char \<Rightarrow> nat" where
  "hex_val c = (let n = (of_char c :: nat) in if n < 58 then n - 48 else n - 87)"

text \<open>One character off the front of escaped text; the closing quote has none.\<close>

fun unescape_char :: "string \<Rightarrow> (char \<times> string) option" where
  "unescape_char (c # s) =
     (if c = CHR 0x22 then None
      else if c \<noteq> CHR 0x5C then Some (c, s)
      else case s of
             [] \<Rightarrow> None
           | e # s' \<Rightarrow>
               if e = CHR 0x22 \<or> e = CHR 0x5C then Some (e, s')
               else if e = CHR ''b'' then Some (char_of (8 :: nat), s')
               else if e = CHR ''t'' then Some (char_of (9 :: nat), s')
               else if e = CHR ''n'' then Some (char_of (10 :: nat), s')
               else if e = CHR ''f'' then Some (char_of (12 :: nat), s')
               else if e = CHR ''r'' then Some (char_of (13 :: nat), s')
               else (case s' of
                       z # y # a # b # s'' \<Rightarrow> Some (char_of (16 * hex_val a + hex_val b), s'')
                     | _ \<Rightarrow> None))"
| "unescape_char [] = None"

lemma hex_val_char: "n < 16 \<Longrightarrow> hex_val (hex_char n) = n"
  by (simp add: hex_val_def hex_char_def Let_def)

lemma char_of_nat_eq: "(of_char c :: nat) = n \<Longrightarrow> char_of n = c"
  by (metis char_of_char)

lemma unescape_escape: "unescape_char (escape_char c @ s) = Some (c, s)"
proof -
  have "(of_char c :: nat) < 256" by (rule nat_of_char_less_256)
  then have "(of_char c :: nat) div 16 < 16" by (simp add: div_less_iff_less_mult)
  moreover have "(of_char c :: nat) mod 16 < 16" by simp
  ultimately show ?thesis
    by (auto simp: escape_char_def Let_def hex_val_char char_of_nat_eq)
qed

lemma escape_not_quote: "unescape_char (CHR 0x22 # s) = None"
  by simp

lemma escaped_inj:
  "concat (map escape_char s) @ CHR 0x22 # x = concat (map escape_char t) @ CHR 0x22 # y \<Longrightarrow> s = t \<and> x = y"
proof (induction s arbitrary: t)
  case Nil
  show ?case
  proof (cases t)
    case (Cons d t')
    with Nil have "unescape_char (escape_char d @ concat (map escape_char t') @ CHR 0x22 # y) = unescape_char (CHR 0x22 # x)"
      by simp
    then show ?thesis unfolding unescape_escape by simp
  qed (use Nil in simp)
next
  case (Cons c s)
  show ?case
  proof (cases t)
    case Nil
    with Cons.prems have "unescape_char (escape_char c @ concat (map escape_char s) @ CHR 0x22 # x) = unescape_char (CHR 0x22 # y)"
      by simp
    then show ?thesis unfolding unescape_escape by simp
  next
    case t: (Cons d t')
    with Cons.prems have "unescape_char (escape_char c @ concat (map escape_char s) @ CHR 0x22 # x) =
        unescape_char (escape_char d @ concat (map escape_char t') @ CHR 0x22 # y)" by simp
    then have "c = d" "concat (map escape_char s) @ CHR 0x22 # x = concat (map escape_char t') @ CHR 0x22 # y"
      unfolding unescape_escape by simp_all
    with Cons.IH [of t'] t show ?thesis by simp
  qed
qed

lemma quote_text_inj: "quote_text s @ x = quote_text t @ y \<longleftrightarrow> s = t \<and> x = y"
  using escaped_inj [of s x t y] by (auto simp: quote_text_def)

definition delimiter :: "char \<Rightarrow> bool" where
  "delimiter c \<longleftrightarrow> c = CHR '','' \<or> c = CHR ''}''"

lemma show_int_word: "c \<in> set (show_int i) \<Longrightarrow> \<not> delimiter c \<and> c \<noteq> CHR 0x22 \<and> c \<noteq> CHR ''n''"
  using show_nat_digits [of c] by (auto simp: show_int_def delimiter_def split: if_splits)

lemma word_inj:
  "list_all (\<lambda>c. \<not> delimiter c) w \<Longrightarrow> list_all (\<lambda>c. \<not> delimiter c) v \<Longrightarrow> delimiter c \<Longrightarrow> delimiter d \<Longrightarrow>
   w @ c # x = v @ d # y \<Longrightarrow> w = v \<and> c = d \<and> x = y"
proof (induction w arbitrary: v)
  case Nil
  then show ?case by (cases v) auto
next
  case (Cons a w)
  then show ?case by (cases v) auto
qed

lemma show_int_nonempty: "show_int i \<noteq> []"
  by (simp add: show_int_def)

text \<open>Words (integers and \<open>null\<close>) and quoted text start differently.\<close>

fun word_scalar :: "scalar \<Rightarrow> bool" where
  "word_scalar (Text_scalar s) = False"
| "word_scalar _ = True"

lemma word_scalar_text:
  assumes "word_scalar v"
  shows "list_all (\<lambda>c. \<not> delimiter c) (scalar_text v)" "hd (scalar_text v @ z) \<noteq> CHR 0x22" "scalar_text v \<noteq> []"
proof -
  have int: "hd (show_int i @ z) \<noteq> CHR 0x22" for i
    using show_int_word [of "hd (show_int i)" i] show_int_nonempty [of i] by (cases "show_int i") simp_all
  show "list_all (\<lambda>c. \<not> delimiter c) (scalar_text v)" "hd (scalar_text v @ z) \<noteq> CHR 0x22" "scalar_text v \<noteq> []"
    using assms show_int_word int show_int_nonempty by (cases v; auto simp: list_all_iff delimiter_def)+
qed

lemma word_scalar_inj: "word_scalar v \<Longrightarrow> word_scalar w \<Longrightarrow> scalar_text v = scalar_text w \<Longrightarrow> v = w"
proof -
  have "show_int i \<noteq> ''null''" for i using show_int_word [of "CHR ''n''" i] by auto
  then show "word_scalar v \<Longrightarrow> word_scalar w \<Longrightarrow> scalar_text v = scalar_text w \<Longrightarrow> v = w"
    by (cases v; cases w) (auto simp: eq_commute [of "''null''"] simp del: list.simps)
qed

lemma quote_hd: "hd (quote_text s @ z) = CHR 0x22"
  by (simp add: quote_text_def)

lemma scalar_text_inj:
  assumes "delimiter c" "delimiter d" and eq: "scalar_text v @ c # x = scalar_text w @ d # y"
  shows "v = w \<and> c = d \<and> x = y"
proof -
  consider "word_scalar v" "word_scalar w" | s where "word_scalar v" "w = Text_scalar s"
    | s where "v = Text_scalar s" "word_scalar w" | s t where "v = Text_scalar s" "w = Text_scalar t"
    by (cases v; cases w) auto
  then show ?thesis
  proof cases
    case 1
    from word_inj [OF word_scalar_text(1) [OF 1(1)] word_scalar_text(1) [OF 1(2)] assms]
    show ?thesis using word_scalar_inj [OF 1] by simp
  next
    case (2 s)
    with eq have "hd (scalar_text v @ c # x) = CHR 0x22" using quote_hd [of s "d # y"] by simp
    with word_scalar_text(2) [OF 2(1)] show ?thesis by blast
  next
    case (3 s)
    with eq have "hd (scalar_text w @ d # y) = CHR 0x22" using quote_hd [of s "c # x"] by simp
    with word_scalar_text(2) [OF 3(2)] show ?thesis by blast
  next
    case (4 s t)
    with eq quote_text_inj [of s "c # x" t "d # y"] show ?thesis by simp
  qed
qed

lemma items_inj:
  assumes "map fst d = map fst e" "join '','' (map item_text d) @ ''}'' = join '','' (map item_text e) @ ''}''"
  shows "d = e"
  using assms
proof (induction d arbitrary: e)
  case (Cons kv d)
  obtain lw e' where e: "e = lw # e'" "fst lw = fst kv" "map fst d = map fst e'" using Cons.prems(1) by auto
  have split: "\<exists>c r. delimiter c \<and> join '','' (map item_text (p # ps)) @ ''}'' = quote_text (fst p) @ '':'' @ scalar_text (snd p) @ c # r
      \<and> (ps = [] \<longrightarrow> c # r = ''}'') \<and> (ps \<noteq> [] \<longrightarrow> c # r = '','' @ join '','' (map item_text ps) @ ''}'')" for p ps
    by (cases ps) (simp_all add: item_text_def delimiter_def)
  obtain c r where c: "delimiter c" "join '','' (map item_text (kv # d)) @ ''}'' = quote_text (fst kv) @ '':'' @ scalar_text (snd kv) @ c # r"
      "d = [] \<longrightarrow> c # r = ''}''" "d \<noteq> [] \<longrightarrow> c # r = '','' @ join '','' (map item_text d) @ ''}''"
    using split [of kv d] by blast
  obtain c' r' where c': "delimiter c'" "join '','' (map item_text (lw # e')) @ ''}'' = quote_text (fst lw) @ '':'' @ scalar_text (snd lw) @ c' # r'"
      "e' = [] \<longrightarrow> c' # r' = ''}''" "e' \<noteq> [] \<longrightarrow> c' # r' = '','' @ join '','' (map item_text e') @ ''}''"
    using split [of lw e'] by blast
  have "scalar_text (snd kv) @ c # r = scalar_text (snd lw) @ c' # r'"
    using Cons.prems(2) c(2) c'(2) e(1,2) by simp
  from scalar_text_inj [OF c(1) c'(1) this] have "snd kv = snd lw" "c # r = c' # r'" by auto
  moreover have "d = [] \<longleftrightarrow> e' = []" using e(3) by (metis map_is_Nil_conv)
  ultimately have "d = e'" using Cons.IH [OF e(3)] c(3,4) c'(3,4) by (cases "d = []") auto
  with \<open>snd kv = snd lw\<close> e show ?case by (simp add: prod_eq_iff)
qed simp

lemma map_fst_sort_key: "map fst (sort_key fst d) = sort (map fst d)"
  by (rule properties_for_sort [symmetric]) (simp_all only: mset_map mset_sort sorted_sort_key)

lemma map_of_nth: "distinct (map fst d) \<Longrightarrow> i < length d \<Longrightarrow> map_of d (fst (d ! i)) = Some (snd (d ! i))"
  by (metis map_of_is_SomeI nth_mem prod.collapse)

lemma dict_eqI:
  assumes "map fst d = map fst e" "distinct (map fst d)" "\<And>k. map_of d k = map_of e k"
  shows "d = e"
proof (rule nth_equalityI)
  show len: "length d = length e" using assms(1) by (rule map_eq_imp_length_eq)
  fix i assume i: "i < length d"
  then have "fst (d ! i) = fst (e ! i)" using assms(1) len by (metis nth_map)
  moreover have "snd (d ! i) = snd (e ! i)"
    using map_of_nth [of d i] map_of_nth [of e i] assms i len calculation by (metis option.inject)
  ultimately show "d ! i = e ! i" by (simp add: prod_eq_iff)
qed

lemma compact_object_inj:
  assumes "map fst d = map fst e" "distinct (map fst d)" "compact_object d = compact_object e"
  shows "d = e"
proof -
  have "map fst (sort_key fst d) = map fst (sort_key fst e)" using assms(1) by (simp add: map_fst_sort_key)
  with assms(3) have sorted: "sort_key fst d = sort_key fst e" using items_inj by (simp add: compact_object_def)
  have "map_of d k = map_of e k" for k using map_of_sort_key [of d k] map_of_sort_key [of e k] sorted by simp
  with assms(1,2) show ?thesis by (rule dict_eqI)
qed

end
