(* ===== verification/Wire.thy ===== *)
theory Wire
  imports Epoch Json_Text
begin

text \<open>
  \<open>src/dolores_subnet/wire.py\<close>: the miner endpoints, the bounded read of a response body, the
  signature that binds a response to its request and its hotkey, and the miners that the epoch engine
  sees.  The dendrite's query, the key pairs and the serialisation that is signed are arguments; a
  response is the synapse that comes back, or another object of which only its error texts are read.
\<close>

section \<open>Endpoints\<close>

record miner_endpoint =
  me_host :: string
  me_port :: int
  me_hotkey :: string
  me_uid :: int
  me_coldkey :: string

datatype endpoint_text_error =
    Endpoint_shape
  | Endpoint_host_missing
  | Endpoint_hotkey_missing
  | Endpoint_port_text string
  | No_endpoint

definition parse_endpoint :: "string \<Rightarrow> int \<Rightarrow> string \<Rightarrow> endpoint_text_error + miner_endpoint" where
  "parse_endpoint text uid default_coldkey =
     (let parts = split_on (CHR '':'') text in
      if length parts \<noteq> 3 \<and> length parts \<noteq> 4 then Inl Endpoint_shape
      else
        let h = parts ! 0; port_text = parts ! 1; hotkey = parts ! 2;
            coldkey = (if length parts = 4 then parts ! 3 else default_coldkey)
        in if h = [] then Inl Endpoint_host_missing
           else if hotkey = [] then Inl Endpoint_hotkey_missing
           else (case int_of_text port_text of
                   None \<Rightarrow> Inl (Endpoint_port_text port_text)
                 | Some port \<Rightarrow>
                     Inr \<lparr>me_host = h, me_port = port, me_hotkey = hotkey, me_uid = uid, me_coldkey = coldkey\<rparr>))"

text \<open>The index of an item counts the empty ones too.\<close>

fun parse_items :: "string \<Rightarrow> int \<Rightarrow> string list \<Rightarrow> endpoint_text_error + miner_endpoint list" where
  "parse_items default_coldkey k [] = Inr []"
| "parse_items default_coldkey k (raw # raws) =
     (if raw = [] then parse_items default_coldkey (k + 1) raws
      else bind_result (parse_endpoint raw k default_coldkey) (\<lambda>e.
           bind_result (parse_items default_coldkey (k + 1) raws) (\<lambda>es. Inr (e # es))))"

definition parse_miner_endpoints :: "string \<Rightarrow> string \<Rightarrow> endpoint_text_error + miner_endpoint list" where
  "parse_miner_endpoints values default_coldkey =
     bind_result (parse_items default_coldkey 0 (map strip (split_on (CHR '','') values))) (\<lambda>es.
     if es = [] then Inl No_endpoint else Inr es)"

section \<open>Bounded read\<close>

datatype transport_error =
    Content_length_invalid
  | Declared_too_large
  | Streamed_too_large
  | Body_not_json
  | Body_not_object

definition response_envelope_overhead :: int where
  "response_envelope_overhead = 64 * 1024"

definition chunk_bytes :: nat where
  "chunk_bytes = 64 * 1024"

text \<open>The state is the body that has been kept.\<close>

fun read_chunks :: "int \<Rightarrow> bytes list \<Rightarrow> (bytes, transport_error, unit) op" where
  "read_chunks max_bytes [] body = (Inr (), body)"
| "read_chunks max_bytes (chunk # chunks) body =
     (if max_bytes < int (length body + length chunk) then (Inl Streamed_too_large, body)
      else read_chunks max_bytes chunks (body @ chunk))"

definition bounded_response_json ::
  "(bytes \<Rightarrow> json option) \<Rightarrow> int \<Rightarrow> string option \<Rightarrow> bytes list \<Rightarrow> (bytes, transport_error, jdict) op" where
  "bounded_response_json parse max_bytes content_length chunks =
     bind_op (lift_op (case content_length of
        None \<Rightarrow> Inr ()
      | Some text \<Rightarrow>
          (case int_of_text text of
             None \<Rightarrow> Inl Content_length_invalid
           | Some declared \<Rightarrow> if max_bytes < declared then Inl Declared_too_large else Inr ()))) (\<lambda>_.
     bind_op (read_chunks max_bytes chunks) (\<lambda>_.
     bind_op get_op (\<lambda>body.
     lift_op (case parse body of
        None \<Rightarrow> Inl Body_not_json
      | Some (JObj d) \<Rightarrow> Inr d
      | Some _ \<Rightarrow> Inl Body_not_object))))"

section \<open>Synapses\<close>

definition wire_protocol_version :: string where
  "wire_protocol_version = ''dolores-wire-v1''"

record request_terminal =
  rt_nonce :: "int option"
  rt_uuid :: "string option"
  rt_hotkey :: "string option"
  rt_status_message :: string

record task_synapse =
  sy_dendrite :: "request_terminal option"
  sy_success :: bool
  sy_protocol :: string
  sy_request_id :: string
  sy_epoch :: int
  sy_quota :: int
  sy_submissions :: "jdict list"
  sy_error :: string
  sy_response_hotkey :: string
  sy_response_digest :: string
  sy_response_signature :: string

text \<open>\<open>Foreign\<close> carries the texts of \<open>error\<close> and \<open>dendrite.status_message\<close>, empty where absent.\<close>

datatype wire_answer = Synapse task_synapse | Foreign string string

text \<open>
  Key pairs by their address: signing gives hexadecimal text, verification may raise, as does making a
  key pair from text that is no address.
\<close>

record wire_keys =
  wk_sign :: "string \<Rightarrow> string \<Rightarrow> string"
  wk_verify :: "string \<Rightarrow> string \<Rightarrow> string \<Rightarrow> exn + bool"

datatype response_error = Not_authentic string | Response_raised exn

definition request_id_is_valid :: "string \<Rightarrow> bool" where
  "request_id_is_valid s \<longleftrightarrow> 32 \<le> length s \<and> length s \<le> 64 \<and> list_all (\<lambda>c. c \<in> set ''0123456789abcdef'') s"

definition response_payload_size :: "'b env \<Rightarrow> jdict list \<Rightarrow> int" where
  "response_payload_size env payloads = compact_size env (JArr (map JObj payloads))"

definition submissions_digest :: "'b env \<Rightarrow> jdict list \<Rightarrow> string" where
  "submissions_digest env payloads = json_digest env (JArr (map JObj payloads))"

text \<open>The fields that a signature covers, for a terminal and a miner's hotkey.\<close>

fun opt_text_scalar :: "string option \<Rightarrow> scalar" where
  "opt_text_scalar None = Null_scalar"
| "opt_text_scalar (Some s) = Text_scalar s"

fun opt_int_scalar :: "int option \<Rightarrow> scalar" where
  "opt_int_scalar None = Null_scalar"
| "opt_int_scalar (Some i) = Int_scalar i"

definition message_fields :: "task_synapse \<Rightarrow> request_terminal \<Rightarrow> string \<Rightarrow> string \<Rightarrow> scalars" where
  "message_fields r t miner_hotkey digest =
     [(''protocol_version'', Text_scalar (sy_protocol r)), (''request_id'', Text_scalar (sy_request_id r)),
      (''request_nonce'', opt_int_scalar (rt_nonce t)), (''request_uuid'', opt_text_scalar (rt_uuid t)),
      (''validator_hotkey'', opt_text_scalar (rt_hotkey t)), (''miner_hotkey'', Text_scalar miner_hotkey),
      (''epoch_id'', Int_scalar (sy_epoch r)), (''quota'', Int_scalar (sy_quota r)),
      (''submissions_digest'', Text_scalar digest)]"

definition response_message :: "task_synapse \<Rightarrow> request_terminal \<Rightarrow> string \<Rightarrow> string \<Rightarrow> string" where
  "response_message r t miner_hotkey digest =
     ''dolores-response-v1:'' @ compact_object (message_fields r t miner_hotkey digest)"

definition sign_response :: "'b env \<Rightarrow> wire_keys \<Rightarrow> string \<Rightarrow> task_synapse \<Rightarrow> response_error + task_synapse" where
  "sign_response env ks address r =
     (case sy_dendrite r of
        None \<Rightarrow> Inl (Not_authentic ''missing request terminal'')
      | Some t \<Rightarrow>
          if \<not> request_id_is_valid (sy_request_id r) then Inl (Not_authentic ''invalid request id'')
          else
            let digest = submissions_digest env (sy_submissions r) in
            Inr (r\<lparr>sy_response_hotkey := address, sy_response_digest := digest,
              sy_response_signature := ''0x'' @ wk_sign ks address (response_message r t address digest)\<rparr>))"

definition ascii :: "string \<Rightarrow> bool" where
  "ascii s = list_all (\<lambda>c. (of_char c :: nat) < 128) s"

text \<open>\<open>secrets.compare_digest\<close> on text.\<close>

definition compare_digest :: "string \<Rightarrow> string \<Rightarrow> exn + bool" where
  "compare_digest a b =
     (if ascii a \<and> ascii b then Inr (a = b)
      else Inl (type_error ''comparing strings with non-ASCII characters is not supported''))"

record expected_request =
  ex_epoch :: int
  ex_quota :: int
  ex_request_id :: string
  ex_validator :: string

definition verify_response_signature ::
  "'b env \<Rightarrow> wire_keys \<Rightarrow> miner_endpoint \<Rightarrow> expected_request \<Rightarrow> task_synapse \<Rightarrow> response_error + unit" where
  "verify_response_signature env ks e x r =
     (case sy_dendrite r of
        None \<Rightarrow> Inl (Not_authentic ''missing request terminal'')
      | Some t \<Rightarrow>
          bind_result (require (sy_protocol r = wire_protocol_version) (Not_authentic ''protocol version mismatch'')) (\<lambda>_.
          bind_result (require (sy_request_id r = ex_request_id x) (Not_authentic ''request id mismatch'')) (\<lambda>_.
          bind_result (require (sy_epoch r = ex_epoch x) (Not_authentic ''epoch mismatch'')) (\<lambda>_.
          bind_result (require (sy_quota r = ex_quota x) (Not_authentic ''quota mismatch'')) (\<lambda>_.
          bind_result (require (rt_hotkey t = Some (ex_validator x)) (Not_authentic ''validator hotkey mismatch'')) (\<lambda>_.
          bind_result (require (sy_response_hotkey r = me_hotkey e) (Not_authentic ''miner hotkey mismatch'')) (\<lambda>_.
          let digest = submissions_digest env (sy_submissions r) in
          bind_result (map_error Response_raised (compare_digest (sy_response_digest r) digest)) (\<lambda>same.
          bind_result (require same (Not_authentic ''submissions digest mismatch'')) (\<lambda>_.
          bind_result (require (sy_response_signature r \<noteq> []) (Not_authentic ''missing response signature'')) (\<lambda>_.
          bind_result (map_error Response_raised (wk_verify ks (me_hotkey e)
             (response_message r t (sy_response_hotkey r) digest) (sy_response_signature r))) (\<lambda>ok.
          require ok (Not_authentic ''response signature mismatch''))))))))))))"

section \<open>Miners\<close>

text \<open>\<open>xs[:q]\<close>.\<close>

definition py_prefix :: "int \<Rightarrow> 'a list \<Rightarrow> 'a list" where
  "py_prefix q xs = (if 0 \<le> q then take (nat q) xs else take (length xs - nat (- q)) xs)"

text \<open>\<open>WireMiner\<close>, as the engine's miner.\<close>

definition wire_miner :: "miner_endpoint \<Rightarrow> jdict list \<Rightarrow> string option \<Rightarrow> string \<Rightarrow> miner" where
  "wire_miner e payloads status reason =
     \<lparr>mn_hotkey = me_hotkey e, mn_uid = me_uid e, mn_terminal_status = status, mn_terminal_reason = Some reason,
      mn_submissions = (\<lambda>epoch_id quota. if or_text status None \<noteq> None then [] else py_prefix quota payloads)\<rparr>"

fun is_success_response :: "wire_answer \<Rightarrow> bool" where
  "is_success_response (Synapse r) = (sy_success r \<and> sy_error r = [])"
| "is_success_response (Foreign err status) = False"

definition first_text :: "string \<Rightarrow> string \<Rightarrow> string" where
  "first_text a b = (if a \<noteq> [] then a else b)"

fun answer_error :: "wire_answer \<Rightarrow> string" where
  "answer_error (Synapse r) =
     first_text (sy_error r) (first_text (case sy_dendrite r of None \<Rightarrow> [] | Some t \<Rightarrow> rt_status_message t) ''wire query failed'')"
| "answer_error (Foreign err status) = first_text err (first_text status ''wire query failed'')"

definition unreachable_miner :: "miner_endpoint \<Rightarrow> string \<Rightarrow> miner" where
  "unreachable_miner e reason = wire_miner e [] (Some ''unreachable'') (''unreachable:'' @ reason)"

definition wire_miner_from_response ::
  "'b env \<Rightarrow> wire_keys \<Rightarrow> int \<Rightarrow> expected_request \<Rightarrow> miner_endpoint \<Rightarrow> wire_answer \<Rightarrow> exn + miner" where
  "wire_miner_from_response env ks cap x e answer =
     (case answer of
        Foreign err status \<Rightarrow> Inr (unreachable_miner e (answer_error answer))
      | Synapse r \<Rightarrow>
          if \<not> is_success_response answer then Inr (unreachable_miner e (answer_error answer))
          else
            (case verify_response_signature env ks e x r of
               Inl (Response_raised raised) \<Rightarrow> Inl raised
             | Inl (Not_authentic reason) \<Rightarrow> Inr (wire_miner e [] (Some ''invalid'') (''response_auth:'' @ reason))
             | Inr _ \<Rightarrow>
                 let n = response_payload_size env (sy_submissions r) in
                 if cap < n
                 then Inr (wire_miner e [] (Some ''invalid'') (''response_size:'' @ show_int n @ ''>'' @ show_int cap))
                 else Inr (wire_miner e (py_prefix (ex_quota x) (sy_submissions r)) None [])))"

text \<open>The answers of the dendrite, one per endpoint, or the exception of the query.\<close>

definition query_miners ::
  "'b env \<Rightarrow> wire_keys \<Rightarrow> int \<Rightarrow> expected_request \<Rightarrow> miner_endpoint list \<Rightarrow> exn + wire_answer list \<Rightarrow> exn + miner list" where
  "query_miners env ks cap x endpoints answers =
     (case answers of
        Inl raised \<Rightarrow> Inr (map (\<lambda>e. unreachable_miner e (''wire query failed: '' @ exn_text raised)) endpoints)
      | Inr rs \<Rightarrow>
          bind_result (map_result (\<lambda>(e, r). wire_miner_from_response env ks cap x e r) (zip endpoints rs)) (\<lambda>ms.
          if length endpoints \<noteq> length rs then Inl (value_error ''zip() argument lengths differ'') else Inr ms))"

section \<open>Endpoint texts\<close>

text \<open>The text of an endpoint with its cold key.\<close>

definition show_endpoint :: "miner_endpoint \<Rightarrow> string" where
  "show_endpoint e = me_host e @ '':'' @ show_int (me_port e) @ '':'' @ me_hotkey e @ '':'' @ me_coldkey e"

definition plain_text :: "string \<Rightarrow> bool" where
  "plain_text s \<longleftrightarrow> list_all (\<lambda>c. \<not> is_space c \<and> c \<noteq> CHR '':'' \<and> c \<noteq> CHR '','') s"

definition plain_endpoint :: "miner_endpoint \<Rightarrow> bool" where
  "plain_endpoint e \<longleftrightarrow> plain_text (me_host e) \<and> plain_text (me_hotkey e) \<and> plain_text (me_coldkey e)
     \<and> me_host e \<noteq> [] \<and> me_hotkey e \<noteq> [] \<and> 0 \<le> me_port e \<and> me_port e < 65536"

lemma split_on_free: "sep \<notin> set s \<Longrightarrow> split_on sep s = [s]"
  by (induction s) auto

lemma split_on_cons: "sep \<notin> set s \<Longrightarrow> split_on sep (s @ sep # t) = s # split_on sep t"
  by (induction s) auto

lemma split_on_join: "list_all (\<lambda>w. sep \<notin> set w) ws \<Longrightarrow> ws \<noteq> [] \<Longrightarrow> split_on sep (join [sep] ws) = ws"
  by (induction "[sep]" ws rule: join.induct) (auto simp: split_on_free split_on_cons)


text \<open>\<open>int(str(n))\<close>.\<close>

definition digits_fold :: "int \<Rightarrow> string \<Rightarrow> int" where
  "digits_fold acc s = foldl (\<lambda>a c. a * 10 + (int (of_char c) - 48)) acc s"

lemma digits_val_fold:
  "list_all (\<lambda>c. 48 \<le> (of_char c :: nat) \<and> (of_char c :: nat) \<le> 57) s \<Longrightarrow>
   digits_val acc k s = (if k + length s = 0 then None else Some (digits_fold acc s, k + length s))"
  by (induction s arbitrary: acc k) (auto simp: digits_fold_def digit_val_def Let_def)

lemma show_digit_char: "n < 10 \<Longrightarrow> (of_char (char_of (48 + n)) :: nat) = 48 + n"
  by (simp add: of_char_of take_bit_nat_eq_self_iff flip: take_bit_eq_mod)

lemma digits_fold_show: "digits_fold 0 (show_nat n) = int n"
proof (induction n rule: show_nat.induct)
  case (1 n)
  show ?case
  proof (cases "n < 10")
    case True
    then show ?thesis using show_digit_char [of n] by (simp add: show_nat.simps [of n] digits_fold_def)
  next
    case False
    then have "digits_fold 0 (show_nat n) = int (n div 10) * 10 + int (n mod 10)"
      using 1 show_digit_char [of "n mod 10"] by (simp add: show_nat.simps [of n] digits_fold_def)
    also have "\<dots> = int n" by presburger
    finally show ?thesis .
  qed
qed

lemma show_nat_length: "n < 10 ^ k \<Longrightarrow> 0 < k \<Longrightarrow> length (show_nat n) \<le> k"
proof (induction k arbitrary: n)
  case (Suc k)
  then show ?case
  proof (cases "n < 10")
    case False
    then have "0 < k" using Suc.prems(1) by (cases k) auto
    moreover have "n div 10 < 10 ^ k" using Suc.prems(1) by (simp add: less_mult_imp_div_less mult.commute)
    ultimately show ?thesis using Suc.IH False by (simp add: show_nat.simps [of n])
  qed (simp add: show_nat.simps [of n])
qed simp

lemma strip_free: "list_all (\<lambda>c. \<not> is_space c) s \<Longrightarrow> strip s = s"
proof -
  have drop: "list_all (\<lambda>c. \<not> is_space c) t \<Longrightarrow> dropWhile is_space t = t" for t by (cases t) auto
  assume "list_all (\<lambda>c. \<not> is_space c) s"
  moreover from this have "list_all (\<lambda>c. \<not> is_space c) (rev s)" by (simp add: list_all_iff)
  ultimately show ?thesis by (simp add: strip_def drop)
qed

lemma show_nat_list: "list_all (\<lambda>c. 48 \<le> (of_char c :: nat) \<and> (of_char c :: nat) \<le> 57) (show_nat n)"
  using show_nat_digits by (fastforce simp: list_all_iff)

lemma show_nat_plain: "c \<in> set (show_nat n) \<Longrightarrow> \<not> is_space c \<and> c \<noteq> CHR '':'' \<and> c \<noteq> CHR '','' \<and> c \<noteq> CHR ''-'' \<and> c \<noteq> CHR ''+''"
  using show_nat_digits [of c n] by (auto simp: is_space_def Let_def)

lemma int_of_show: "0 \<le> i \<Longrightarrow> i < 65536 \<Longrightarrow> int_of_text (show_int i) = Some i"
proof -
  assume i: "0 \<le> i" "i < 65536"
  let ?s = "show_nat (nat i)"
  have "strip ?s = ?s" by (rule strip_free) (use show_nat_plain in \<open>auto simp: list_all_iff\<close>)
  moreover obtain c cs where c: "?s = c # cs" by (cases ?s) auto
  then have "c \<noteq> CHR ''-''" "c \<noteq> CHR ''+''" using show_nat_plain [of c "nat i"] by auto
  then have "\<not> starts_with ?s ''-''" "\<not> starts_with ?s ''+''" using c by (simp_all add: starts_with_def)
  moreover have "length ?s \<le> 5" using i by (intro show_nat_length) simp_all
  ultimately show ?thesis
    using i digits_val_fold [OF show_nat_list, of 0 0 "nat i"] c
    by (simp add: int_of_text_def show_int_def digits_fold_show [of "nat i", unfolded c])
qed

lemma show_endpoint_split:
  assumes "plain_endpoint e"
  shows "split_on (CHR '':'') (show_endpoint e) = [me_host e, show_int (me_port e), me_hotkey e, me_coldkey e]"
proof -
  have "show_endpoint e = join [CHR '':''] [me_host e, show_int (me_port e), me_hotkey e, me_coldkey e]"
    by (simp add: show_endpoint_def)
  moreover have "list_all (\<lambda>w. CHR '':'' \<notin> set w) [me_host e, show_int (me_port e), me_hotkey e, me_coldkey e]"
    using assms show_nat_plain by (auto simp: plain_endpoint_def plain_text_def list_all_iff show_int_def)
  ultimately show ?thesis using split_on_join by (metis list.distinct(1))
qed

lemma parse_show_endpoint:
  "plain_endpoint e \<Longrightarrow> parse_endpoint (show_endpoint e) uid d = Inr (e\<lparr>me_uid := uid\<rparr>)"
  using show_endpoint_split [of e] int_of_show [of "me_port e"]
  by (simp add: parse_endpoint_def plain_endpoint_def)

lemma show_endpoint_text:
  "plain_endpoint e \<Longrightarrow> strip (show_endpoint e) = show_endpoint e \<and> CHR '','' \<notin> set (show_endpoint e) \<and> show_endpoint e \<noteq> []"
proof -
  assume e: "plain_endpoint e"
  have "\<not> is_space (CHR '':'')" by code_simp
  then have "list_all (\<lambda>c. \<not> is_space c) (show_endpoint e)"
    using e show_nat_plain by (auto simp: show_endpoint_def plain_endpoint_def plain_text_def list_all_iff show_int_def)
  moreover have "CHR '','' \<notin> set (show_endpoint e)"
    using e show_nat_plain by (auto simp: show_endpoint_def plain_endpoint_def plain_text_def list_all_iff show_int_def)
  ultimately show ?thesis using strip_free by (auto simp: show_endpoint_def)
qed

lemma parse_items_show:
  "list_all plain_endpoint es \<Longrightarrow>
   parse_items d k (map show_endpoint es) = Inr (map (\<lambda>(i, e). e\<lparr>me_uid := i\<rparr>) (zip [k .. k + int (length es) - 1] es))"
proof (induction es arbitrary: k)
  case (Cons e es)
  have "[k .. k + int (length (e # es)) - 1] = k # [k + 1 .. k + 1 + int (length es) - 1]"
    by (subst upto_rec1) (simp_all add: algebra_simps)
  with Cons parse_show_endpoint [of e k d] show_endpoint_text [of e] show ?case by simp
qed simp

text \<open>Endpoints written as host, port, hotkey and cold key and joined with commas are parsed back, each
  with its position as its uid.\<close>

lemma endpoints_round_trip:
  assumes "list_all plain_endpoint es" "es \<noteq> []"
  shows "parse_miner_endpoints (join '','' (map show_endpoint es)) d =
    Inr (map (\<lambda>(i, e). e\<lparr>me_uid := i\<rparr>) (zip [0 .. int (length es) - 1] es))"
proof -
  have "list_all (\<lambda>w. CHR '','' \<notin> set w) (map show_endpoint es)" "map show_endpoint es \<noteq> []"
    using assms show_endpoint_text by (auto simp: list_all_iff)
  then have "split_on (CHR '','') (join '','' (map show_endpoint es)) = map show_endpoint es"
    by (rule split_on_join)
  moreover have "map strip (map show_endpoint es) = map show_endpoint es"
    using assms(1) show_endpoint_text by (auto simp: list_all_iff)
  moreover have "zip [0 .. int (length es) - 1] es \<noteq> []"
    using assms(2) by (cases es) (simp_all add: upto_rec1)
  ultimately show ?thesis
    using parse_items_show [OF assms(1), of d 0] by (simp add: parse_miner_endpoints_def del: map_map map_eq_conv)
qed

definition sample_endpoints :: "miner_endpoint list" where
  "sample_endpoints =
     [\<lparr>me_host = ''203.0.113.7'', me_port = 8091, me_hotkey = ''5F'', me_uid = 3, me_coldkey = []\<rparr>,
      \<lparr>me_host = ''h'', me_port = 0, me_hotkey = ''5G'', me_uid = 9, me_coldkey = ''c''\<rparr>]"

lemma endpoints_round_trip_instance:
  "parse_miner_endpoints (join '','' (map show_endpoint sample_endpoints)) ''d'' =
     Inr [\<lparr>me_host = ''203.0.113.7'', me_port = 8091, me_hotkey = ''5F'', me_uid = 0, me_coldkey = []\<rparr>,
      \<lparr>me_host = ''h'', me_port = 0, me_hotkey = ''5G'', me_uid = 1, me_coldkey = ''c''\<rparr>]"
proof -
  have "list_all plain_endpoint sample_endpoints" by code_simp
  from endpoints_round_trip [OF this] show ?thesis by (simp add: sample_endpoints_def upto_rec1)
qed

section \<open>Bodies\<close>

lemma read_chunks_bound:
  "int (length body) \<le> max_bytes \<Longrightarrow> int (length (snd (read_chunks max_bytes chunks body))) \<le> max_bytes"
  by (induction chunks arbitrary: body) auto

lemma read_chunks_Inr:
  "read_chunks max_bytes chunks body = (Inr u, body') \<longleftrightarrow>
     body' = body @ concat chunks \<and> (chunks = [] \<or> int (length (body @ concat chunks)) \<le> max_bytes)"
proof (induction chunks arbitrary: body)
  case (Cons chunk chunks)
  then show ?case using Cons.IH [of "body @ chunk"] by (cases "chunks = []") auto
qed auto

text \<open>The body that is kept never exceeds the cap, whatever length is declared and whatever is streamed;
  a document comes back exactly when the declared length, if there is one, and the streamed body are within the
  cap and the body parses to an object.\<close>

lemma body_bounded:
  assumes "0 \<le> max_bytes"
  shows "int (length (snd (bounded_response_json parse max_bytes content_length chunks []))) \<le> max_bytes
    \<and> (fst (bounded_response_json parse max_bytes content_length chunks []) = Inr d \<longleftrightarrow>
         (content_length = None \<or> (\<exists>text n. content_length = Some text \<and> int_of_text text = Some n \<and> n \<le> max_bytes))
         \<and> int (length (concat chunks)) \<le> max_bytes \<and> parse (concat chunks) = Some (JObj d))"
proof -
  let ?declared = "(case content_length of None \<Rightarrow> Inr ()
      | Some text \<Rightarrow> (case int_of_text text of None \<Rightarrow> Inl Content_length_invalid
           | Some declared \<Rightarrow> if max_bytes < declared then Inl Declared_too_large else Inr ()))"
  have ok: "?declared = Inr () \<longleftrightarrow>
      content_length = None \<or> (\<exists>text n. content_length = Some text \<and> int_of_text text = Some n \<and> n \<le> max_bytes)"
    by (auto split: option.splits)
  have kept: "int (length (snd (read_chunks max_bytes chunks []))) \<le> max_bytes"
    using read_chunks_bound [of "[]" max_bytes chunks] assms by simp
  show ?thesis
  proof (cases "?declared")
    case (Inl e)
    then have "bounded_response_json parse max_bytes content_length chunks [] = (Inl e, [])"
      by (simp add: bounded_response_json_def bind_op_def lift_op_def)
    with Inl ok assms show ?thesis by auto
  next
    case (Inr u)
    obtain q body where run: "read_chunks max_bytes chunks [] = (q, body)" by (cases "read_chunks max_bytes chunks []")
    have eq: "bounded_response_json parse max_bytes content_length chunks [] =
        (case q of Inl e \<Rightarrow> (Inl e, body)
         | Inr _ \<Rightarrow> (case parse body of None \<Rightarrow> Inl Body_not_json | Some (JObj d) \<Rightarrow> Inr d | Some _ \<Rightarrow> Inl Body_not_object, body))"
      using Inr run by (simp add: bounded_response_json_def bind_op_def lift_op_def get_op_def split: sum.split)
    have "q = Inr () \<longleftrightarrow> int (length (concat chunks)) \<le> max_bytes"
      using read_chunks_Inr [of max_bytes chunks "[]" "()" body] run assms
        read_chunks_Inr [of max_bytes chunks "[]" "()" "concat chunks"] by (cases chunks) auto
    moreover have "q = Inr () \<Longrightarrow> body = concat chunks"
      using read_chunks_Inr [of max_bytes chunks "[]" "()" body] run by simp
    ultimately show ?thesis
      using eq kept run ok Inr by (cases q) (auto split: option.splits json.splits)
  qed
qed

lemma body_bounded_instance:
  "fst (bounded_response_json (\<lambda>b. if b = ''{}'' then Some (JObj []) else None) 2 (Some ''2'') [''{'', ''}''] []) = Inr []"
proof -
  let ?parse = "\<lambda>b. if b = ''{}'' then Some (JObj []) else None"
  have "int_of_text ''2'' = Some 2" by code_simp
  with body_bounded [of 2 ?parse "Some ''2''" "[''{'', ''}'']" "[]"] show ?thesis by simp
qed

section \<open>Authentication\<close>

text \<open>What a response must be for its signature to be checked, and what the signature covers.\<close>

definition answers_request :: "'b env \<Rightarrow> miner_endpoint \<Rightarrow> expected_request \<Rightarrow> task_synapse \<Rightarrow> request_terminal \<Rightarrow> bool" where
  "answers_request env e x r t \<longleftrightarrow>
     sy_dendrite r = Some t \<and> sy_protocol r = wire_protocol_version \<and> sy_request_id r = ex_request_id x
     \<and> sy_epoch r = ex_epoch x \<and> sy_quota r = ex_quota x \<and> rt_hotkey t = Some (ex_validator x)
     \<and> sy_response_hotkey r = me_hotkey e \<and> sy_response_digest r = submissions_digest env (sy_submissions r)
     \<and> sy_response_signature r \<noteq> []"

definition signed_message :: "'b env \<Rightarrow> miner_endpoint \<Rightarrow> task_synapse \<Rightarrow> request_terminal \<Rightarrow> string" where
  "signed_message env e r t = response_message r t (me_hotkey e) (submissions_digest env (sy_submissions r))"

lemma verify_Inr:
  "verify_response_signature env ks e x r = Inr u \<longleftrightarrow>
     (\<exists>t. answers_request env e x r t \<and> ascii (submissions_digest env (sy_submissions r))
        \<and> wk_verify ks (me_hotkey e) (signed_message env e r t) (sy_response_signature r) = Inr True)"
  by (auto simp: verify_response_signature_def answers_request_def signed_message_def Let_def compare_digest_def
      split: option.split)

lemma wire_miner_terminal [simp]:
  "terminal (wire_miner e payloads (Some (c # cs)) reason)" "\<not> terminal (wire_miner e payloads None reason)"
  by (simp_all add: terminal_def wire_miner_def)

lemma terminal_unreachable [simp]: "terminal (unreachable_miner e reason)"
  by (simp add: unreachable_miner_def)

lemma accepted_response:
  "wire_miner_from_response env ks cap x e answer = Inr m \<and> \<not> terminal m \<longleftrightarrow>
     (\<exists>r. answer = Synapse r \<and> sy_success r \<and> sy_error r = [] \<and> verify_response_signature env ks e x r = Inr ()
        \<and> response_payload_size env (sy_submissions r) \<le> cap
        \<and> m = wire_miner e (py_prefix (ex_quota x) (sy_submissions r)) None [])"
  by (auto simp: wire_miner_from_response_def Let_def split: wire_answer.splits sum.splits response_error.splits if_splits)

text \<open>C10: submissions of a miner reach the epoch only from a successful response to the very request (protocol,
  request id, epoch, quota and validator), that names the endpoint's hotkey, whose digest is that of the submissions,
  whose signature the endpoint's key verifies over all of these, and whose size is within the cap; the engine gets
  its submissions up to the quota.\<close>

theorem authenticated_payloads:
  assumes "wire_miner_from_response env ks cap x e answer = Inr m" "mn_submissions m n q \<noteq> []"
  shows "\<exists>r t. answer = Synapse r \<and> sy_success r \<and> sy_error r = [] \<and> answers_request env e x r t
    \<and> wk_verify ks (me_hotkey e) (signed_message env e r t) (sy_response_signature r) = Inr True
    \<and> response_payload_size env (sy_submissions r) \<le> cap \<and> mn_hotkey m = me_hotkey e \<and> mn_uid m = me_uid e
    \<and> mn_submissions m n q = py_prefix q (py_prefix (ex_quota x) (sy_submissions r))"
proof -
  have "\<not> terminal m"
  proof
    assume t: "terminal m"
    have "mn_submissions m n q = []"
      using assms(1) t by (auto simp: wire_miner_from_response_def unreachable_miner_def wire_miner_def terminal_def Let_def py_prefix_def
          split: wire_answer.splits sum.splits response_error.splits if_splits)
    with assms(2) show False by simp
  qed
  with assms(1) accepted_response [of env ks cap x e answer m] verify_Inr [of env ks e x] show ?thesis
    by (force simp: wire_miner_def)
qed

definition sample_wire_keys :: wire_keys where
  "sample_wire_keys = \<lparr>wk_sign = (\<lambda>address message. address @ '':'' @ message),
     wk_verify = (\<lambda>address message signature. Inr (signature = ''0x'' @ address @ '':'' @ message))\<rparr>"

definition sample_endpoint :: miner_endpoint where
  "sample_endpoint = \<lparr>me_host = ''203.0.113.7'', me_port = 8091, me_hotkey = ''5F'', me_uid = 3, me_coldkey = []\<rparr>"

definition sample_request_id :: string where
  "sample_request_id = replicate 32 (CHR ''a'')"

definition sample_expected :: expected_request where
  "sample_expected = \<lparr>ex_epoch = 7, ex_quota = 1, ex_request_id = sample_request_id, ex_validator = ''5V''\<rparr>"

definition unsigned_response :: task_synapse where
  "unsigned_response =
     \<lparr>sy_dendrite = Some \<lparr>rt_nonce = Some 12, rt_uuid = None, rt_hotkey = Some ''5V'', rt_status_message = []\<rparr>,
      sy_success = True, sy_protocol = wire_protocol_version, sy_request_id = sample_request_id, sy_epoch = 7, sy_quota = 1,
      sy_submissions = [[(''task_id'', JStr ''t'')], []], sy_error = [], sy_response_hotkey = [], sy_response_digest = [],
      sy_response_signature = []\<rparr>"

definition signed_response :: task_synapse where
  "signed_response = (case sign_response plain_env sample_wire_keys ''5F'' unsigned_response of Inr r \<Rightarrow> r | Inl _ \<Rightarrow> unsigned_response)"

lemma signed_response_ok: "sign_response plain_env sample_wire_keys ''5F'' unsigned_response = Inr signed_response"
  by (simp add: signed_response_def sign_response_def unsigned_response_def request_id_is_valid_def sample_request_id_def
      list_all_iff Let_def)

lemma signed_response_accepted:
  "wire_miner_from_response plain_env sample_wire_keys 1000 sample_expected sample_endpoint (Synapse signed_response) =
     Inr (wire_miner sample_endpoint [[(''task_id'', JStr ''t'')]] None [])"
proof -
  have "verify_response_signature plain_env sample_wire_keys sample_endpoint sample_expected signed_response = Inr ()"
    by (simp add: verify_response_signature_def signed_response_def sign_response_def unsigned_response_def
        request_id_is_valid_def sample_request_id_def sample_expected_def sample_endpoint_def sample_wire_keys_def list_all_iff Let_def compare_digest_def
        submissions_digest_def plain_env_def ascii_def response_message_def message_fields_def)
  then show ?thesis
    by (simp add: wire_miner_from_response_def signed_response_def sign_response_def unsigned_response_def
        request_id_is_valid_def sample_request_id_def list_all_iff Let_def response_payload_size_def plain_env_def sample_expected_def py_prefix_def)
qed

theorem authenticated_payloads_witness:
  "\<exists>t. answers_request plain_env sample_endpoint sample_expected signed_response t
     \<and> wk_verify sample_wire_keys ''5F'' (signed_message plain_env sample_endpoint signed_response t)
         (sy_response_signature signed_response) = Inr True"
proof -
  have "mn_submissions (wire_miner sample_endpoint [[(''task_id'', JStr ''t'')]] None []) 7 1 \<noteq> []"
    by (simp add: wire_miner_def py_prefix_def)
  from authenticated_payloads [OF signed_response_accepted this] show ?thesis
    by (auto simp: sample_endpoint_def)
qed

text \<open>What \<open>sign_response\<close> makes of a successful answer to the very request is accepted, and the
  engine gets its submissions up to the quota; key pairs are to verify their own signatures and digests to be
  text in ASCII.\<close>

lemma signed_response_round_trip:
  assumes "sign_response env ks (me_hotkey e) r = Inr r'"
    and "wk_verify ks (me_hotkey e) m (''0x'' @ wk_sign ks (me_hotkey e) m) = Inr True"
    and "m = response_message r t (me_hotkey e) (submissions_digest env (sy_submissions r))"
    and "ascii (submissions_digest env (sy_submissions r))"
    and "sy_success r" "sy_error r = []" "sy_dendrite r = Some t" "sy_protocol r = wire_protocol_version"
    and "x = \<lparr>ex_epoch = sy_epoch r, ex_quota = sy_quota r, ex_request_id = sy_request_id r, ex_validator = v\<rparr>" "rt_hotkey t = Some v"
    and "response_payload_size env (sy_submissions r) \<le> cap"
  shows "wire_miner_from_response env ks cap x e (Synapse r') = Inr (wire_miner e (py_prefix (sy_quota r) (sy_submissions r)) None [])"
proof -
  have r': "r' = r\<lparr>sy_response_hotkey := me_hotkey e, sy_response_digest := submissions_digest env (sy_submissions r),
      sy_response_signature := ''0x'' @ wk_sign ks (me_hotkey e) m\<rparr>"
    using assms(1,3,7) by (auto simp: sign_response_def Let_def split: if_splits)
  have "verify_response_signature env ks e x r' = Inr ()"
    using assms(2-10) by (simp add: verify_Inr answers_request_def signed_message_def r' response_message_def message_fields_def)
  then show ?thesis
    using assms(5,6,9,11) by (simp add: wire_miner_from_response_def r' Let_def)
qed

lemma signed_response_round_trip_instance:
  "wire_miner_from_response plain_env sample_wire_keys 1000 sample_expected sample_endpoint (Synapse signed_response) =
     Inr (wire_miner sample_endpoint (py_prefix 1 (sy_submissions unsigned_response)) None [])"
proof -
  have e: "me_hotkey sample_endpoint = ''5F''" by (simp add: sample_endpoint_def)
  have "wk_verify sample_wire_keys ''5F'' m (''0x'' @ wk_sign sample_wire_keys ''5F'' m) = Inr True" for m
    by (simp add: sample_wire_keys_def)
  from signed_response_round_trip [of plain_env sample_wire_keys sample_endpoint, unfolded e,
      OF signed_response_ok this refl, of _ sample_expected "''5V''" 1000]
  show ?thesis
    by (simp add: unsigned_response_def sample_expected_def submissions_digest_def plain_env_def ascii_def list_all_iff response_payload_size_def)
qed

text \<open>A response that carries the signature made for another response is not accepted: when it is, request id,
  nonce, uuid, validator, epoch, quota and digest are those that were signed.  A signature is to verify for the message
  that was signed only.\<close>

lemma signature_binds_request:
  assumes "sign_response env ks a r = Inr s" "sy_dendrite r = Some t"
    and "\<And>m m'. wk_verify ks a m (''0x'' @ wk_sign ks a m') = Inr True \<Longrightarrow> m = m'"
    and "wire_miner_from_response env ks cap x e (Synapse r') = Inr miner" "\<not> terminal miner" "me_hotkey e = a"
    and "sy_response_signature r' = sy_response_signature s" "sy_dendrite r' = Some t'"
  shows "ex_request_id x = sy_request_id r \<and> ex_epoch x = sy_epoch r \<and> ex_quota x = sy_quota r
    \<and> Some (ex_validator x) = rt_hotkey t \<and> rt_nonce t' = rt_nonce t \<and> rt_uuid t' = rt_uuid t
    \<and> submissions_digest env (sy_submissions r') = submissions_digest env (sy_submissions r)"
proof -
  have sig: "sy_response_signature s = ''0x'' @ wk_sign ks a (response_message r t a (submissions_digest env (sy_submissions r)))"
    using assms(1,2) by (auto simp: sign_response_def Let_def split: if_splits)
  have v: "verify_response_signature env ks e x r' = Inr ()"
    using assms(4,5) accepted_response [of env ks cap x e "Synapse r'" miner] by auto
  then have q: "answers_request env e x r' t'"
    and "wk_verify ks a (signed_message env e r' t') (sy_response_signature r') = Inr True"
    using assms(6,8) by (auto simp: verify_Inr answers_request_def)
  then have "signed_message env e r' t' = response_message r t a (submissions_digest env (sy_submissions r))"
    using assms(3,7) sig by simp
  then have same: "compact_object (message_fields r' t' a (submissions_digest env (sy_submissions r'))) =
      compact_object (message_fields r t a (submissions_digest env (sy_submissions r)))"
    using assms(6) by (simp add: signed_message_def response_message_def)
  have "message_fields r' t' a (submissions_digest env (sy_submissions r')) =
      message_fields r t a (submissions_digest env (sy_submissions r))"
    by (rule compact_object_inj [OF _ _ same]) (simp_all add: message_fields_def)
  moreover have "opt_text_scalar u = opt_text_scalar w \<longleftrightarrow> u = w" for u w by (cases u; cases w) simp_all
  moreover have "opt_int_scalar i = opt_int_scalar j \<longleftrightarrow> i = j" for i j by (cases i; cases j) simp_all
  ultimately show ?thesis using q by (auto simp: message_fields_def answers_request_def)
qed

lemma signature_binds_request_instance:
  "submissions_digest plain_env (sy_submissions signed_response) = submissions_digest plain_env (sy_submissions unsigned_response)
     \<and> ex_request_id sample_expected = sy_request_id unsigned_response \<and> Some (ex_validator sample_expected) = Some ''5V''"
proof -
  have t: "sy_dendrite unsigned_response = Some \<lparr>rt_nonce = Some 12, rt_uuid = None, rt_hotkey = Some ''5V'', rt_status_message = []\<rparr>"
    by (simp add: unsigned_response_def)
  have t': "sy_dendrite signed_response = Some \<lparr>rt_nonce = Some 12, rt_uuid = None, rt_hotkey = Some ''5V'', rt_status_message = []\<rparr>"
    by (simp add: signed_response_def sign_response_def t Let_def)
  have bind: "wk_verify sample_wire_keys ''5F'' m (''0x'' @ wk_sign sample_wire_keys ''5F'' m') = Inr True \<Longrightarrow> m = m'" for m m'
    by (simp add: sample_wire_keys_def)
  have "me_hotkey sample_endpoint = ''5F''" by (simp add: sample_endpoint_def)
  from signature_binds_request [OF signed_response_ok t bind signed_response_accepted wire_miner_terminal(2) this refl t']
  show ?thesis by simp
qed

section \<open>Queries\<close>

lemma wire_miner_from_response_endpoint:
  "wire_miner_from_response env ks cap x e answer = Inr m \<Longrightarrow> mn_hotkey m = me_hotkey e \<and> mn_uid m = me_uid e"
  by (auto simp: wire_miner_from_response_def unreachable_miner_def wire_miner_def Let_def
      split: wire_answer.splits sum.splits response_error.splits if_splits)

lemma map_result_zip_endpoints:
  "map_result (\<lambda>(e, r). wire_miner_from_response env ks cap x e r) (zip es rs) = Inr ms \<Longrightarrow> length es = length rs \<Longrightarrow>
   map mn_hotkey ms = map me_hotkey es \<and> map mn_uid ms = map me_uid es"
proof (induction es arbitrary: rs ms)
  case (Cons e es)
  then obtain r rs' where rs: "rs = r # rs'" by (cases rs) auto
  with Cons show ?case using wire_miner_from_response_endpoint by fastforce
qed simp

text \<open>A query gives one miner per endpoint, in their order, and raises only for what a response makes raise.\<close>

lemma query_covers_endpoints:
  "query_miners env ks cap x endpoints answers = Inr ms \<Longrightarrow>
   map mn_hotkey ms = map me_hotkey endpoints \<and> map mn_uid ms = map me_uid endpoints"
  by (auto simp: query_miners_def unreachable_miner_def wire_miner_def comp_def map_result_zip_endpoints
      split: sum.splits if_splits)

lemma response_raises:
  "wire_miner_from_response env ks cap x e answer = Inl raised \<longleftrightarrow>
     (\<exists>r. answer = Synapse r \<and> is_success_response answer \<and> verify_response_signature env ks e x r = Inl (Response_raised raised))"
  by (auto simp: wire_miner_from_response_def Let_def split: wire_answer.splits sum.splits response_error.splits if_splits)

text \<open>
  A digest that is not ASCII is not a mismatch: the comparison raises, out of the handler for
  responses that are not authentic, and the answers of the other miners are lost.
\<close>

lemma foreign_digest_aborts_query:
  assumes "sy_success r" "sy_error r = []" "sy_dendrite r = Some t" "sy_protocol r = wire_protocol_version"
    and "x = \<lparr>ex_epoch = sy_epoch r, ex_quota = sy_quota r, ex_request_id = sy_request_id r, ex_validator = v\<rparr>"
    and "rt_hotkey t = Some v" "sy_response_hotkey r = me_hotkey e" "\<not> ascii (sy_response_digest r)"
  shows "\<exists>raised. query_miners env ks cap x (e # es) (Inr (Synapse r # rs)) = Inl raised \<and> exn_type raised = ''TypeError''"
proof -
  have "\<exists>raised. wire_miner_from_response env ks cap x e (Synapse r) = Inl raised \<and> exn_type raised = ''TypeError''"
    using assms by (simp add: response_raises verify_response_signature_def compare_digest_def Let_def type_error_def)
  then obtain raised where "wire_miner_from_response env ks cap x e (Synapse r) = Inl raised" "exn_type raised = ''TypeError''" by blast
  then show ?thesis by (simp add: query_miners_def)
qed

end
