(* ===== verification/Replay.thy ===== *)
theory Replay
  imports Epoch Json_Text
begin

text \<open>
  \<open>replay_epoch\<close> and \<open>assert_replay_matches\<close> of \<open>src/dolores_subnet/epoch.py\<close>: the
  scores and weights of an epoch derived again from the submission log and the weights artifact, and
  compared with the artifact.  The documents read back may hold any JSON, so keys of dictionaries are
  JSON values compared as Python does.
\<close>

section \<open>Reading\<close>

definition key_error :: "string \<Rightarrow> exn" where
  "key_error k = \<lparr>exn_type = ''KeyError'', exn_text = k\<rparr>"

text \<open>\<open>v[k]\<close> for text \<open>k\<close>.\<close>

definition subscript :: "json \<Rightarrow> string \<Rightarrow> exn + json" where
  "subscript v k =
     (case v of
        JObj d \<Rightarrow> (case map_of d k of None \<Rightarrow> Inl (key_error k) | Some w \<Rightarrow> Inr w)
      | _ \<Rightarrow> Inl (type_error ''not subscriptable by text''))"

text \<open>\<open>json.loads(path.read_text())\<close>.\<close>

definition read_json :: "'b env \<Rightarrow> 'b disk \<Rightarrow> string \<Rightarrow> exn + json" where
  "read_json env fs p =
     (case fs p of
        None \<Rightarrow> Inl \<lparr>exn_type = ''FileNotFoundError'', exn_text = p\<rparr>
      | Some b \<Rightarrow> (case loads env b of None \<Rightarrow> Inl \<lparr>exn_type = ''JSONDecodeError'', exn_text = p\<rparr> | Some v \<Rightarrow> Inr v))"

text \<open>\<open>list(v)\<close>.\<close>

definition py_list :: "json \<Rightarrow> exn + json list" where
  "py_list v =
     (case v of
        JObj d \<Rightarrow> Inr (map (\<lambda>kv. JStr (fst kv)) d)
      | JArr xs \<Rightarrow> Inr xs
      | JStr s \<Rightarrow> Inr (map (\<lambda>c. JStr [c]) s)
      | _ \<Rightarrow> Inl (type_error ''object is not iterable''))"

fun rows_of_epoch :: "int \<Rightarrow> jdict list \<Rightarrow> exn + jdict list" where
  "rows_of_epoch n [] = Inr []"
| "rows_of_epoch n (row # rows) =
     bind_result (subscript (JObj row) ''epoch_id'') (\<lambda>e.
     bind_result (rows_of_epoch n rows) (\<lambda>rs. Inr (if py_eq e (JInt n) then row # rs else rs)))"

section \<open>Replay\<close>

text \<open>\<open>setdefault(k, [])\<close> and appending to it.\<close>

fun add_values :: "(json \<times> pyfloat list) list \<Rightarrow> json \<Rightarrow> pyfloat list \<Rightarrow> (json \<times> pyfloat list) list" where
  "add_values [] k vs = [(k, vs)]"
| "add_values ((k', ws) # d) k vs = (if py_eq k' k then (k', ws @ vs) # d else (k', ws) # add_values d k vs)"

fun replay_values :: "'b env \<Rightarrow> jdict list \<Rightarrow> (json \<times> pyfloat list) list \<Rightarrow> exn + (json \<times> pyfloat list) list" where
  "replay_values env [] d = Inr d"
| "replay_values env (row # rows) d =
     bind_result (subscript (JObj row) ''miner_hotkey'') (\<lambda>hotkey.
     if \<not> hashable hotkey then Inl (type_error ''unhashable type'')
     else
       bind_result (subscript (JObj row) ''status'') (\<lambda>status.
       if py_eq status (JStr ''infra_error'') then replay_values env rows (add_values d hotkey [])
       else
         bind_result (subscript (JObj row) ''task_value'') (\<lambda>v.
         bind_result (py_float env v) (\<lambda>f. replay_values env rows (add_values d hotkey [f])))))"

text \<open>\<open>{hotkey: float(ema_state.get(hotkey, 0.0)) for hotkey in active}\<close>.\<close>

fun active_scores :: "'b env \<Rightarrow> json \<Rightarrow> json list \<Rightarrow> (json \<times> pyfloat) list \<Rightarrow> exn + (json \<times> pyfloat) list" where
  "active_scores env ema [] d = Inr d"
| "active_scores env ema (hotkey # hotkeys) d =
     bind_result
       (case ema of
          JObj e \<Rightarrow>
            if \<not> hashable hotkey then Inl (type_error ''unhashable type'')
            else Inr (case hotkey of JStr s \<Rightarrow> jget_or e s (JFloat (Fin 0)) | _ \<Rightarrow> JFloat (Fin 0))
        | _ \<Rightarrow> Inl \<lparr>exn_type = ''AttributeError'', exn_text = ''object has no attribute get''\<rparr>) (\<lambda>v.
     bind_result (py_float env v) (\<lambda>f. active_scores env ema hotkeys (key_put d hotkey f)))"

record replay =
  rp_epoch_scores :: "(json \<times> pyfloat) list"
  rp_weights :: "(json \<times> pyfloat) list"

fun log_exn :: "jsonl_error \<Rightarrow> exn" where
  "log_exn (Corrupt_record k) = value_error ''corrupt JSONL record''"
| "log_exn (Not_an_object_record k) = value_error ''JSONL record must be an object''"
| "log_exn Unterminated_not_an_object = value_error ''unterminated JSONL final record must be an object''"

definition replay_epoch :: "'b env \<Rightarrow> 'b disk \<Rightarrow> jsonl_error + jdict list \<Rightarrow> int \<Rightarrow> exn + replay" where
  "replay_epoch env fs entries n =
     bind_result (read_json env fs (weights_path n)) (\<lambda>artifact.
     bind_result (map_error log_exn entries) (\<lambda>all_rows.
     bind_result (rows_of_epoch n all_rows) (\<lambda>rows.
     bind_result (subscript artifact ''config'') (\<lambda>config.
     bind_result (subscript config ''quota'') (\<lambda>q.
     bind_result (int_exn (py_int q)) (\<lambda>quota.
     bind_result (replay_values env rows []) (\<lambda>values.
     bind_result (subscript artifact ''ema_state'') (\<lambda>ema.
     bind_result (subscript artifact ''weights'') (\<lambda>weights.
     bind_result (py_list weights) (\<lambda>active.
     bind_result (active_scores env ema active []) (\<lambda>scores.
     Inr \<lparr>rp_epoch_scores = top_k_epoch_scores values quota, rp_weights = normalize_weights scores\<rparr>)))))))))))"

text \<open>A dictionary of floats compared with a document; a key that is not text equals no key of an object.\<close>

definition matches :: "(json \<times> pyfloat) list \<Rightarrow> json \<Rightarrow> bool" where
  "matches d v =
     (case v of
        JObj e \<Rightarrow> length d = length e
          \<and> list_all (\<lambda>(k, f). case k of JStr s \<Rightarrow> (case map_of e s of None \<Rightarrow> False | Some w \<Rightarrow> py_eq (JFloat f) w) | _ \<Rightarrow> False) d
      | _ \<Rightarrow> False)"

definition assertion_error :: "string \<Rightarrow> exn" where
  "assertion_error text = \<lparr>exn_type = ''AssertionError'', exn_text = text\<rparr>"

definition assert_replay_matches :: "'b env \<Rightarrow> 'b disk \<Rightarrow> jsonl_error + jdict list \<Rightarrow> int \<Rightarrow> exn + unit" where
  "assert_replay_matches env fs entries n =
     bind_result (read_json env fs (weights_path n)) (\<lambda>artifact.
     bind_result (replay_epoch env fs entries n) (\<lambda>replayed.
     bind_result (subscript artifact ''epoch_scores'') (\<lambda>scores.
     bind_result (require (matches (rp_epoch_scores replayed) scores) (assertion_error ''epoch_scores mismatch'')) (\<lambda>_.
     bind_result (subscript artifact ''weights'') (\<lambda>weights.
     require (matches (rp_weights replayed) weights) (assertion_error ''weights mismatch''))))))"

section \<open>Rows of an epoch\<close>

lemma subscript_text: "map_of d k = Some v \<Longrightarrow> subscript (JObj d) k = Inr v"
  by (simp add: subscript_def)

lemma rows_of_epoch_append:
  "list_all (\<lambda>r. has_key r ''epoch_id'' \<and> \<not> py_eq (jget r ''epoch_id'') (JInt n)) rows \<Longrightarrow>
   rows_of_epoch n (rows @ rs) = rows_of_epoch n rs"
proof (induction rows)
  case (Cons r rows)
  then obtain v where "map_of r ''epoch_id'' = Some v" "\<not> py_eq v (JInt n)"
    by (auto simp: has_key_def dest: map_of_jget)
  moreover have "rows_of_epoch n (rows @ rs) = rows_of_epoch n rs" using Cons by simp
  ultimately show ?case by (cases "rows_of_epoch n rs") (simp_all add: subscript_text del: py_eq.simps)
qed simp

lemma map_of_log_row: "map_of (log_row x mo) k =
  map_option canon_json (map_of (outcome_record (in_epoch x) (mn_hotkey (fst mo)) (mn_uid (fst mo)) (snd mo)
    @ [(''created_at'', JStr (in_created_at x))]) k)"
  by (simp only: log_row_def map_of_canon)

lemma log_row_at:
  "map_of (log_row x mo) ''epoch_id'' = Some (JInt (in_epoch x))"
  "map_of (log_row x mo) ''miner_hotkey'' = Some (JStr (mn_hotkey (fst mo)))"
  "map_of (log_row x mo) ''status'' = Some (JStr (so_status (snd mo)))"
  "map_of (log_row x mo) ''task_value'' = Some (JFloat (so_task_value (snd mo)))"
  by (simp_all add: map_of_log_row outcome_record_def)

lemma log_row_fields:
  "subscript (JObj (log_row x mo)) ''epoch_id'' = Inr (JInt (in_epoch x))"
  "subscript (JObj (log_row x mo)) ''miner_hotkey'' = Inr (JStr (mn_hotkey (fst mo)))"
  "subscript (JObj (log_row x mo)) ''status'' = Inr (JStr (so_status (snd mo)))"
  "subscript (JObj (log_row x mo)) ''task_value'' = Inr (JFloat (so_task_value (snd mo)))"
  using log_row_at [of x mo] by (auto intro: subscript_text)

lemma rows_of_log: "rows_of_epoch (in_epoch x) (map (log_row x) outs) = Inr (map (log_row x) outs)"
  by (induction outs) (simp_all add: log_row_fields)

section \<open>Replayed scores\<close>

lemma add_values_text:
  "map_of (add_values d (JStr h) vs) (JStr g) =
     (if g = h then Some ((case map_of d (JStr h) of None \<Rightarrow> [] | Some ws \<Rightarrow> ws) @ vs) else map_of d (JStr g))"
  by (induction d) auto

lemma add_values_keys:
  "map fst (add_values d (JStr h) vs) = (if JStr h \<in> set (map fst d) then map fst d else map fst d @ [JStr h])"
proof (induction d)
  case (Cons kv d)
  then show ?case by (cases kv) (auto simp del: set_map)
qed simp

lemma replay_values_log:
  "\<exists>d'. replay_values env (map (log_row x) outs) d = Inr d'
     \<and> (\<forall>h. map_of d' (JStr h) =
          (if h \<in> (\<lambda>mo. mn_hotkey (fst mo)) ` set outs
           then Some ((case map_of d (JStr h) of None \<Rightarrow> [] | Some ws \<Rightarrow> ws) @ values_of outs h) else map_of d (JStr h)))
     \<and> fst ` set d' = fst ` set d \<union> (\<lambda>mo. JStr (mn_hotkey (fst mo))) ` set outs
     \<and> (distinct (map fst d) \<longrightarrow> distinct (map fst d'))"
proof (induction outs arbitrary: d)
  case (Cons mo outs)
  let ?h = "mn_hotkey (fst mo)"
  let ?vs = "if so_status (snd mo) = ''infra_error'' then [] else [so_task_value (snd mo)]"
  let ?d = "add_values d (JStr ?h) ?vs"
  have step: "replay_values env (map (log_row x) (mo # outs)) d = replay_values env (map (log_row x) outs) ?d"
    by (simp add: log_row_fields py_float_def)
  have vals: "values_of (mo # outs) h = (if h = ?h then ?vs else []) @ values_of outs h" for h
    by (cases mo) (auto simp: values_of_def)
  have keys: "fst ` set ?d = insert (JStr ?h) (fst ` set d)" "distinct (map fst d) \<longrightarrow> distinct (map fst ?d)"
    using add_values_keys [of d ?h ?vs] by (simp_all flip: set_map split: if_split) (metis insert_absorb list.set_map)?
  from Cons.IH [of ?d] obtain d' where d': "replay_values env (map (log_row x) outs) ?d = Inr d'"
    "\<And>h. map_of d' (JStr h) = (if h \<in> (\<lambda>mo. mn_hotkey (fst mo)) ` set outs
           then Some ((case map_of ?d (JStr h) of None \<Rightarrow> [] | Some ws \<Rightarrow> ws) @ values_of outs h) else map_of ?d (JStr h))"
    "fst ` set d' = fst ` set ?d \<union> (\<lambda>mo. JStr (mn_hotkey (fst mo))) ` set outs"
    "distinct (map fst ?d) \<longrightarrow> distinct (map fst d')" by blast
  have none: "h \<notin> (\<lambda>mo. mn_hotkey (fst mo)) ` set outs \<Longrightarrow> values_of outs h = []" for h
    by (force simp: values_of_def filter_empty_conv)
  have "map_of d' (JStr h) =
      (if h \<in> (\<lambda>mo. mn_hotkey (fst mo)) ` set (mo # outs)
       then Some ((case map_of d (JStr h) of None \<Rightarrow> [] | Some ws \<Rightarrow> ws) @ values_of (mo # outs) h) else map_of d (JStr h))" for h
    using d'(2) [of h] none [of h] by (cases "h = ?h") (simp_all add: add_values_text vals)
  moreover have "fst ` set d' = fst ` set d \<union> (\<lambda>mo. JStr (mn_hotkey (fst mo))) ` set (mo # outs)"
    using d'(3) keys(1) by auto
  ultimately show ?case using d'(1,4) keys(2) unfolding step by blast
qed auto

section \<open>Comparison with the artifact\<close>

lemma matches_obj:
  "matches d (JObj e) \<longleftrightarrow> length d = length e
     \<and> (\<forall>(k, f) \<in> set d. \<exists>s w. k = JStr s \<and> map_of e s = Some w \<and> py_eq (JFloat f) w)"
proof -
  have "(case k of JStr s \<Rightarrow> (case map_of e s of None \<Rightarrow> False | Some w \<Rightarrow> py_eq (JFloat f) w) | _ \<Rightarrow> False) \<longleftrightarrow>
      (\<exists>s w. k = JStr s \<and> map_of e s = Some w \<and> py_eq (JFloat f) w)" for k and f
    by (cases k) (simp_all split: option.split del: py_eq.simps)
  then show ?thesis by (simp add: matches_def list_all_iff del: py_eq.simps)
qed

lemma map_of_floats: "map_of (map (\<lambda>(k, v). (k, JFloat v)) d) k = map_option JFloat (map_of d k)"
  by (induction d) auto

text \<open>A dictionary of floats as it is read back from an artifact.\<close>

definition stored :: "(string, pyfloat) dict \<Rightarrow> jdict" where
  "stored d = canon_fields (map (\<lambda>(k, v). (k, JFloat v)) (dict_sorted d))"

lemma canon_scores_json: "canon_json (scores_json d) = JObj (stored d)"
  by (simp add: scores_json_obj stored_def)

lemma stored_get: "map_of (stored d) k = map_option JFloat (map_of d k)"
  by (simp add: stored_def map_of_floats dict_sorted_def map_of_sort_key option.map_comp comp_def)

lemma canon_fields_keys: "map fst (canon_fields d) = sort (map fst d)"
  by (simp add: canon_fields_def comp_def flip: map_fst_sort_key)

lemma stored_keys: "map fst (stored d) = sort (map fst d)"
  by (simp add: stored_def canon_fields_keys comp_def case_prod_beta dict_sorted_def map_fst_sort_key sorted_sort_id)

lemma length_stored: "length (stored d) = length d"
  using arg_cong [OF stored_keys [of d], of length] by simp

lemma matches_stored:
  assumes "distinct (map fst a)" "distinct (map fst d)" "fst ` set d = JStr ` hs" "hs \<subseteq> set (map fst a)"
    and "\<And>h. h \<in> hs \<Longrightarrow> \<exists>v. map_of d (JStr h) = Some v \<and> map_of a h = Some v \<and> v \<noteq> NaN"
  shows "matches d (JObj (stored a)) \<longleftrightarrow> hs = set (map fst a)"
proof -
  have "\<exists>s w. k = JStr s \<and> map_of (stored a) s = Some w \<and> py_eq (JFloat f) w" if kf: "(k, f) \<in> set d" for k f
  proof -
    obtain h where h: "k = JStr h" "h \<in> hs" using kf assms(3) by (metis fst_conv image_iff)
    obtain v where "map_of d (JStr h) = Some v" "map_of a h = Some v" "v \<noteq> NaN" using assms(5) [OF h(2)] by blast
    moreover have "map_of d (JStr h) = Some f" using kf h(1) assms(2) by simp
    ultimately have "map_of a h = Some f" "f \<noteq> NaN" by simp_all
    then have "map_of (stored a) h = Some (JFloat f)" "py_eq (JFloat f) (JFloat f)"
      by (cases f; simp add: stored_get)+
    with h show ?thesis by blast
  qed
  then have "matches d (JObj (stored a)) \<longleftrightarrow> length d = length a"
    by (auto simp: matches_obj length_stored)
  moreover have "length d = card (fst ` set d)" "length a = card (set (map fst a))"
    using assms(1,2) by (metis distinct_card length_map list.set_map)+
  moreover have "card (fst ` set d) = card hs" by (simp add: assms(3) card_image inj_on_def)
  ultimately show ?thesis
    using assms(4) by (metis List.finite_set card_subset_eq)
qed

section \<open>Replayed weights\<close>

lemma active_scores_stored:
  "distinct hs \<Longrightarrow> \<forall>h \<in> set hs. JStr h \<notin> fst ` set d \<Longrightarrow>
   active_scores env (JObj (stored ema)) (map JStr hs) d = Inr (d @ map (\<lambda>h. (JStr h, dict_get_default ema h (Fin 0))) hs)"
proof (induction hs arbitrary: d)
  case (Cons h hs)
  have get: "jget_or (stored ema) h (JFloat (Fin 0)) = JFloat (dict_get_default ema h (Fin 0))"
    by (simp add: jget_or_def dict_get_default_def stored_get split: option.split)
  have "key_put d (JStr h) v = d @ [(JStr h, v)]" for v
    using Cons.prems(2) by (induction d) auto
  moreover have "\<forall>g \<in> set hs. JStr g \<notin> fst ` set (d @ [(JStr h, v)])" for v
    using Cons.prems by auto
  ultimately show ?case
    using Cons.IH [of "d @ [(JStr h, dict_get_default ema h (Fin 0))]"] Cons.prems(1) by (simp add: get py_float_def)
qed simp

lemma normalize_weights_rename:
  "normalize_weights (map (\<lambda>(k, v). (g k, v)) d) = map (\<lambda>(k, v). (g k, v)) (normalize_weights d)"
proof -
  have "dict_values (map (\<lambda>(uid, score). (uid, pymax (Fin 0) score)) (map (\<lambda>(k, v). (g k, v)) d)) =
      dict_values (map (\<lambda>(uid, score). (uid, pymax (Fin 0) score)) d)"
    by (simp add: dict_values_def comp_def case_prod_beta)
  then show ?thesis by (simp add: normalize_weights_def Let_def comp_def case_prod_beta)
qed

lemma dict_of_distinct_keys: "distinct ks \<Longrightarrow> dict_of_keys ks f = map (\<lambda>k. (k, f k)) ks"
proof -
  have fresh: "k \<notin> fst ` set d \<Longrightarrow> dict_set d k v = d @ [(k, v)]" for k v and d :: "('a \<times> 'b) list"
    by (induction d) (auto simp: dict_set_def)
  have "distinct ks \<Longrightarrow> set ks \<inter> fst ` set d = {} \<Longrightarrow>
      fold (\<lambda>k d. dict_set d k (f k)) ks d = d @ map (\<lambda>k. (k, f k)) ks" for d
    by (induction ks arbitrary: d) (auto simp: fresh)
  then show "distinct ks \<Longrightarrow> ?thesis" by (simp add: dict_of_keys_def)
qed

lemma replayed_weights:
  assumes "sorted active" "distinct active" "ws = normalize_active_weights ema active" "list_all (\<lambda>(k, v). v \<noteq> NaN) ws"
  shows "\<exists>scores. active_scores env (JObj (stored ema)) (map (\<lambda>kv. JStr (fst kv)) (stored ws)) [] = Inr scores
    \<and> matches (normalize_weights scores) (JObj (stored ws))"
proof -
  let ?scores = "map (\<lambda>h. (JStr h, dict_get_default ema h (Fin 0))) active"
  have keys: "map fst ws = active"
    using keys_normalize_weights [of "dict_of_keys active (\<lambda>h. dict_get_default ema h (Fin 0))"] assms(2,3)
    by (simp add: normalize_active_weights_def dict_of_distinct_keys dict_keys_def comp_def)
  then have stored: "map fst (stored ws) = active"
    using assms(1) by (simp add: stored_keys sorted_sort_id)
  have "map (\<lambda>kv. JStr (fst kv)) (stored ws) = map JStr active"
    by (simp flip: stored)
  then have run: "active_scores env (JObj (stored ema)) (map (\<lambda>kv. JStr (fst kv)) (stored ws)) [] = Inr ?scores"
    using active_scores_stored [OF assms(2), of "[]" env ema] by simp
  have "?scores = map (\<lambda>(k, v). (JStr k, v)) (dict_of_keys active (\<lambda>h. dict_get_default ema h (Fin 0)))"
    by (simp add: dict_of_distinct_keys [OF assms(2)])
  then have ws: "normalize_weights ?scores = map (\<lambda>(k, v). (JStr k, v)) ws"
    by (simp only: normalize_weights_rename assms(3) normalize_active_weights_def)
  have d: "map fst (map (\<lambda>(k, v). (JStr k, v)) ws) = map JStr active"
    using keys by (auto simp: comp_def case_prod_beta)
  have dist: "distinct (map fst ws)" using keys assms(2) by simp
  have "matches (map (\<lambda>(k, v). (JStr k, v)) ws) (JObj (stored ws)) \<longleftrightarrow> set (map fst ws) = set (map fst ws)"
  proof (rule matches_stored [OF dist])
    show "distinct (map fst (map (\<lambda>(k, v). (JStr k, v)) ws))"
      unfolding d using assms(2) by (simp add: distinct_map inj_on_def)
    show "fst ` set (map (\<lambda>(k, v). (JStr k, v)) ws) = JStr ` set (map fst ws)"
      by (auto simp: image_image case_prod_beta)
    fix h assume "h \<in> set (map fst ws)"
    then obtain v where v: "map_of ws h = Some v" by (metis list.set_map map_of_eq_None_iff option.exhaust)
    moreover have "map_of (map (\<lambda>(k, v). (JStr k, v)) d) (JStr h) = map_of d h" for d :: "(string \<times> pyfloat) list"
      by (induction d) auto
    moreover have "v \<noteq> NaN" using map_of_SomeD [OF v] assms(4) by (auto simp: list_all_iff)
    ultimately show "\<exists>v. map_of (map (\<lambda>(k, v). (JStr k, v)) ws) (JStr h) = Some v \<and> map_of ws h = Some v \<and> v \<noteq> NaN"
      by simp
  qed simp
  with run ws show ?thesis by simp
qed

section \<open>A completed epoch\<close>

lemma marker_disk:
  "write_epoch_completion_marker env n r fs = (Inr p, fs') \<Longrightarrow> q \<noteq> completion_marker_path n \<Longrightarrow> fs' q = fs q"
  by (auto simp: write_epoch_completion_marker_def Let_def split: sum.splits)

lemma publish_epoch_artifact:
  assumes "json_codec (in_env x)" "publish_epoch x tv sc r w = (Inr marker, w')"
  shows "cw_disk (ew_chain w') (weights_path (in_epoch x)) = Some (dumps (in_env x) (JObj (weights_artifact x tv sc r)))
    \<and> ew_log w' = ew_log w"
proof -
  from assms obtain fs' where "write_epoch_completion_marker (in_env x) (in_epoch x) r
      (write_json (in_env x) (weights_path (in_epoch x)) (JObj (weights_artifact x tv sc r))
        (write_json (in_env x) (solver_panel_path (in_epoch x)) (JObj (sidecar_fields x (ew_session w)))
          (write_json (in_env x) (miner_state_snapshot_path (in_epoch x)) (scores_json (es_ema sc)) (cw_disk (ew_chain w))))) =
      (Inr marker, fs')"
    "cw_disk (ew_chain w') = write_json (in_env x) miner_state_path (scores_json (es_ema sc)) fs'" "ew_log w' = ew_log w"
    by (auto simp: publish_epoch_def Let_def bind_op_Inr persist_sidecar_eq on_archive_def on_chain_def
        split: if_splits prod.splits)
  then show ?thesis using marker_disk by fastforce
qed

lemma run_epoch_parts:
  assumes "run_epoch x no_hook miners w = (Inr res, w')"
  shows "\<exists>outs w1 previous r c' tv' marker. evaluate_epoch x miners w = (Inr outs, w1)
    \<and> publish_epoch x tv' (epoch_scores x miners outs previous) r (w1\<lparr>ew_chain := c'\<rparr>) = (Inr marker, w')
    \<and> er_weights res = es_weights (epoch_scores x miners outs previous)
    \<and> er_epoch_scores res = es_epoch_scores (epoch_scores x miners outs previous)"
proof -
  obtain outs w1 where outs: "evaluate_epoch x miners w = (Inr outs, w1)"
    using assms by (auto simp: run_epoch_def bind_op_Inr)
  then have w1: "ew_chain w1 = ew_chain w" using evaluate_epoch_run by blast
  obtain tv previous where tv: "collect_task_values outs [] = Inr tv"
    and prev: "load_miner_state (in_env x) (cw_disk (ew_chain w)) = Inr previous"
    using assms outs w1 by (auto simp: run_epoch_def bind_op_Inr bind_lift_Inr)
  obtain r c' where r: "apply_weights (in_env x) (in_host x) (in_connection x) (in_client x)
      (epoch_request x (map mn_hotkey miners) (epoch_scores x miners outs previous)) (ew_chain w) = (Inr r, c')"
    using assms outs w1 tv prev
    by (auto simp: run_epoch_def bind_op_Inr bind_lift_Inr Let_def on_chain_def epoch_scores_def split: prod.splits)
  note run = run_epoch_after_client [OF outs tv prev refl r, unfolded assms]
  then obtain tv' where tv': "sorted_task_values (in_env x) tv = Inr tv'"
    by (cases "sorted_task_values (in_env x) tv") simp_all
  have "bind_op (publish_epoch x tv' (epoch_scores x miners outs previous) r)
      (\<lambda>marker. return_op \<lparr>er_weights = es_weights (epoch_scores x miners outs previous),
         er_epoch_scores = es_epoch_scores (epoch_scores x miners outs previous), er_chain_result = r, er_marker_path = marker\<rparr>)
      (w1\<lparr>ew_chain := c'\<rparr>) = (Inr res, w')" using run tv' by simp
  then obtain marker where
    "publish_epoch x tv' (epoch_scores x miners outs previous) r (w1\<lparr>ew_chain := c'\<rparr>) = (Inr marker, w')"
    "er_weights res = es_weights (epoch_scores x miners outs previous)"
    "er_epoch_scores res = es_epoch_scores (epoch_scores x miners outs previous)"
    by (auto simp: bind_op_Inr)
  with outs show ?thesis by blast
qed

lemma top_k_get: "map_of (top_k_epoch_scores d q) k = map_option (\<lambda>vs. round6 (fsum (best_values q vs))) (map_of d k)"
  by (induction d) (auto simp: top_k_epoch_scores_def)

lemma top_k_keys: "map fst (top_k_epoch_scores d q) = map fst d"
  by (simp add: top_k_epoch_scores_def comp_def case_prod_beta)

lemma top_k_not_nan: "map_of (top_k_epoch_scores d q) k = Some v \<Longrightarrow> v \<noteq> NaN"
  using epoch_scores_nonneg [of k v d q] nonneg_not_nan by (auto dest: map_of_SomeD)

lemma replay_values_of_log:
  "\<exists>d. replay_values env (map (log_row x) outs) [] = Inr d
     \<and> (\<forall>h \<in> set (map (\<lambda>mo. mn_hotkey (fst mo)) outs). map_of d (JStr h) = Some (values_of outs h))
     \<and> fst ` set d = JStr ` set (map (\<lambda>mo. mn_hotkey (fst mo)) outs) \<and> distinct (map fst d)"
  using replay_values_log [of env x outs "[]"]
  by (elim ex_forward) (auto simp: image_image simp del: map_of_eq_Some_iff Some_eq_map_of_iff)

text \<open>The scores of the replayed log against those of the epoch.\<close>

lemma replayed_scores:
  assumes "set (map (\<lambda>mo. mn_hotkey (fst mo)) outs) \<subseteq> set active"
  shows "\<exists>d. replay_values env (map (log_row x) outs) [] = Inr d
    \<and> (matches (top_k_epoch_scores d q) (JObj (stored (top_k_epoch_scores (dict_of_keys active (values_of outs)) q))) \<longleftrightarrow>
         set (map (\<lambda>mo. mn_hotkey (fst mo)) outs) = set active)"
proof -
  let ?hs = "set (map (\<lambda>mo. mn_hotkey (fst mo)) outs)"
  let ?a = "dict_of_keys active (values_of outs)"
  from replay_values_of_log [of env x outs] obtain d where d: "replay_values env (map (log_row x) outs) [] = Inr d"
    and vals: "\<And>h. h \<in> ?hs \<Longrightarrow> map_of d (JStr h) = Some (values_of outs h)"
    and keys: "fst ` set d = JStr ` ?hs" and dist: "distinct (map fst d)" by blast
  have a: "distinct (map fst ?a)" "set (map fst ?a) = set active"
    using distinct_keys_dict_of_keys [of active "values_of outs"] set_keys_dict_of_keys [of active "values_of outs"]
    by (simp_all add: dict_keys_def)
  have "matches (top_k_epoch_scores d q) (JObj (stored (top_k_epoch_scores ?a q))) \<longleftrightarrow>
      ?hs = set (map fst (top_k_epoch_scores ?a q))"
  proof (rule matches_stored)
    show "distinct (map fst (top_k_epoch_scores ?a q))" "distinct (map fst (top_k_epoch_scores d q))"
      using a(1) dist by (simp_all add: top_k_keys)
    show "fst ` set (top_k_epoch_scores d q) = JStr ` ?hs" using keys top_k_keys [of d q] by (metis list.set_map)
    show "?hs \<subseteq> set (map fst (top_k_epoch_scores ?a q))" using assms a(2) by (simp only: top_k_keys)
    fix h assume h: "h \<in> ?hs"
    then have "map_of ?a h = Some (values_of outs h)"
      using dict_get_of_keys [of active "values_of outs" h] assms by (auto simp: dict_get_def)
    with vals [OF h] show "\<exists>v. map_of (top_k_epoch_scores d q) (JStr h) = Some v \<and> map_of (top_k_epoch_scores ?a q) h = Some v \<and> v \<noteq> NaN"
      using top_k_not_nan [of d q "JStr h"] by (simp add: top_k_get)
  qed
  with d a(2) show ?thesis by (auto simp: top_k_keys)
qed

text \<open>C31: the replay of a completed epoch matches its artifact exactly when every miner has an outcome, that is,
  when no miner that answered sent nothing; hotkeys are to be sorted and distinct, weights numbers, and the log to
  have no earlier row of the epoch.\<close>

theorem replay_matches_iff:
  assumes "json_codec (in_env x)" "run_epoch x no_hook miners w = (Inr res, w')" "ew_log w = Inr rows"
    and "list_all (\<lambda>r. has_key r ''epoch_id'' \<and> \<not> py_eq (jget r ''epoch_id'') (JInt (in_epoch x))) rows"
    and "sorted (map mn_hotkey miners)" "distinct (map mn_hotkey miners)" "list_all (\<lambda>(h, v). v \<noteq> NaN) (er_weights res)"
  shows "assert_replay_matches (in_env x) (cw_disk (ew_chain w')) (ew_log w') (in_epoch x) = Inr () \<longleftrightarrow>
    (\<forall>m \<in> set miners. terminal m \<or> mn_submissions m (in_epoch x) (in_quota x) \<noteq> [])"
proof -
  let ?n = "in_epoch x" and ?env = "in_env x" and ?active = "map mn_hotkey miners"
  from run_epoch_parts [OF assms(2)] obtain outs w1 previous r c' tv' marker where outs: "evaluate_epoch x miners w = (Inr outs, w1)"
    and pub: "publish_epoch x tv' (epoch_scores x miners outs previous) r (w1\<lparr>ew_chain := c'\<rparr>) = (Inr marker, w')"
    and res: "er_weights res = es_weights (epoch_scores x miners outs previous)" by blast
  let ?sc = "epoch_scores x miners outs previous"
  let ?hs = "set (map (\<lambda>mo. mn_hotkey (fst mo)) outs)"
  let ?art = "JObj (canon_fields (weights_artifact x tv' ?sc r))"
  have evals: "ew_log w1 = Inr (rows @ map (log_row x) outs)"
      "set (map fst outs) = {m \<in> set miners. terminal m \<or> mn_submissions m ?n (in_quota x) \<noteq> []}"
    using evaluate_epoch_run [OF outs] assms(3) by auto
  have hs: "?hs = mn_hotkey ` {m \<in> set miners. terminal m \<or> mn_submissions m ?n (in_quota x) \<noteq> []}"
    unfolding evals(2) [symmetric] by (simp add: image_image)
  have disk: "read_json ?env (cw_disk (ew_chain w')) (weights_path ?n) = Inr ?art" "ew_log w' = ew_log w1"
    using publish_epoch_artifact [OF assms(1) pub] assms(1) by (simp_all add: read_json_def loads_dumps)
  have sc: "es_epoch_scores ?sc = top_k_epoch_scores (dict_of_keys ?active (values_of outs)) (in_quota x)"
      "es_weights ?sc = normalize_active_weights (es_ema ?sc) ?active"
    by (simp_all add: epoch_scores_def score_epoch_def Let_def)
  have at: "map_of (canon_fields (weights_artifact x tv' ?sc r)) k = map_option canon_json (map_of (weights_artifact x tv' ?sc r) k)" for k
    by (rule map_of_canon)
  have art: "subscript ?art ''epoch_scores'' = Inr (JObj (stored (es_epoch_scores ?sc)))"
      "subscript ?art ''weights'' = Inr (JObj (stored (es_weights ?sc)))"
      "subscript ?art ''ema_state'' = Inr (JObj (stored (es_ema ?sc)))"
    unfolding subscript_def json.case at by (simp_all add: weights_artifact_def canon_scores_json del: canon_JObj)
  have config: "subscript ?art ''config'' = Inr (canon_json (JObj [(''quota'', JInt (in_quota x)), (''top_k'', JInt (in_quota x)),
         (''ema_alpha'', JFloat (ema_alpha (in_config x)))]))"
    unfolding subscript_def json.case at by (simp add: weights_artifact_def del: canon_JObj)
  have quota: "subscript (canon_json (JObj [(''quota'', JInt q), (''top_k'', JInt q), (''ema_alpha'', JFloat f)])) ''quota'' = Inr (JInt q)" for q f
    by (simp add: subscript_def)
  have "?hs \<subseteq> set ?active" unfolding hs by auto
  from replayed_scores [OF this, of ?env x "in_quota x"] obtain d where d: "replay_values ?env (map (log_row x) outs) [] = Inr d"
    "matches (top_k_epoch_scores d (in_quota x)) (JObj (stored (es_epoch_scores ?sc))) \<longleftrightarrow> ?hs = set ?active"
    unfolding sc(1) by blast
  from replayed_weights [OF assms(5,6) sc(2), of ?env] assms(7) obtain scores where
    ws: "active_scores ?env (JObj (stored (es_ema ?sc))) (map (\<lambda>kv. JStr (fst kv)) (stored (es_weights ?sc))) [] = Inr scores"
    "matches (normalize_weights scores) (JObj (stored (es_weights ?sc)))" by (auto simp: res)
  have "replay_epoch ?env (cw_disk (ew_chain w')) (ew_log w') ?n =
      Inr \<lparr>rp_epoch_scores = top_k_epoch_scores d (in_quota x), rp_weights = normalize_weights scores\<rparr>"
    by (simp only: replay_epoch_def disk evals(1) map_error.simps bind_result.simps rows_of_epoch_append [OF assms(4)] rows_of_log
        config quota py_int.simps int_exn.simps d(1) art py_list_def json.case ws(1))
  then have "assert_replay_matches ?env (cw_disk (ew_chain w')) (ew_log w') ?n = Inr () \<longleftrightarrow> ?hs = set ?active"
    using d(2) ws(2) by (simp add: assert_replay_matches_def disk(1) art)
  also have "\<dots> \<longleftrightarrow> (\<forall>m \<in> set miners. terminal m \<or> mn_submissions m ?n (in_quota x) \<noteq> [])"
    unfolding hs using assms(6) by (auto simp: distinct_map dest: inj_onD)
  finally show ?thesis .
qed

definition silent_miner :: miner where
  "silent_miner = sample_miner ''s'' []"

definition lost_miner :: miner where
  "lost_miner = (sample_miner ''a'' [])\<lparr>mn_terminal_status := Some ''unreachable''\<rparr>"

lemma quiet_evaluated:
  "list_all (\<lambda>m. case evaluate_epoch sample_input [m] sample_world of
     (Inl _, _) \<Rightarrow> False
   | (Inr outs, w1) \<Rightarrow> (case collect_task_values outs [] of Inl _ \<Rightarrow> False | Inr tv \<Rightarrow> tv = [])
       \<and> list_all (\<lambda>(h, v). v \<noteq> NaN) (es_weights (epoch_scores sample_input [m] outs []))) [lost_miner, silent_miner]"
  by code_simp

lemma quiet_epoch:
  assumes "m = lost_miner \<or> m = silent_miner"
  shows "\<exists>res w'. run_epoch sample_input no_hook [m] sample_world = (Inr res, w') \<and> list_all (\<lambda>(h, v). v \<noteq> NaN) (er_weights res)"
proof -
  have s: "in_env sample_input = plain_env" "in_client sample_input = Null_chain" "in_epoch sample_input = 1"
    "ew_log sample_world = Inr []" "cw_disk (ew_chain sample_world) p = None" for p
    by (simp_all add: sample_input_def sample_world_def empty_world_def)
  obtain outs w1 where run: "evaluate_epoch sample_input [m] sample_world = (Inr outs, w1)" "collect_task_values outs [] = Inr []"
    and ws: "list_all (\<lambda>(h, v). v \<noteq> NaN) (es_weights (epoch_scores sample_input [m] outs []))"
    using quiet_evaluated assms by (auto split: prod.splits sum.splits)
  have sorted: "sorted_task_values (in_env sample_input) [] = Inr []"
    by (simp add: sorted_task_values_def dict_sorted_def)
  have prev: "load_miner_state (in_env sample_input) (cw_disk (ew_chain sample_world)) = Inr []"
    by (simp add: load_miner_state_def s)
  show ?thesis
    using epoch_run [OF _ _ run(1) s(4) run(2) sorted prev refl, unfolded s apply_weights_def, simplified,
        OF plain_env_codec plain_env_digest] ws
    by (auto simp: null_apply_weights_def)
qed

text \<open>An unreachable miner leaves a row and the replay matches; one that answered with nothing does not, and it fails.\<close>

theorem replay_matches_iff_witness:
  "\<exists>res w' res' w''. run_epoch sample_input no_hook [lost_miner] sample_world = (Inr res, w')
     \<and> assert_replay_matches plain_env (cw_disk (ew_chain w')) (ew_log w') 1 = Inr ()
     \<and> run_epoch sample_input no_hook [silent_miner] sample_world = (Inr res', w'')
     \<and> assert_replay_matches plain_env (cw_disk (ew_chain w'')) (ew_log w'') 1 \<noteq> Inr ()"
proof -
  have s: "in_env sample_input = plain_env" "in_epoch sample_input = 1" "ew_log sample_world = Inr []"
    by (simp_all add: sample_input_def sample_world_def)
  obtain res w' where lost: "run_epoch sample_input no_hook [lost_miner] sample_world = (Inr res, w')"
      "list_all (\<lambda>(h, v). v \<noteq> NaN) (er_weights res)"
    using quiet_epoch by blast
  obtain res' w'' where silent: "run_epoch sample_input no_hook [silent_miner] sample_world = (Inr res', w'')"
      "list_all (\<lambda>(h, v). v \<noteq> NaN) (er_weights res')"
    using quiet_epoch by blast
  have "terminal lost_miner" "\<not> terminal silent_miner" "mn_submissions silent_miner n q = []" for n q
    by (simp_all add: lost_miner_def silent_miner_def sample_miner_def terminal_def)
  with replay_matches_iff [OF _ lost(1) s(3) _ _ _ lost(2)] replay_matches_iff [OF _ silent(1) s(3) _ _ _ silent(2)] lost(1) silent(1)
  show ?thesis by (simp add: s plain_env_codec)
qed

section \<open>Order of the sum\<close>

text \<open>
  The weights of an epoch are shares of a sum in the order of the metagraph, those of its replay in the
  order of the hotkeys; float addition depends on the order, so the hypothesis on the order is needed.
\<close>

lemma share_depends_on_order:
  "dict_get (normalize_weights [(''a'', lit (1 / 10)), (''b'', lit (2 / 10)), (''c'', lit (3 / 10))]) ''a''
    \<noteq> dict_get (normalize_weights [(''c'', lit (3 / 10)), (''b'', lit (2 / 10)), (''a'', lit (1 / 10))]) ''a''"
  by code_simp

end
