(* ===== verification/System.thy ===== *)
theory System
  imports Validator_State Publication
begin

text \<open>
  The recurring validator as a transition system: a process that begins ticks, moves its epoch through
  the phases, publishes weights and commits, and that may be killed between any two writes to the
  archive and started again.  Every step is an operation of the store, of the chain client or of the
  completion marker on the archive it finds (\<open>tick_command\<close>, \<open>run_epoch\<close> and
  \<open>SubtensorChain.apply_weights\<close> give their order); the lock leaves one process at a time.
  The epochs whose weights have been signed are recorded on the side.
\<close>

section \<open>Processes\<close>

text \<open>
  Where a process is in its tick: no tick, before the client, in the client before any write, after the
  record of the attempt, after the signing call, after the receipt, and after the client has returned.
\<close>

datatype stage =
    Stopped
  | Running int
  | Submitting int
  | Armed int
  | Signed int
  | Receipted int
  | Concluded int

datatype 'b process = Process (process_disk: "'b disk") (process_stage: stage) (signed_epochs: "int list")

inductive step :: "'b env \<Rightarrow> 'b process \<Rightarrow> 'b process \<Rightarrow> bool" for env where
  begin_tick: "begin_locked env now fs = (Inr (s, n), fs') \<Longrightarrow> step env (Process fs Stopped sg) (Process fs' (Running n) sg)"
| begin_raises: "begin_locked env now fs = (Inl e, fs') \<Longrightarrow> step env (Process fs Stopped sg) (Process fs' Stopped sg)"
| begin_killed: "read_state env fs = Inr s \<Longrightarrow> phase_of s = Some Weights_submitting \<Longrightarrow> active_epoch_id s = Some n \<Longrightarrow>
    resolve_interrupted env now s n fs = (Inr s', fs') \<Longrightarrow> step env (Process fs Stopped sg) (Process fs' Stopped sg)"
| advance: "ph \<in> {Querying, Evaluating} \<Longrightarrow> transition_locked env now n ph fs = (Inr s, fs') \<Longrightarrow>
    step env (Process fs (Running n) sg) (Process fs' (Running n) sg)"
| submit: "transition_locked env now n Weights_submitting fs = (Inr s, fs') \<Longrightarrow>
    step env (Process fs (Running n) sg) (Process fs' (Submitting n) sg)"
| transition_raises: "st \<in> {Running n, Concluded n} \<Longrightarrow> transition_locked env now n ph fs = (Inl e, fs') \<Longrightarrow>
    step env (Process fs st sg) (Process fs' Stopped sg)"
| offline: "step env (Process fs (Submitting n) sg) (Process fs (Concluded n) sg)"
| unsigned_receipt: "rq_epoch rq = n \<Longrightarrow> mode \<in> {''skipped'', ''error'', ''dry_run''} \<Longrightarrow>
    conclude env c rq mode reason parts w = (Inr r :: apply_error + chain_weight_result, w') \<Longrightarrow>
    step env (Process (cw_disk w) (Submitting n) sg) (Process (cw_disk w') (Concluded n) sg)"
| arm: "rq_epoch rq = n \<Longrightarrow> write_attempt env c rq p Started None None None w = (Inr u :: apply_error + unit, w') \<Longrightarrow>
    step env (Process (cw_disk w) (Submitting n) sg) (Process (cw_disk w') (Armed n) sg)"
| sign: "step env (Process fs (Armed n) sg) (Process fs (Signed n) (sg @ [n]))"
| ambiguous: "rq_epoch rq = n \<Longrightarrow> write_attempt env c rq p Ambiguous_attempt sub rf et w = (Inr u :: apply_error + unit, w') \<Longrightarrow>
    step env (Process (cw_disk w) (Signed n) sg) (Process (cw_disk w') Stopped sg)"
| receipt: "rq_epoch rq = n \<Longrightarrow> conclude env c rq ''submitted'' reason parts w = (Inr r :: apply_error + chain_weight_result, w') \<Longrightarrow>
    step env (Process (cw_disk w) (Signed n) sg) (Process (cw_disk w') (Receipted n) sg)"
| completed: "rq_epoch rq = n \<Longrightarrow> write_attempt env c rq p Completed_attempt sub rf et w = (Inr u :: apply_error + unit, w') \<Longrightarrow>
    step env (Process (cw_disk w) (Receipted n) sg) (Process (cw_disk w') (Concluded n) sg)"
| artifact: "q \<in> {weights_path n, solver_panel_path n, miner_state_snapshot_path n, miner_state_path} \<Longrightarrow>
    step env (Process fs (Concluded n) sg) (Process (write_json env q v fs) (Concluded n) sg)"
| marker: "write_epoch_completion_marker env n r fs = (res, fs') \<Longrightarrow>
    step env (Process fs (Concluded n) sg) (Process fs' (Concluded n) sg)"
| commit: "transition_locked env now n Committed fs = (Inr s, fs') \<Longrightarrow>
    step env (Process fs (Concluded n) sg) (Process fs' (Concluded n) sg)"
| commit_killed: "read_state env fs = Inr s \<Longrightarrow> phase_of s = Some Weights_submitting \<Longrightarrow> active_epoch_id s = Some n \<Longrightarrow>
    commit_from_completion env now s n fs = (res, fs') \<Longrightarrow>
    step env (Process fs st sg) (Process fs' Stopped sg)"
| recover: "recover_receipt env now fs = (res, fs') \<Longrightarrow> step env (Process fs Stopped sg) (Process fs' Stopped sg)"
| fail_weights: "fail_weights_locked env now n err fs = (res, fs') \<Longrightarrow>
    step env (Process fs (Concluded n) sg) (Process fs' Stopped sg)"
| fail_evaluation: "fail_evaluation_locked env now n err fs = (res, fs') \<Longrightarrow>
    step env (Process fs (Running n) sg) (Process fs' Stopped sg)"
| killed: "step env (Process fs st sg) (Process fs Stopped sg)"

inductive_cases stepE: "step env (Process fs st sg) q"

inductive reachable :: "'b env \<Rightarrow> 'b process \<Rightarrow> 'b process \<Rightarrow> bool" for env where
  start: "reachable env p p"
| next_step: "reachable env p q \<Longrightarrow> step env q r \<Longrightarrow> reachable env p r"

definition fresh_process :: "'b process" where
  "fresh_process = Process (\<lambda>_. None) Stopped []"

section \<open>What operations leave alone\<close>

text \<open>The state file is untouched and no file disappears.\<close>

definition keeps :: "'b disk \<Rightarrow> 'b disk \<Rightarrow> bool" where
  "keeps fs fs' \<longleftrightarrow> fs' state_path = fs state_path \<and> (\<forall>q. is_file fs q \<longrightarrow> is_file fs' q)"

lemma keeps_refl [simp]: "keeps fs fs"
  by (simp add: keeps_def)

lemma keeps_write [simp]: "q \<noteq> state_path \<Longrightarrow> keeps fs (write_json env q v fs)"
  by (auto simp: keeps_def is_file_def write_json_def)

lemma keeps_read: "keeps fs fs' \<Longrightarrow> read_state env fs' = read_state env fs"
  by (simp add: keeps_def read_state_def)

lemma keeps_file: "keeps fs fs' \<Longrightarrow> is_file fs q \<Longrightarrow> is_file fs' q"
  by (simp add: keeps_def)

lemma write_state_file: "is_file fs q \<Longrightarrow> is_file (write_json env p v fs) q"
  by (auto simp: is_file_def write_json_def)

lemma keeps_commit: "commit_from_completion env now s n fs = (r, fs') \<Longrightarrow> keeps fs fs'"
  by (auto simp: commit_from_completion_def op_plumbing guard_op_def keeps_def is_file_def write_json_def
      split: sum.splits if_splits)

lemma keeps_marker: "write_epoch_completion_marker env n r fs = (res, fs') \<Longrightarrow> keeps fs fs'"
  by (auto simp: write_epoch_completion_marker_def Let_def split: sum.splits)

lemma keeps_conclude: "conclude env c rq mode reason parts w = (Inr r :: apply_error + chain_weight_result, w') \<Longrightarrow> keeps (cw_disk w) (cw_disk w')"
  by (auto simp: conclude_eq write_world_def)

lemma write_attempt_disk:
  "write_attempt env c rq p status sub rf et w = (Inr u :: apply_error + unit, w') \<Longrightarrow>
   cw_disk w' = write_json env (chain_attempt_path (rq_epoch rq)) (attempt_json c rq p status sub rf et) (cw_disk w)"
  by (auto simp: write_attempt_def write_world_def)

lemma commit_write_Inl: "bind_op (commit_from_completion env now s n) (write_state env) fs = (Inl e, fs') \<Longrightarrow> keeps fs fs'"
  unfolding bind_op_Inl by (elim disjE exE conjE) (auto dest: keeps_commit write_state_Inl)

lemma write_Inl_keeps: "write_state env s fs = (Inl e, fs') \<Longrightarrow> keeps fs fs'"
  by (auto dest: write_state_Inl)

lemma transition_Inl:
  assumes "transition_locked env now n ph fs = (Inl e, fs')"
  shows "keeps fs fs'"
proof (cases "read_state env fs")
  case (Inl d)
  with assms show ?thesis by (auto simp: transition_locked_def bind_read_Inl)
next
  case (Inr s)
  show ?thesis
  proof (cases "phase_of s")
    case None
    with assms Inr show ?thesis by (auto simp: transition_locked_def bind_read_eq)
  next
    case (Some cur)
    with assms Inr show ?thesis
      by (auto simp: transition_locked_def bind_read_eq simp del: bind_op_Inl split: if_splits dest: write_Inl_keeps commit_write_Inl)
  qed
qed

lemma bind_pure_Inl:
  assumes "bind_op m f fs = (Inl e, fs')" "snd (m fs) = fs" "\<And>a. f a fs = (Inl e, fs') \<Longrightarrow> fs' = fs"
  shows "fs' = fs"
  using assms by (cases "m fs") (auto simp: bind_op_Inl)

lemma pure_ops [simp]: "snd (get_op s) = s" "snd (lift_op r s) = s" "snd (guard_op b e s) = s"
  by (simp_all add: op_plumbing)

lemma resolve_Inl: "resolve_interrupted env now s n fs = (Inl e, fs') \<Longrightarrow> fs' = fs"
  unfolding resolve_interrupted_def
  by (elim bind_pure_Inl) (auto split: if_splits elim!: bind_pure_Inl dest: write_state_Inl)

lemma begin_Inl:
  assumes "begin_locked env now fs = (Inl e, fs')"
  shows "fs' = fs \<or> (\<exists>s n s'. read_state env fs = Inr s \<and> phase_of s = Some Weights_submitting
    \<and> active_epoch_id s = Some n \<and> resolve_interrupted env now s n fs = (Inr s', fs'))"
proof (cases "read_state env fs")
  case (Inl d)
  with assms show ?thesis by (auto simp: begin_locked_def bind_read_Inl)
next
  case (Inr s0)
  let ?rest = "\<lambda>s. if phase_of s \<in> set [Some Allocated, Some Querying] then
       bind_op (write_state env (s\<lparr>phase_of := Some Allocated, attempt := attempt s + 1, updated_at := now\<rparr>))
         (\<lambda>retried. (case active_epoch_id retried of None \<Rightarrow> fail_op Active_epoch_missing | Some n \<Rightarrow> return_op (retried, n)))
     else
       allocate_epoch env now
         (if phase_of s = Some Evaluating
          then s\<lparr>active_epoch_id := None, phase_of := None, attempt := 0, last_failed_epoch := active_epoch_id s,
                 last_error := Some ''interrupted_during_evaluation'', updated_at := now\<rparr>
          else s)"
  have rest: "?rest s fs1 = (Inl e, fs') \<Longrightarrow> fs' = fs1" for s fs1
    by (auto simp: allocate_epoch_def Let_def bind_op_Inl write_state_Inr validate_iff dest: write_state_Inl split: if_splits option.splits)
  have b: "bind_op (if phase_of s0 = Some Weights_submitting then
          (case active_epoch_id s0 of None \<Rightarrow> fail_op Active_epoch_missing | Some n \<Rightarrow> resolve_interrupted env now s0 n)
        else return_op s0) ?rest fs = (Inl e, fs')"
    using assms Inr by (simp add: begin_locked_def bind_read_eq)
  show ?thesis
  proof (cases "phase_of s0 = Some Weights_submitting")
    case False
    with b rest show ?thesis by simp
  next
    case True
    show ?thesis
    proof (cases "active_epoch_id s0")
      case None
      with b True show ?thesis by simp
    next
      case (Some n)
      with b True consider "resolve_interrupted env now s0 n fs = (Inl e, fs')"
        | s1 fs1 where "resolve_interrupted env now s0 n fs = (Inr s1, fs1)" "?rest s1 fs1 = (Inl e, fs')"
        by (auto simp only: bind_op_Inl simp_thms if_True option.case)
      then show ?thesis using resolve_Inl rest Inr True Some by cases blast+
    qed
  qed
qed

section \<open>The invariant\<close>

text \<open>What the store says of the process's epoch, by stage.\<close>

fun stage_ok :: "'b env \<Rightarrow> stage \<Rightarrow> validator_state \<Rightarrow> 'b disk \<Rightarrow> int list \<Rightarrow> bool" where
  "stage_ok env Stopped s fs sg = True"
| "stage_ok env (Running n) s fs sg =
     (active_epoch_id s = Some n \<and> phase_of s \<in> {Some Allocated, Some Querying, Some Evaluating})"
| "stage_ok env (Submitting n) s fs sg = (active_epoch_id s = Some n \<and> phase_of s = Some Weights_submitting \<and> n \<notin> set sg)"
| "stage_ok env (Armed n) s fs sg =
     (active_epoch_id s = Some n \<and> phase_of s = Some Weights_submitting \<and> n \<notin> set sg \<and> attempt_status_on env fs n Started)"
| "stage_ok env (Signed n) s fs sg =
     (active_epoch_id s = Some n \<and> phase_of s = Some Weights_submitting \<and> attempt_status_on env fs n Started)"
| "stage_ok env (Receipted n) s fs sg =
     (active_epoch_id s = Some n \<and> phase_of s = Some Weights_submitting \<and> attempt_status_on env fs n Started)"
| "stage_ok env (Concluded n) s fs sg =
     (active_epoch_id s = Some n \<and> phase_of s \<in> {Some Weights_submitting, Some Committed})"

text \<open>
  Every signed epoch is below the next number, has its attempt on disk, and if it is the active one it
  is past evaluation.
\<close>

definition signed_ok :: "validator_state \<Rightarrow> 'b disk \<Rightarrow> int list \<Rightarrow> bool" where
  "signed_ok s fs sg \<longleftrightarrow> sorted_wrt (<) sg
     \<and> (\<forall>m \<in> set sg. m < next_epoch_id s \<and> is_file fs (chain_attempt_path m))
     \<and> (\<forall>m. active_epoch_id s = Some m \<longrightarrow> next_epoch_id s = m + 1)
     \<and> (\<forall>m \<in> set sg. active_epoch_id s = Some m \<longrightarrow> phase_of s \<in> {Some Weights_submitting, Some Committed})"

definition invariant :: "'b env \<Rightarrow> 'b process \<Rightarrow> bool" where
  "invariant env p \<longleftrightarrow> (\<exists>s. read_state env (process_disk p) = Inr s
     \<and> signed_ok s (process_disk p) (signed_epochs p) \<and> stage_ok env (process_stage p) s (process_disk p) (signed_epochs p))"

lemma invariant_Process: "invariant env (Process fs st sg) \<longleftrightarrow>
    (\<exists>s. read_state env fs = Inr s \<and> signed_ok s fs sg \<and> stage_ok env st s fs sg)"
  by (simp add: invariant_def)

text \<open>Steps that leave the state file alone.\<close>

lemma signed_ok_keeps: "signed_ok s fs sg \<Longrightarrow> keeps fs fs' \<Longrightarrow> signed_ok s fs' sg"
  by (auto simp: signed_ok_def keeps_file)

lemma invariant_keeps:
  "invariant env (Process fs st sg) \<Longrightarrow> keeps fs fs' \<Longrightarrow> (\<And>s. stage_ok env st s fs sg \<Longrightarrow> stage_ok env st' s fs' sg) \<Longrightarrow>
   invariant env (Process fs' st' sg)"
  by (auto simp: invariant_Process keeps_read intro: signed_ok_keeps)

lemma invariant_stops: "invariant env (Process fs st sg) \<Longrightarrow> keeps fs fs' \<Longrightarrow> invariant env (Process fs' Stopped sg)"
  by (rule invariant_keeps) simp_all

text \<open>Steps that write a state with the same counter.\<close>

definition state_written :: "'b env \<Rightarrow> validator_state \<Rightarrow> 'b disk \<Rightarrow> 'b disk \<Rightarrow> bool" where
  "state_written env s' fs fs' \<longleftrightarrow> validate s' = Inr () \<and> fs' state_path = Some (dumps env (to_dict s'))
     \<and> (\<forall>q. is_file fs q \<longrightarrow> is_file fs' q)"

lemma state_written_write [simp]: "state_written env s' fs (write_json env state_path (to_dict s') fs) \<longleftrightarrow> validate s' = Inr ()"
  by (auto simp: state_written_def is_file_def write_json_def)

lemma signed_ok_canon [simp]: "signed_ok (canon_state s) fs sg \<longleftrightarrow> signed_ok s fs sg"
  by (simp add: signed_ok_def)

lemma stage_ok_canon [simp]: "stage_ok env st (canon_state s) fs sg \<longleftrightarrow> stage_ok env st s fs sg"
  by (cases st) simp_all

lemma invariant_written:
  "json_codec env \<Longrightarrow> state_written env s' fs fs' \<Longrightarrow> signed_ok s' fs sg \<Longrightarrow> stage_ok env st s' fs' sg \<Longrightarrow>
   invariant env (Process fs' st sg)"
  by (auto simp: invariant_Process state_written_def read_written intro!: exI [of _ "canon_state s'"] simp: signed_ok_def)

lemma invariant_begin:
  assumes "json_codec env" "invariant env (Process fs Stopped sg)" "begin_locked env now fs = (Inr (s', n), fs')"
  shows "invariant env (Process fs' (Running n) sg)"
proof -
  obtain s where s: "read_state env fs = Inr s" "signed_ok s fs sg" using assms(2) by (auto simp: invariant_Process)
  have "state_written env s' fs fs' \<and> signed_ok s' fs sg \<and> stage_ok env (Running n) s' fs' sg"
    using assms(3)
  proof (cases rule: begin_Inr)
    case (retry s0)
    with s show ?thesis by (auto simp: signed_ok_def)
  next
    case (fresh s0)
    with s show ?thesis by (auto simp: signed_ok_def)
  next
    case (abandoned s0 k r m)
    have "state_written env s' fs fs'"
      using abandoned(18-20) by (auto simp: state_written_def is_file_def) (metis option.distinct(1))
    with abandoned s show ?thesis by (auto simp: signed_ok_def)
  qed
  with invariant_written [OF assms(1)] show ?thesis by blast
qed

lemma invariant_active: "invariant env (Process fs st sg) \<Longrightarrow> read_state env fs = Inr s \<Longrightarrow> signed_ok s fs sg \<and> stage_ok env st s fs sg"
  by (auto simp: invariant_Process)

lemma transition_plain:
  assumes "transition_locked env now n ph fs = (Inr s', fs')" "ph \<noteq> Committed"
  shows "\<exists>s cur. read_state env fs = Inr s \<and> phase_of s = Some cur \<and> active_epoch_id s = Some n
    \<and> (ph = cur \<and> s' = s \<and> fs' = fs
       \<or> s' = s\<lparr>phase_of := Some ph, updated_at := now\<rparr> \<and> validate s' = Inr () \<and> fs' = write_json env state_path (to_dict s') fs)"
proof -
  from assms(1) [unfolded transition_Inr] obtain s cur where s: "read_state env fs = Inr s" "phase_of s = Some cur" "active_epoch_id s = Some n"
    and r: "if ph = cur then s' = s \<and> fs' = fs
           else ph \<in> set (allowed_next cur)
             \<and> (if ph = Committed
                then \<exists>fs1. commit_from_completion env now s n fs = (Inr s', fs1) \<and> validate s' = Inr ()
                       \<and> fs' = write_json env state_path (to_dict s') fs1
                else s' = s\<lparr>phase_of := Some ph, updated_at := now\<rparr> \<and> validate s' = Inr ()
                       \<and> fs' = write_json env state_path (to_dict s') fs)" by blast
  from r have "ph = cur \<and> s' = s \<and> fs' = fs
       \<or> s' = s\<lparr>phase_of := Some ph, updated_at := now\<rparr> \<and> validate s' = Inr () \<and> fs' = write_json env state_path (to_dict s') fs"
    using assms(2) by (cases "ph = cur") auto
  with s show ?thesis by blast
qed

lemma invariant_advance:
  assumes "json_codec env" "invariant env (Process fs (Running n) sg)"
    and "transition_locked env now n ph fs = (Inr s', fs')" "ph \<in> {Querying, Evaluating}"
  shows "invariant env (Process fs' (Running n) sg)"
proof -
  from assms(3) obtain s cur where s: "read_state env fs = Inr s" "phase_of s = Some cur" "active_epoch_id s = Some n"
    and r: "ph = cur \<and> s' = s \<and> fs' = fs \<or> s' = s\<lparr>phase_of := Some ph, updated_at := now\<rparr> \<and> validate s' = Inr ()
      \<and> fs' = write_json env state_path (to_dict s') fs"
    using transition_plain [OF assms(3)] assms(4) by blast
  note i = invariant_active [OF assms(2) s(1)]
  show ?thesis
  proof (cases "s' = s \<and> fs' = fs")
    case True
    with assms(2) show ?thesis by simp
  next
    case False
    have "state_written env s' fs fs' \<and> signed_ok s' fs sg \<and> stage_ok env (Running n) s' fs' sg"
      using r False i s(2,3) assms(4) by (auto simp: signed_ok_def)
    with invariant_written [OF assms(1)] show ?thesis by blast
  qed
qed

lemma invariant_submit:
  assumes "json_codec env" "invariant env (Process fs (Running n) sg)"
    and "transition_locked env now n Weights_submitting fs = (Inr s', fs')"
  shows "invariant env (Process fs' (Submitting n) sg)"
proof -
  from assms(3) obtain s cur where s: "read_state env fs = Inr s" "phase_of s = Some cur" "active_epoch_id s = Some n"
    and r: "Weights_submitting = cur \<and> s' = s \<and> fs' = fs
      \<or> s' = s\<lparr>phase_of := Some Weights_submitting, updated_at := now\<rparr> \<and> validate s' = Inr ()
      \<and> fs' = write_json env state_path (to_dict s') fs"
    using transition_plain [OF assms(3)] by blast
  note i = invariant_active [OF assms(2) s(1)]
  have "Weights_submitting \<noteq> cur" using i s(2) by auto
  then have "state_written env s' fs fs' \<and> signed_ok s' fs sg \<and> stage_ok env (Submitting n) s' fs' sg"
    using r i s(2,3) by (auto simp: signed_ok_def)
  with invariant_written [OF assms(1)] show ?thesis by blast
qed

lemma invariant_committed:
  assumes "json_codec env" "invariant env (Process fs st sg)" "committed_by env now fs n s' fs'"
  shows "invariant env (Process fs' (Concluded n) sg)"
proof -
  from assms(3) obtain s c where s: "read_state env fs = Inr s" "phase_of s = Some Weights_submitting" "active_epoch_id s = Some n"
    and r: "s' = committed_state env now s n c" "validate s' = Inr ()"
      "fs' = write_json env state_path (to_dict s') (write_json env miner_state_path (JObj (cmp_miner_state c)) fs)"
    by (auto simp: committed_by_def)
  note i = invariant_active [OF assms(2) s(1)]
  have "state_written env s' fs fs'" using r(2,3) by (auto simp: state_written_def is_file_def write_json_def)
  moreover have "signed_ok s' fs sg" "stage_ok env (Concluded n) s' fs' sg"
    using i s(2,3) by (auto simp: r(1) committed_state_def Let_def signed_ok_def)
  ultimately show ?thesis by (rule invariant_written [OF assms(1)])
qed

lemma invariant_any_stops: "invariant env (Process fs st sg) \<Longrightarrow> invariant env (Process fs Stopped sg)"
  by (auto simp: invariant_Process)

lemma invariant_failed:
  assumes "json_codec env" "invariant env (Process fs st sg)" "read_state env fs = Inr s" "validate (failed_state now err n s) = Inr ()"
  shows "invariant env (Process (write_json env state_path (to_dict (failed_state now err n s)) fs) Stopped sg)"
proof -
  note i = invariant_active [OF assms(2,3)]
  have "signed_ok (failed_state now err n s) fs sg" using i by (auto simp: failed_state_def signed_ok_def)
  with assms(4) show ?thesis by (intro invariant_written [OF assms(1)]) simp_all
qed

lemma fail_evaluation_cases:
  "fail_evaluation_locked env now n err fs = (res, fs') \<Longrightarrow> fs' = fs \<or>
     (\<exists>s. read_state env fs = Inr s \<and> validate (failed_state now err n s) = Inr ()
        \<and> fs' = write_json env state_path (to_dict (failed_state now err n s)) fs)"
  by (cases "read_state env fs"; cases res)
    (auto simp: fail_evaluation_locked_def bind_read_Inl bind_read_eq write_state_Inr dest: write_state_Inl split: if_splits)

lemma fail_weights_cases:
  "fail_weights_locked env now n err fs = (res, fs') \<Longrightarrow> fs' = fs \<or>
     (\<exists>s. read_state env fs = Inr s \<and> validate (failed_state now err n s) = Inr ()
        \<and> fs' = write_json env state_path (to_dict (failed_state now err n s)) fs)"
  by (cases "read_state env fs"; cases res)
    (auto simp: fail_weights_locked_def bind_read_Inl bind_read_eq write_state_Inr dest: write_state_Inl split: if_splits)

lemma recover_Inl:
  assumes "recover_receipt env now fs = (Inl e, fs')"
  shows "keeps fs fs'"
proof (cases "read_state env fs")
  case (Inl d)
  with assms show ?thesis by (simp add: recover_receipt_def bind_read_Inl)
next
  case (Inr s)
  with assms have r: "(case (phase_of s, active_epoch_id s) of
        (Some Weights_submitting, Some n) \<Rightarrow>
          bind_op get_op (\<lambda>fs.
          bind_op (lift_op (raise_if_ambiguous_attempt env fs n)) (\<lambda>_.
          bind_op
            (if is_file fs (completion_marker_path n) then return_op ()
             else if is_file fs (chain_receipt_path n) then fail_op (Ambiguous Receipt_without_marker)
             else fail_op (Ambiguous No_marker)) (\<lambda>_.
          bind_op (commit_from_completion env now s n) (write_state env))))
      | _ \<Rightarrow> fail_op Nothing_to_recover) fs = (Inl e, fs')"
    by (simp add: recover_receipt_def bind_read_eq)
  show ?thesis
  proof (cases "phase_of s = Some Weights_submitting \<and> active_epoch_id s \<noteq> None")
    case True
    then obtain n where "phase_of s = Some Weights_submitting" "active_epoch_id s = Some n" by auto
    with r show ?thesis
      by (cases "raise_if_ambiguous_attempt env fs n")
        (auto simp: bind_lift_eq bind_lift_error simp del: bind_op_Inl split: if_splits dest: commit_write_Inl)
  next
    case False
    with r show ?thesis by (auto split: option.splits phase.splits)
  qed
qed

lemma attempt_status_keeps:
  "attempt_status_on env fs n status \<Longrightarrow> fs' (chain_attempt_path n) = fs (chain_attempt_path n) \<Longrightarrow> attempt_status_on env fs' n status"
  using load_cong [of fs' "chain_attempt_path n" fs env] by (simp add: attempt_status_on_def)

lemma attempt_status_file: "attempt_status_on env fs n status \<Longrightarrow> is_file fs (chain_attempt_path n)"
  by (auto simp: attempt_status_on_def dest: load_is_file)

lemma invariant_sign:
  assumes "invariant env (Process fs (Armed n) sg)"
  shows "invariant env (Process fs (Signed n) (sg @ [n]))"
proof -
  obtain s where s: "read_state env fs = Inr s" "signed_ok s fs sg" "stage_ok env (Armed n) s fs sg"
    using assms by (auto simp: invariant_Process)
  then have next_id: "next_epoch_id s = n + 1" by (simp add: signed_ok_def)
  have "m < n" if m: "m \<in> set sg" for m
  proof -
    have "m \<noteq> n" using s(3) m by auto
    moreover have "m < n + 1" using s(2) m next_id by (auto simp: signed_ok_def)
    ultimately show ?thesis by simp
  qed
  moreover have "is_file fs (chain_attempt_path n)" using s(3) by (auto intro: attempt_status_file)
  moreover have "\<forall>m \<in> set (sg @ [n]). active_epoch_id s = Some m \<longrightarrow> phase_of s \<in> {Some Weights_submitting, Some Committed}"
    using s(3) by simp
  ultimately have "signed_ok s fs (sg @ [n])"
    using s(2) next_id unfolding signed_ok_def by (simp add: sorted_wrt_append)
  moreover have "stage_ok env (Signed n) s fs (sg @ [n])" using s(3) by simp
  ultimately show ?thesis using s(1) by (auto simp: invariant_Process)
qed

lemma armed_status:
  assumes "json_codec env" "write_attempt env c rq p status sub rf et w = (Inr u :: apply_error + unit, w')"
  shows "attempt_status_on env (cw_disk w') (rq_epoch rq) status" "keeps (cw_disk w) (cw_disk w')"
  using write_attempt_disk [OF assms(2)] attempt_written [OF assms(1), of "cw_disk w'" rq c p status sub rf et] by simp_all

lemma receipt_keeps_attempt:
  "conclude env c rq mode reason parts w = (Inr r, w') \<Longrightarrow>
   cw_disk w' (chain_attempt_path n) = cw_disk w (chain_attempt_path n)"
  by (auto simp: conclude_eq write_world_def)

lemma invariant_step:
  assumes "json_codec env" "step env p q" "invariant env p"
  shows "invariant env q"
  using assms(2,3)
proof cases
  case (begin_tick now fs s n fs' sg)
  with invariant_begin [OF assms(1)] assms(3) show ?thesis by blast
next
  case (begin_raises now fs e fs' sg)
  with begin_Inl [OF begin_raises(3)] assms(3) show ?thesis
    using resolve_Inr invariant_failed [OF assms(1)] by metis
next
  case (begin_killed fs s n now s' fs' sg)
  with resolve_Inr [OF begin_killed(6)] assms(3) show ?thesis
    using invariant_failed [OF assms(1)] by metis
next
  case (advance ph now n fs s fs' sg)
  with invariant_advance [OF assms(1)] assms(3) show ?thesis by blast
next
  case (submit now n fs s fs' sg)
  with invariant_submit [OF assms(1)] assms(3) show ?thesis by blast
next
  case (transition_raises st n now ph fs e fs' sg)
  with transition_Inl invariant_stops assms(3) show ?thesis by blast
next
  case (offline fs n sg)
  with assms(3) show ?thesis by (auto simp: invariant_Process)
next
  case (unsigned_receipt rq n mode c reason parts w r w' sg)
  with assms(3) keeps_conclude [OF unsigned_receipt(5)] show ?thesis by (auto intro: invariant_keeps)
next
  case (arm rq n c p w u w' sg)
  with assms(3) armed_status [OF assms(1) arm(4)] show ?thesis by (auto intro: invariant_keeps)
next
  case (sign fs n sg)
  with assms(3) invariant_sign show ?thesis by blast
next
  case (ambiguous rq n c p sub rf et w u w' sg)
  with assms(3) armed_status(2) [OF assms(1) ambiguous(4)] show ?thesis by (auto intro: invariant_stops)
next
  case (receipt rq n c reason parts w r w' sg)
  with assms(3) keeps_conclude [OF receipt(4)] attempt_status_keeps [of env "cw_disk w" n Started "cw_disk w'"]
    receipt_keeps_attempt [OF receipt(4), of n]
  show ?thesis by (auto intro: invariant_keeps)
next
  case (completed rq n c p sub rf et w u w' sg)
  with assms(3) armed_status(2) [OF assms(1) completed(4)] show ?thesis by (auto intro: invariant_keeps)
next
  case (artifact q n fs sg v)
  with assms(3) show ?thesis by (auto intro!: invariant_keeps [OF assms(3) [unfolded artifact]] keeps_write simp: path_defs state_path_def)
next
  case (marker n r fs res fs' sg)
  with assms(3) keeps_marker [OF marker(3)] show ?thesis by (auto intro: invariant_keeps)
next
  case (commit now n fs s fs' sg)
  with assms(3) transition_committed [OF commit(3)] invariant_committed [OF assms(1)] show ?thesis by blast
next
  case (commit_killed fs s n now res fs' st sg)
  with assms(3) keeps_commit [OF commit_killed(6)] show ?thesis by (auto intro: invariant_stops)
next
  case (recover now fs res fs' sg)
  show ?thesis
  proof (cases res)
    case (Inl e)
    with recover(3) have "keeps fs fs'" using recover_Inl by blast
    with recover assms(3) show ?thesis by (auto intro: invariant_stops)
  next
    case (Inr s')
    with recover recover_committed obtain n where "committed_by env now fs n s' fs'" by blast
    with invariant_committed [OF assms(1)] assms(3) invariant_any_stops show ?thesis using recover by blast
  qed
next
  case (fail_weights now n err fs res fs' sg)
  with fail_weights_cases [OF fail_weights(3)] assms(3) invariant_failed [OF assms(1)] invariant_any_stops
  show ?thesis by metis
next
  case (fail_evaluation now n err fs res fs' sg)
  with fail_evaluation_cases [OF fail_evaluation(3)] assms(3) invariant_failed [OF assms(1)] invariant_any_stops
  show ?thesis by metis
next
  case (killed fs st sg)
  with assms(3) invariant_any_stops show ?thesis by blast
qed

lemma invariant_reachable: "reachable env p q \<Longrightarrow> json_codec env \<Longrightarrow> invariant env p \<Longrightarrow> invariant env q"
  by (induction rule: reachable.induct) (auto intro: invariant_step)

lemma invariant_fresh: "invariant env fresh_process"
  by (simp add: fresh_process_def invariant_def read_state_def signed_ok_def initial_state_def)

section \<open>Properties\<close>

text \<open>C3: however often the validator is killed and started again, the epochs it signs weights for strictly
  increase, so no epoch is signed twice, and each of them has its attempt on disk.\<close>

theorem signatures_increase:
  assumes "json_codec env" "reachable env fresh_process p"
  shows "sorted_wrt (<) (signed_epochs p) \<and> distinct (signed_epochs p)
    \<and> (\<forall>n \<in> set (signed_epochs p). is_file (process_disk p) (chain_attempt_path n))"
proof -
  from invariant_reachable [OF assms(2,1) invariant_fresh] obtain s where "signed_ok s (process_disk p) (signed_epochs p)"
    by (auto simp: invariant_def)
  then show ?thesis by (auto simp: signed_ok_def strict_sorted_iff)
qed

text \<open>What an open attempt does to a store in phase weights_submitting.\<close>

definition blocked :: "'b env \<Rightarrow> 'b disk \<Rightarrow> bool" where
  "blocked env fs \<longleftrightarrow> (\<exists>s n e. read_state env fs = Inr s \<and> phase_of s = Some Weights_submitting \<and> active_epoch_id s = Some n
     \<and> raise_if_ambiguous_attempt env fs n = Inl e)"

lemma started_ambiguous: "attempt_status_on env fs n Started \<Longrightarrow> raise_if_ambiguous_attempt env fs n = Inl (Ambiguous Live_attempt_open)"
  by (auto simp: raise_if_ambiguous_attempt_def attempt_status_on_def dest: load_is_file)

lemma blocked_commit: "raise_if_ambiguous_attempt env fs n = Inl e \<Longrightarrow> commit_from_completion env now s n fs = (Inl e, fs)"
  by (simp add: commit_from_completion_def bind_lift_error)

lemma blocked_resolve: "raise_if_ambiguous_attempt env fs n = Inl e \<Longrightarrow> resolve_interrupted env now s n fs = (Inl e, fs)"
  by (simp add: resolve_interrupted_def bind_lift_error)

lemma blocked_step: "blocked env fs \<Longrightarrow> step env (Process fs Stopped sg) q \<Longrightarrow> q = Process fs Stopped sg"
  by (erule stepE)
    (auto simp: blocked_def begin_open_attempt recover_open_attempt blocked_commit blocked_resolve)

lemma blocked_reachable: "reachable env p q \<Longrightarrow> blocked env fs \<Longrightarrow> p = Process fs Stopped sg \<Longrightarrow> q = p"
  by (induction rule: reachable.induct) (auto dest: blocked_step)

text \<open>C6: a validator killed after it has recorded the attempt, whether the signing call was made, returned or left its
  receipt, does nothing any more: no start and no recovery changes the archive or signs anything, until an operator has
  looked at the attempt.\<close>

theorem killed_while_signing_is_final:
  assumes "json_codec env" "reachable env fresh_process (Process fs st sg)" "st \<in> {Armed n, Signed n, Receipted n}"
    and "reachable env (Process fs Stopped sg) q"
  shows "q = Process fs Stopped sg"
proof -
  from invariant_reachable [OF assms(2,1) invariant_fresh] assms(3) obtain s where
    "read_state env fs = Inr s" "phase_of s = Some Weights_submitting" "active_epoch_id s = Some n" "attempt_status_on env fs n Started"
    by (auto simp: invariant_Process)
  then have "blocked env fs" by (auto simp: blocked_def dest: started_ambiguous)
  from blocked_reachable [OF assms(4) this refl] show ?thesis .
qed

section \<open>A run\<close>

text \<open>A first tick on an empty archive, up to the signing call.\<close>

definition sample_begun :: "json disk" where
  "sample_begun = snd (begin_locked plain_env ''now'' (\<lambda>_. None))"

definition sample_transition :: "phase \<Rightarrow> json disk \<Rightarrow> json disk" where
  "sample_transition ph fs = snd (transition_locked plain_env ''now'' 1 ph fs)"

definition sample_submitting :: "json disk" where
  "sample_submitting = sample_transition Weights_submitting (sample_transition Evaluating (sample_transition Querying sample_begun))"

definition sample_payload :: payload where
  "sample_payload = \<lparr>pl_netuid = Some 523, pl_uids = [1], pl_weights = [65535], pl_version = 1, pl_digest = ''d''\<rparr>"

definition sample_armed :: "json disk" where
  "sample_armed = write_json plain_env (chain_attempt_path 1)
     (attempt_json sample_chain sample_request sample_payload Started None None None) sample_submitting"

lemma sample_begins: "map_option snd (case fst (begin_locked plain_env ''now'' (\<lambda>_. None)) of Inl _ \<Rightarrow> None | Inr r \<Rightarrow> Some r) = Some 1"
  by code_simp

lemma sample_advances:
  "is_ok (fst (transition_locked plain_env ''now'' 1 Querying sample_begun))"
  "is_ok (fst (transition_locked plain_env ''now'' 1 Evaluating (sample_transition Querying sample_begun)))"
  "is_ok (fst (transition_locked plain_env ''now'' 1 Weights_submitting (sample_transition Evaluating (sample_transition Querying sample_begun))))"
  by code_simp+

lemma sample_step:
  assumes "is_ok (fst (transition_locked plain_env ''now'' 1 ph fs))"
  shows "\<exists>s. transition_locked plain_env ''now'' 1 ph fs = (Inr s, sample_transition ph fs)"
  using assms by (cases "transition_locked plain_env ''now'' 1 ph fs") (auto simp: is_ok_iff sample_transition_def)

lemma sample_steps:
  "step plain_env (Process sample_begun (Running 1) []) (Process (sample_transition Querying sample_begun) (Running 1) [])"
  "step plain_env (Process (sample_transition Querying sample_begun) (Running 1) [])
     (Process (sample_transition Evaluating (sample_transition Querying sample_begun)) (Running 1) [])"
  "step plain_env (Process (sample_transition Evaluating (sample_transition Querying sample_begun)) (Running 1) [])
     (Process sample_submitting (Submitting 1) [])"
  using sample_advances [THEN sample_step] unfolding sample_submitting_def
  by (auto intro: step.advance step.submit)

lemma sample_armed_run: "reachable plain_env fresh_process (Process sample_armed (Armed 1) [])"
proof -
  obtain s where b: "begin_locked plain_env ''now'' (\<lambda>_. None) = (Inr (s, 1), sample_begun)"
    using sample_begins by (cases "begin_locked plain_env ''now'' (\<lambda>_. None)") (auto simp: sample_begun_def split: sum.splits)
  let ?w = "\<lparr>cw_disk = sample_submitting, cw_calls = []\<rparr> :: json chain_world"
  let ?p = "sample_payload"
  let ?w' = "write_world plain_env (chain_attempt_path 1) (attempt_json sample_chain sample_request ?p Started None None None) ?w"
  have "write_attempt plain_env sample_chain sample_request ?p Started None None None ?w = (Inr () :: apply_error + unit, ?w')"
    by (simp add: write_attempt_def sample_request_def)
  then have arm: "step plain_env (Process sample_submitting (Submitting 1) []) (Process sample_armed (Armed 1) [])"
    using step.arm [of sample_request 1 plain_env sample_chain ?p ?w "()" ?w' "[]"]
    by (simp add: sample_request_def sample_armed_def write_world_def)
  from b have "step plain_env fresh_process (Process sample_begun (Running 1) [])"
    unfolding fresh_process_def by (rule step.begin_tick)
  from next_step [OF next_step [OF next_step [OF next_step [OF next_step [OF start this] sample_steps(1)] sample_steps(2)] sample_steps(3)] arm]
  show ?thesis .
qed

lemma sample_signed_run: "reachable plain_env fresh_process (Process sample_armed (Signed 1) [1])"
  using next_step [OF sample_armed_run step.sign] by simp

theorem signatures_increase_witness: "is_file sample_armed (chain_attempt_path 1)"
  using signatures_increase [OF plain_env_codec sample_signed_run] by simp

theorem killed_while_signing_is_final_witness:
  "{q. reachable plain_env (Process sample_armed Stopped [1]) q} = {Process sample_armed Stopped [1]}"
  using killed_while_signing_is_final [OF plain_env_codec sample_signed_run, of 1] by (auto intro: reachable.start)

end
