(* ===== verification/Validator_Cli.thy ===== *)
theory Validator_Cli
  imports Wire Replay
begin

text \<open>
  \<open>src/dolores_subnet/validator_cli.py\<close>: the commands of the validator.  A tick checks its target,
  builds the configuration and the chain client, takes the lock, asks the miners and runs the epoch
  under the store's phases; health reads and probes; replay, recovery and the offline run.  Docker, the
  wallet, the terminal and the dendrite's query are arguments, and so is the text of an exception.
\<close>

section \<open>Arguments and errors\<close>

datatype cli_error =
    Refused string
  | Config_refused config_error
  | Target_refused endpoint_error
  | Client_refused client_error
  | Endpoint_refused endpoint_text_error
  | Tick_raised validator_error
  | Epoch_raised epoch_error
  | Wire_refused wire_error
  | Cli_raised exn

record runtime_args =
  ra_mode :: string
  ra_work :: string
  ra_quota :: int
  ra_miner_endpoints :: string
  ra_wallet_name :: string
  ra_wallet_hotkey :: string
  ra_network :: "string option"
  ra_netuid :: "int option"
  ra_chain :: string
  ra_allow_extrinsics :: bool
  ra_allow_commit_reveal :: bool
  ra_confirm_live :: string
  ra_panel_mode :: "string option"
  ra_panel_max_tasks :: "int option"
  ra_panel_dry_run :: bool
  ra_allow_provider_spend :: bool

definition max_signed_request_timeout :: pyfloat where
  "max_signed_request_timeout = Fin 30"

definition localnet_alt_network :: string where
  "localnet_alt_network = ''ws://127.0.0.1:9945''"

definition signed_request_timeout :: "'b env \<Rightarrow> string \<Rightarrow> cli_error + pyfloat" where
  "signed_request_timeout env value =
     (case py_float env (JStr value) of
        Inl _ \<Rightarrow> Inl (Refused ''timeout must be a number'')
      | Inr t \<Rightarrow>
          if flt (Fin 0) t \<and> fle t max_signed_request_timeout then Inr t
          else Inl (Refused ''timeout must be greater than 0 and at most 30 seconds (miner cohort policy)''))"

definition require_localnet_target :: "string option \<Rightarrow> int option \<Rightarrow> string \<Rightarrow> cli_error + unit" where
  "require_localnet_target net uid operation =
     (case (net, uid) of
        (Some n, Some u) \<Rightarrow>
          if n \<notin> set [localnet_network, localnet_alt_network]
          then Inl (Refused (operation @ '' requires a loopback Subtensor network''))
          else require (0 \<le> u) (Refused (operation @ '' netuid must be non-negative''))
      | _ \<Rightarrow> Inl (Refused (operation @ '' requires explicit --network and --netuid'')))"

definition validate_tick_target :: "runtime_args \<Rightarrow> run_mode \<Rightarrow> cli_error + unit" where
  "validate_tick_target a m =
     (case m of
        Mode_testnet \<Rightarrow>
          (case (ra_network a, ra_netuid a) of
             (Some net, Some uid) \<Rightarrow>
               bind_result (map_error Target_refused (require_cohort_target net uid)) (\<lambda>_.
               bind_result (require (ra_miner_endpoints a = [])
                 (Refused ''testnet tick requires metagraph discovery; manual endpoints forbidden'')) (\<lambda>_.
               require (ra_chain a \<noteq> ''off'')
                 (Refused ''testnet discovery requires --chain dry-run or --chain live'')))
           | _ \<Rightarrow> Inl (Refused ''testnet tick requires explicit --network test --netuid 523''))
      | Mode_wire \<Rightarrow>
          bind_result (require (ra_miner_endpoints a \<noteq> []) (Refused ''wire tick requires --miner-endpoints'')) (\<lambda>_.
          bind_result (require (ra_chain a = ''off'') (Refused ''wire tick requires --chain off'')) (\<lambda>_.
          bind_result (require (ra_network a = None \<and> ra_netuid a = None)
            (Refused ''wire tick forbids --network and --netuid'')) (\<lambda>_.
          require (\<not> (ra_allow_extrinsics a \<or> ra_allow_commit_reveal a \<or> ra_confirm_live a \<noteq> []))
            (Refused ''wire tick forbids live-chain authorization flags''))))
      | Mode_localnet \<Rightarrow>
          bind_result (require_localnet_target (ra_network a) (ra_netuid a) ''localnet tick'') (\<lambda>_.
          require (\<not> (ra_chain a = ''off'' \<and> ra_miner_endpoints a = []))
            (Refused ''localnet chain-off tick requires --miner-endpoints''))
      | _ \<Rightarrow> Inr ())"

text \<open>The process: its environment, wallet, terminal, clock and the answers to its queries.\<close>

record ('b, 'r) validator_host =
  vh_env :: "'b env"
  vh_host :: host
  vh_engine :: "'r engine"
  vh_files :: panel_files
  vh_connection :: "exn + substrate"
  vh_hotkey :: "exn + string"
  vh_coldkey :: "exn + string"
  vh_keys :: wire_keys
  vh_request_id :: string
  vh_query :: "miner_endpoint list \<Rightarrow> expected_request \<Rightarrow> exn + wire_answer list"
  vh_terminal :: "(exn + string) option"
  vh_docker :: "string option"
  vh_run :: "string list \<Rightarrow> exn + int \<times> string"
  vh_now :: string
  vh_pid :: nat
  vh_duration_ms :: int
  vh_text :: "cli_error \<Rightarrow> string"

section \<open>Asking the miners\<close>

definition wire_endpoint :: "exn + string \<Rightarrow> endpoint \<Rightarrow> exn + miner_endpoint" where
  "wire_endpoint coldkey e =
     bind_result (if ep_coldkey e \<noteq> [] then Inr (ep_coldkey e) else coldkey) (\<lambda>cold.
     Inr \<lparr>me_host = ep_host e, me_port = ep_port e, me_hotkey = ep_hotkey e, me_uid = ep_uid e, me_coldkey = cold\<rparr>)"

definition run_query ::
  "('b, 'r) validator_host \<Rightarrow> miner_endpoint list \<Rightarrow> int \<Rightarrow> int \<Rightarrow> int \<Rightarrow> exn + miner list" where
  "run_query vh endpoints epoch_id quota cap =
     bind_result (vh_hotkey vh) (\<lambda>hotkey.
     let x = \<lparr>ex_epoch = epoch_id, ex_quota = quota, ex_request_id = vh_request_id vh, ex_validator = hotkey\<rparr>
     in query_miners (vh_env vh) (vh_keys vh) cap x endpoints (vh_query vh endpoints x))"

definition manual_endpoints :: "('b, 'r) validator_host \<Rightarrow> string \<Rightarrow> cli_error + miner_endpoint list" where
  "manual_endpoints vh values =
     bind_result (map_error Cli_raised (vh_coldkey vh)) (\<lambda>coldkey.
     map_error Endpoint_refused (parse_miner_endpoints values coldkey))"

definition tick_endpoints ::
  "('b, 'r) validator_host \<Rightarrow> runtime_args \<Rightarrow> chain_client \<Rightarrow> cli_error + miner_endpoint list" where
  "tick_endpoints vh a client =
     (if ra_miner_endpoints a \<noteq> [] then manual_endpoints vh (ra_miner_endpoints a)
      else (case client of
              Null_chain \<Rightarrow> Inl (Refused ''metagraph discovery requires a SubtensorChain'')
            | Subtensor_chain c \<Rightarrow>
                map_error Cli_raised
                  (bind_result (vh_connection vh) (\<lambda>st.
                   bind_result (client_endpoints c st) (\<lambda>found. map_result (wire_endpoint (vh_coldkey vh)) found)))))"

definition query_miners_for_tick ::
  "('b, 'r) validator_host \<Rightarrow> runtime_args \<Rightarrow> subnet_config \<Rightarrow> chain_client \<Rightarrow> int \<Rightarrow> cli_error + miner list" where
  "query_miners_for_tick vh a cfg client epoch_id =
     bind_result (tick_endpoints vh a client) (\<lambda>endpoints.
     bind_result (require (endpoints \<noteq> []) (Refused ''no eligible miner axons discovered'')) (\<lambda>_.
     map_error Cli_raised (run_query vh endpoints epoch_id (ra_quota a) (max_response_bytes cfg))))"

section \<open>Ticks\<close>

definition live_confirmation_of :: "('b, 'r) validator_host \<Rightarrow> runtime_args \<Rightarrow> cli_error + string" where
  "live_confirmation_of vh a =
     (if ra_chain a \<noteq> ''live'' then Inr []
      else if ra_confirm_live a \<noteq> [] then Inr (ra_confirm_live a)
      else (case vh_terminal vh of None \<Rightarrow> Inr [] | Some reply \<Rightarrow> map_error Cli_raised reply))"

definition tick_config :: "('b, 'r) validator_host \<Rightarrow> runtime_args \<Rightarrow> run_mode \<Rightarrow> config_error + subnet_config" where
  "tick_config vh a m =
     from_env (vh_host vh) (no_args\<lparr>arg_mode := Some (mode_value m), arg_work_dir := Some (ra_work a),
       arg_wallet_name := Some (ra_wallet_name a), arg_wallet_hotkey := Some (ra_wallet_hotkey a),
       arg_network := ra_network a, arg_netuid := map_option JInt (ra_netuid a),
       arg_allow_commit_reveal := Some (ra_allow_commit_reveal a), arg_panel_mode := ra_panel_mode a,
       arg_panel_max_tasks := map_option JInt (ra_panel_max_tasks a),
       arg_panel_dry_run := (if ra_panel_dry_run a then Some True else None),
       arg_allow_provider_spend := Some (ra_allow_provider_spend a)\<rparr>)"

text \<open>What a tick checks before it takes the lock.\<close>

definition tick_setup :: "('b, 'r) validator_host \<Rightarrow> runtime_args \<Rightarrow> cli_error + subnet_config \<times> chain_client" where
  "tick_setup vh a =
     bind_result (map_error Config_refused (parse_mode (Some (ra_mode a)))) (\<lambda>m.
     bind_result (validate_tick_target a m) (\<lambda>_.
     bind_result (require (1 \<le> ra_quota a \<and> ra_quota a \<le> default_quota) (Refused ''quota must be within 1..4'')) (\<lambda>_.
     bind_result (map_error Config_refused (tick_config vh a m)) (\<lambda>cfg.
     bind_result (require (\<not> (holdout_required cfg \<and> or_text (holdout_secret cfg) None = None))
       (Refused ''DOLORES_HOLDOUT_SECRET is required (value not displayed)'')) (\<lambda>_.
     bind_result (live_confirmation_of vh a) (\<lambda>confirmation.
     bind_result (map_error Client_refused (build_chain_client cfg (ra_chain a) (ra_allow_extrinsics a) confirmation)) (\<lambda>client.
     Inr (cfg, client))))))))"

text \<open>The world of a command: the epoch's and the owner of the lock.\<close>

record 'b cli_world =
  clw_epoch :: "'b epoch_world"
  clw_lock :: "nat option"

type_synonym ('b, 'a) cli_op = "('b cli_world, cli_error, 'a) op"

abbreviation cli_disk :: "'b cli_world \<Rightarrow> 'b disk" where
  "cli_disk w \<equiv> cw_disk (ew_chain (clw_epoch w))"

definition on_runtime :: "('b runtime \<Rightarrow> (validator_error + 'a) \<times> 'b runtime) \<Rightarrow> ('b, 'a) cli_op" where
  "on_runtime m w =
     (case m \<lparr>disk = cli_disk w, lock_owner = clw_lock w\<rparr> of
        (r, rt) \<Rightarrow> (map_error Tick_raised r,
          w\<lparr>clw_epoch := (clw_epoch w)\<lparr>ew_chain := (ew_chain (clw_epoch w))\<lparr>cw_disk := disk rt\<rparr>\<rparr>,
            clw_lock := lock_owner rt\<rparr>))"

definition on_epoch :: "('b, 'a) epoch_op \<Rightarrow> ('b, 'a) cli_op" where
  "on_epoch m w = (case m (clw_epoch w) of (r, e) \<Rightarrow> (map_error Epoch_raised r, w\<lparr>clw_epoch := e\<rparr>))"

definition tick_input ::
  "('b, 'r) validator_host \<Rightarrow> subnet_config \<Rightarrow> chain_client \<Rightarrow> int \<Rightarrow> int \<Rightarrow> ('b, 'r) epoch_input" where
  "tick_input vh cfg client epoch_id quota =
     \<lparr>in_env = vh_env vh, in_host = vh_host vh, in_config = cfg, in_engine = vh_engine vh, in_files = vh_files vh,
      in_connection = vh_connection vh, in_client = client, in_epoch = epoch_id, in_quota = quota,
      in_created_at = vh_now vh, in_duration_ms = vh_duration_ms vh\<rparr>"

text \<open>The body of the \<open>with\<close> statement; a tick that is entered has its epoch.\<close>

definition tick_body ::
  "('b, 'r) validator_host \<Rightarrow> runtime_args \<Rightarrow> subnet_config \<Rightarrow> chain_client \<Rightarrow> tick
     \<Rightarrow> ('b, miner list \<times> epoch_result) cli_op" where
  "tick_body vh a cfg client t =
     (case tick_epoch t of
        None \<Rightarrow> fail_op (Cli_raised \<lparr>exn_type = ''AssertionError'', exn_text = []\<rparr>)
      | Some n \<Rightarrow>
          bind_op (on_runtime (on_disk (mark_querying (vh_env vh) (vh_now vh) t))) (\<lambda>_.
          bind_op (lift_op (query_miners_for_tick vh a cfg client n)) (\<lambda>miners.
          catch_op
            (bind_op (on_epoch (run_epoch (tick_input vh cfg client n (ra_quota a)) (phase_hook (vh_env vh) (vh_now vh) t) miners))
              (\<lambda>result. return_op (miners, result)))
            (\<lambda>raised. case raised of
               Epoch_raised (Not_complete mode reason) \<Rightarrow>
                 bind_op (on_runtime (on_disk (fail_weights (vh_env vh) (vh_now vh) t (vh_text vh raised)))) (\<lambda>_.
                 fail_op raised)
             | _ \<Rightarrow> fail_op raised))))"

text \<open>\<open>with store.tick()\<close>: the exit runs on every way out, and an error of its own takes over.\<close>

definition with_tick :: "('b, 'r) validator_host \<Rightarrow> (tick \<Rightarrow> ('b, 'a) cli_op) \<Rightarrow> ('b, 'a) cli_op" where
  "with_tick vh body =
     bind_op (on_runtime (tick_enter (vh_env vh) (vh_now vh) (new_tick (vh_pid vh)))) (\<lambda>t w.
       (case body t w of
          (r, w') \<Rightarrow>
            bind_op (on_runtime (tick_exit (vh_env vh) (vh_now vh)
                (case r of Inl e \<Rightarrow> Some (vh_text vh e) | Inr _ \<Rightarrow> None) t)) (\<lambda>_. lift_op r) w'))"

text \<open>The exit status; what a tick prints is left out.\<close>

definition tick_status :: "miner list \<Rightarrow> epoch_result \<Rightarrow> int" where
  "tick_status miners result =
     (if filter (\<lambda>m. or_text (mn_terminal_status m) None = None) miners = []
         \<or> res_mode (er_chain_result result) = ''error''
      then 1 else 0)"

definition tick_command :: "('b, 'r) validator_host \<Rightarrow> runtime_args \<Rightarrow> ('b, int) cli_op" where
  "tick_command vh a =
     bind_op (lift_op (tick_setup vh a)) (\<lambda>(cfg, client).
     bind_op (with_tick vh (tick_body vh a cfg client)) (\<lambda>(miners, result).
     return_op (tick_status miners result)))"

text \<open>\<open>main\<close>: every exception is status 2.\<close>

fun main_status :: "cli_error + int \<Rightarrow> int" where
  "main_status (Inl e) = 2"
| "main_status (Inr n) = n"

section \<open>Health\<close>

record health_args =
  ha_mode :: string
  ha_work :: string
  ha_wallet_name :: string
  ha_wallet_hotkey :: string
  ha_miner_endpoints :: string
  ha_network :: "string option"
  ha_netuid :: "int option"
  ha_chain :: string
  ha_probe_wire :: bool

definition validate_health_target :: "health_args \<Rightarrow> run_mode \<Rightarrow> cli_error + unit" where
  "validate_health_target a m =
     (if m = Mode_wire then
        bind_result (require (ha_miner_endpoints a \<noteq> []) (Refused ''wire health requires --miner-endpoints'')) (\<lambda>_.
        bind_result (require (ha_chain a = ''off'') (Refused ''wire health requires --chain off'')) (\<lambda>_.
        require (ha_network a = None \<and> ha_netuid a = None) (Refused ''wire health forbids --network and --netuid'')))
      else
        bind_result (require (ha_miner_endpoints a = [])
          (Refused ''chain health requires metagraph discovery; manual endpoints forbidden'')) (\<lambda>_.
        bind_result (require (ha_chain a \<noteq> ''off'') (Refused ''chain health forbids --chain off'')) (\<lambda>_.
        (case (ha_network a, ha_netuid a) of
           (Some net, Some uid) \<Rightarrow>
             (case m of
                Mode_testnet \<Rightarrow> map_error Target_refused (require_cohort_target net uid)
              | Mode_localnet \<Rightarrow> require_localnet_target (Some net) (Some uid) ''localnet health''
              | _ \<Rightarrow> Inr ())
         | _ \<Rightarrow> Inl (Refused ''health requires explicit --network and --netuid'')))))"

definition docker_report :: "bool \<Rightarrow> string \<Rightarrow> string option \<Rightarrow> string \<Rightarrow> jdict" where
  "docker_report ok reason server img =
     [(''ok'', JBool ok), (''reason'', JStr reason)]
     @ (case server of None \<Rightarrow> [] | Some v \<Rightarrow> [(''server_version'', JStr v)]) @ [(''image'', JStr img)]"

text \<open>Running a command gives its exit status and output, or raises when it times out.\<close>

definition docker_health :: "('b, 'r) validator_host \<Rightarrow> string \<Rightarrow> exn + jdict" where
  "docker_health vh img =
     (case vh_docker vh of
        None \<Rightarrow> Inr (docker_report False ''docker_cli_missing'' None img)
      | Some docker \<Rightarrow>
          bind_result (vh_run vh [docker, ''version'', ''--format'', ''{{.Server.Version}}'']) (\<lambda>(status, out).
          if status \<noteq> 0 then Inr (docker_report False ''docker_daemon_unavailable'' None img)
          else
            bind_result (vh_run vh [docker, ''image'', ''inspect'', img]) (\<lambda>(inspected, _).
            Inr (docker_report (inspected = 0) (if inspected = 0 then ''ok'' else ''verifier_image_missing'')
              (Some (strip out)) img))))"

text \<open>The rows of manual endpoints.\<close>

definition endpoint_row :: "miner_endpoint \<Rightarrow> endpoint" where
  "endpoint_row e = \<lparr>ep_host = me_host e, ep_port = me_port e, ep_hotkey = me_hotkey e, ep_uid = me_uid e, ep_coldkey = me_coldkey e\<rparr>"

definition manual_wire_endpoint_rows :: "('b, 'r) validator_host \<Rightarrow> string \<Rightarrow> cli_error + endpoint list" where
  "manual_wire_endpoint_rows vh values =
     bind_result (manual_endpoints vh values) (\<lambda>es. Inr (map endpoint_row es))"

text \<open>The miners that answer a signed request for nothing.\<close>

definition signed_health_probe :: "('b, 'r) validator_host \<Rightarrow> endpoint list \<Rightarrow> int \<Rightarrow> int \<Rightarrow> exn + int" where
  "signed_health_probe vh rows epoch_id cap =
     bind_result (map_result (wire_endpoint (vh_coldkey vh)) rows) (\<lambda>endpoints.
     bind_result (run_query vh endpoints epoch_id 0 cap) (\<lambda>miners.
     Inr (int (length (filter (\<lambda>m. \<not> terminal m) miners)))))"

definition chain_reads :: "('b, 'r) validator_host \<Rightarrow> subtensor_chain \<Rightarrow> exn + jdict \<times> endpoint list" where
  "chain_reads vh c =
     bind_result (vh_connection vh) (\<lambda>st.
     bind_result (preflight c st) (\<lambda>state.
     if jget state ''mode'' \<noteq> JStr ''error''
     then bind_result (client_endpoints c st) (\<lambda>es. Inr (state, es)) else Inr (state, [])))"

definition health_chain ::
  "('b, 'r) validator_host \<Rightarrow> health_args \<Rightarrow> run_mode \<Rightarrow> subnet_config \<Rightarrow> cli_error + jdict \<times> endpoint list" where
  "health_chain vh a m cfg =
     (if m = Mode_wire then
        bind_result (manual_wire_endpoint_rows vh (ha_miner_endpoints a)) (\<lambda>es.
        Inr ([(''mode'', JStr ''off''), (''reason'', JStr ''manual_wire_chain_neutral'')], es))
      else
        bind_result (map_error Client_refused (subtensor_client (case network cfg of None \<Rightarrow> [] | Some n \<Rightarrow> n) (netuid cfg)
          ''dry-run'' False False [])) (\<lambda>c.
        Inr (case chain_reads vh c of
               Inl e \<Rightarrow> ([(''mode'', JStr ''error''), (''reason'', JStr ''rpc_or_wallet_unreachable''), (''error_type'', JStr (exn_type e))], [])
             | Inr r \<Rightarrow> r)))"

definition health_probe ::
  "('b, 'r) validator_host \<Rightarrow> health_args \<Rightarrow> subnet_config \<Rightarrow> endpoint list \<Rightarrow> int \<Rightarrow> int option \<times> string option" where
  "health_probe vh a cfg rows epoch_id =
     (if \<not> (ha_probe_wire a \<and> rows \<noteq> []) then (None, None)
      else (case signed_health_probe vh rows epoch_id (max_response_bytes cfg) of
              Inl e \<Rightarrow> (Some 0, Some (exn_type e))
            | Inr n \<Rightarrow> (Some n, None)))"

text \<open>\<open>str(v or dflt)\<close>.\<close>

definition text_or :: "'b env \<Rightarrow> json \<Rightarrow> string \<Rightarrow> string" where
  "text_or env v dflt = (if truthy v then text_of_json env v else dflt)"

definition degraded_conditions ::
  "'b env \<Rightarrow> health_args \<Rightarrow> subnet_config \<Rightarrow> validator_state \<Rightarrow> jdict \<Rightarrow> jdict \<Rightarrow> endpoint list \<Rightarrow> int option \<Rightarrow> string list" where
  "degraded_conditions env a cfg s docker chain_state rows reached =
     (if truthy (jget docker ''ok'') then [] else [text_or env (jget docker ''reason'') ''docker_unhealthy''])
     @ (if or_text (holdout_secret cfg) None = None then [''holdout_secret_missing''] else [])
     @ (if jget chain_state ''mode'' = JStr ''error''
        then [''chain:'' @ text_or env (jget chain_state ''reason'') ''readiness_error''] else [])
     @ (if rows = [] then [''no_public_miners_discovered''] else [])
     @ (if \<not> ha_probe_wire a then [''signed_reachability_probe_disabled'']
        else if reached \<noteq> Some (int (length rows))
        then [''signed_reachability:'' @ show_int (case reached of None \<Rightarrow> 0 | Some n \<Rightarrow> n) @ ''/'' @ show_int (int (length rows))]
        else [])
     @ (if phase_of s = Some Weights_submitting then [''ambiguous_weight_submission''] else [])
     @ (if or_text (last_error s) None \<noteq> None then [''last_epoch_failed''] else [])
     @ (case last_receipt s of
          Some (kv # d) \<Rightarrow>
            if jget (kv # d) ''mode'' = JStr ''error''
            then [''last_chain_receipt:'' @ text_or env (jget (kv # d) ''reason'') ''error''] else []
        | _ \<Rightarrow> [])"

record health_report =
  hr_state :: validator_state
  hr_docker :: jdict
  hr_chain :: jdict
  hr_endpoints :: "endpoint list"
  hr_reachable :: "int option"
  hr_probe_error :: "string option"
  hr_degraded :: "string list"

definition health_config :: "('b, 'r) validator_host \<Rightarrow> health_args \<Rightarrow> run_mode \<Rightarrow> config_error + subnet_config" where
  "health_config vh a m =
     from_env (vh_host vh) (no_args\<lparr>arg_mode := Some (mode_value m), arg_work_dir := Some (ha_work a),
       arg_wallet_name := Some (ha_wallet_name a), arg_wallet_hotkey := Some (ha_wallet_hotkey a),
       arg_network := ha_network a, arg_netuid := map_option JInt (ha_netuid a)\<rparr>)"

definition health_report_of :: "('b, 'r) validator_host \<Rightarrow> health_args \<Rightarrow> 'b disk \<Rightarrow> cli_error + subnet_config \<times> health_report" where
  "health_report_of vh a fs =
     bind_result (map_error Config_refused (parse_mode (Some (ha_mode a)))) (\<lambda>m.
     bind_result (validate_health_target a m) (\<lambda>_.
     bind_result (map_error Config_refused (health_config vh a m)) (\<lambda>cfg.
     bind_result (map_error Tick_raised (read_state (vh_env vh) fs)) (\<lambda>s.
     bind_result (map_error Cli_raised (docker_health vh (verifier_image cfg))) (\<lambda>docker.
     bind_result (health_chain vh a m cfg) (\<lambda>(chain_state, rows).
     let (reached, probe_error) = health_probe vh a cfg rows (next_epoch_id s) in
     Inr (cfg, \<lparr>hr_state = s, hr_docker = docker, hr_chain = chain_state, hr_endpoints = rows, hr_reachable = reached,
       hr_probe_error = probe_error,
       hr_degraded = degraded_conditions (vh_env vh) a cfg s docker chain_state rows reached\<rparr>)))))))"

text \<open>The report as it is printed.\<close>

definition health_payload :: "health_args \<Rightarrow> subnet_config \<Rightarrow> health_report \<Rightarrow> jdict" where
  "health_payload a cfg r =
     (let s = hr_state r; n = JInt (int (length (hr_endpoints r))); wire = (cfg_mode cfg = Mode_wire) in
      [(''ok'', JBool (hr_degraded r = [])), (''network'', opt_str (network cfg)), (''netuid'', opt_int (netuid cfg)),
       (''runtime_state'', to_dict s), (''last_completed_epoch'', opt_int (last_completed_epoch s)),
       (''last_successful_weight_receipt'', opt_obj (last_successful_weight_receipt s)),
       (''ambiguous_weight_submission'', JBool (phase_of s = Some Weights_submitting)),
       (''holdout_secret_configured'', JBool (or_text (holdout_secret cfg) None \<noteq> None)),
       (''docker'', JObj (hr_docker r)), (''chain'', JObj (hr_chain r)),
       (''blocks_since_validator_update'', jget (hr_chain r) ''blocks_since_last_update''),
       (''endpoint_source'', JStr (if wire then ''manual_wire'' else ''metagraph'')), (''miner_endpoint_count'', n),
       (''manual_endpoints'', if wire then n else JInt 0), (''discovered_public_miners'', if wire then JInt 0 else n),
       (''signed_probe_requested'', JBool (ha_probe_wire a)), (''signed_reachable_miners'', opt_int (hr_reachable r)),
       (''reachable_miner_count'', opt_int (hr_reachable r)), (''probe_error_type'', opt_str (hr_probe_error r)),
       (''degraded_conditions'', JArr (map JStr (hr_degraded r)))])"

definition health_command :: "('b, 'r) validator_host \<Rightarrow> health_args \<Rightarrow> 'b disk \<Rightarrow> cli_error + jdict \<times> int" where
  "health_command vh a fs =
     bind_result (health_report_of vh a fs) (\<lambda>(cfg, r).
     Inr (health_payload a cfg r, if hr_degraded r = [] then 0 else 1))"

section \<open>The other commands\<close>

text \<open>\<open>probe-wire\<close> with its endpoints, epoch and time limit; it returns the reached miners and the exit status.\<close>

definition probe_wire_command :: "('b, 'r) validator_host \<Rightarrow> string \<Rightarrow> int \<Rightarrow> pyfloat \<Rightarrow> cli_error + int \<times> int" where
  "probe_wire_command vh values epoch_id timeout =
     (if epoch_id < 0 then Inl (Refused ''probe-wire epoch must be non-negative'')
      else if fle timeout (Fin 0) then Inl (Refused ''probe-wire timeout must be positive'')
      else
        bind_result (manual_wire_endpoint_rows vh values) (\<lambda>rows.
        bind_result (map_error Cli_raised (signed_health_probe vh rows epoch_id max_response_bytes_const)) (\<lambda>reached.
        Inr (reached, if reached = int (length rows) then 0 else 1))))"

text \<open>The store takes the lock for the recovery and gives it back.\<close>

definition recover_receipt_command :: "('b, 'r) validator_host \<Rightarrow> ('b, json \<times> int) cli_op" where
  "recover_receipt_command vh =
     on_runtime (\<lambda>w. case lock_acquire (new_tick (vh_pid vh)) w of
        (Inl e, w1) \<Rightarrow> (Inl e, w1)
      | (Inr t, w1) \<Rightarrow>
          (case on_disk (recover_receipt (vh_env vh) (vh_now vh)) w1 of
             (r, w2) \<Rightarrow> (bind_result r (\<lambda>s. Inr (to_dict s, 0)), snd (lock_release t w2))))"

definition offline_config :: "('b, 'r) validator_host \<Rightarrow> string \<Rightarrow> config_error + subnet_config" where
  "offline_config vh work = from_env (vh_host vh) (no_args\<lparr>arg_mode := Some (mode_value Mode_offline), arg_work_dir := Some work\<rparr>)"

definition replay_command :: "('b, 'r) validator_host \<Rightarrow> string \<Rightarrow> int \<Rightarrow> 'b epoch_world \<Rightarrow> cli_error + int" where
  "replay_command vh work epoch_id w =
     (if epoch_id < 1 then Inl (Refused ''replay epoch must be positive'')
      else
        bind_result (map_error Config_refused (offline_config vh work)) (\<lambda>cfg.
        bind_result (map_error Cli_raised (assert_replay_matches (vh_env vh) (cw_disk (ew_chain w)) (ew_log w) epoch_id)) (\<lambda>_.
        Inr 0)))"

text \<open>Files by their stem and path, with the document each holds.\<close>

definition load_ordered_payloads :: "'b env \<Rightarrow> (string \<times> string \<times> json) list \<Rightarrow> wire_error + (string \<times> jdict) list" where
  "load_ordered_payloads env files =
     bind_result (map_result (\<lambda>(stem, path, v). bind_result (loads_wire_json path v) (\<lambda>d. Inr (stem, path, d)))
       (sort_key (fst \<circ> snd) files)) (\<lambda>items.
     Inr (map (\<lambda>(stem, path, d). (stem, d))
       (sort_key (\<lambda>(stem, path, d). text_of_json env (jget_or d ''package_hash'' (JStr []))) items)))"

definition once_one ::
  "('b, 'r) validator_host \<Rightarrow> subnet_config \<Rightarrow> int \<Rightarrow> string \<times> jdict \<Rightarrow> ('b, submission_outcome) epoch_op" where
  "once_one vh cfg epoch_id item =
     (let hotkey = ''fixture:'' @ fst item in
      bind_op (on_bridge (validate_submission (vh_env vh) (vh_engine vh) cfg (panel_path cfg) hotkey (snd item))) (\<lambda>out.
      bind_op (append_submission (vh_now vh) (dict_set (outcome_record epoch_id hotkey 0 out) ''miner_uid'' JNull)) (\<lambda>_.
      return_op out)))"

fun once_all ::
  "('b, 'r) validator_host \<Rightarrow> subnet_config \<Rightarrow> int \<Rightarrow> (string \<times> jdict) list \<Rightarrow> ('b, submission_outcome list) epoch_op" where
  "once_all vh cfg epoch_id [] = return_op []"
| "once_all vh cfg epoch_id (item # items) =
     bind_op (once_one vh cfg epoch_id item) (\<lambda>out.
     bind_op (once_all vh cfg epoch_id items) (\<lambda>outs. return_op (out # outs)))"

definition once_command ::
  "('b, 'r) validator_host \<Rightarrow> string \<Rightarrow> int \<Rightarrow> int \<Rightarrow> (string \<times> string \<times> json) list \<Rightarrow> ('b, int) cli_op" where
  "once_command vh work epoch_id quota files =
     bind_op (lift_op (map_error Config_refused (offline_config vh work))) (\<lambda>cfg.
     bind_op (on_epoch (modify_op (\<lambda>w. w\<lparr>ew_bridge := \<lparr>br_context = new_context quota, br_purged = []\<rparr>\<rparr>))) (\<lambda>_.
     bind_op (lift_op (map_error Wire_refused (load_ordered_payloads (vh_env vh) files))) (\<lambda>items.
     bind_op (on_epoch (once_all vh cfg epoch_id items)) (\<lambda>outs.
     return_op (if filter (\<lambda>out. so_status out = ''infra_error'') outs \<noteq> [] then 1 else 0)))))"

section \<open>What a healthy report means\<close>

lemma map_result_forall2: "map_result f xs = Inr ys \<longleftrightarrow> list_all2 (\<lambda>x y. f x = Inr y) xs ys"
  by (induction xs arbitrary: ys) (auto simp: list_all2_Cons1)

text \<open>An answer that the endpoint's key has signed for a request.\<close>

definition authentic_answer :: "'b env \<Rightarrow> wire_keys \<Rightarrow> expected_request \<Rightarrow> miner_endpoint \<Rightarrow> wire_answer \<Rightarrow> bool" where
  "authentic_answer env ks x e a \<longleftrightarrow> (\<exists>r t. a = Synapse r \<and> answers_request env e x r t
     \<and> wk_verify ks (me_hotkey e) (signed_message env e r t) (sy_response_signature r) = Inr True)"

lemma answered_authentic:
  "wire_miner_from_response env ks cap x e a = Inr m \<Longrightarrow> \<not> terminal m \<Longrightarrow> authentic_answer env ks x e a"
  using accepted_response [of env ks cap x e a m] by (auto simp: authentic_answer_def verify_Inr)

lemma all_answered:
  assumes "query_miners env ks cap x es answers = Inr ms" "list_all (\<lambda>m. \<not> terminal m) ms" "es \<noteq> []"
  obtains rs where "answers = Inr rs" "list_all2 (authentic_answer env ks x) es rs"
proof (cases answers)
  case (Inl raised)
  with assms show ?thesis
    by (cases es) (auto simp: query_miners_def unreachable_miner_def)
next
  case (Inr rs)
  with assms(1) have ms: "list_all2 (\<lambda>er m. wire_miner_from_response env ks cap x (fst er) (snd er) = Inr m) (zip es rs) ms"
    and len: "length es = length rs"
    by (auto simp: query_miners_def map_result_forall2 case_prod_beta split: if_splits)
  have "authentic_answer env ks x (es ! i) (rs ! i)" if "i < length es" for i
  proof -
    have i: "i < length (zip es rs)" using that len by simp
    then have "i < length ms" using list_all2_lengthD [OF ms] by metis
    then have "\<not> terminal (ms ! i)" using assms(2) by (simp add: list_all_length)
    with list_all2_nthD [OF ms i] that len show ?thesis by (auto intro: answered_authentic)
  qed
  with len Inr that show ?thesis by (simp add: list_all2_conv_all_nth)
qed

lemma all_kept: "length (filter P xs) = length xs \<Longrightarrow> list_all P xs"
  by (metis length_filter_less less_irrefl list_all_iff)

lemma query_length: "query_miners env ks cap x es answers = Inr ms \<Longrightarrow> length ms = length es"
  using query_covers_endpoints [of env ks cap x es answers ms] by (metis length_map)

text \<open>A probe that counts every row.\<close>

lemma probe_all:
  assumes "signed_health_probe vh rows n cap = Inr (int (length rows))" "rows \<noteq> []"
  shows "\<exists>es x rs. es \<noteq> [] \<and> map me_hotkey es = map ep_hotkey rows \<and> vh_query vh es x = Inr rs
    \<and> x = \<lparr>ex_epoch = n, ex_quota = 0, ex_request_id = vh_request_id vh, ex_validator = projr (vh_hotkey vh)\<rparr> \<and> is_ok (vh_hotkey vh)
    \<and> list_all2 (authentic_answer (vh_env vh) (vh_keys vh) x) es rs"
proof -
  from assms(1) obtain es ms where es: "map_result (wire_endpoint (vh_coldkey vh)) rows = Inr es"
    and q: "run_query vh es n 0 cap = Inr ms" and l: "length (filter (\<lambda>m. \<not> terminal m) ms) = length rows"
    by (auto simp: signed_health_probe_def)
  have len: "length es = length rows" using map_result_Inr_length [OF es] .
  have hk: "map me_hotkey es = map ep_hotkey rows"
    using es unfolding map_result_forall2 by (induction rule: list_all2_induct) (auto simp: wire_endpoint_def)
  from q obtain hotkey where v: "vh_hotkey vh = Inr hotkey" by (auto simp: run_query_def)
  let ?x = "\<lparr>ex_epoch = n, ex_quota = 0, ex_request_id = vh_request_id vh, ex_validator = hotkey\<rparr>"
  have m: "query_miners (vh_env vh) (vh_keys vh) cap ?x es (vh_query vh es ?x) = Inr ms"
    using q v by (simp add: run_query_def Let_def)
  have "list_all (\<lambda>m. \<not> terminal m) ms" using l len query_length [OF m] by (intro all_kept) simp
  moreover have "es \<noteq> []" using len assms(2) by auto
  ultimately show ?thesis using all_answered [OF m] hk v by (auto intro!: exI [of _ es])
qed

lemma healthy_parts:
  assumes "health_command vh a fs = Inr (payload, 0)"
  obtains m cfg s chain_state rows docker where "read_state (vh_env vh) fs = Inr s"
    "docker_health vh (verifier_image cfg) = Inr docker" "health_config vh a m = Inr cfg"
    "degraded_conditions (vh_env vh) a cfg s docker chain_state rows (fst (health_probe vh a cfg rows (next_epoch_id s))) = []"
proof -
  from assms obtain cfg r where r: "health_report_of vh a fs = Inr (cfg, r)" and d: "hr_degraded r = []"
    by (auto simp: health_command_def split: if_splits)
  from r obtain m s docker chain_state rows where
    "read_state (vh_env vh) fs = Inr s" "docker_health vh (verifier_image cfg) = Inr docker" "health_config vh a m = Inr cfg"
    "r = \<lparr>hr_state = s, hr_docker = docker, hr_chain = chain_state, hr_endpoints = rows,
       hr_reachable = fst (health_probe vh a cfg rows (next_epoch_id s)), hr_probe_error = snd (health_probe vh a cfg rows (next_epoch_id s)),
       hr_degraded = degraded_conditions (vh_env vh) a cfg s docker chain_state rows (fst (health_probe vh a cfg rows (next_epoch_id s)))\<rparr>"
    by (auto simp: health_report_of_def Let_def case_prod_beta)
  with d that show ?thesis by simp
qed

lemma docker_ok:
  assumes "docker_health vh img = Inr report" "truthy (jget report ''ok'')"
  shows "\<exists>docker v out. vh_docker vh = Some docker \<and> vh_run vh [docker, ''version'', ''--format'', ''{{.Server.Version}}''] = Inr (0, v)
    \<and> vh_run vh [docker, ''image'', ''inspect'', img] = Inr (0, out)"
  using assms by (auto simp: docker_health_def docker_report_def split: option.splits if_splits)

text \<open>When health reports success, Docker runs and has the verifier's image, a holdout secret is configured, no
  submission is open and the last epoch has not failed, and every endpoint has just answered: with the signature of its
  hotkey over a request for nothing in the next epoch, made by this validator.\<close>

lemma health_ok_means:
  assumes "health_command vh a fs = Inr (payload, 0)"
  shows "\<exists>(cfg :: subnet_config) s. read_state (vh_env vh) fs = Inr s \<and> phase_of s \<noteq> Some Weights_submitting \<and> or_text (last_error s) None = None
    \<and> or_text (holdout_secret cfg) None \<noteq> None
    \<and> (\<exists>docker v out. vh_docker vh = Some docker \<and> vh_run vh [docker, ''version'', ''--format'', ''{{.Server.Version}}''] = Inr (0, v)
        \<and> vh_run vh [docker, ''image'', ''inspect'', verifier_image cfg] = Inr (0, out))
    \<and> (\<exists>es x rs. es \<noteq> [] \<and> vh_query vh es x = Inr rs \<and> ex_epoch x = next_epoch_id s \<and> ex_quota x = 0
        \<and> list_all2 (authentic_answer (vh_env vh) (vh_keys vh) x) es rs)"
proof -
  obtain m cfg s chain_state rows docker where s: "read_state (vh_env vh) fs = Inr s"
    and docker: "docker_health vh (verifier_image cfg) = Inr docker"
    and none: "degraded_conditions (vh_env vh) a cfg s docker chain_state rows (fst (health_probe vh a cfg rows (next_epoch_id s))) = []"
    by (rule healthy_parts [OF assms])
  have c: "truthy (jget docker ''ok'')" "or_text (holdout_secret cfg) None \<noteq> None" "rows \<noteq> []" "ha_probe_wire a"
    "fst (health_probe vh a cfg rows (next_epoch_id s)) = Some (int (length rows))"
    "phase_of s \<noteq> Some Weights_submitting" "or_text (last_error s) None = None"
    using none by (auto simp: degraded_conditions_def split: if_splits)
  have "signed_health_probe vh rows (next_epoch_id s) (max_response_bytes cfg) = Inr (int (length rows))"
    using c(3,4,5) by (auto simp: health_probe_def split: sum.splits if_splits)
  from probe_all [OF this c(3)] have answered: "\<exists>es x rs. es \<noteq> [] \<and> vh_query vh es x = Inr rs \<and> ex_epoch x = next_epoch_id s
      \<and> ex_quota x = 0 \<and> list_all2 (authentic_answer (vh_env vh) (vh_keys vh) x) es rs" by fastforce
  show ?thesis
    by (intro exI [of _ cfg] exI [of _ s] conjI s c(2,6,7) docker_ok [OF docker c(1)] answered)
qed

definition signing_miner :: "expected_request \<Rightarrow> miner_endpoint \<Rightarrow> wire_answer" where
  "signing_miner x e = Synapse \<lparr>sy_dendrite = Some \<lparr>rt_nonce = Some 1, rt_uuid = Some ''u'', rt_hotkey = Some (ex_validator x), rt_status_message = []\<rparr>,
     sy_success = True, sy_protocol = wire_protocol_version, sy_request_id = ex_request_id x, sy_epoch = ex_epoch x, sy_quota = ex_quota x,
     sy_submissions = [], sy_error = [], sy_response_hotkey = me_hotkey e, sy_response_digest = submissions_digest plain_env [],
     sy_response_signature = ''0x1''\<rparr>"

definition healthy_host :: "(json, nat) validator_host" where
  "healthy_host = \<lparr>vh_env = plain_env, vh_host = sample_host\<lparr>environ := (\<lambda>n. if n = ''DOLORES_HOLDOUT_SECRET'' then Some ''s'' else None)\<rparr>,
     vh_engine = sample_engine, vh_files = in_files sample_input, vh_connection = Inl (runtime_error ''offline''),
     vh_hotkey = Inr ''v'', vh_coldkey = Inr ''c'', vh_keys = \<lparr>wk_sign = (\<lambda>a m. ''1''), wk_verify = (\<lambda>a m s. Inr (s = ''0x1''))\<rparr>,
     vh_request_id = sample_request_id, vh_query = (\<lambda>es x. Inr (map (signing_miner x) es)), vh_terminal = None,
     vh_docker = Some ''docker'', vh_run = (\<lambda>_. Inr (0, ''27'')), vh_now = ''now'', vh_pid = 7, vh_duration_ms = 0, vh_text = (\<lambda>_. [])\<rparr>"

definition healthy_args :: health_args where
  "healthy_args = \<lparr>ha_mode = ''wire'', ha_work = ''/work'', ha_wallet_name = ''w'', ha_wallet_hotkey = ''h'',
     ha_miner_endpoints = ''10.0.0.2:8091:m'', ha_network = None, ha_netuid = None, ha_chain = ''off'', ha_probe_wire = True\<rparr>"

lemma healthy_run: "map_option (\<lambda>(cfg, r). hr_degraded r) (case health_report_of healthy_host healthy_args (\<lambda>_. None) of Inl _ \<Rightarrow> None | Inr p \<Rightarrow> Some p) = Some []"
  by code_simp

lemma health_ok_means_instance:
  "\<exists>es x rs. es \<noteq> [] \<and> vh_query healthy_host es x = Inr rs \<and> ex_epoch x = 1
     \<and> list_all2 (authentic_answer plain_env (vh_keys healthy_host) x) es rs"
proof -
  obtain cfg r where "health_report_of healthy_host healthy_args (\<lambda>_. None) = Inr (cfg, r)" "hr_degraded r = []"
    using healthy_run by (auto split: sum.splits)
  then have "health_command healthy_host healthy_args (\<lambda>_. None) = Inr (health_payload healthy_args cfg r, 0)"
    by (simp add: health_command_def)
  from health_ok_means [OF this] show ?thesis
    by (auto simp: read_state_def initial_state_def healthy_host_def)
qed

end
