(* ===== verification/Operations.thy ===== *)
theory Operations
  imports Prelude
begin

text \<open>
  Invariants of operations: a predicate that an operation keeps whether it returns or raises, a part of
  the state that it leaves alone, and the rules that carry both through the plumbing of \<open>Prelude\<close>.
\<close>

named_theorems preserved "operations that keep a predicate"

definition preserves :: "('s \<Rightarrow> bool) \<Rightarrow> ('s, 'e, 'a) op \<Rightarrow> bool" where
  "preserves I m \<longleftrightarrow> (\<forall>s. I s \<longrightarrow> I (snd (m s)))"

lemma preservesI: "(\<And>s r s'. m s = (r, s') \<Longrightarrow> I s \<Longrightarrow> I s') \<Longrightarrow> preserves I m"
  by (simp add: preserves_def) (metis prod.collapse)

lemma preservesD: "preserves I m \<Longrightarrow> m s = (r, s') \<Longrightarrow> I s \<Longrightarrow> I s'"
  by (auto simp: preserves_def dest!: spec [of _ s])

lemma preserves_return [preserved]: "preserves I (return_op a)"
  by (simp add: preserves_def op_plumbing)

lemma preserves_fail [preserved]: "preserves I (fail_op e)"
  by (simp add: preserves_def op_plumbing)

lemma preserves_lift [preserved]: "preserves I (lift_op r)"
  by (simp add: preserves_def op_plumbing)

lemma preserves_guard [preserved]: "preserves I (guard_op b e)"
  by (simp add: preserves_def op_plumbing)

lemma preserves_get [preserved]: "preserves I get_op"
  by (simp add: preserves_def op_plumbing)

lemma preserves_modify: "(\<And>s. I s \<Longrightarrow> I (f s)) \<Longrightarrow> preserves I (modify_op f)"
  by (simp add: preserves_def op_plumbing)

lemma preserves_bind [preserved]: "preserves I m \<Longrightarrow> (\<And>a. preserves I (f a)) \<Longrightarrow> preserves I (bind_op m f)"
  by (rule preservesI) (auto simp: bind_op_def split: prod.splits sum.splits dest: preservesD)

lemma preserves_catch [preserved]: "preserves I m \<Longrightarrow> (\<And>e. preserves I (h e)) \<Longrightarrow> preserves I (catch_op m h)"
  by (rule preservesI) (auto simp: catch_op_def split: prod.splits sum.splits dest: preservesD)

lemma preserves_if [preserved]: "(b \<Longrightarrow> preserves I m) \<Longrightarrow> (\<not> b \<Longrightarrow> preserves I n) \<Longrightarrow> preserves I (if b then m else n)"
  by simp

lemma preserves_case_option [preserved]:
  "preserves I m \<Longrightarrow> (\<And>a. preserves I (f a)) \<Longrightarrow> preserves I (case z of None \<Rightarrow> m | Some a \<Rightarrow> f a)"
  by (cases z) simp_all

lemma preserves_case_prod [preserved]: "(\<And>a b. preserves I (f a b)) \<Longrightarrow> preserves I (case z of (a, b) \<Rightarrow> f a b)"
  by (cases z) simp

text \<open>A part of the state.\<close>

definition leaves :: "('s \<Rightarrow> 'p) \<Rightarrow> ('s, 'e, 'a) op \<Rightarrow> bool" where
  "leaves p m \<longleftrightarrow> (\<forall>c. preserves (\<lambda>s. p s = c) m)"

lemma leavesI: "(\<And>c. preserves (\<lambda>s. p s = c) m) \<Longrightarrow> leaves p m"
  by (simp add: leaves_def)

lemma leavesD: "leaves p m \<Longrightarrow> m s = (r, s') \<Longrightarrow> p s' = p s"
  using preservesD [of "\<lambda>s'. p s' = p s" m s r s'] by (simp add: leaves_def)

text \<open>At most one step of an operation changes a part of the state, and in a given way.\<close>

definition once :: "('s \<Rightarrow> 'p) \<Rightarrow> ('p \<Rightarrow> 'p \<Rightarrow> bool) \<Rightarrow> ('s, 'e, 'a) op \<Rightarrow> bool" where
  "once p R m \<longleftrightarrow> (\<forall>s. p (snd (m s)) = p s \<or> R (p s) (p (snd (m s))))"

lemma onceI: "(\<And>s r s'. m s = (r, s') \<Longrightarrow> p s' = p s \<or> R (p s) (p s')) \<Longrightarrow> once p R m"
  by (simp add: once_def) (metis prod.collapse)

lemma onceD: "once p R m \<Longrightarrow> m s = (r, s') \<Longrightarrow> p s' \<noteq> p s \<Longrightarrow> R (p s) (p s')"
  by (auto simp: once_def dest!: spec [of _ s])

lemma once_after:
  assumes "leaves p m" "\<And>a. once p R (f a)"
  shows "once p R (bind_op m f)"
proof (rule onceI)
  fix s r s' assume "bind_op m f s = (r, s')"
  then consider e where "m s = (Inl e, s')" | a t where "m s = (Inr a, t)" "f a t = (r, s')"
    by (auto simp: bind_op_def split: prod.splits sum.splits)
  then show "p s' = p s \<or> R (p s) (p s')"
    using leavesD [OF assms(1)] onceD [OF assms(2)] by cases metis+
qed

lemma once_before:
  assumes "once p R m" "\<And>a. leaves p (f a)"
  shows "once p R (bind_op m f)"
proof (rule onceI)
  fix s r s' assume "bind_op m f s = (r, s')"
  then consider e where "m s = (Inl e, s')" | a t where "m s = (Inr a, t)" "f a t = (r, s')"
    by (auto simp: bind_op_def split: prod.splits sum.splits)
  then show "p s' = p s \<or> R (p s) (p s')"
    using leavesD [OF assms(2)] onceD [OF assms(1)] by cases metis+
qed

lemma once_leaves: "leaves p m \<Longrightarrow> once p R m"
  by (rule onceI) (auto dest: leavesD)

end
