(* ===== verification/Epoch_Frames.thy ===== *)
theory Epoch_Frames
  imports Epoch Operations
begin

text \<open>
  What an epoch leaves alone: the signing calls, which only the chain client makes, and any property of
  the archive that the artifacts of an epoch do not touch.
\<close>

section \<open>Parts of the epoch's world\<close>

lemma preserves_on_bridge [preserved]: "preserves (\<lambda>w. J (ew_chain w)) (on_bridge m)"
  by (rule preservesI) (auto simp: on_bridge_def split: prod.splits)

lemma preserves_on_session [preserved]: "preserves (\<lambda>w. J (ew_chain w)) (on_session m)"
  by (rule preservesI) (auto simp: on_session_def split: prod.splits)

lemma preserves_append [preserved]: "preserves (\<lambda>w. J (ew_chain w)) (append_submission t rec)"
  by (rule preservesI) (auto simp: append_submission_def)

lemma preserves_on_chain: "preserves J m \<Longrightarrow> preserves (\<lambda>w. J (ew_chain w)) (on_chain f m)"
  by (rule preservesI) (auto simp: on_chain_def split: prod.splits dest: preservesD)

lemma preserves_archive_json:
  "(\<And>c. J c \<Longrightarrow> J (write_world env p v c)) \<Longrightarrow> preserves (\<lambda>w. J (ew_chain w)) (archive_json env p v)"
  unfolding archive_json_def by (intro preserves_on_chain preserves_modify)

lemma preserves_modify_chain [preserved]: "(\<And>w. ew_chain (f w) = ew_chain w) \<Longrightarrow> preserves (\<lambda>w. J (ew_chain w)) (modify_op f)"
  by (intro preserves_modify) simp

section \<open>Evaluation\<close>

lemma preserves_terminals [preserved]: "preserves (\<lambda>w. J (ew_chain w)) (record_terminals x ms)"
  by (induction x ms rule: record_terminals.induct) (auto simp: record_outcome_def split: option.split intro!: preserved)

lemma preserves_evaluate_one [preserved]: "preserves (\<lambda>w. J (ew_chain w)) (evaluate_one x mp)"
  by (cases mp) (auto simp: evaluate_one_def record_outcome_def intro!: preserved)

lemma preserves_evaluate_all [preserved]: "preserves (\<lambda>w. J (ew_chain w)) (evaluate_all x mps)"
  by (induction x mps rule: evaluate_all.induct) (auto intro!: preserved)

lemma preserves_evaluate [preserved]: "preserves (\<lambda>w. J (ew_chain w)) (evaluate_epoch x miners)"
  unfolding evaluate_epoch_def by (auto intro!: preserved)

section \<open>Publication\<close>

text \<open>Properties of the chain's world that survive the writes of an epoch.\<close>

definition epoch_artifacts :: "int \<Rightarrow> string set" where
  "epoch_artifacts n = {solver_panel_path n, weights_path n, miner_state_snapshot_path n, completion_marker_path n, miner_state_path}"

definition settled_world :: "('b, 'r) epoch_input \<Rightarrow> ('b chain_world \<Rightarrow> bool) \<Rightarrow> bool" where
  "settled_world x J \<longleftrightarrow> (\<forall>p v c. p \<in> epoch_artifacts (in_epoch x) \<longrightarrow> J c \<longrightarrow> J (write_world (in_env x) p v c))"

lemma preserves_artifact:
  "settled_world x J \<Longrightarrow> p \<in> epoch_artifacts (in_epoch x) \<Longrightarrow> preserves (\<lambda>w. J (ew_chain w)) (archive_json (in_env x) p v)"
  unfolding settled_world_def by (intro preserves_archive_json) blast

lemmas preserves_artifacts = preserves_artifact [unfolded epoch_artifacts_def]

lemma preserves_sidecar: "settled_world x J \<Longrightarrow> preserves (\<lambda>w. J (ew_chain w)) (persist_sidecar x)"
  unfolding persist_sidecar_def Let_def by (intro preserved) (auto intro!: preserved preserves_artifacts split: option.split)

lemma preserves_marker:
  assumes "settled_world x J"
  shows "preserves (\<lambda>w. J (ew_chain w)) (on_archive f (write_epoch_completion_marker (in_env x) (in_epoch x) r))"
  unfolding on_archive_def
proof (intro preserves_on_chain preservesI)
  fix c res c' assume "(case write_epoch_completion_marker (in_env x) (in_epoch x) r (cw_disk c) of (r, fs) \<Rightarrow> (r, c\<lparr>cw_disk := fs\<rparr>)) = (res, c')" "J c"
  moreover have "J (c\<lparr>cw_disk := write_json (in_env x) (completion_marker_path (in_epoch x)) v (cw_disk c)\<rparr>)" if "J c" for v
    using assms that by (auto simp: settled_world_def write_world_def epoch_artifacts_def)
  ultimately show "J c'"
    by (auto simp: write_epoch_completion_marker_def Let_def split: sum.splits)
qed

lemma preserves_publish: "settled_world x J \<Longrightarrow> preserves (\<lambda>w. J (ew_chain w)) (publish_epoch x tv sc r)"
  unfolding publish_epoch_def Let_def by (auto intro!: preserved preserves_artifacts preserves_sidecar preserves_marker)

lemma settled_calls: "settled_world x (\<lambda>c. cw_calls c = k)"
  by (simp add: settled_world_def write_world_def)

section \<open>Signing calls\<close>

abbreviation epoch_calls :: "'b epoch_world \<Rightarrow> (set_weights_call \<times> 'b disk) list" where
  "epoch_calls w \<equiv> cw_calls (ew_chain w)"

lemma leaves_calls_archive: "leaves (\<lambda>w. epoch_calls w) (on_archive f m)"
  unfolding on_archive_def
  by (intro leavesI preserves_on_chain [where J = "\<lambda>c. cw_calls c = k" for k] preservesI) (auto split: prod.splits)

lemma leaves_calls_evaluate: "leaves (\<lambda>w. epoch_calls w) (evaluate_epoch x miners)"
  by (intro leavesI preserves_evaluate [where J = "\<lambda>c. cw_calls c = k" for k])

lemma leaves_calls_publish: "leaves (\<lambda>w. epoch_calls w) (publish_epoch x tv sc r)"
  by (intro leavesI preserves_publish [where J = "\<lambda>c. cw_calls c = k" for k] settled_calls)

text \<open>The calls after an application of weights by the client of an epoch.\<close>

definition called_by :: "('b, 'r) epoch_input \<Rightarrow> (set_weights_call \<times> 'b disk) list \<Rightarrow> (set_weights_call \<times> 'b disk) list \<Rightarrow> bool" where
  "called_by x before after \<longleftrightarrow>
     (\<exists>rq c r c'. rq_epoch rq = in_epoch x \<and> cw_calls c = before \<and> cw_calls c' = after
        \<and> apply_weights (in_env x) (in_host x) (in_connection x) (in_client x) rq c = (r, c'))"

lemma leaves_plumbing [simp]: "leaves p get_op" "leaves p (lift_op r)" "leaves p (return_op a)"
  by (simp_all add: leaves_def preserved)

lemma leaves_bind: "leaves p m \<Longrightarrow> (\<And>a. leaves p (f a)) \<Longrightarrow> leaves p (bind_op m f)"
  by (simp add: leaves_def preserves_bind)

lemma once_client:
  "once (\<lambda>w. epoch_calls w) (called_by x)
     (on_chain f (apply_weights (in_env x) (in_host x) (in_connection x) (in_client x) (epoch_request x active sc)))"
  by (rule onceI) (auto simp: on_chain_def called_by_def epoch_request_def split: prod.splits intro!: exI)

lemma run_epoch_calls: "once (\<lambda>w. epoch_calls w) (called_by x) (run_epoch x hook miners)"
  unfolding run_epoch_def Let_def
  by (intro once_after leaves_calls_archive leaves_calls_evaluate leaves_plumbing once_before [OF once_client] leaves_bind leaves_calls_publish)

end
