(* ===== verification/Tick_Run.thy ===== *)
theory Tick_Run
  imports Validator_Cli Epoch_Frames System
begin

text \<open>
  A tick from its checks to its commit: what it may sign, that it finishes and commits when its parts
  succeed, that what returns has committed, and that ticks exclude each other.
\<close>

section \<open>Signing\<close>

abbreviation cli_calls :: "'b cli_world \<Rightarrow> (set_weights_call \<times> 'b disk) list" where
  "cli_calls w \<equiv> cw_calls (ew_chain (clw_epoch w))"

lemma leaves_runtime: "leaves (\<lambda>w. cli_calls w) (on_runtime m)"
  by (intro leavesI preservesI) (auto simp: on_runtime_def split: prod.splits)

text \<open>The calls of an epoch that a tick runs.\<close>

definition called_in :: "('b, 'r) validator_host \<Rightarrow> subnet_config \<Rightarrow> chain_client
    \<Rightarrow> (set_weights_call \<times> 'b disk) list \<Rightarrow> (set_weights_call \<times> 'b disk) list \<Rightarrow> bool" where
  "called_in vh cfg client before after \<longleftrightarrow> (\<exists>n q. called_by (tick_input vh cfg client n q) before after)"

lemma once_run_epoch:
  "once (\<lambda>w. cli_calls w) (called_in vh cfg client) (on_epoch (run_epoch (tick_input vh cfg client n q) hook miners))"
proof (rule onceI)
  fix w r w' assume "on_epoch (run_epoch (tick_input vh cfg client n q) hook miners) w = (r, w')"
  then obtain res e where "run_epoch (tick_input vh cfg client n q) hook miners (clw_epoch w) = (res, e)" "clw_epoch w' = e"
    by (auto simp: on_epoch_def split: prod.splits)
  then show "cli_calls w' = cli_calls w \<or> called_in vh cfg client (cli_calls w) (cli_calls w')"
    using onceD [OF run_epoch_calls [of "tick_input vh cfg client n q" hook miners]] unfolding called_in_def by blast
qed

lemma once_catch:
  assumes "once p R m" "\<And>e. leaves p (h e)"
  shows "once p R (catch_op m h)"
proof (rule onceI)
  fix s r s' assume "catch_op m h s = (r, s')"
  then consider a where "m s = (Inr a, s')" | e t where "m s = (Inl e, t)" "h e t = (r, s')"
    by (auto simp: catch_op_def split: prod.splits sum.splits)
  then show "p s' = p s \<or> R (p s) (p s')"
    using leavesD [OF assms(2)] onceD [OF assms(1)] by cases metis+
qed

lemma leaves_fail [simp]: "leaves p (fail_op e)"
  by (simp add: leaves_def preserved)

lemma once_body: "once (\<lambda>w. cli_calls w) (called_in vh cfg client) (tick_body vh a cfg client t)"
proof (cases "tick_epoch t")
  case None
  then show ?thesis by (simp add: tick_body_def once_leaves)
next
  case (Some n)
  have h: "leaves (\<lambda>w. cli_calls w) (case e of
        Epoch_raised (Not_complete mode reason) \<Rightarrow>
          bind_op (on_runtime (on_disk (fail_weights (vh_env vh) (vh_now vh) t (vh_text vh e)))) (\<lambda>_. fail_op e)
      | _ \<Rightarrow> fail_op e)" for e
    by (cases e) (auto simp: leaves_bind leaves_runtime split: epoch_error.split)
  show ?thesis
    unfolding tick_body_def Some option.case
    by (intro once_after [OF leaves_runtime] once_after [OF leaves_plumbing(2)] once_catch once_before [OF once_run_epoch] h leaves_plumbing)
qed

lemma once_with_tick:
  assumes "\<And>t. once (\<lambda>w. cli_calls w) R (body t)"
  shows "once (\<lambda>w. cli_calls w) R (with_tick vh body)"
  unfolding with_tick_def
proof (intro once_after [OF leaves_runtime] onceI)
  fix t w r w'
  assume "(case body t w of (r, w') \<Rightarrow>
      bind_op (on_runtime (tick_exit (vh_env vh) (vh_now vh) (case r of Inl e \<Rightarrow> Some (vh_text vh e) | Inr _ \<Rightarrow> None) t)) (\<lambda>_. lift_op r) w') = (r, w')"
  then obtain q u where b: "body t w = (q, u)"
    and x: "bind_op (on_runtime (tick_exit (vh_env vh) (vh_now vh) (case q of Inl e \<Rightarrow> Some (vh_text vh e) | Inr _ \<Rightarrow> None) t)) (\<lambda>_. lift_op q) u = (r, w')"
    by (auto split: prod.splits)
  have "cli_calls w' = cli_calls u" by (rule leavesD [OF leaves_bind [OF leaves_runtime leaves_plumbing(2)] x])
  with onceD [OF assms b] show "cli_calls w' = cli_calls w \<or> R (cli_calls w) (cli_calls w')" by metis
qed

lemma tick_command_calls:
  assumes "tick_command vh a w = (r, w')" "cli_calls w' \<noteq> cli_calls w"
  obtains cfg client where "tick_setup vh a = Inr (cfg, client)" "called_in vh cfg client (cli_calls w) (cli_calls w')"
proof (cases "tick_setup vh a")
  case (Inl e)
  with assms show ?thesis by (auto simp: tick_command_def op_plumbing)
next
  case (Inr s)
  obtain cfg client where s: "s = (cfg, client)" by (cases s)
  have "bind_op (with_tick vh (tick_body vh a cfg client)) (\<lambda>(miners, result). return_op (tick_status miners result)) w = (r, w')"
    using assms(1) Inr s by (simp add: tick_command_def bind_op_def lift_op_def)
  moreover have "once (\<lambda>w. cli_calls w) (called_in vh cfg client)
      (bind_op (with_tick vh (tick_body vh a cfg client)) (\<lambda>(miners, result). return_op (tick_status miners result)))"
    by (intro once_before once_with_tick once_body) (simp add: case_prod_beta)
  ultimately show ?thesis using onceD assms(2) Inr s that by metis
qed

text \<open>What the checks of a tick establish for a client that can sign.\<close>

lemma live_setup:
  assumes "tick_setup vh a = Inr (cfg, Subtensor_chain c)" "sc_publish c = ''live''"
  obtains m where "parse_mode (Some (ra_mode a)) = Inr m" "validate_tick_target a m = Inr ()" "ra_chain a = ''live''"
    "sc_allow_extrinsics c = ra_allow_extrinsics a" "live_confirmation_of vh a = Inr (sc_confirmation c)"
    "holdout_required cfg \<longrightarrow> (\<exists>ch rest. holdout_secret cfg = Some (ch # rest))" "tick_config vh a m = Inr cfg"
proof -
  from assms(1) obtain m confirmation where
    m: "parse_mode (Some (ra_mode a)) = Inr m" "validate_tick_target a m = Inr ()" "tick_config vh a m = Inr cfg"
    and h: "\<not> (holdout_required cfg \<and> or_text (holdout_secret cfg) None = None)"
    and l: "live_confirmation_of vh a = Inr confirmation"
    and b: "build_chain_client cfg (ra_chain a) (ra_allow_extrinsics a) confirmation = Inr (Subtensor_chain c)"
    by (auto simp: tick_setup_def)
  from b have "sc_publish c = ra_chain a" "sc_allow_extrinsics c = ra_allow_extrinsics a" "sc_confirmation c = confirmation"
    by (auto simp: build_chain_client_def subtensor_client_def split: if_splits option.splits)
  moreover from h have "holdout_required cfg \<longrightarrow> (\<exists>ch rest. holdout_secret cfg = Some (ch # rest))"
    by (cases "(holdout_secret cfg, None :: string option)" rule: or_text.cases) auto
  ultimately show ?thesis using that m l assms(2) by metis
qed

lemma or_text_mode [simp]: "or_text (Some (mode_value m)) d = Some (mode_value m)"
  by (cases m) simp_all

lemma from_env_mode:
  assumes "from_env h x = Inr c" "arg_mode x = Some (mode_value m)" "arg_holdout_required x = None"
  shows "holdout_required c \<longleftrightarrow> m \<in> set [Mode_wire, Mode_localnet, Mode_testnet]"
  using assms by (auto simp: from_env_def Let_def simp del: set_simps split: prod.splits)

lemma tick_holdout: "tick_config vh a m = Inr cfg \<Longrightarrow> requires_wallet m \<Longrightarrow> holdout_required cfg"
  unfolding tick_config_def requires_wallet_def by (drule from_env_mode) (auto simp: no_args_def)

text \<open>C1: a tick signs weights at most once, and only when it was asked to on the public test cohort with its miners
  taken from the metagraph or on a loopback network, with the live mode, the flag, the environment switch, the typed
  confirmation and a holdout secret all given; the attempt is on disk before the call.\<close>

theorem tick_signs_only_live:
  assumes "json_codec (vh_env vh)" "tick_command vh a w = (r, w')" "cli_calls w' \<noteq> cli_calls w"
    and "ra_mode a \<in> {''wire'', ''localnet'', ''testnet''}"
  shows "(ra_mode a = ''testnet'' \<and> ra_network a = Some ''test'' \<and> ra_netuid a = Some 523 \<and> ra_miner_endpoints a = []
      \<or> ra_mode a = ''localnet'' \<and> ra_network a \<in> {Some ''ws://127.0.0.1:9944'', Some ''ws://127.0.0.1:9945''})
    \<and> ra_chain a = ''live'' \<and> ra_allow_extrinsics a \<and> environ (vh_host vh) ''DOLORES_ALLOW_EXTRINSICS'' = Some ''1''
    \<and> (ra_confirm_live a = live_confirmation \<or> ra_confirm_live a = [] \<and> vh_terminal vh = Some (Inr live_confirmation))
    \<and> (\<exists>cfg client ch rest. tick_setup vh a = Inr (cfg, client) \<and> holdout_secret cfg = Some (ch # rest))
    \<and> (\<exists>call fs n. cli_calls w' = cli_calls w @ [(call, fs)] \<and> attempt_status_on (vh_env vh) fs n Started)"
proof -
  obtain cfg client where s: "tick_setup vh a = Inr (cfg, client)" "called_in vh cfg client (cli_calls w) (cli_calls w')"
    using tick_command_calls [OF assms(2,3)] .
  then obtain n q rq c r' c' where calls: "rq_epoch rq = n" "cw_calls c = cli_calls w" "cw_calls c' = cli_calls w'"
    and ap: "apply_weights (vh_env vh) (vh_host vh) (vh_connection vh) client rq c = (r', c')"
    by (auto simp: called_in_def called_by_def tick_input_def)
  obtain sc where sc: "client = Subtensor_chain sc" "sc_allow_extrinsics sc" "environ (vh_host vh) ''DOLORES_ALLOW_EXTRINSICS'' = Some ''1''"
    "sc_publish sc = ''live''" "sc_confirmation sc = live_confirmation"
    and call: "\<exists>call fs. cw_calls c' = cw_calls c @ [(call, fs)] \<and> attempt_status_on (vh_env vh) fs (rq_epoch rq) Started"
    using calls_need_gates [OF assms(1) ap] calls assms(3) by metis
  obtain m where m: "parse_mode (Some (ra_mode a)) = Inr m" "validate_tick_target a m = Inr ()" "ra_chain a = ''live''"
    "sc_allow_extrinsics sc = ra_allow_extrinsics a" "live_confirmation_of vh a = Inr (sc_confirmation sc)"
    "holdout_required cfg \<longrightarrow> (\<exists>ch rest. holdout_secret cfg = Some (ch # rest))" "tick_config vh a m = Inr cfg"
    using live_setup s(1) sc(1,4) by metis
  have modes: "m = Mode_wire \<and> ra_mode a = ''wire'' \<or> m = Mode_localnet \<and> ra_mode a = ''localnet'' \<or> m = Mode_testnet \<and> ra_mode a = ''testnet''"
    using assms(4) m(1) parse_mode_value [of Mode_wire] parse_mode_value [of Mode_localnet] parse_mode_value [of Mode_testnet] by auto
  have "ra_mode a = ''testnet'' \<and> ra_network a = Some ''test'' \<and> ra_netuid a = Some 523 \<and> ra_miner_endpoints a = []
      \<or> ra_mode a = ''localnet'' \<and> ra_network a \<in> {Some ''ws://127.0.0.1:9944'', Some ''ws://127.0.0.1:9945''}"
    using modes m(2,3)
    by (auto simp: validate_tick_target_def require_localnet_target_def require_cohort_target_def cohort_network_def cohort_netuid_def
        localnet_network_def localnet_alt_network_def split: option.splits if_splits)
  moreover have "\<exists>ch rest. holdout_secret cfg = Some (ch # rest)"
    using m(6) tick_holdout [OF m(7)] modes by (auto simp: requires_wallet_def)
  moreover have "ra_confirm_live a = live_confirmation \<or> ra_confirm_live a = [] \<and> vh_terminal vh = Some (Inr live_confirmation)"
    using m(3,5) sc(5) by (auto simp: live_confirmation_of_def live_confirmation_def split: if_splits option.splits)
  moreover have "\<exists>call fs n. cli_calls w' = cli_calls w @ [(call, fs)] \<and> attempt_status_on (vh_env vh) fs n Started"
    using call calls by auto
  ultimately show ?thesis using s(1) sc(2,3) m(3,4) by blast
qed

section \<open>Operations that do not look at the world\<close>

text \<open>The result does not depend on the state.\<close>

definition blind :: "('s, 'e, 'a) op \<Rightarrow> bool" where
  "blind m \<longleftrightarrow> (\<forall>s t. fst (m s) = fst (m t))"

lemma blind_plumbing [simp]: "blind (return_op a)" "blind (fail_op e)" "blind (lift_op r)" "blind (modify_op f)"
  by (simp_all add: blind_def op_plumbing)

lemma blind_bind:
  assumes "blind m" "\<And>a. blind (f a)"
  shows "blind (bind_op m f)"
  unfolding blind_def
proof (intro allI)
  fix s t
  have m: "fst (m s) = fst (m t)" using assms(1) by (auto simp: blind_def)
  show "fst (bind_op m f s) = fst (bind_op m f t)"
  proof (cases "fst (m s)")
    case (Inl e)
    with m show ?thesis by (auto simp: bind_op_def split: prod.splits)
  next
    case (Inr a)
    have "fst (f a (snd (m s))) = fst (f a (snd (m t)))" using assms(2) [of a] unfolding blind_def by blast
    with m Inr show ?thesis by (auto simp: bind_op_def split: prod.splits)
  qed
qed

lemma blind_if: "blind m \<Longrightarrow> blind n \<Longrightarrow> blind (if b then m else n)"
  by simp

lemma blind_conclude: "blind (conclude env c rq mode reason parts)"
  by (simp add: conclude_def blind_bind)

lemma blind_call: "blind (call_set_weights st p v)"
  by (simp add: call_set_weights_def blind_def op_plumbing)

lemma blind_submit: "blind (submit_live env c st rq state m p)"
  unfolding submit_live_def write_attempt_def
  by (intro blind_bind blind_plumbing blind_call) (auto simp: blind_bind blind_conclude split: prod.split sum.split)

lemma blind_apply: "blind (apply_weights env h connection client rq)"
proof (cases client)
  case Null_chain
  then show ?thesis by (simp add: apply_weights_def null_apply_weights_def)
next
  case (Subtensor_chain c)
  then show ?thesis
    by (auto simp: apply_weights_def subtensor_apply_weights_def Let_def blind_conclude
        intro!: blind_bind blind_submit split: sum.split option.split)
qed

text \<open>An evaluation neither reads nor writes the chain's world.\<close>

definition apart :: "('b, 'a) epoch_op \<Rightarrow> bool" where
  "apart m \<longleftrightarrow> (\<forall>w c. m (w\<lparr>ew_chain := c\<rparr>) = (fst (m w), (snd (m w))\<lparr>ew_chain := c\<rparr>))"

lemma apartD: "apart m \<Longrightarrow> m w = (r, w') \<Longrightarrow> m (w\<lparr>ew_chain := c\<rparr>) = (r, w'\<lparr>ew_chain := c\<rparr>)"
  by (simp add: apart_def)

lemma apart_plumbing [simp]: "apart (return_op a)" "apart (fail_op e)" "apart (lift_op r)" "apart (on_bridge b)" "apart (on_session s)"
  by (auto simp: apart_def op_plumbing on_bridge_def on_session_def split: prod.split)

lemma apart_modify: "(\<And>w c. f (w\<lparr>ew_chain := c\<rparr>) = (f w)\<lparr>ew_chain := c\<rparr>) \<Longrightarrow> apart (modify_op f)"
  by (simp add: apart_def op_plumbing)

lemma apart_bind: "apart m \<Longrightarrow> (\<And>a. apart (f a)) \<Longrightarrow> apart (bind_op m f)"
  unfolding apart_def bind_op_def by (auto split: prod.split sum.split)

lemma apart_get: "(\<And>w. apart (f w)) \<Longrightarrow> (\<And>w c. f (w\<lparr>ew_chain := c\<rparr>) = f w) \<Longrightarrow> apart (bind_op get_op f)"
  unfolding apart_def by simp

lemma apart_record: "apart (record_outcome x m out)"
  unfolding record_outcome_def append_submission_def by (rule apart_modify) simp

lemma apart_terminals: "apart (record_terminals x ms)"
  by (induction x ms rule: record_terminals.induct) (auto simp: apart_record intro!: apart_bind split: option.split)

lemma apart_evaluate_one: "apart (evaluate_one x mp)"
  by (cases mp) (auto simp: evaluate_one_def intro!: apart_bind apart_get apart_record)

lemma apart_evaluate_all: "apart (evaluate_all x mps)"
  by (induction x mps rule: evaluate_all.induct) (auto intro!: apart_bind apart_evaluate_one)

lemma apart_evaluate: "apart (evaluate_epoch x miners)"
  unfolding evaluate_epoch_def by (intro apart_get apart_bind apart_terminals apart_evaluate_all apart_modify apart_plumbing) simp_all
section \<open>Phases of an epoch\<close>

definition at_phase :: "'b env \<Rightarrow> 'b disk \<Rightarrow> int \<Rightarrow> phase \<Rightarrow> bool" where
  "at_phase env fs n ph \<longleftrightarrow> (\<exists>s. read_state env fs = Inr s \<and> active_epoch_id s = Some n \<and> phase_of s = Some ph)"

lemma at_phase_cong: "fs' state_path = fs state_path \<Longrightarrow> at_phase env fs' n ph = at_phase env fs n ph"
  by (simp add: at_phase_def read_state_def)

lemma at_phase_written:
  assumes "json_codec env" "validate s = Inr ()" "active_epoch_id s = Some n" "phase_of s = Some ph"
  shows "at_phase env (write_json env state_path (to_dict s) fs) n ph"
  using assms read_written [OF assms(1,2)] by (auto simp: at_phase_def canon_state_def)

text \<open>A plain transition writes the state file.\<close>

lemma transition_at:
  assumes "json_codec env" "at_phase env fs n cur" "ph \<in> set (allowed_next cur)" "ph \<noteq> Committed"
  shows "\<exists>s fs'. transition_locked env now n ph fs = (Inr s, fs') \<and> at_phase env fs' n ph \<and> (\<forall>p. p \<noteq> state_path \<longrightarrow> fs' p = fs p)"
proof -
  obtain s where s: "read_state env fs = Inr s" "active_epoch_id s = Some n" "phase_of s = Some cur"
    using assms(2) by (auto simp: at_phase_def)
  let ?s = "s\<lparr>phase_of := Some ph, updated_at := now\<rparr>"
  have v: "validate ?s = Inr ()" using read_valid [OF s(1)] s assms(4) by (auto simp: validate_iff)
  have "cur \<noteq> ph" using assms(3) by (cases cur) auto
  then have "transition_locked env now n ph fs = (Inr ?s, write_json env state_path (to_dict ?s) fs)"
    using s v assms(3,4) by (auto simp: transition_Inr)
  moreover have "at_phase env (write_json env state_path (to_dict ?s) fs) n ph"
    using at_phase_written [OF assms(1) v] s by simp
  ultimately show ?thesis by (auto intro!: exI simp: write_json_def)
qed

lemma verify_settles_attempt:
  assumes "verify_epoch_completion env fs n = Inr c"
  shows "raise_if_ambiguous_attempt env fs n = Inr ()"
proof (cases "cmp_mode c = ''submitted''")
  case True
  with assms obtain att where att: "load_json_object env fs (chain_attempt_path n) = Inr att" "check_attempt n att = Inr ()"
    by (auto simp: verify_parts check_contents_parts)
  then have "jget att ''status'' = JStr ''completed''" "py_eq (jget att ''epoch_id'') (JInt n)" "jget att ''mode'' = JStr ''live_attempt''"
    by (simp_all add: check_attempt_def)
  with att(1) show ?thesis by (simp add: raise_if_ambiguous_attempt_def)
next
  case False
  with verify_no_attempt [OF assms] show ?thesis by (simp add: raise_if_ambiguous_attempt_def is_file_def)
qed

lemma commit_at:
  assumes "json_codec env" "at_phase env fs n Weights_submitting" "verify_epoch_completion env fs n = Inr c"
  shows "\<exists>s fs'. transition_locked env now n Committed fs = (Inr s, fs') \<and> fs' miner_state_path = Some (dumps env (JObj (cmp_miner_state c)))
    \<and> read_state env fs' = Inr (canon_state s) \<and> active_epoch_id s = Some n \<and> phase_of s = Some Committed
    \<and> last_completed_epoch s = Some n \<and> verify_epoch_completion env fs' n = Inr c"
proof -
  obtain s where s: "read_state env fs = Inr s" "active_epoch_id s = Some n" "phase_of s = Some Weights_submitting"
    using assms(2) by (auto simp: at_phase_def)
  let ?s = "committed_state env now s n c"
  let ?fs = "write_json env miner_state_path (JObj (cmp_miner_state c)) fs"
  let ?fs' = "write_json env state_path (to_dict ?s) ?fs"
  have v: "validate ?s = Inr ()"
    using read_valid [OF s(1)] s by (auto simp: validate_iff committed_state_def Let_def)
  have "commit_from_completion env now s n fs = (Inr ?s, ?fs)"
    using verify_settles_attempt [OF assms(3)] verify_marker_exists [OF assms(3)] assms(3) by (simp add: commit_Inr)
  then have "transition_locked env now n Committed fs = (Inr ?s, ?fs')"
    using s v by (auto simp: transition_Inr)
  moreover have "verify_epoch_completion env ?fs' n = verify_epoch_completion env fs n"
    by (rule verify_cong) (simp_all add: canonical_path_not_rolling)
  moreover have "read_state env ?fs' = Inr (canon_state ?s)" by (rule read_written [OF assms(1) v]) simp
  moreover have "active_epoch_id ?s = Some n" "phase_of ?s = Some Committed" "last_completed_epoch ?s = Some n"
    using s by (simp_all add: committed_state_def Let_def)
  ultimately show ?thesis using assms(3) by (intro exI [of _ ?s] exI [of _ ?fs'] conjI) simp_all
qed

section \<open>Hooks\<close>

definition ticking :: "int \<Rightarrow> tick \<Rightarrow> bool" where
  "ticking n t \<longleftrightarrow> tick_epoch t = Some n \<and> tick_entered t \<and> tick_held t"

lemma in_tick_ticking [simp]: "ticking n t \<Longrightarrow> in_tick t f = f n"
  by (simp add: in_tick_def ticking_def)

lemma hook_ticking:
  assumes "ticking n t" "ph \<in> {Evaluating, Weights_submitting, Committed}" "transition_locked env now n ph fs = (Inr s, fs')"
  shows "phase_hook env now t (phase_name ph) fs = (Inr (), fs')"
  using assms by (auto simp: phase_hook_def tick_transition_def bind_op_def)

lemma on_archive_run: "m (cw_disk (ew_chain w)) = (Inr a, fs) \<Longrightarrow>
    on_archive f m w = (Inr a, w\<lparr>ew_chain := (ew_chain w)\<lparr>cw_disk := fs\<rparr>\<rparr>)"
  by (simp add: on_archive_def on_chain_def)

section \<open>An epoch under a tick\<close>

text \<open>Up to the client, and from its result on.\<close>

lemma run_epoch_hooked:
  assumes "hook ''evaluating'' (cw_disk (ew_chain w)) = (Inr (), fs1)"
    and "evaluate_epoch x miners w = (Inr outs, w1)" "collect_task_values outs [] = Inr tv"
    and "load_miner_state (in_env x) fs1 = Inr previous" "sc = epoch_scores x miners outs previous"
    and "hook ''weights_submitting'' fs1 = (Inr (), fs2)"
    and "apply_weights (in_env x) (in_host x) (in_connection x) (in_client x)
           (epoch_request x (map mn_hotkey miners) sc) ((ew_chain w)\<lparr>cw_disk := fs2\<rparr>) = (Inr r, c')"
    and "sorted_task_values (in_env x) tv = Inr tv'"
  shows "run_epoch x hook miners w =
    bind_op (publish_epoch x tv' sc r) (\<lambda>marker.
      bind_op (on_archive Phase_rejected (hook ''committed'')) (\<lambda>_.
      return_op \<lparr>er_weights = es_weights sc, er_epoch_scores = es_epoch_scores sc, er_chain_result = r, er_marker_path = marker\<rparr>))
      (w1\<lparr>ew_chain := c'\<rparr>)"
proof -
  let ?w1 = "w\<lparr>ew_chain := (ew_chain w)\<lparr>cw_disk := fs1\<rparr>\<rparr>"
  let ?w2 = "w1\<lparr>ew_chain := (ew_chain w)\<lparr>cw_disk := fs1\<rparr>\<rparr>"
  let ?w3 = "w1\<lparr>ew_chain := (ew_chain w)\<lparr>cw_disk := fs2\<rparr>\<rparr>"
  let ?publish = "on_chain Chain_failed (apply_weights (in_env x) (in_host x) (in_connection x) (in_client x)
      (epoch_request x (map mn_hotkey miners) sc))"
  have h1: "on_archive Phase_rejected (hook ''evaluating'') w = (Inr (), ?w1)"
    using on_archive_run [of "hook ''evaluating''" w "()" fs1] assms(1) by simp
  have e: "evaluate_epoch x miners ?w1 = (Inr outs, ?w2)"
    by (rule apartD [OF apart_evaluate assms(2)])
  have h2: "on_archive Phase_rejected (hook ''weights_submitting'') ?w2 = (Inr (), ?w3)"
    using on_archive_run [of "hook ''weights_submitting''" ?w2 "()" fs2] assms(6) by simp
  have p: "?publish ?w3 = (Inr r, w1\<lparr>ew_chain := c'\<rparr>)"
    using assms(7) by (simp add: on_chain_def)
  show ?thesis
    unfolding run_epoch_def Let_def bind_op_return [of "on_archive Phase_rejected (hook ''evaluating'')" w, OF h1]
      bind_op_return [of "evaluate_epoch x miners" ?w1, OF e]
    by (simp add: assms(3,4,8) lift_bind bind_op_return [of "on_archive Phase_rejected (hook ''weights_submitting'')" ?w2, OF h2]
        bind_op_return [of ?publish ?w3, OF p] flip: epoch_scores_def assms(5))
qed
lemma load_miner_state_cong: "fs' miner_state_path = fs miner_state_path \<Longrightarrow> load_miner_state env fs' = load_miner_state env fs"
  by (simp add: load_miner_state_def)

lemma signed_iff_submitted:
  assumes "json_codec env" "apply_weights env h connection client rq w = (Inr r, w')"
  shows "res_mode r = ''submitted'' \<longleftrightarrow> cw_calls w' \<noteq> cw_calls w"
proof (cases client)
  case Null_chain
  with assms(2) show ?thesis by (auto simp: apply_weights_def null_apply_weights_def)
next
  case (Subtensor_chain c)
  with assms(2) have s: "subtensor_apply_weights env h c connection rq w = (Inr r, w')" by (simp add: apply_weights_def)
  from subtensor_Inr [OF s] show ?thesis
  proof
    assume "concluded env c rq w r w'"
    then show ?thesis by (auto simp: concluded_def)
  next
    assume "submitted env c rq w r w'"
    then show ?thesis using live_outcome_calls [OF assms(1), of c rq w r w'] by (auto simp: submitted_def submitted_result_def)
  qed
qed

lemma settled_state: "settled_world x (\<lambda>c. cw_disk c state_path = v)"
  by (auto simp: settled_world_def epoch_artifacts_def write_world_def write_json_def state_path_def path_defs)

text \<open>What a tick leaves when its epoch has completed.\<close>

definition committed_epoch :: "'b env \<Rightarrow> 'b disk \<Rightarrow> int \<Rightarrow> completion \<Rightarrow> bool" where
  "committed_epoch env fs n c \<longleftrightarrow>
     (\<exists>s. read_state env fs = Inr s \<and> active_epoch_id s = Some n \<and> phase_of s = Some Committed \<and> last_completed_epoch s = Some n)
     \<and> verify_epoch_completion env fs n = Inr c \<and> fs miner_state_path = Some (dumps env (JObj (cmp_miner_state c)))"

lemma commit_hook:
  assumes "json_codec env" "ticking n t" "at_phase env fs n Weights_submitting" "verify_epoch_completion env fs n = Inr c"
  shows "\<exists>fs'. phase_hook env now t ''committed'' fs = (Inr (), fs') \<and> committed_epoch env fs' n c"
proof -
  obtain s fs' where "transition_locked env now n Committed fs = (Inr s, fs')" "fs' miner_state_path = Some (dumps env (JObj (cmp_miner_state c)))"
    "read_state env fs' = Inr (canon_state s)" "active_epoch_id s = Some n" "phase_of s = Some Committed"
    "last_completed_epoch s = Some n" "verify_epoch_completion env fs' n = Inr c"
    using commit_at [OF assms(1,3,4)] by blast
  with hook_ticking [OF assms(2), of Committed] show ?thesis
    by (auto simp: committed_epoch_def intro!: exI [of _ fs'] exI [of _ "canon_state s"])
qed

lemma epoch_ticked:
  assumes "json_codec env" "hex_digest env" "env = in_env x" "n = in_epoch x" "ticking n t"
    and "at_phase env (cw_disk (ew_chain w)) n Querying"
    and "evaluate_epoch x miners w = (Inr outs, w1)" "collect_task_values outs [] = Inr tv" "sorted_task_values env tv = Inr tv'"
    and "load_miner_state env (cw_disk (ew_chain w)) = Inr previous" "sc = epoch_scores x miners outs previous"
    and "fst (apply_weights env (in_host x) (in_connection x) (in_client x) (epoch_request x (map mn_hotkey miners) sc) c0) = Inr r"
    and "cw_disk (ew_chain w) (chain_receipt_path n) = None" "cw_disk (ew_chain w) (chain_attempt_path n) = None"
  shows "\<exists>w' c marker. run_epoch x (phase_hook env now t) miners w =
      (Inr \<lparr>er_weights = es_weights sc, er_epoch_scores = es_epoch_scores sc, er_chain_result = r, er_marker_path = marker\<rparr>, w')
    \<and> committed_epoch env (cw_disk (ew_chain w')) n c \<and> cmp_mode c = res_mode r
    \<and> (res_mode r = ''submitted'' \<longleftrightarrow> cw_calls (ew_chain w') \<noteq> cw_calls (ew_chain w))"
proof -
  let ?fs = "cw_disk (ew_chain w)" and ?hook = "phase_hook env now t"
  obtain s1 fs1 where 1: "transition_locked env now n Evaluating ?fs = (Inr s1, fs1)" "at_phase env fs1 n Evaluating"
    "\<forall>p. p \<noteq> state_path \<longrightarrow> fs1 p = ?fs p" using transition_at [OF assms(1,6), of Evaluating now] by auto
  obtain s2 fs2 where 2: "transition_locked env now n Weights_submitting fs1 = (Inr s2, fs2)" "at_phase env fs2 n Weights_submitting"
    "\<forall>p. p \<noteq> state_path \<longrightarrow> fs2 p = fs1 p" using transition_at [OF assms(1) 1(2), of Weights_submitting now] by auto
  note h1 = hook_ticking [OF assms(5), of Evaluating, simplified, OF 1(1)]
  note h2 = hook_ticking [OF assms(5), of Weights_submitting, simplified, OF 2(1)]
  have same: "fs2 p = ?fs p" if "p \<noteq> state_path" for p using 1(3) 2(3) that by simp
  let ?rq = "epoch_request x (map mn_hotkey miners) sc" and ?c = "(ew_chain w)\<lparr>cw_disk := fs2\<rparr>"
  have "fst (apply_weights env (in_host x) (in_connection x) (in_client x) ?rq ?c) = Inr r"
    using blind_apply [unfolded blind_def] assms(12) by metis
  then obtain c' where ap: "apply_weights env (in_host x) (in_connection x) (in_client x) ?rq ?c = (Inr r, c')"
    by (metis prod.collapse)
  have ms: "load_miner_state env fs1 = Inr previous" using assms(10) 1(3) by (simp add: load_miner_state_cong [of fs1 ?fs])
  note run = run_epoch_hooked [of ?hook, OF h1 assms(7,8) _ assms(11) h2, folded assms(3), OF ms ap assms(9)]
  have "cw_disk ?c (chain_receipt_path (in_epoch x)) = None" "cw_disk ?c (chain_attempt_path (in_epoch x)) = None"
    using assms(4,13,14) same by simp_all
  then obtain w' c where pub: "publish_epoch x tv' sc r (w1\<lparr>ew_chain := c'\<rparr>) = (Inr (completion_marker_path n), w')"
    "verify_epoch_completion env (cw_disk (ew_chain w')) n = Inr c" "cmp_mode c = res_mode r"
    "cw_calls (ew_chain w') = cw_calls c'"
    using publish_epoch_ok [OF assms(3,1,2), of "in_host x" "in_connection x" "in_client x" ?rq ?c r "w1\<lparr>ew_chain := c'\<rparr>" tv' sc] ap assms(4)
    by (auto simp: epoch_request_def)
  have "cw_disk c' state_path = fs2 state_path"
    using client.frame [OF ap] by (simp add: disk_changed_only_def)
  moreover have "cw_disk (ew_chain w') state_path = cw_disk c' state_path"
    using preservesD [OF preserves_publish [OF settled_state] pub(1)] by simp
  ultimately have "at_phase env (cw_disk (ew_chain w')) n Weights_submitting" using 2(2) at_phase_cong by metis
  then obtain fs' where fin: "?hook ''committed'' (cw_disk (ew_chain w')) = (Inr (), fs')" "committed_epoch env fs' n c"
    using commit_hook [OF assms(1,5) _ pub(2)] by blast
  let ?w' = "w'\<lparr>ew_chain := (ew_chain w')\<lparr>cw_disk := fs'\<rparr>\<rparr>"
  have "run_epoch x ?hook miners w = (Inr \<lparr>er_weights = es_weights sc, er_epoch_scores = es_epoch_scores sc,
      er_chain_result = r, er_marker_path = completion_marker_path n\<rparr>, ?w')"
    unfolding run bind_op_return [of "publish_epoch x tv' sc r" "w1\<lparr>ew_chain := c'\<rparr>", OF pub(1)]
    using on_archive_run [of "?hook ''committed''" w' "()" fs'] fin(1) by (simp add: bind_op_def return_op_def)
  moreover have "res_mode r = ''submitted'' \<longleftrightarrow> cw_calls (ew_chain ?w') \<noteq> cw_calls (ew_chain w)"
    using signed_iff_submitted [OF assms(1) ap] pub(4) by simp
  ultimately show ?thesis using fin(2) pub(3) by (intro exI conjI) (assumption, simp_all)
qed
section \<open>A tick that commits\<close>

lemma begin_at:
  assumes "json_codec env" "begin_locked env now fs = (Inr (s, n), fs')"
  shows "at_phase env fs' n Allocated \<and> (\<forall>p. p \<noteq> state_path \<longrightarrow> fs' p = fs p)"
  using assms(2)
proof (cases rule: begin_Inr)
  case (retry s0)
  then show ?thesis using at_phase_written [OF assms(1) retry(5)] by (simp add: write_json_def)
next
  case (fresh s0)
  then show ?thesis using at_phase_written [OF assms(1) fresh(10)] by (simp add: write_json_def)
next
  case (abandoned s0 k r m)
  then show ?thesis using read_written [OF assms(1), of s fs'] by (auto simp: at_phase_def)
qed

lemma enter_tick:
  assumes "begin_locked env now fs = (Inr (s, n), fs')"
  obtains t where "tick_enter env now (new_tick pid) \<lparr>disk = fs, lock_owner = None\<rparr> = (Inr t, \<lparr>disk = fs', lock_owner = Some pid\<rparr>)"
    "ticking n t"
proof -
  let ?t = "(new_tick pid)\<lparr>tick_held := True, tick_epoch := Some n, tick_entered := True\<rparr>"
  have "tick_enter env now (new_tick pid) \<lparr>disk = fs, lock_owner = None\<rparr> = (Inr ?t, \<lparr>disk = fs', lock_owner = Some pid\<rparr>)"
    using assms by (simp add: tick_enter_Inr new_tick_def)
  moreover have "ticking n ?t" by (simp add: ticking_def)
  ultimately show ?thesis by (rule that)
qed

lemma exit_committed:
  assumes "committed_epoch env fs n c" "ticking n t"
  shows "\<exists>t'. tick_exit env now exc t \<lparr>disk = fs, lock_owner = p\<rparr> = (Inr t', \<lparr>disk = fs, lock_owner = None\<rparr>)"
proof -
  obtain s where "read_state env fs = Inr s" "phase_of s = Some Committed" using assms(1) by (auto simp: committed_epoch_def)
  then show ?thesis
    using assms(2) by (simp add: tick_exit_def ticking_def on_disk_def bind_read_eq lock_release_def Let_def return_op_def)
qed

abbreviation with_disk :: "'b epoch_world \<Rightarrow> 'b disk \<Rightarrow> 'b epoch_world" where
  "with_disk e fs \<equiv> e\<lparr>ew_chain := (ew_chain e)\<lparr>cw_disk := fs\<rparr>\<rparr>"

lemma runtime_run: "m \<lparr>disk = cli_disk w, lock_owner = clw_lock w\<rparr> = (r, \<lparr>disk = fs, lock_owner = p\<rparr>) \<Longrightarrow>
    on_runtime m w = (map_error Tick_raised r, w\<lparr>clw_epoch := with_disk (clw_epoch w) fs, clw_lock := p\<rparr>)"
  by (simp add: on_runtime_def)

lemma disk_run: "m (cli_disk w) = (Inr a, fs) \<Longrightarrow>
    on_runtime (on_disk m) w = (Inr a, w\<lparr>clw_epoch := with_disk (clw_epoch w) fs\<rparr>)"
  by (cases w) (simp add: on_runtime_def on_disk_def)

text \<open>What has to succeed for a tick to finish: its checks, the store, the query, the evaluation and the client.\<close>

definition tick_ready ::
  "('b, 'r) validator_host \<Rightarrow> runtime_args \<Rightarrow> 'b cli_world \<Rightarrow> int \<Rightarrow> miner list \<Rightarrow> chain_weight_result \<Rightarrow> bool" where
  "tick_ready vh a w n miners r \<longleftrightarrow>
     (\<exists>cfg client s fs x outs e tv tv' previous.
        tick_setup vh a = Inr (cfg, client) \<and> clw_lock w = None
      \<and> begin_locked (vh_env vh) (vh_now vh) (cli_disk w) = (Inr (s, n), fs)
      \<and> query_miners_for_tick vh a cfg client n = Inr miners \<and> x = tick_input vh cfg client n (ra_quota a)
      \<and> evaluate_epoch x miners (clw_epoch w) = (Inr outs, e)
      \<and> collect_task_values outs [] = Inr tv \<and> sorted_task_values (vh_env vh) tv = Inr tv'
      \<and> load_miner_state (vh_env vh) (cli_disk w) = Inr previous
      \<and> fst (apply_weights (vh_env vh) (vh_host vh) (vh_connection vh) client
           (epoch_request x (map mn_hotkey miners) (epoch_scores x miners outs previous)) (ew_chain (clw_epoch w))) = Inr r
      \<and> cli_disk w (chain_receipt_path n) = None \<and> cli_disk w (chain_attempt_path n) = None)"

lemma tick_run:
  assumes "json_codec (vh_env vh)" "hex_digest (vh_env vh)" "tick_ready vh a w n miners r"
  shows "\<exists>res w' c. tick_command vh a w = (Inr (tick_status miners res), w') \<and> er_chain_result res = r
    \<and> committed_epoch (vh_env vh) (cli_disk w') n c \<and> cmp_mode c = res_mode r \<and> clw_lock w' = None
    \<and> (res_mode r = ''submitted'' \<longleftrightarrow> cli_calls w' \<noteq> cli_calls w)"
proof -
  let ?env = "vh_env vh" and ?now = "vh_now vh"
  from assms(3) obtain cfg client s fs x outs e tv tv' previous where
    checks: "tick_setup vh a = Inr (cfg, client)" and free: "clw_lock w = None"
    and started: "begin_locked ?env ?now (cli_disk w) = (Inr (s, n), fs)"
    and asked: "query_miners_for_tick vh a cfg client n = Inr miners" and x: "x = tick_input vh cfg client n (ra_quota a)"
    and eval: "evaluate_epoch x miners (clw_epoch w) = (Inr outs, e)"
    and tv: "collect_task_values outs [] = Inr tv" "sorted_task_values ?env tv = Inr tv'"
    and prev: "load_miner_state ?env (cli_disk w) = Inr previous"
    and client: "fst (apply_weights ?env (vh_host vh) (vh_connection vh) client
           (epoch_request x (map mn_hotkey miners) (epoch_scores x miners outs previous)) (ew_chain (clw_epoch w))) = Inr r"
    and fresh: "cli_disk w (chain_receipt_path n) = None" "cli_disk w (chain_attempt_path n) = None"
    unfolding tick_ready_def by blast
  have x_fields: "in_env x = ?env" "in_host x = vh_host vh" "in_connection x = vh_connection vh" "in_client x = client" "in_epoch x = n"
    by (simp_all add: x tick_input_def)
  obtain t where enter: "tick_enter ?env ?now (new_tick (vh_pid vh)) \<lparr>disk = cli_disk w, lock_owner = None\<rparr>
      = (Inr t, \<lparr>disk = fs, lock_owner = Some (vh_pid vh)\<rparr>)" and t: "ticking n t"
    using enter_tick [OF started] .
  note b = begin_at [OF assms(1) started]
  obtain s1 fs1 where q: "transition_locked ?env ?now n Querying fs = (Inr s1, fs1)" "at_phase ?env fs1 n Querying"
    "\<forall>p. p \<noteq> state_path \<longrightarrow> fs1 p = fs p" using transition_at [OF assms(1) conjunct1 [OF b], of Querying ?now] by auto
  have same: "fs1 p = cli_disk w p" if "p \<noteq> state_path" for p using b q(3) that by simp
  let ?e1 = "with_disk (clw_epoch w) fs1"
  let ?w1 = "\<lparr>clw_epoch = with_disk (clw_epoch w) fs, clw_lock = Some (vh_pid vh)\<rparr>"
  let ?w2 = "\<lparr>clw_epoch = ?e1, clw_lock = Some (vh_pid vh)\<rparr>"
  have eval1: "evaluate_epoch x miners ?e1 = (Inr outs, e\<lparr>ew_chain := ew_chain ?e1\<rparr>)"
    using apartD [OF apart_evaluate eval, of "ew_chain ?e1"] by simp
  have prev1: "load_miner_state ?env (cw_disk (ew_chain ?e1)) = Inr previous"
    using prev by (simp add: load_miner_state_cong [of fs1 "cli_disk w"] same)
  obtain e' c marker where run: "run_epoch x (phase_hook ?env ?now t) miners ?e1 =
      (Inr \<lparr>er_weights = es_weights (epoch_scores x miners outs previous), er_epoch_scores = es_epoch_scores (epoch_scores x miners outs previous),
         er_chain_result = r, er_marker_path = marker\<rparr>, e')" (is "_ = (Inr ?res, e')")
    and finished: "committed_epoch ?env (cw_disk (ew_chain e')) n c" "cmp_mode c = res_mode r"
      "res_mode r = ''submitted'' \<longleftrightarrow> cw_calls (ew_chain e') \<noteq> cw_calls (ew_chain ?e1)"
    using epoch_ticked [OF assms(1,2) x_fields(1)[symmetric] x_fields(5)[symmetric] t _ eval1 tv prev1 refl, unfolded x_fields, OF _ client, of ?now]
      q(2) fresh same by auto
  let ?w3 = "\<lparr>clw_epoch = e', clw_lock = Some (vh_pid vh)\<rparr>"
  have body: "tick_body vh a cfg client t ?w1 = (Inr (miners, ?res), ?w3)"
    using disk_run [of "mark_querying ?env ?now t" ?w1 s1 fs1] q(1) asked run t
    by (simp add: tick_body_def ticking_def mark_querying_def tick_transition_def in_tick_def bind_op_def lift_op_def catch_op_def
        return_op_def on_epoch_def flip: x)
  obtain t' where out: "tick_exit ?env ?now None t \<lparr>disk = cli_disk ?w3, lock_owner = clw_lock ?w3\<rparr> = (Inr t', \<lparr>disk = cli_disk ?w3, lock_owner = None\<rparr>)"
    using exit_committed [OF finished(1) t, of ?now None "Some (vh_pid vh)"] by auto
  have "with_tick vh (tick_body vh a cfg client) w = (Inr (miners, ?res), \<lparr>clw_epoch = e', clw_lock = None\<rparr>)"
    using runtime_run [of "tick_enter ?env ?now (new_tick (vh_pid vh))" w "Inr t" fs "Some (vh_pid vh)"] enter free body
      runtime_run [of "tick_exit ?env ?now None t" ?w3, OF out]
    by (cases w) (simp add: with_tick_def bind_op_def lift_op_def)
  then have "tick_command vh a w = (Inr (tick_status miners ?res), \<lparr>clw_epoch = e', clw_lock = None\<rparr>)"
    using checks by (simp add: tick_command_def bind_op_def lift_op_def return_op_def)
  then show ?thesis using finished by (intro exI conjI) (assumption, simp_all)
qed
section \<open>What a tick that returns has done\<close>

lemma hook_Inr:
  assumes "ticking n t" "ph \<in> {Evaluating, Weights_submitting, Committed}" "phase_hook env now t (phase_name ph) fs = (Inr u, fs')"
  shows "\<exists>s. transition_locked env now n ph fs = (Inr s, fs')"
  using assms by (auto simp: phase_hook_def tick_transition_def bind_op_Inr)

lemma transition_phase:
  assumes "json_codec env" "transition_locked env now n ph fs = (Inr s, fs')" "ph \<noteq> Committed"
  shows "at_phase env fs' n ph"
proof -
  obtain s0 cur where s: "read_state env fs = Inr s0" "phase_of s0 = Some cur" "active_epoch_id s0 = Some n"
    and r: "ph = cur \<and> s = s0 \<and> fs' = fs \<or> s = s0\<lparr>phase_of := Some ph, updated_at := now\<rparr> \<and> validate s = Inr ()
      \<and> fs' = write_json env state_path (to_dict s) fs"
    using transition_plain [OF assms(2,3)] by blast
  from r show ?thesis
  proof
    assume "ph = cur \<and> s = s0 \<and> fs' = fs"
    with s show ?thesis by (simp add: at_phase_def)
  next
    assume "s = s0\<lparr>phase_of := Some ph, updated_at := now\<rparr> \<and> validate s = Inr () \<and> fs' = write_json env state_path (to_dict s) fs"
    with s show ?thesis using at_phase_written [OF assms(1), of s n ph fs] by auto
  qed
qed

lemma committed_after:
  assumes "json_codec env" "at_phase env fs n Weights_submitting" "transition_locked env now n Committed fs = (Inr s', fs')"
  shows "\<exists>c. committed_epoch env fs' n c"
proof -
  have "committed_by env now fs n s' fs'"
    using transition_committed [OF assms(3)] assms(2) by (auto simp: at_phase_def)
  then obtain c where c: "verify_epoch_completion env fs n = Inr c" by (auto simp: committed_by_def)
  from commit_at [OF assms(1,2) c, of now] assms(3) show ?thesis
    by (auto simp: committed_epoch_def intro!: exI [of _ c] exI [of _ "canon_state s'"])
qed

lemma on_archive_Inr: "on_archive f m w = (Inr a, w') \<Longrightarrow> m (cw_disk (ew_chain w)) = (Inr a, cw_disk (ew_chain w'))"
  by (auto simp: on_archive_def on_chain_def split: prod.splits)

lemma run_epoch_committed:
  assumes "json_codec (in_env x)" "ticking (in_epoch x) t"
    and "run_epoch x (phase_hook (in_env x) now t) miners w = (Inr res, w')"
  shows "\<exists>c. committed_epoch (in_env x) (cw_disk (ew_chain w')) (in_epoch x) c"
proof -
  let ?hook = "phase_hook (in_env x) now t"
  obtain rq w2 w3 w4 w5 r tv sc marker where
    h2: "on_archive Phase_rejected (?hook ''weights_submitting'') w2 = (Inr (), w3)"
    and ap: "on_chain Chain_failed (apply_weights (in_env x) (in_host x) (in_connection x) (in_client x) rq) w3 = (Inr r, w4)"
    and pub: "publish_epoch x tv sc r w4 = (Inr marker, w5)"
    and h3: "on_archive Phase_rejected (?hook ''committed'') w5 = (Inr (), w')"
    using assms(3) by (auto simp: run_epoch_def bind_op_Inr bind_lift_Inr Let_def)
  obtain s where s: "transition_locked (in_env x) now (in_epoch x) Weights_submitting (cw_disk (ew_chain w2)) = (Inr s, cw_disk (ew_chain w3))"
    using hook_Inr [OF assms(2), of Weights_submitting, simplified] on_archive_Inr [OF h2] by blast
  have "cw_disk (ew_chain w4) state_path = cw_disk (ew_chain w3) state_path"
    using ap client.frame by (fastforce simp: on_chain_def disk_changed_only_def split: prod.splits)
  moreover have "cw_disk (ew_chain w5) state_path = cw_disk (ew_chain w4) state_path"
    using preservesD [OF preserves_publish [OF settled_state] pub] by simp
  ultimately have "at_phase (in_env x) (cw_disk (ew_chain w5)) (in_epoch x) Weights_submitting"
    using transition_phase [OF assms(1) s]
    by (simp add: at_phase_cong [of "cw_disk (ew_chain w5)" "cw_disk (ew_chain w3)"])
  moreover obtain s' where "transition_locked (in_env x) now (in_epoch x) Committed (cw_disk (ew_chain w5)) = (Inr s', cw_disk (ew_chain w'))"
    using hook_Inr [OF assms(2), of Committed, simplified] on_archive_Inr [OF h3] by blast
  ultimately show ?thesis using committed_after [OF assms(1)] by blast
qed

lemma enter_ticking: "tick_enter env now t w = (Inr t', w') \<Longrightarrow> lock_owner w = None \<and> (\<exists>n. ticking n t')"
  by (auto simp: tick_enter_Inr ticking_def)

lemma catch_Inr:
  "(\<And>e s. \<not> is_ok (fst (h e s))) \<Longrightarrow> catch_op m h s = (Inr a, s') \<Longrightarrow> m s = (Inr a, s')"
  by (auto simp: catch_op_def is_ok_iff split: prod.splits sum.splits) (metis fst_conv)

lemma body_committed:
  assumes "json_codec (vh_env vh)" "ticking n t" "tick_body vh a cfg client t w = (Inr (miners, res), w')"
  shows "\<exists>c. committed_epoch (vh_env vh) (cli_disk w') n c"
proof -
  let ?x = "tick_input vh cfg client n (ra_quota a)"
  let ?run = "\<lambda>miners. bind_op (on_epoch (run_epoch ?x (phase_hook (vh_env vh) (vh_now vh) t) miners)) (\<lambda>result. return_op (miners, result))"
  let ?h = "\<lambda>raised. case raised of
      Epoch_raised (Not_complete mode reason) \<Rightarrow>
        bind_op (on_runtime (on_disk (fail_weights (vh_env vh) (vh_now vh) t (vh_text vh raised)))) (\<lambda>_. fail_op raised)
    | _ \<Rightarrow> fail_op raised"
  obtain w1 ms where c: "catch_op (?run ms) ?h w1 = (Inr (miners, res), w')"
    using assms(2,3) by (auto simp: tick_body_def ticking_def bind_op_Inr bind_lift_Inr)
  have h: "\<not> is_ok (fst (?h e s))" for e s
    by (auto simp: op_plumbing split: cli_error.split epoch_error.split prod.split sum.split)
  from catch_Inr [OF h c] have "run_epoch ?x (phase_hook (vh_env vh) (vh_now vh) t) miners (clw_epoch w1) = (Inr res, clw_epoch w')"
    by (auto simp: bind_op_Inr on_epoch_def split: prod.splits)
  with run_epoch_committed [of ?x t "vh_now vh" miners "clw_epoch w1" res] assms(1,2) show ?thesis by (simp add: tick_input_def)
qed

lemma with_tick_Inr:
  assumes "with_tick vh body w = (Inr b, w')"
  shows "\<exists>t w1 w2. on_runtime (tick_enter (vh_env vh) (vh_now vh) (new_tick (vh_pid vh))) w = (Inr t, w1)
    \<and> body t w1 = (Inr b, w2) \<and> bind_op (on_runtime (tick_exit (vh_env vh) (vh_now vh) None t)) (\<lambda>_. lift_op (Inr b)) w2 = (Inr b, w')"
proof -
  obtain t w1 where 1: "on_runtime (tick_enter (vh_env vh) (vh_now vh) (new_tick (vh_pid vh))) w = (Inr t, w1)"
    and rest: "(case body t w1 of (r, w') \<Rightarrow> bind_op (on_runtime (tick_exit (vh_env vh) (vh_now vh)
        (case r of Inl e \<Rightarrow> Some (vh_text vh e) | Inr _ \<Rightarrow> None) t)) (\<lambda>_. lift_op r) w') = (Inr b, w')"
    using assms by (auto simp: with_tick_def bind_op_Inr)
  obtain r w2 where 2: "body t w1 = (r, w2)" by (cases "body t w1")
  with rest have "r = Inr b" by (auto simp: bind_op_Inr)
  with 1 2 rest show ?thesis by auto
qed

lemma tick_returns:
  assumes "json_codec (vh_env vh)" "tick_command vh a w = (Inr status, w')"
  shows "clw_lock w = None \<and> clw_lock w' = None \<and> status \<in> {0, 1} \<and> (\<exists>n c. committed_epoch (vh_env vh) (cli_disk w') n c)"
proof -
  obtain cfg client miners res where t: "with_tick vh (tick_body vh a cfg client) w = (Inr (miners, res), w')"
    and st: "status = tick_status miners res"
    using assms(2) by (auto simp: tick_command_def bind_op_Inr bind_lift_Inr)
  let ?env = "vh_env vh" and ?now = "vh_now vh"
  obtain t' w1 w2 where enter: "on_runtime (tick_enter ?env ?now (new_tick (vh_pid vh))) w = (Inr t', w1)"
    and body: "tick_body vh a cfg client t' w1 = (Inr (miners, res), w2)"
    and leave: "bind_op (on_runtime (tick_exit ?env ?now None t')) (\<lambda>_. lift_op (Inr (miners, res))) w2 = (Inr (miners, res), w')"
    using with_tick_Inr [OF t] by blast
  obtain n where free: "clw_lock w = None" and n: "ticking n t'"
    using enter enter_ticking by (fastforce simp: on_runtime_def split: prod.splits)
  obtain c where c: "committed_epoch ?env (cli_disk w2) n c" using body_committed [OF assms(1) n body] by blast
  obtain t'' where out: "tick_exit ?env ?now None t' \<lparr>disk = cli_disk w2, lock_owner = clw_lock w2\<rparr>
      = (Inr t'', \<lparr>disk = cli_disk w2, lock_owner = None\<rparr>)"
    using exit_committed [OF c n, of ?now None "clw_lock w2"] by blast
  have "w' = w2\<lparr>clw_lock := None\<rparr>"
    using leave runtime_run [of "tick_exit ?env ?now None t'" w2, OF out] by (simp add: bind_op_def lift_op_def)
  with c free st show ?thesis by (auto simp: tick_status_def)
qed
section \<open>One tick at a time\<close>

lemma lock_runtime [simp]: "on_runtime (on_disk m) w = (r, w') \<Longrightarrow> clw_lock w' = clw_lock w"
  by (auto simp: on_runtime_def on_disk_def split: prod.splits)

lemma runtime_lock:
  "on_runtime m w = (r, w') \<Longrightarrow> \<exists>u rt. m \<lparr>disk = cli_disk w, lock_owner = clw_lock w\<rparr> = (u, rt) \<and> r = map_error Tick_raised u \<and> clw_lock w' = lock_owner rt"
  by (cases "m \<lparr>disk = cli_disk w, lock_owner = clw_lock w\<rparr>") (auto simp: on_runtime_def)

lemma tick_refused:
  assumes "clw_lock w = Some p"
  shows "\<exists>e. tick_command vh a w = (Inl e, w)"
proof (cases "tick_setup vh a")
  case (Inl e)
  then show ?thesis by (auto simp: tick_command_def bind_op_def lift_op_def)
next
  case (Inr s)
  have "on_runtime (tick_enter (vh_env vh) (vh_now vh) (new_tick (vh_pid vh))) w = (Inl (Tick_raised Lock_unavailable), w)"
    using assms by (cases w) (simp add: on_runtime_def tick_enter_def lock_acquire_def new_tick_def)
  with Inr show ?thesis by (auto simp: tick_command_def with_tick_def bind_op_def lift_op_def split: prod.split)
qed

lemma tick_frees:
  assumes "clw_lock w = None" "tick_command vh a w = (r, w')"
  shows "clw_lock w' = None"
proof (cases "tick_setup vh a")
  case (Inl e)
  with assms show ?thesis by (auto simp: tick_command_def bind_op_def lift_op_def)
next
  case (Inr s)
  obtain cfg client where s: "s = (cfg, client)" by (cases s)
  obtain q where t: "with_tick vh (tick_body vh a cfg client) w = (q, w')"
    using assms(2) Inr s by (auto simp: tick_command_def bind_op_def lift_op_def return_op_def split: prod.splits sum.splits)
  let ?enter = "on_runtime (tick_enter (vh_env vh) (vh_now vh) (new_tick (vh_pid vh))) w"
  show ?thesis
  proof (cases "fst ?enter")
    case (Inl e)
    with t have "?enter = (Inl e, w')" by (cases ?enter) (simp add: with_tick_def bind_op_def)
    from runtime_lock [OF this] obtain u rt where
      u: "tick_enter (vh_env vh) (vh_now vh) (new_tick (vh_pid vh)) \<lparr>disk = cli_disk w, lock_owner = clw_lock w\<rparr> = (u, rt)"
      and "Inl e = map_error Tick_raised u" and rt: "clw_lock w' = lock_owner rt" by blast
    then obtain d where "u = Inl d" by (cases u) auto
    with tick_enter_Inl u rt assms(1) show ?thesis by fastforce
  next
    case (Inr t1)
    then obtain w1 where e: "?enter = (Inr t1, w1)" by (metis prod.collapse)
    from runtime_lock [OF e] obtain u0 rt0 where
      "tick_enter (vh_env vh) (vh_now vh) (new_tick (vh_pid vh)) \<lparr>disk = cli_disk w, lock_owner = clw_lock w\<rparr> = (u0, rt0)"
      and "Inr t1 = map_error Tick_raised u0" by blast
    moreover from this(2) have "u0 = Inr t1" by (cases u0) auto
    ultimately have held: "tick_held t1" by (auto simp: tick_enter_Inr)
    obtain res w2 where b: "tick_body vh a cfg client t1 w1 = (res, w2)" by (cases "tick_body vh a cfg client t1 w1")
    let ?exc = "case res of Inl e \<Rightarrow> Some (vh_text vh e) | Inr _ \<Rightarrow> None"
    have x: "bind_op (on_runtime (tick_exit (vh_env vh) (vh_now vh) ?exc t1)) (\<lambda>_. lift_op res) w2 = (q, w')"
      using t e b by (simp add: with_tick_def bind_op_def)
    obtain u rt where u: "tick_exit (vh_env vh) (vh_now vh) ?exc t1 \<lparr>disk = cli_disk w2, lock_owner = clw_lock w2\<rparr> = (u, rt)"
      by (cases "tick_exit (vh_env vh) (vh_now vh) ?exc t1 \<lparr>disk = cli_disk w2, lock_owner = clw_lock w2\<rparr>")
    with x have "clw_lock w' = lock_owner rt"
      by (cases u) (auto simp: bind_op_def lift_op_def on_runtime_def)
    with tick_exit_lock [OF u held] show ?thesis by simp
  qed
qed

section \<open>Properties\<close>

text \<open>C20: a tick that starts while the lock is taken raises and changes nothing; one that starts with the lock free
  leaves it free, whatever it returns or raises.\<close>

theorem ticks_exclude_each_other:
  "case clw_lock w of
     Some p \<Rightarrow> \<exists>e. tick_command vh a w = (Inl e, w)
   | None \<Rightarrow> clw_lock (snd (tick_command vh a w)) = None"
proof (cases "clw_lock w")
  case None
  then show ?thesis using tick_frees [of w vh a, OF None prod.collapse [symmetric]] by simp
next
  case (Some p)
  then show ?thesis using tick_refused by simp
qed

text \<open>C4: a tick that returns has committed its epoch: the store says so, the completion marker verifies on the archive
  it leaves, and the rolling miner state is the verified snapshot; it started with the lock free.\<close>

theorem tick_commits:
  assumes "json_codec (vh_env vh)" "tick_command vh a w = (Inr status, w')"
  shows "clw_lock w = None \<and> status \<in> {0, 1}
    \<and> (\<exists>s n c. read_state (vh_env vh) (cli_disk w') = Inr s \<and> active_epoch_id s = Some n \<and> phase_of s = Some Committed
        \<and> last_completed_epoch s = Some n \<and> verify_epoch_completion (vh_env vh) (cli_disk w') n = Inr c
        \<and> cli_disk w' miner_state_path = Some (dumps (vh_env vh) (JObj (cmp_miner_state c))))"
proof -
  obtain n c where "clw_lock w = None" "status \<in> {0, 1}" and c: "committed_epoch (vh_env vh) (cli_disk w') n c"
    using tick_returns [OF assms] by blast
  with c [unfolded committed_epoch_def] show ?thesis by blast
qed

text \<open>C7: when the checks pass, the lock is free, the store allocates an epoch without receipt or attempt, the query and
  the evaluation go through and the client returns a result, the tick returns; its completion has the client's mode, and
  weights were signed exactly when that mode is submitted.\<close>

theorem tick_completes:
  assumes "json_codec (vh_env vh)" "hex_digest (vh_env vh)" "tick_ready vh a w n miners r"
  shows "\<exists>res w' c. tick_command vh a w = (Inr (tick_status miners res), w') \<and> er_chain_result res = r
    \<and> verify_epoch_completion (vh_env vh) (cli_disk w') n = Inr c \<and> cmp_mode c = res_mode r
    \<and> (res_mode r = ''submitted'' \<longleftrightarrow> cli_calls w' \<noteq> cli_calls w)"
  using tick_run [OF assms] unfolding committed_epoch_def by blast
section \<open>A live tick\<close>

definition sample_args :: runtime_args where
  "sample_args = \<lparr>ra_mode = ''localnet'', ra_work = ''/work'', ra_quota = 1, ra_miner_endpoints = ''10.0.0.2:8091:m'',
     ra_wallet_name = ''w'', ra_wallet_hotkey = ''h'', ra_network = Some ''ws://127.0.0.1:9944'', ra_netuid = Some 523,
     ra_chain = ''live'', ra_allow_extrinsics = True, ra_allow_commit_reveal = False, ra_confirm_live = live_confirmation,
     ra_panel_mode = None, ra_panel_max_tasks = None, ra_panel_dry_run = False, ra_allow_provider_spend = False\<rparr>"

definition sample_validator :: "(json, nat) validator_host" where
  "sample_validator = \<lparr>vh_env = plain_env,
     vh_host = live_host\<lparr>environ := (\<lambda>n. if n = ''DOLORES_ALLOW_EXTRINSICS'' then Some ''1''
       else if n = ''DOLORES_HOLDOUT_SECRET'' then Some ''s'' else None)\<rparr>,
     vh_engine = sample_engine, vh_files = in_files sample_input, vh_connection = Inr sample_substrate,
     vh_hotkey = Inr ''v'', vh_coldkey = Inr ''c'', vh_keys = sample_wire_keys, vh_request_id = sample_request_id,
     vh_query = (\<lambda>es x. Inl \<lparr>exn_type = ''OSError'', exn_text = ''down''\<rparr>), vh_terminal = None, vh_docker = None,
     vh_run = (\<lambda>_. Inl \<lparr>exn_type = ''OSError'', exn_text = []\<rparr>), vh_now = ''now'', vh_pid = 7, vh_duration_ms = 0,
     vh_text = (\<lambda>_. ''error'')\<rparr>"

definition sample_cli_world :: "json cli_world" where
  "sample_cli_world = \<lparr>clw_epoch = sample_world\<lparr>ew_chain := empty_world\<lparr>cw_disk :=
       write_json plain_env miner_state_path (JObj [(''m'', JFloat (Fin 1))]) (\<lambda>_. None)\<rparr>\<rparr>, clw_lock = None\<rparr>"

lemma sample_begin: "map_option snd (case fst (begin_locked plain_env ''now'' (cli_disk sample_cli_world)) of Inl _ \<Rightarrow> None | Inr r \<Rightarrow> Some r) = Some 1"
  by code_simp

definition sample_unreachable :: miner where
  "sample_unreachable = unreachable_miner \<lparr>me_host = ''10.0.0.2'', me_port = 8091, me_hotkey = ''m'', me_uid = 0, me_coldkey = ''c''\<rparr>
     ''wire query failed: down''"

definition sample_local_client :: chain_client where
  "sample_local_client = Subtensor_chain (sample_chain\<lparr>sc_network := ''ws://127.0.0.1:9944''\<rparr>)"

lemma sample_checks:
  "case tick_setup sample_validator sample_args of Inl _ \<Rightarrow> False
   | Inr (cfg, client) \<Rightarrow> panel_mode cfg = ''mock'' \<and> ema_alpha cfg = ema_alpha_default \<and> spec_version cfg = 1 \<and> client = sample_local_client"
  by code_simp

lemma sample_asked: "tick_endpoints sample_validator sample_args Null_chain =
    Inr [\<lparr>me_host = ''10.0.0.2'', me_port = 8091, me_hotkey = ''m'', me_uid = 0, me_coldkey = ''c''\<rparr>]"
  by code_simp

lemma sample_scored:
  "map_option (\<lambda>out. (so_package_hash out, es_weights (score_epoch ema_alpha_default 1 [''m''] [(sample_unreachable, out)] [(''m'', Fin 1)]),
      es_reason (score_epoch ema_alpha_default 1 [''m''] [(sample_unreachable, out)] [(''m'', Fin 1)])))
     (terminal_outcome sample_unreachable) = Some (JNull, [(''m'', Fin 1)], None)"
  by code_simp

lemma sample_signs:
  "case fst (apply_weights plain_env (vh_host sample_validator) (Inr sample_substrate) sample_local_client
       \<lparr>rq_epoch = 1, rq_weights = [(''m'', Fin 1)], rq_active = [''m''], rq_spec_version = 1, rq_fallback_reason = Some ''offline''\<rparr> empty_world) of
     Inl _ \<Rightarrow> False | Inr r \<Rightarrow> res_mode r = ''submitted''"
  by code_simp

lemma sample_queried: "query_miners_for_tick sample_validator sample_args cfg client n = Inr [sample_unreachable]"
proof -
  have "tick_endpoints sample_validator sample_args client = tick_endpoints sample_validator sample_args Null_chain"
    by (simp add: tick_endpoints_def sample_args_def)
  then show ?thesis
    by (simp add: query_miners_for_tick_def sample_asked run_query_def query_miners_def sample_unreachable_def)
      (simp add: sample_validator_def)
qed

text \<open>An epoch whose only miner was not reached.\<close>

lemma unreached_epoch:
  assumes "terminal_outcome m = Some out" "panel_mode (in_config x) = ''mock''" "ew_log w = Inr rows"
  shows "\<exists>e. evaluate_epoch x [m] w = (Inr [(m, out)], e)"
proof -
  have "terminal m" using assms(1) by (cases "or_text (mn_terminal_status m) None") (simp_all add: terminal_outcome_def terminal_def)
  then have "collect [m] n q = []" for n q by (simp add: collect_def)
  moreover have "\<exists>s. open_session (in_env x) (in_host x) (in_config x) (in_files x) = Inr s"
    using assms(2) by (simp add: open_session_def inactive_session_def)
  ultimately show ?thesis
    using assms by (auto simp: evaluate_epoch_def record_outcome_def append_submission_def op_plumbing)
qed

lemma sample_tick_ready: "\<exists>miners r. tick_ready sample_validator sample_args sample_cli_world 1 miners r \<and> res_mode r = ''submitted''"
proof -
  obtain s fs where b: "begin_locked plain_env ''now'' (cli_disk sample_cli_world) = (Inr (s, 1), fs)"
    using sample_begin by (cases "begin_locked plain_env ''now'' (cli_disk sample_cli_world)") (auto split: sum.splits)
  have env: "vh_env sample_validator = plain_env" "vh_now sample_validator = ''now''" "ra_quota sample_args = 1"
    "vh_connection sample_validator = Inr sample_substrate"
    by (simp_all add: sample_validator_def sample_args_def)
  obtain cfg where cfg: "tick_setup sample_validator sample_args = Inr (cfg, sample_local_client)" "panel_mode cfg = ''mock''"
    "ema_alpha cfg = ema_alpha_default" "spec_version cfg = 1"
    using sample_checks by (auto split: sum.splits prod.splits)
  obtain out where out: "terminal_outcome sample_unreachable = Some out" "so_package_hash out = JNull"
    "es_weights (score_epoch ema_alpha_default 1 [''m''] [(sample_unreachable, out)] [(''m'', Fin 1)]) = [(''m'', Fin 1)]"
    "es_reason (score_epoch ema_alpha_default 1 [''m''] [(sample_unreachable, out)] [(''m'', Fin 1)]) = None"
    using sample_scored by auto
  let ?x = "tick_input sample_validator cfg sample_local_client 1 1"
  let ?sc = "epoch_scores ?x [sample_unreachable] [(sample_unreachable, out)] [(''m'', Fin 1)]"
  have m: "mn_hotkey sample_unreachable = ''m''" by (simp add: sample_unreachable_def unreachable_miner_def wire_miner_def)
  have rq: "epoch_request ?x (map mn_hotkey [sample_unreachable]) ?sc
      = \<lparr>rq_epoch = 1, rq_weights = [(''m'', Fin 1)], rq_active = [''m''], rq_spec_version = 1, rq_fallback_reason = Some ''offline''\<rparr>"
    using out cfg by (simp add: epoch_request_def epoch_scores_def tick_input_def m)
  obtain e where e: "evaluate_epoch ?x [sample_unreachable] (clw_epoch sample_cli_world) = (Inr [(sample_unreachable, out)], e)"
    using unreached_epoch [OF out(1), of ?x "clw_epoch sample_cli_world" "[]"] cfg(2)
    by (auto simp: tick_input_def sample_cli_world_def sample_world_def)
  let ?apply = "apply_weights plain_env (vh_host sample_validator) (Inr sample_substrate) sample_local_client
      (epoch_request ?x (map mn_hotkey [sample_unreachable]) ?sc)"
  obtain r where "fst (?apply empty_world) = Inr r" "res_mode r = ''submitted''"
    using sample_signs unfolding rq by (auto split: sum.splits)
  moreover have "fst (?apply (ew_chain (clw_epoch sample_cli_world))) = fst (?apply empty_world)"
    using blind_apply unfolding blind_def by blast
  ultimately have r: "fst (?apply (ew_chain (clw_epoch sample_cli_world))) = Inr r" "res_mode r = ''submitted''" by simp_all
  have tv: "collect_task_values [(sample_unreachable, out)] [] = Inr []" using out(2) by simp
  have sorted: "sorted_task_values plain_env [] = Inr []" by code_simp
  have prev: "load_miner_state plain_env (cli_disk sample_cli_world) = Inr [(''m'', Fin 1)]" by code_simp
  have free: "clw_lock sample_cli_world = None" "cli_disk sample_cli_world (chain_receipt_path 1) = None"
    "cli_disk sample_cli_world (chain_attempt_path 1) = None"
    by (simp_all add: sample_cli_world_def write_json_def)
  show ?thesis
    unfolding tick_ready_def env using b cfg(1) sample_queried e tv sorted prev r free by blast
qed

theorem tick_completes_witness:
  "\<exists>status w' c. tick_command sample_validator sample_args sample_cli_world = (Inr status, w')
     \<and> verify_epoch_completion plain_env (cli_disk w') 1 = Inr c \<and> cmp_mode c = ''submitted''"
proof -
  obtain miners r where r: "tick_ready sample_validator sample_args sample_cli_world 1 miners r" "res_mode r = ''submitted''"
    using sample_tick_ready by blast
  have env: "vh_env sample_validator = plain_env" by (simp add: sample_validator_def)
  from tick_completes [OF _ _ r(1), unfolded env, OF plain_env_codec plain_env_digest] r(2) show ?thesis by auto
qed

lemma sample_run: "\<exists>status w'. tick_command sample_validator sample_args sample_cli_world = (Inr status, w')
    \<and> cli_calls w' \<noteq> cli_calls sample_cli_world"
proof -
  obtain miners r where r: "tick_ready sample_validator sample_args sample_cli_world 1 miners r" "res_mode r = ''submitted''"
    using sample_tick_ready by blast
  have env: "vh_env sample_validator = plain_env" by (simp add: sample_validator_def)
  from tick_run [OF _ _ r(1), unfolded env, OF plain_env_codec plain_env_digest] r(2) show ?thesis by auto
qed

theorem tick_commits_witness:
  "\<exists>w' s. read_state plain_env (cli_disk w') = Inr s \<and> phase_of s = Some Committed
     \<and> (\<exists>status. tick_command sample_validator sample_args sample_cli_world = (Inr status, w'))"
proof -
  obtain status w' where r: "tick_command sample_validator sample_args sample_cli_world = (Inr status, w')"
    using sample_run by blast
  have env: "vh_env sample_validator = plain_env" by (simp add: sample_validator_def)
  from tick_commits [OF _ r, unfolded env, OF plain_env_codec] r show ?thesis by blast
qed

theorem tick_signs_only_live_witness:
  "\<exists>r w' call fs n. tick_command sample_validator sample_args sample_cli_world = (r, w')
     \<and> cli_calls w' = cli_calls sample_cli_world @ [(call, fs)] \<and> attempt_status_on plain_env fs n Started"
proof -
  obtain status w' where r: "tick_command sample_validator sample_args sample_cli_world = (Inr status, w')"
    "cli_calls w' \<noteq> cli_calls sample_cli_world" using sample_run by blast
  have env: "vh_env sample_validator = plain_env" by (simp add: sample_validator_def)
  have "ra_mode sample_args \<in> {''wire'', ''localnet'', ''testnet''}" by (simp add: sample_args_def)
  from tick_signs_only_live [OF _ r(1,2) this, unfolded env, OF plain_env_codec] r(1) show ?thesis by blast
qed

end
