(* ===== verification/Miner_Limits.thy ===== *)
theory Miner_Limits
  imports Wire Operations
begin

text \<open>
  What bounds the requests of a miner, \<open>src/dolores_subnet/miner_cli.py\<close>: the token bucket, the
  admission of HTTP requests before the SDK reads them, and the checks of an authenticated request.  Clock
  readings, the messages of the server and the verdict of the SDK's own verification are arguments.
\<close>

section \<open>Token buckets\<close>

record bucket =
  bk_tokens :: pyfloat
  bk_updated :: pyfloat

record limiter =
  lm_burst :: int
  lm_rate :: pyfloat
  lm_buckets :: "(string, bucket) dict"

definition new_limiter :: "int \<Rightarrow> pyfloat \<Rightarrow> exn + limiter" where
  "new_limiter burst rate =
     (if burst < 1 \<or> fle rate (Fin 0) then Inl (value_error ''rate limiter bounds must be positive'')
      else Inr \<lparr>lm_burst = burst, lm_rate = rate, lm_buckets = []\<rparr>)"

definition burst_tokens :: "limiter \<Rightarrow> pyfloat" where
  "burst_tokens l = to_float (of_int (lm_burst l))"

definition current_bucket :: "limiter \<Rightarrow> string \<Rightarrow> pyfloat \<Rightarrow> bucket" where
  "current_bucket l key now =
     (case dict_get (lm_buckets l) key of None \<Rightarrow> \<lparr>bk_tokens = burst_tokens l, bk_updated = now\<rparr> | Some b \<Rightarrow> b)"

definition refilled :: "limiter \<Rightarrow> string \<Rightarrow> pyfloat \<Rightarrow> pyfloat" where
  "refilled l key now =
     (let b = current_bucket l key now;
          elapsed = pymax (Fin 0) (fsub now (bk_updated b))
      in pymin (burst_tokens l) (fadd (bk_tokens b) (fmul elapsed (lm_rate l))))"

definition allow :: "string \<Rightarrow> pyfloat \<Rightarrow> limiter \<Rightarrow> bool \<times> limiter" where
  "allow key now l =
     (let tokens = refilled l key now;
          allowed = fle (Fin 1) tokens;
          left = (if allowed then fsub tokens (Fin 1) else tokens)
      in (allowed, l\<lparr>lm_buckets := dict_set (lm_buckets l) key \<lparr>bk_tokens = left, bk_updated = now\<rparr>\<rparr>))"

text \<open>The answers to a sequence of calls.\<close>

fun allow_all :: "(string \<times> pyfloat) list \<Rightarrow> limiter \<Rightarrow> bool list \<times> limiter" where
  "allow_all [] l = ([], l)"
| "allow_all ((key, now) # calls) l =
     (case allow key now l of (b, l1) \<Rightarrow> (case allow_all calls l1 of (bs, l2) \<Rightarrow> (b # bs, l2)))"

section \<open>Admission of HTTP requests\<close>

text \<open>The messages of the server: a disconnect, a piece of the body with its \<open>more_body\<close>, or another.\<close>

datatype asgi_message = Disconnect | Body_part bytes bool | Other_message

record http_scope =
  sp_type :: string
  sp_client :: "string option"
  sp_headers :: "(bytes \<times> bytes) list"

datatype asgi_send = Response_start int "(bytes \<times> bytes) list" | Response_body bytes bool

text \<open>Left to the application as it is; answered; dropped; forwarded with its body; or still being received.\<close>

datatype admission = Not_http | Answered "asgi_send list" | Dropped | Forwarded bytes | Receiving

record admitter =
  ad_max_bytes :: int
  ad_limiter :: limiter

definition max_request_body_bytes :: int where
  "max_request_body_bytes = 64 * 1024"

definition new_admitter :: "int \<Rightarrow> int \<Rightarrow> pyfloat \<Rightarrow> exn + admitter" where
  "new_admitter max_bytes burst rate =
     bind_result (new_limiter burst rate) (\<lambda>l. Inr \<lparr>ad_max_bytes = max_bytes, ad_limiter = l\<rparr>)"

definition admission_error :: "int \<Rightarrow> string \<Rightarrow> asgi_send list" where
  "admission_error status detail =
     (let body = compact_object [(''detail'', Text_scalar detail)] in
      [Response_start status
         [(''content-type'', ''application/json''), (''content-length'', show_int (int (length body)))],
       Response_body body False])"

text \<open>\<open>int\<close> of bytes: as of text, with the white space of ASCII only.\<close>

definition int_of_bytes :: "bytes \<Rightarrow> int option" where
  "int_of_bytes b =
     (if list_all (\<lambda>c. is_space c \<longrightarrow> (of_char c :: nat) = 32 \<or> 9 \<le> (of_char c :: nat) \<and> (of_char c :: nat) \<le> 13) b
      then int_of_text b else None)"

text \<open>\<open>bytes.lower\<close>; of equal names the last one counts.\<close>

definition lower_bytes :: "bytes \<Rightarrow> bytes" where
  "lower_bytes b =
     map (\<lambda>c. if 65 \<le> (of_char c :: nat) \<and> (of_char c :: nat) \<le> 90 then char_of (of_char c + (32 :: nat)) else c) b"

definition header_dict :: "(bytes \<times> bytes) list \<Rightarrow> (bytes, bytes) dict" where
  "header_dict headers = fold (\<lambda>(key, val) d. dict_set d (lower_bytes key) val) headers []"

text \<open>The loop over the messages, with the body that has been kept.\<close>

fun receive_body :: "int \<Rightarrow> asgi_message list \<Rightarrow> bytes \<Rightarrow> admission \<times> bytes" where
  "receive_body cap [] body = (Receiving, body)"
| "receive_body cap (Disconnect # ms) body = (Dropped, body)"
| "receive_body cap (Other_message # ms) body = receive_body cap ms body"
| "receive_body cap (Body_part chunk continues # ms) body =
     (if cap < int (length body + length chunk) then (Answered (admission_error 413 ''request body too large''), body)
      else if continues then receive_body cap ms (body @ chunk)
      else (Forwarded (body @ chunk), body @ chunk))"

definition source_ip :: "http_scope \<Rightarrow> string" where
  "source_ip scope = (case sp_client scope of None \<Rightarrow> ''unknown'' | Some host \<Rightarrow> host)"

definition check_declared :: "int \<Rightarrow> http_scope \<Rightarrow> (asgi_send list) + unit" where
  "check_declared cap scope =
     (case dict_get (header_dict (sp_headers scope)) ''content-length'' of
        None \<Rightarrow> Inr ()
      | Some b \<Rightarrow>
          (case int_of_bytes b of
             None \<Rightarrow> Inl (admission_error 400 ''invalid content length'')
           | Some declared \<Rightarrow> if cap < declared then Inl (admission_error 413 ''request body too large'') else Inr ()))"

definition admit :: "http_scope \<Rightarrow> asgi_message list \<Rightarrow> pyfloat \<Rightarrow> admitter \<Rightarrow> admission \<times> admitter" where
  "admit scope messages now a =
     (if sp_type scope \<noteq> ''http'' then (Not_http, a)
      else (case allow (source_ip scope) now (ad_limiter a) of
        (False, l) \<Rightarrow> (Answered (admission_error 429 ''request rate exceeded''), a\<lparr>ad_limiter := l\<rparr>)
      | (True, l) \<Rightarrow>
          (case check_declared (ad_max_bytes a) scope of
             Inl answer \<Rightarrow> (Answered answer, a\<lparr>ad_limiter := l\<rparr>)
           | Inr _ \<Rightarrow> (fst (receive_body (ad_max_bytes a) messages []), a\<lparr>ad_limiter := l\<rparr>))))"

text \<open>What the application receives of a forwarded body: all of it once, then nothing.\<close>

definition replay_receive :: "bytes \<Rightarrow> bool \<Rightarrow> asgi_message \<times> bool" where
  "replay_receive body delivered = (if \<not> delivered then (Body_part body False, True) else (Body_part [] False, True))"

section \<open>Authenticated requests\<close>

text \<open>What the verifier reads of a request: its terminal, and the timeout it asks for.\<close>

record request_head =
  rh_hotkey :: "string option"
  rh_uuid :: "string option"
  rh_nonce :: "int option"
  rh_version :: "int option"

record signed_request =
  rq_terminal :: "request_head option"
  rq_timeout :: "pyfloat option"

definition max_request_age_ns :: int where
  "max_request_age_ns = 30000000000"

definition max_request_future_skew_ns :: int where
  "max_request_future_skew_ns = 5000000000"

definition max_request_timeout_seconds :: pyfloat where
  "max_request_timeout_seconds = Fin 30"

type_synonym request_identity = "string \<times> string \<times> int"

record verifier =
  vr_limiter :: limiter
  vr_accepted :: "(request_identity, pyfloat) dict"

definition new_verifier :: "exn + verifier" where
  "new_verifier = bind_result (new_limiter 6 (lit (2 / 10))) (\<lambda>l. Inr \<lparr>vr_limiter = l, vr_accepted = []\<rparr>)"

text \<open>The process at a request: wall clock, monotonic clock, and the SDK's verification.\<close>

record request_context =
  rc_now_ns :: int
  rc_monotonic :: pyfloat
  rc_sdk :: "exn + unit"

definition or_empty :: "string option \<Rightarrow> string" where
  "or_empty s = (case s of None \<Rightarrow> [] | Some t \<Rightarrow> t)"

definition request_metadata :: "request_head \<Rightarrow> exn + int \<times> int" where
  "request_metadata t =
     (case (rh_nonce t, rh_version t) of
        (Some nonce, Some ver) \<Rightarrow> Inr (nonce, ver)
      | _ \<Rightarrow> Inl (value_error ''invalid authenticated request metadata''))"

text \<open>The checks before the SDK's; the identity of a request that passes them.\<close>

definition request_policy :: "int \<Rightarrow> int \<Rightarrow> signed_request \<Rightarrow> exn + request_identity" where
  "request_policy min_version now_ns q =
     (case rq_terminal q of
        None \<Rightarrow> Inl (value_error ''missing request terminal'')
      | Some t \<Rightarrow>
          let hotkey = or_empty (rh_hotkey t); request_uuid = or_empty (rh_uuid t) in
          bind_result (request_metadata t) (\<lambda>(nonce, ver).
          bind_result (require (\<not> (hotkey = [] \<or> request_uuid = [] \<or> 128 < length request_uuid))
            (value_error ''invalid authenticated request identity'')) (\<lambda>_.
          bind_result (require (\<not> ver < min_version) (value_error ''unsupported authenticated request version'')) (\<lambda>_.
          bind_result (case rq_timeout q of
              None \<Rightarrow> Inl (type_error ''float() argument must be a string or a real number, not NoneType'')
            | Some timeout \<Rightarrow> Inr timeout) (\<lambda>timeout.
          bind_result (require (flt (Fin 0) timeout \<and> fle timeout max_request_timeout_seconds)
            (value_error ''request timeout exceeds cohort policy'')) (\<lambda>_.
          let age = now_ns - nonce in
          bind_result (require (\<not> max_request_age_ns < age) (value_error ''request nonce is stale'')) (\<lambda>_.
          bind_result (require (\<not> age < - max_request_future_skew_ns)
            (value_error ''request nonce is too far in the future'')) (\<lambda>_.
          Inr (hotkey, request_uuid, nonce)))))))))"

definition retained :: "pyfloat \<Rightarrow> (request_identity, pyfloat) dict \<Rightarrow> (request_identity, pyfloat) dict" where
  "retained now accepted =
     (let cutoff = fsub now (fdiv (to_float (of_int max_request_age_ns)) (to_float 1000000000));
          stale = map fst (filter (\<lambda>(k, accepted_at). flt accepted_at cutoff) accepted)
      in fold (\<lambda>k d. dict_pop d k) stale accepted)"

definition verify_request :: "int \<Rightarrow> request_context \<Rightarrow> signed_request \<Rightarrow> (verifier, exn, unit) op" where
  "verify_request min_version c q =
     bind_op (lift_op (request_policy min_version (rc_now_ns c) q)) (\<lambda>identity.
     bind_op (lift_op (rc_sdk c)) (\<lambda>_.
     bind_op get_op (\<lambda>v.
     case allow (fst identity) (rc_monotonic c) (vr_limiter v) of (allowed, l) \<Rightarrow>
     bind_op (modify_op (\<lambda>v. v\<lparr>vr_limiter := l\<rparr>)) (\<lambda>_.
     bind_op (guard_op allowed (value_error ''authenticated request rate exceeded'')) (\<lambda>_.
     bind_op (modify_op (\<lambda>v. v\<lparr>vr_accepted := retained (rc_monotonic c) (vr_accepted v)\<rparr>)) (\<lambda>_.
     bind_op get_op (\<lambda>v.
     bind_op (guard_op (identity \<notin> set (dict_keys (vr_accepted v))) (value_error ''authenticated request replayed'')) (\<lambda>_.
     modify_op (\<lambda>v. v\<lparr>vr_accepted := dict_set (vr_accepted v) identity (rc_monotonic c)\<rparr>)))))))))"

definition validator_blacklist :: "string list \<Rightarrow> bool \<Rightarrow> request_terminal option \<Rightarrow> bool \<times> string" where
  "validator_blacklist allowed_hotkeys allow_any_signed caller =
     (let hotkey = (case caller of None \<Rightarrow> [] | Some t \<Rightarrow> or_empty (rt_hotkey t)) in
      if hotkey = [] then (True, ''missing validator hotkey'')
      else if allow_any_signed \<or> hotkey \<in> set allowed_hotkeys then (False, [])
      else (True, ''validator hotkey is not allowlisted''))"

section \<open>The axon\<close>

text \<open>Of the SDK's axon: its application if it has one, with the middleware that has been added, the mark of the
  installation, and the verifier that is attached with the handlers.\<close>

record miner_axon =
  mx_app :: bool
  mx_middleware :: "admitter list"
  mx_installed :: bool
  mx_verifier :: "verifier option"

definition install_request_admission :: "miner_axon \<Rightarrow> exn + miner_axon" where
  "install_request_admission ax =
     (if \<not> mx_app ax \<or> mx_installed ax then Inr ax
      else bind_result (new_admitter max_request_body_bytes 20 (Fin 1)) (\<lambda>m.
        Inr (ax\<lparr>mx_middleware := mx_middleware ax @ [m], mx_installed := True\<rparr>)))"

definition attach_miner_axon :: "miner_axon \<Rightarrow> exn + miner_axon" where
  "attach_miner_axon ax =
     bind_result (install_request_admission ax) (\<lambda>ax.
     bind_result new_verifier (\<lambda>v. Inr (ax\<lparr>mx_verifier := Some v\<rparr>)))"

section \<open>What a limiter lets through\<close>

lemma int_float: "\<bar>n\<bar> \<le> 2 ^ 53 \<Longrightarrow> to_float (of_int n) = Fin (of_int n)"
  using to_float_small [of "of_int n" "\<bar>n\<bar>"] by (simp add: rnd64_int)

lemma burst_tokens_int: "1 \<le> lm_burst l \<Longrightarrow> lm_burst l \<le> 2 ^ 53 \<Longrightarrow> burst_tokens l = Fin (of_int (lm_burst l))"
  by (simp add: burst_tokens_def int_float)

text \<open>A bucket of whole tokens, asked again at the instant of its last update.\<close>

lemma refilled_now:
  assumes "1 \<le> lm_burst l" "lm_burst l \<le> 2 ^ 53" "lm_rate l = Fin r" "0 \<le> n" "n \<le> lm_burst l"
    and "current_bucket l key (Fin now) = \<lparr>bk_tokens = Fin (of_int n), bk_updated = Fin now\<rparr>"
  shows "refilled l key (Fin now) = Fin (of_int n)"
  using assms int_float [of n] by (simp add: refilled_def burst_tokens_int fsub_def pymax_def pymin_def)

lemma allow_now:
  assumes "1 \<le> lm_burst l" "lm_burst l \<le> 2 ^ 53" "lm_rate l = Fin r" "0 \<le> n" "n \<le> lm_burst l"
    and "current_bucket l key (Fin now) = \<lparr>bk_tokens = Fin (of_int n), bk_updated = Fin now\<rparr>"
  shows "allow key (Fin now) l = (0 < n, l\<lparr>lm_buckets := dict_set (lm_buckets l) key
    \<lparr>bk_tokens = Fin (of_int (if 0 < n then n - 1 else n)), bk_updated = Fin now\<rparr>\<rparr>)"
proof -
  have eq: "rat_of_int n + - 1 = of_int (n - 1)" by simp
  have "0 < n \<Longrightarrow> fsub (Fin (of_int n)) (Fin 1) = Fin (of_int (n - 1))"
    using int_float [of "n - 1"] assms(2,5) by (simp only: fsub_def fneg.simps fadd.simps eq)
  moreover have "fle (Fin 1) (Fin (of_int n)) \<longleftrightarrow> (1 :: rat) \<le> of_int n" by (auto simp: fle_def)
  then have "fle (Fin 1) (Fin (of_int n)) \<longleftrightarrow> 0 < n" by (simp add: int_one_le_iff_zero_less)
  ultimately show ?thesis using refilled_now [OF assms] by (simp add: allow_def Let_def)
qed

lemma allow_all_now:
  "1 \<le> lm_burst l \<Longrightarrow> lm_burst l \<le> 2 ^ 53 \<Longrightarrow> lm_rate l = Fin r \<Longrightarrow> int n \<le> lm_burst l \<Longrightarrow>
   current_bucket l key (Fin now) = \<lparr>bk_tokens = Fin (of_nat n), bk_updated = Fin now\<rparr> \<Longrightarrow>
   fst (allow_all (replicate k (key, Fin now)) l) = replicate (min k n) True @ replicate (k - n) False"
proof (induction k arbitrary: l n)
  case (Suc k)
  let ?l = "l\<lparr>lm_buckets := dict_set (lm_buckets l) key \<lparr>bk_tokens = Fin (of_nat (n - 1)), bk_updated = Fin now\<rparr>\<rparr>"
  have step: "allow key (Fin now) l = (0 < n, ?l)"
    using allow_now [of l r "int n" key now] Suc.prems by (cases n) auto
  have "fst (allow_all (replicate k (key, Fin now)) ?l) = replicate (min k (n - 1)) True @ replicate (k - (n - 1)) False"
    by (rule Suc.IH) (use Suc.prems in \<open>auto simp: current_bucket_def\<close>)
  then show ?case using step by (cases n) (simp_all add: case_prod_beta min_def replicate_append_same)
qed simp

lemma allow_other: "key' \<noteq> key \<Longrightarrow> dict_get (lm_buckets (snd (allow key now l))) key' = dict_get (lm_buckets l) key'"
  by (simp add: allow_def Let_def)

text \<open>A caller that is not known may make as many calls at one instant as the burst says, and no further one;
  no call touches the bucket of another caller.\<close>

lemma burst_is_exact:
  assumes "1 \<le> lm_burst l" "lm_burst l \<le> 2 ^ 53" "lm_rate l = Fin r" "dict_get (lm_buckets l) key = None"
  shows "fst (allow_all (replicate k (key, Fin now)) l) =
      replicate (min k (nat (lm_burst l))) True @ replicate (k - nat (lm_burst l)) False
    \<and> (key' = key \<or> dict_get (lm_buckets (snd (allow key (Fin now) l))) key' = dict_get (lm_buckets l) key')"
proof -
  have "current_bucket l key (Fin now) = \<lparr>bk_tokens = Fin (of_nat (nat (lm_burst l))), bk_updated = Fin now\<rparr>"
    using assms by (simp add: current_bucket_def burst_tokens_int)
  from allow_all_now [OF assms(1-3) _ this, of k] assms(1) show ?thesis using allow_other [of key' key "Fin now" l] by auto
qed

lemma burst_is_exact_instance:
  "\<exists>l. new_limiter 6 (lit (2 / 10)) = Inr l
     \<and> fst (allow_all (replicate 8 (''5V'', Fin 100)) l) = replicate 6 True @ replicate 2 False"
proof -
  let ?l = "\<lparr>lm_burst = 6, lm_rate = lit (2 / 10), lm_buckets = []\<rparr>"
  have "new_limiter 6 (lit (2 / 10)) = Inr ?l" by code_simp
  moreover have "fst (allow_all (replicate 8 (''5V'', Fin 100)) ?l) = replicate 6 True @ replicate 2 False"
    using burst_is_exact [of ?l "rnd64 (2 / 10)" "''5V''" 8 100] by (simp add: dict_get_def)
  ultimately show ?thesis by blast
qed

text \<open>The buckets of a limiter: between no token and the burst, at every moment.\<close>

definition bucket_ok :: "int \<Rightarrow> bucket \<Rightarrow> bool" where
  "bucket_ok burst b =
     (case (bk_tokens b, bk_updated b) of (Fin t, Fin u) \<Rightarrow> 0 \<le> t \<and> t \<le> of_int burst | _ \<Rightarrow> False)"

definition limiter_ok :: "limiter \<Rightarrow> bool" where
  "limiter_ok l \<longleftrightarrow> 1 \<le> lm_burst l \<and> lm_burst l \<le> 2 ^ 53 \<and> is_fin (lm_rate l) \<and> flt (Fin 0) (lm_rate l)
     \<and> list_all (\<lambda>(key, b). bucket_ok (lm_burst l) b) (lm_buckets l)"

lemma current_bucket_ok: "limiter_ok l \<Longrightarrow> bucket_ok (lm_burst l) (current_bucket l key (Fin now))"
proof -
  assume l: "limiter_ok l"
  show ?thesis
  proof (cases "dict_get (lm_buckets l) key")
    case None
    with l show ?thesis by (simp add: current_bucket_def limiter_ok_def burst_tokens_int bucket_ok_def)
  next
    case (Some b)
    with l dict_get_SomeD [OF Some] show ?thesis by (auto simp: current_bucket_def limiter_ok_def list_all_iff)
  qed
qed

lemma refill_parts:
  assumes "limiter_ok l" "current_bucket l key (Fin now) = \<lparr>bk_tokens = Fin t, bk_updated = Fin u\<rparr>"
  shows "nonneg (fmul (pymax (Fin 0) (fsub (Fin now) (Fin u))) (lm_rate l))"
    and "nonneg (fadd (Fin t) (fmul (pymax (Fin 0) (fsub (Fin now) (Fin u))) (lm_rate l)))" "0 \<le> t" "t \<le> of_int (lm_burst l)"
proof -
  obtain r where r: "lm_rate l = Fin r" "0 < r" using assms(1) by (cases "lm_rate l") (auto simp: limiter_ok_def)
  let ?e = "pymax (Fin 0) (fsub (Fin now) (Fin u))"
  have "nonneg ?e" by (rule nonneg_clip0)
  then show refill: "nonneg (fmul ?e (lm_rate l))"
    using r by (cases ?e) (auto simp: nonneg_to_float inf_sign_def)
  show t: "0 \<le> t" "t \<le> of_int (lm_burst l)" using current_bucket_ok [OF assms(1), of key now] assms(2) by (auto simp: bucket_ok_def)
  show "nonneg (fadd (Fin t) (fmul ?e (lm_rate l)))" using refill t by (intro nonneg_fadd) simp_all
qed

lemma refilled_ok:
  assumes "limiter_ok l"
  obtains t where "refilled l key (Fin now) = Fin t" "0 \<le> t" "t \<le> of_int (lm_burst l)"
proof -
  obtain t u where b: "current_bucket l key (Fin now) = \<lparr>bk_tokens = Fin t, bk_updated = Fin u\<rparr>"
    using current_bucket_ok [OF assms, of key now]
    by (cases "current_bucket l key (Fin now)") (auto simp: bucket_ok_def split: pyfloat.splits)
  have "burst_tokens l = Fin (of_int (lm_burst l))" "1 \<le> lm_burst l"
    using assms by (simp_all add: limiter_ok_def burst_tokens_int)
  moreover let ?x = "fadd (Fin t) (fmul (pymax (Fin 0) (fsub (Fin now) (Fin u))) (lm_rate l))"
  have "nonneg ?x" using refill_parts [OF assms b] by simp
  ultimately have "\<exists>t. refilled l key (Fin now) = Fin t \<and> 0 \<le> t \<and> t \<le> of_int (lm_burst l)"
    using b by (cases ?x) (auto simp: refilled_def pymin_def split: if_splits)
  then show thesis using that by blast
qed

lemma less_one_token:
  assumes "1 \<le> t" "t \<le> of_int n" "n \<le> 2 ^ 53"
  shows "\<exists>s. fsub (Fin t) (Fin 1) = Fin s \<and> 0 \<le> s \<and> s \<le> of_int n"
proof -
  have n: "0 \<le> n" using assms(1,2) by (metis of_int_0_le_iff order_trans zero_le_one)
  have "rnd64 (t - 1) \<le> of_int n" using rnd64_mono [of "t - 1" "of_int n"] assms n by (simp add: rnd64_int)
  then show ?thesis
    using to_float_small [of "t - 1" n] assms n rnd64_nonneg [of "t - 1"] by (simp add: fsub_def)
qed

lemma allow_ok: "limiter_ok l \<Longrightarrow> limiter_ok (snd (allow key (Fin now) l))"
proof -
  assume l: "limiter_ok l"
  obtain t where t: "refilled l key (Fin now) = Fin t" "0 \<le> t" "t \<le> of_int (lm_burst l)" using l by (rule refilled_ok)
  let ?left = "if fle (Fin 1) (Fin t) then fsub (Fin t) (Fin 1) else Fin t"
  have "bucket_ok (lm_burst l) \<lparr>bk_tokens = ?left, bk_updated = Fin now\<rparr>"
    using t l less_one_token [of t "lm_burst l"] by (auto simp: bucket_ok_def fle_def limiter_ok_def)
  moreover have "list_all P d \<Longrightarrow> P (k, v) \<Longrightarrow> list_all P (dict_set d k v)" for P :: "string \<times> bucket \<Rightarrow> bool" and d k v
    by (induction d) (auto simp: dict_set_def)
  ultimately show ?thesis using l by (simp add: limiter_ok_def allow_def Let_def t(1))
qed

lemma allow_all_ok: "limiter_ok l \<Longrightarrow> limiter_ok (snd (allow_all (map (\<lambda>(key, now). (key, Fin now)) calls) l))"
proof (induction calls arbitrary: l)
  case (Cons call calls)
  obtain key now where call: "call = (key, now)" by fastforce
  obtain b l' where step: "allow key (Fin now) l = (b, l')" by fastforce
  then have "limiter_ok l'" using allow_ok [OF Cons.prems, of key now] by simp
  from Cons.IH [OF this] show ?case by (auto simp: call step case_prod_beta)
qed simp

lemma readmitted:
  assumes "limiter_ok l" "current_bucket l key (Fin now) = \<lparr>bk_tokens = Fin t, bk_updated = Fin u\<rparr>"
    and "fle (Fin 1) (fmul (pymax (Fin 0) (fsub (Fin now) (Fin u))) (lm_rate l))"
  shows "fst (allow key (Fin now) l)"
proof -
  let ?x = "fmul (pymax (Fin 0) (fsub (Fin now) (Fin u))) (lm_rate l)"
  have burst: "burst_tokens l = Fin (of_int (lm_burst l))" "1 \<le> lm_burst l"
    using assms(1) by (simp_all add: limiter_ok_def burst_tokens_int)
  have "fle (Fin 1) (fadd (Fin t) ?x)"
  proof (cases ?x)
    case (Fin x)
    with assms(3) refill_parts(3) [OF assms(1,2)] have "1 \<le> t + x" by (auto simp: fle_def)
    then have "1 \<le> rnd64 (t + x)" using rnd64_mono [of 1 "t + x"] by simp
    then show ?thesis using Fin by (auto simp: to_float_def fle_def Let_def)
  qed (use assms(3) in \<open>auto simp: fle_def\<close>)
  then show ?thesis using burst assms(2) by (auto simp: allow_def refilled_def Let_def pymin_def fle_def)
qed

text \<open>C32: whatever calls are made, every bucket stays between no token and the burst; and a caller whose bucket has
  been refilled by a token since its last call is let through.\<close>

theorem limiter_invariant:
  assumes "new_limiter burst rate = Inr l0" "burst \<le> 2 ^ 53" "is_fin rate"
    and "l = snd (allow_all (map (\<lambda>(key, now). (key, Fin now)) calls) l0)"
  shows "list_all (\<lambda>(key, b). bucket_ok burst b) (lm_buckets l)
    \<and> (dict_get (lm_buckets l) key = Some b
       \<and> fle (Fin 1) (fmul (pymax (Fin 0) (fsub (Fin now) (bk_updated b))) rate) \<longrightarrow> fst (allow key (Fin now) l))"
proof -
  have "limiter_ok l0" and l0: "lm_burst l0 = burst" "lm_rate l0 = rate"
    using assms(1-3) by (cases rate, auto simp: new_limiter_def limiter_ok_def fle_def split: if_splits)
  then have ok: "limiter_ok l" using allow_all_ok assms(4) by simp
  have same: "lm_burst (snd (allow_all cs k)) = lm_burst k \<and> lm_rate (snd (allow_all cs k)) = lm_rate k" for cs k
    by (induction cs k rule: allow_all.induct) (auto simp: allow_def Let_def split: prod.splits)
  have "lm_burst l = burst" "lm_rate l = rate" using same assms(4) l0 by simp_all
  moreover have "fst (allow key (Fin now) l)"
    if "dict_get (lm_buckets l) key = Some b" "fle (Fin 1) (fmul (pymax (Fin 0) (fsub (Fin now) (bk_updated b))) rate)"
  proof -
    have b: "current_bucket l key (Fin now) = b" using that(1) by (simp add: current_bucket_def)
    then obtain t u where "b = \<lparr>bk_tokens = Fin t, bk_updated = Fin u\<rparr>"
      using current_bucket_ok [OF ok, of key now] by (cases b) (auto simp: bucket_ok_def split: pyfloat.splits)
    with readmitted [OF ok] b that(2) \<open>lm_rate l = rate\<close> show ?thesis by auto
  qed
  ultimately show ?thesis using ok by (auto simp: limiter_ok_def)
qed

theorem limiter_invariant_witness:
  "\<exists>l. new_limiter 1 (Fin 1) = Inr l
     \<and> fst (allow ''5V'' (Fin 4) (snd (allow_all (map (\<lambda>(key, now). (key, Fin now)) [(''5V'', 2), (''5V'', 3)]) l)))"
proof -
  let ?l = "\<lparr>lm_burst = 1, lm_rate = Fin 1, lm_buckets = []\<rparr>" and ?b = "\<lparr>bk_tokens = Fin 0, bk_updated = Fin 3\<rparr>"
  let ?calls = "[(''5V'', 2), (''5V'', 3)] :: (string \<times> rat) list"
  have new: "new_limiter 1 (Fin 1) = Inr ?l" by code_simp
  have "dict_get (lm_buckets (snd (allow_all (map (\<lambda>(key, now). (key, Fin now)) ?calls) ?l))) ''5V'' = Some ?b" by code_simp
  moreover have "fle (Fin 1) (fmul (pymax (Fin 0) (fsub (Fin 4) (bk_updated ?b))) (Fin 1))" by code_simp
  moreover have "(1 :: int) \<le> 2 ^ 53" "is_fin (Fin 1)" by simp_all
  ultimately have "fst (allow ''5V'' (Fin 4) (snd (allow_all (map (\<lambda>(key, now). (key, Fin now)) ?calls) ?l)))"
    using limiter_invariant [OF new _ _ refl, of ?calls "''5V''" ?b 4] by blast
  with new show ?thesis by blast
qed

section \<open>What reaches the application\<close>

text \<open>The body as a whole: the pieces up to the first that is the last one, if it comes before a disconnect.\<close>

fun request_chunks :: "asgi_message list \<Rightarrow> bytes list option" where
  "request_chunks [] = None"
| "request_chunks (Disconnect # ms) = None"
| "request_chunks (Other_message # ms) = request_chunks ms"
| "request_chunks (Body_part chunk continues # ms) =
     (if continues then map_option ((#) chunk) (request_chunks ms) else Some [chunk])"

lemma receive_body_bound: "int (length body) \<le> cap \<Longrightarrow> int (length (snd (receive_body cap ms body))) \<le> cap"
  by (induction cap ms body rule: receive_body.induct) auto

lemma receive_body_Forwarded:
  "fst (receive_body cap ms body) = Forwarded b \<longleftrightarrow>
     (\<exists>cs. request_chunks ms = Some cs \<and> b = body @ concat cs \<and> int (length b) \<le> cap)"
  by (induction cap ms body rule: receive_body.induct) auto

lemma admit_Forwarded:
  "fst (admit scope ms now a) = Forwarded body \<longleftrightarrow>
     sp_type scope = ''http'' \<and> fst (allow (source_ip scope) now (ad_limiter a))
     \<and> check_declared (ad_max_bytes a) scope = Inr ()
     \<and> (\<exists>cs. request_chunks ms = Some cs \<and> body = concat cs \<and> int (length body) \<le> ad_max_bytes a)"
  using receive_body_Forwarded [of "ad_max_bytes a" ms "[]" body]
  by (auto simp: admit_def split: prod.splits bool.splits sum.splits)

lemma check_declared_Inr:
  "check_declared cap scope = Inr u \<longleftrightarrow>
     (case dict_get (header_dict (sp_headers scope)) ''content-length'' of
        None \<Rightarrow> True
      | Some b \<Rightarrow> (case int_of_bytes b of None \<Rightarrow> False | Some declared \<Rightarrow> declared \<le> cap))"
  by (auto simp: check_declared_def split: option.splits)

text \<open>C27: the body that is kept never exceeds the cap; a request reaches the application with a body exactly when it
  is HTTP, its source has a token, the length it declares (if any) is a number within the cap, and its pieces
  are complete before a disconnect and within the cap together; the body is then their concatenation, and
  the application receives it once.\<close>

theorem admission_bounds:
  assumes "0 \<le> ad_max_bytes a"
  shows "int (length (snd (receive_body (ad_max_bytes a) ms []))) \<le> ad_max_bytes a
    \<and> (fst (admit scope ms now a) = Forwarded body \<longleftrightarrow>
         sp_type scope = ''http'' \<and> fst (allow (source_ip scope) now (ad_limiter a))
         \<and> (case dict_get (header_dict (sp_headers scope)) ''content-length'' of
              None \<Rightarrow> True
            | Some b \<Rightarrow> (case int_of_bytes b of None \<Rightarrow> False | Some declared \<Rightarrow> declared \<le> ad_max_bytes a))
         \<and> (\<exists>cs. request_chunks ms = Some cs \<and> body = concat cs \<and> int (length body) \<le> ad_max_bytes a))
    \<and> replay_receive body False = (Body_part body False, True) \<and> replay_receive body True = (Body_part [] False, True)"
  using assms receive_body_bound [of "[]" "ad_max_bytes a" ms] admit_Forwarded check_declared_Inr
  by (simp add: replay_receive_def)

definition sample_scope :: http_scope where
  "sample_scope = \<lparr>sp_type = ''http'', sp_client = Some ''203.0.113.9'', sp_headers = [(''Content-Length'', ''4'')]\<rparr>"

definition sample_admitter :: admitter where
  "sample_admitter = \<lparr>ad_max_bytes = 8, ad_limiter = \<lparr>lm_burst = 20, lm_rate = Fin 1, lm_buckets = []\<rparr>\<rparr>"

theorem admission_bounds_witness:
  "fst (admit sample_scope [Body_part ''ab'' True, Other_message, Body_part ''cd'' False] (Fin 0) sample_admitter) = Forwarded ''abcd''"
proof -
  have "fst (allow (source_ip sample_scope) (Fin 0) (ad_limiter sample_admitter))" by code_simp
  moreover have "dict_get (header_dict (sp_headers sample_scope)) ''content-length'' = Some ''4''" by code_simp
  moreover have "int_of_bytes ''4'' = Some 4" by code_simp
  ultimately show ?thesis
    using admission_bounds [of sample_admitter "[Body_part ''ab'' True, Other_message, Body_part ''cd'' False]" sample_scope "Fin 0" "''abcd''"]
    by (simp add: sample_admitter_def sample_scope_def)
qed

text \<open>However often an axon is attached, one admission stands before its application.\<close>

lemma attached_once:
  assumes "attach_miner_axon ax = Inr ax1" "attach_miner_axon ax1 = Inr ax2"
  shows "mx_middleware ax2 = mx_middleware ax1"
    and "mx_app ax \<Longrightarrow> \<not> mx_installed ax \<Longrightarrow>
      \<exists>m. mx_middleware ax1 = mx_middleware ax @ [m] \<and> ad_max_bytes m = max_request_body_bytes"
  using assms by (auto simp: attach_miner_axon_def install_request_admission_def new_admitter_def split: if_splits)

section \<open>Replays\<close>

text \<open>The requests of a process, in the order they are verified.\<close>

fun verify_all :: "int \<Rightarrow> (request_context \<times> signed_request) list \<Rightarrow> verifier \<Rightarrow> verifier" where
  "verify_all min_version [] v = v"
| "verify_all min_version ((c, q) # qs) v = verify_all min_version qs (snd (verify_request min_version c q v))"

definition remembers :: "request_identity \<Rightarrow> pyfloat \<Rightarrow> verifier \<Rightarrow> bool" where
  "remembers i accepted_at v \<longleftrightarrow> i \<in> set (dict_keys (vr_accepted v)) \<and> (\<forall>t. (i, t) \<in> set (vr_accepted v) \<longrightarrow> t = accepted_at)"

definition age_limit :: "pyfloat \<Rightarrow> pyfloat" where
  "age_limit now = fsub now (Fin 30)"

lemma set_fold_pop: "set (fold (\<lambda>k d. dict_pop d k) ks d) = {kv \<in> set d. fst kv \<notin> set ks}"
  by (induction ks arbitrary: d) (auto simp: dict_pop_def)

lemma set_retained:
  "set (retained now d) = {kv \<in> set d. \<not> (\<exists>t. (fst kv, t) \<in> set d \<and> flt t (age_limit now))}"
proof -
  have "to_float 30000000000 = Fin 30000000000" "to_float 1000000000 = Fin 1000000000"
    using int_float [of 30000000000] int_float [of 1000000000] by simp_all
  moreover have "to_float 30 = Fin 30" using int_float [of 30] by simp
  ultimately show ?thesis
    by (force simp: retained_def set_fold_pop age_limit_def max_request_age_ns_def)
qed

lemma remembers_retained:
  assumes "remembers i t v" "\<not> flt t (age_limit now)"
  shows "remembers i t (v\<lparr>vr_accepted := retained now (vr_accepted v)\<rparr>)"
  using assms by (force simp: remembers_def set_retained dict_keys_def)

lemma remembers_set:
  assumes "remembers i t v" "j \<noteq> i"
  shows "remembers i t (v\<lparr>vr_accepted := dict_set (vr_accepted v) j u\<rparr>)"
proof -
  have "(i, w) \<in> set (AList.update j u d) \<longleftrightarrow> (i, w) \<in> set d" for w and d :: "(request_identity, pyfloat) dict"
    using assms(2) by (induction d) auto
  moreover have "i \<in> fst ` set (AList.update j u d) \<longleftrightarrow> i \<in> fst ` set d" for d :: "(request_identity, pyfloat) dict"
    using assms(2) by (simp add: dom_update)
  ultimately show ?thesis using assms(1) by (simp add: remembers_def dict_set_def dict_keys_def)
qed

text \<open>A verification by cases: an early error changes nothing, a refusal of the limiter only the limiter.\<close>

lemma verify_request_cases:
  assumes "verify_request min_version c q v = (r, v')"
  obtains (early) e where "r = Inl e" "v' = v"
  | (rate) e l where "r = Inl e" "v' = v\<lparr>vr_limiter := l\<rparr>"
  | (cache) i l where "request_policy min_version (rc_now_ns c) q = Inr i" "rc_sdk c = Inr ()"
      "allow (fst i) (rc_monotonic c) (vr_limiter v) = (True, l)"
      "i \<in> set (dict_keys (retained (rc_monotonic c) (vr_accepted v)))" "r = Inl (value_error ''authenticated request replayed'')"
      "v' = v\<lparr>vr_limiter := l, vr_accepted := retained (rc_monotonic c) (vr_accepted v)\<rparr>"
  | (accepted) i l where "request_policy min_version (rc_now_ns c) q = Inr i" "rc_sdk c = Inr ()"
      "allow (fst i) (rc_monotonic c) (vr_limiter v) = (True, l)"
      "i \<notin> set (dict_keys (retained (rc_monotonic c) (vr_accepted v)))" "r = Inr ()"
      "v' = v\<lparr>vr_limiter := l, vr_accepted := dict_set (retained (rc_monotonic c) (vr_accepted v)) i (rc_monotonic c)\<rparr>"
proof (cases "request_policy min_version (rc_now_ns c) q")
  case (Inl e)
  with assms show thesis by (intro early [of e]) (auto simp: verify_request_def op_plumbing)
next
  case (Inr i)
  show thesis
  proof (cases "rc_sdk c")
    case (Inl e)
    with Inr assms show thesis by (intro early [of e]) (auto simp: verify_request_def op_plumbing)
  next
    case sdk: (Inr u)
    obtain b l where a: "allow (fst i) (rc_monotonic c) (vr_limiter v) = (b, l)" by fastforce
    show thesis
    proof (cases b)
      case False
      with Inr sdk a assms show thesis by (intro rate [of _ l]) (auto simp: verify_request_def op_plumbing)
    next
      case True
      show thesis
      proof (cases "i \<in> set (dict_keys (retained (rc_monotonic c) (vr_accepted v)))")
        case mem: True
        with Inr sdk a True assms show thesis by (intro cache [of i l]) (auto simp: verify_request_def op_plumbing)
      next
        case False
        with Inr sdk a True assms show thesis by (intro accepted [of i l]) (auto simp: verify_request_def op_plumbing)
      qed
    qed
  qed
qed

lemma verify_remembers:
  assumes "verify_request min_version c q v = (r, v')" "remembers i t v" "\<not> flt t (age_limit (rc_monotonic c))"
  shows "remembers i t v'"
  using assms(1)
proof (cases rule: verify_request_cases)
  case (rate e l)
  then show ?thesis using assms(2) by (simp add: remembers_def)
next
  case (cache j l)
  then show ?thesis using remembers_retained [OF assms(2,3)] by (simp add: remembers_def)
next
  case (accepted j l)
  have kept: "remembers i t (v\<lparr>vr_accepted := retained (rc_monotonic c) (vr_accepted v)\<rparr>)"
    using assms(2,3) by (rule remembers_retained)
  with accepted(4) have "j \<noteq> i" by (auto simp: remembers_def)
  from remembers_set [OF kept this, of "rc_monotonic c"] accepted(6) show ?thesis by (simp add: remembers_def)
qed (use assms(2) in simp)

lemma accepted_remembers:
  assumes "verify_request min_version c q v = (Inr (), v')"
  obtains i where "request_policy min_version (rc_now_ns c) q = Inr i" "remembers i (rc_monotonic c) v'"
  using assms
proof (cases rule: verify_request_cases)
  case (accepted i l)
  have "i \<notin> fst ` set d \<Longrightarrow> AList.update i u d = d @ [(i, u)]" for d :: "(request_identity, pyfloat) dict" and u
    by (induction d) auto
  then have "remembers i (rc_monotonic c) v'"
    using accepted(4,6) by (auto simp: remembers_def dict_set_def dict_keys_def rev_image_eqI)
  with accepted(1) show thesis by (rule that)
qed simp_all

lemma history_remembers:
  "remembers i t v \<Longrightarrow> list_all (\<lambda>(c, q). \<not> flt t (age_limit (rc_monotonic c))) history \<Longrightarrow>
   remembers i t (verify_all min_version history v)"
proof (induction history arbitrary: v)
  case (Cons cq history)
  obtain c q where cq: "cq = (c, q)" by fastforce
  obtain r v' where run: "verify_request min_version c q v = (r, v')" by fastforce
  with Cons.prems cq have "remembers i t v'" by (auto intro: verify_remembers)
  with Cons.IH [of v'] Cons.prems cq run show ?case by simp
qed simp

text \<open>What passes the checks before the SDK's.\<close>

lemma request_policy_Inr:
  "request_policy min_version now_ns q = Inr (hotkey, request_uuid, nonce) \<Longrightarrow>
   \<exists>t ver timeout. rq_terminal q = Some t \<and> rh_hotkey t = Some hotkey \<and> rh_uuid t = Some request_uuid
     \<and> rh_nonce t = Some nonce \<and> rh_version t = Some ver \<and> rq_timeout q = Some timeout
     \<and> hotkey \<noteq> [] \<and> request_uuid \<noteq> [] \<and> length request_uuid \<le> 128 \<and> min_version \<le> ver
     \<and> flt (Fin 0) timeout \<and> fle timeout (Fin 30)
     \<and> nonce - 5000000000 \<le> now_ns \<and> now_ns \<le> nonce + 30000000000"
  by (auto simp: request_policy_def Let_def request_metadata_def or_empty_def max_request_age_ns_def
      max_request_future_skew_ns_def max_request_timeout_seconds_def split: option.splits)

text \<open>The identity depends on the terminal only.\<close>

lemma request_policy_identity:
  "request_policy min_version n q = Inr i \<Longrightarrow> request_policy min_version n' q' = Inr i' \<Longrightarrow>
   rq_terminal q' = rq_terminal q \<Longrightarrow> i' = i"
  using request_policy_Inr [of min_version n q] request_policy_Inr [of min_version n' q'] by (cases i; cases i') fastforce

lemma accepted_request:
  assumes "verify_request min_version c q v = (Inr (), v')"
  shows "\<exists>hotkey request_uuid nonce t ver timeout.
      rq_terminal q = Some t \<and> rh_hotkey t = Some hotkey \<and> rh_uuid t = Some request_uuid
      \<and> rh_nonce t = Some nonce \<and> rh_version t = Some ver \<and> rq_timeout q = Some timeout
      \<and> hotkey \<noteq> [] \<and> request_uuid \<noteq> [] \<and> length request_uuid \<le> 128 \<and> min_version \<le> ver
      \<and> flt (Fin 0) timeout \<and> fle timeout (Fin 30) \<and> nonce - 5000000000 \<le> rc_now_ns c \<and> rc_now_ns c \<le> nonce + 30000000000
      \<and> rc_sdk c = Inr () \<and> fst (allow hotkey (rc_monotonic c) (vr_limiter v))"
proof -
  obtain i where i: "request_policy min_version (rc_now_ns c) q = Inr i" using assms by (rule accepted_remembers)
  obtain hotkey request_uuid nonce where i_eq: "i = (hotkey, request_uuid, nonce)" by (cases i)
  have "rc_sdk c = Inr () \<and> fst (allow hotkey (rc_monotonic c) (vr_limiter v))"
    using assms by (cases rule: verify_request_cases) (use i i_eq in auto)
  with request_policy_Inr [OF i [unfolded i_eq]] show ?thesis by blast
qed

text \<open>A terminal that has been accepted is refused for as long as it is remembered.\<close>

lemma accepted_then_refused:
  assumes "verify_request min_version c q v = (Inr (), v')"
    and "list_all (\<lambda>(d, p). \<not> flt (rc_monotonic c) (age_limit (rc_monotonic d))) (history @ [(d, q')])"
    and "rq_terminal q' = rq_terminal q"
  shows "\<exists>e. fst (verify_request min_version d q' (verify_all min_version history v')) = Inl e"
proof -
  obtain i where i: "request_policy min_version (rc_now_ns c) q = Inr i" and mem: "remembers i (rc_monotonic c) v'"
    using assms(1) by (rule accepted_remembers)
  let ?w = "verify_all min_version history v'"
  have w: "remembers i (rc_monotonic c) ?w" using mem assms(2) by (intro history_remembers) simp_all
  obtain r w' where run: "verify_request min_version d q' ?w = (r, w')" by fastforce
  from run have "r \<noteq> Inr ()"
  proof (cases rule: verify_request_cases)
    case (accepted j l)
    then have "j = i" using request_policy_identity [OF i _ assms(3)] by blast
    with accepted(4) remembers_retained [OF w, of "rc_monotonic d"] assms(2) show ?thesis by (simp add: remembers_def)
  qed simp_all
  with run show "\<exists>e. fst (verify_request min_version d q' ?w) = Inl e" by (cases r) auto
qed

text \<open>C13: an accepted request carries a hotkey, a uuid of at most 128 characters, a supported version, a timeout of at
  most 30 seconds and a nonce at most 30 seconds old and at most 5 seconds ahead of the clock, the SDK has verified it,
  and it has taken a token of its hotkey; after it, whatever requests come in between, a request
  with the same terminal is refused as long as no verification has run more than 30 seconds of the monotonic clock
  after the acceptance.\<close>

theorem replays_are_refused:
  assumes "verify_request min_version c q v = (Inr (), v')"
    and "list_all (\<lambda>(d, p). \<not> flt (rc_monotonic c) (age_limit (rc_monotonic d))) (history @ [(d, q')])"
    and "rq_terminal q' = rq_terminal q"
  shows "(\<exists>hotkey request_uuid nonce t ver timeout.
      rq_terminal q = Some t \<and> rh_hotkey t = Some hotkey \<and> rh_uuid t = Some request_uuid
      \<and> rh_nonce t = Some nonce \<and> rh_version t = Some ver \<and> rq_timeout q = Some timeout
      \<and> hotkey \<noteq> [] \<and> request_uuid \<noteq> [] \<and> length request_uuid \<le> 128 \<and> min_version \<le> ver
      \<and> flt (Fin 0) timeout \<and> fle timeout (Fin 30) \<and> nonce - 5000000000 \<le> rc_now_ns c \<and> rc_now_ns c \<le> nonce + 30000000000
      \<and> rc_sdk c = Inr () \<and> fst (allow hotkey (rc_monotonic c) (vr_limiter v)))
    \<and> (\<exists>e. fst (verify_request min_version d q' (verify_all min_version history v')) = Inl e)"
  using accepted_request [OF assms(1)] accepted_then_refused [OF assms] by blast

definition sample_request :: signed_request where
  "sample_request =
     \<lparr>rq_terminal = Some \<lparr>rh_hotkey = Some ''5V'', rh_uuid = Some ''u'', rh_nonce = Some 1000, rh_version = Some 7002000\<rparr>,
      rq_timeout = Some (Fin 12)\<rparr>"

definition sample_context :: "rat \<Rightarrow> request_context" where
  "sample_context now = \<lparr>rc_now_ns = 2000, rc_monotonic = Fin now, rc_sdk = Inr ()\<rparr>"

definition sample_verifier :: verifier where
  "sample_verifier = \<lparr>vr_limiter = \<lparr>lm_burst = 6, lm_rate = lit (2 / 10), lm_buckets = []\<rparr>, vr_accepted = []\<rparr>"

lemma sample_verified: "fst (verify_request 7002000 (sample_context 100) sample_request sample_verifier) = Inr ()"
  by code_simp

theorem replays_are_refused_witness:
  "\<exists>e. fst (verify_request 7002000 (sample_context 130) sample_request
     (snd (verify_request 7002000 (sample_context 100) sample_request sample_verifier))) = Inl e"
proof -
  let ?r = "verify_request 7002000 (sample_context 100) sample_request sample_verifier"
  have "?r = (Inr (), snd ?r)" using sample_verified by (cases ?r) simp
  moreover have "\<not> flt (rc_monotonic (sample_context 100)) (age_limit (rc_monotonic (sample_context 130)))" by code_simp
  ultimately show ?thesis using replays_are_refused [of 7002000 "sample_context 100" sample_request _ _ "[]"] by force
qed

end
