(* ===== verification/Miner.thy ===== *)
theory Miner
  imports Miner_Limits "HOL-Library.While_Combinator"
begin

text \<open>
  The miner of \<open>src/dolores_subnet/miner_cli.py\<close>: the task packages it loads, the response it signs,
  the guards of serving and publishing its axon, and the registration command.  The engine's loader and proposer,
  the file tree, the SDK and the processes that are started are arguments.  What is printed is left out.
\<close>

section \<open>Task packages\<close>

datatype miner_error =
    Miner_raised exn
  | Holdout_refused holdout_error
  | Wire_refused wire_error
  | Endpoint_rejected endpoint_error
  | Network_rejected config_error
  | Response_refused response_error

abbreviation refuse :: "string \<Rightarrow> miner_error" where
  "refuse text \<equiv> Miner_raised (value_error text)"

abbreviation fault :: "string \<Rightarrow> miner_error" where
  "fault text \<equiv> Miner_raised (runtime_error text)"

text \<open>The file tree as the loader sees it: resolved paths, packages, directories and their entries.\<close>

record task_tree =
  tt_resolve :: "string \<Rightarrow> string"
  tt_load :: "string \<Rightarrow> exn + engine_task"
  tt_is_dir :: "string \<Rightarrow> bool"
  tt_entries :: "string \<Rightarrow> string list"

fun loaded_packages :: "(string \<Rightarrow> exn + engine_task) \<Rightarrow> string list \<Rightarrow> engine_task list" where
  "loaded_packages load [] = []"
| "loaded_packages load (p # ps) =
     (case load p of Inl _ \<Rightarrow> loaded_packages load ps | Inr t \<Rightarrow> t # loaded_packages load ps)"

definition load_root :: "task_tree \<Rightarrow> string \<Rightarrow> miner_error + engine_task list" where
  "load_root tt dir =
     (let source = tt_resolve tt dir in
      case tt_load tt source of
        Inr t \<Rightarrow> Inr [t]
      | Inl _ \<Rightarrow>
          if \<not> tt_is_dir tt source
          then Inl (refuse (''task path does not exist or is not a package: '' @ source))
          else
            let found = loaded_packages (tt_load tt) (sort (filter (tt_is_dir tt) (tt_entries tt source))) in
            if found = [] then Inl (refuse (''no task packages found under: '' @ source)) else Inr found)"

definition load_tasks :: "task_tree \<Rightarrow> string list \<Rightarrow> miner_error + engine_task list" where
  "load_tasks tt roots =
     bind_result (map_result (load_root tt) roots) (\<lambda>found.
     if concat found = [] then Inl (refuse ''at least one task package is required'') else Inr (concat found))"

definition file_submissions :: "'b env \<Rightarrow> task_tree \<Rightarrow> string list \<Rightarrow> int \<Rightarrow> miner_error + jdict list" where
  "file_submissions env tt roots quota =
     bind_result (load_tasks tt roots) (\<lambda>tasks.
     map_error Wire_refused (map_result (to_wire env max_package_bytes_const) (py_prefix quota tasks)))"

text \<open>The engine's proposer, its copy of a task under another id, and the fixture of a task that fails.\<close>

record task_source =
  ts_propose :: "string \<Rightarrow> int \<Rightarrow> int \<Rightarrow> exn + engine_task list"
  ts_with_id :: "string \<Rightarrow> engine_task \<Rightarrow> engine_task"
  ts_fixture :: "exn + engine_task"

definition generated_tasks :: "task_source \<Rightarrow> int \<Rightarrow> int \<Rightarrow> miner_error + engine_task list" where
  "generated_tasks ts number seed =
     bind_result (map_error Miner_raised (ts_propose ts ''parser_roundtrip'' number seed)) (\<lambda>tasks.
     Inr (map (\<lambda>(i, t). ts_with_id ts (''honest_'' @ show_int seed @ ''_'' @ show_int (int i) @ ''_'' @ et_id t) t)
            (zip [0..<length tasks] tasks)))"

definition invalid_tasks :: "task_source \<Rightarrow> int \<Rightarrow> int \<Rightarrow> miner_error + engine_task list" where
  "invalid_tasks ts number seed =
     bind_result (map_error Miner_raised (ts_fixture ts)) (\<lambda>base.
     Inr (map (\<lambda>i. ts_with_id ts (''invalid_reference_'' @ show_int seed @ ''_'' @ show_int (int i)) base) [0..<nat number]))"

definition offline_submissions ::
  "'b env \<Rightarrow> task_source \<Rightarrow> string \<Rightarrow> int \<Rightarrow> int \<Rightarrow> miner_error + jdict list" where
  "offline_submissions env ts persona seed quota =
     bind_result
       (if persona = ''honest'' then generated_tasks ts quota seed
        else if persona = ''duplicate_spammer'' then
          bind_result (generated_tasks ts 1 (seed + 10000)) (\<lambda>tasks.
          bind_result (map_error Miner_raised (py_nth tasks 0)) (\<lambda>base.
          Inr (map (\<lambda>i. ts_with_id ts (''duplicate_spam_'' @ show_int seed @ ''_'' @ show_int (int i)) base) [0..<nat quota])))
        else if persona = ''invalid'' then invalid_tasks ts (max 1 quota) seed
        else if persona = ''lazy'' then (if 0 < quota then generated_tasks ts 1 seed else Inr [])
        else Inl (refuse (''unknown offline miner persona: '' @ persona)))
       (\<lambda>tasks. map_error Wire_refused (map_result (to_wire env max_package_bytes_const) tasks))"

section \<open>The response\<close>

text \<open>The loop that drops submissions until the response fits, \<open>None\<close> were it not to end.\<close>

definition trim_response :: "'b env \<Rightarrow> int \<Rightarrow> jdict list \<Rightarrow> jdict list option" where
  "trim_response env cap submissions =
     while_option (\<lambda>s. s \<noteq> [] \<and> cap < response_payload_size env s) butlast submissions"

definition forward ::
  "'b env \<Rightarrow> wire_keys \<Rightarrow> string \<Rightarrow> task_tree \<Rightarrow> string list \<Rightarrow> int \<Rightarrow> task_synapse \<Rightarrow> (miner_error + task_synapse) option" where
  "forward env ks address tt roots quota synapse =
     (case file_submissions env tt roots (min quota (sy_quota synapse)) of
        Inl e \<Rightarrow> Some (Inl e)
      | Inr submissions \<Rightarrow>
          map_option (\<lambda>kept. map_error Response_refused
              (sign_response env ks address (synapse\<lparr>sy_submissions := kept, sy_error := []\<rparr>)))
            (trim_response env max_response_bytes_const submissions))"

section \<open>Publishing the axon\<close>

record serve_args =
  sv_validator_hotkeys :: "string list"
  sv_allow_any :: bool
  sv_publish :: bool
  sv_quota :: int
  sv_roots :: "string list"
  sv_host :: string
  sv_port :: int
  sv_external_ip :: "string option"
  sv_external_port :: "int option"
  sv_network :: "string option"
  sv_netuid :: "int option"

text \<open>The SDK of a miner: connecting, serving the axon (success and message), the reads of the metagraph.\<close>

record axon_sdk =
  as_connect :: "string \<Rightarrow> exn + unit"
  as_serve :: "exn + bool \<times> string"
  as_metagraph :: "nat \<Rightarrow> exn + metagraph"
  as_start :: "exn + unit"

text \<open>The world: whether the axon runs, the extrinsics with their network and subnet, and the reads of the metagraph.\<close>

record miner_world =
  mw_running :: bool
  mw_served :: "(string \<times> int) list"
  mw_reads :: nat

type_synonym 'a miner_op = "(miner_world, miner_error, 'a) op"

text \<open>The readback: up to \<open>n\<close> more reads, until one shows the exact endpoint.\<close>

fun read_back :: "axon_sdk \<Rightarrow> string \<Rightarrow> string \<Rightarrow> int \<Rightarrow> nat \<Rightarrow> bool miner_op" where
  "read_back sdk hotkey host port 0 = return_op False"
| "read_back sdk hotkey host port (Suc n) =
     bind_op get_op (\<lambda>w.
     bind_op (lift_op (map_error Miner_raised (as_metagraph sdk (mw_reads w)))) (\<lambda>mg.
     bind_op (modify_op (\<lambda>w. w\<lparr>mw_reads := Suc (mw_reads w)\<rparr>)) (\<lambda>_.
     if metagraph_has_exact_axon mg hotkey host port then return_op True
     else read_back sdk hotkey host port n)))"

definition readback_attempts :: nat where
  "readback_attempts = 6"

definition or_port :: "int option \<Rightarrow> int \<Rightarrow> int" where
  "or_port external port = (case external of None \<Rightarrow> port | Some p \<Rightarrow> if p = 0 then port else p)"

text \<open>What is checked before the SDK is reached: the network, the public address and the port.\<close>

definition publish_target :: "serve_args \<Rightarrow> miner_error + string \<times> int \<times> string \<times> int" where
  "publish_target a =
     (case (sv_network a, sv_netuid a) of
        (Some net, Some uid) \<Rightarrow>
          bind_result (map_error Network_rejected (assert_safe_network (Some net))) (\<lambda>safe.
          bind_result (map_error Endpoint_rejected (require_cohort_target safe uid)) (\<lambda>_.
          bind_result (require (sv_host a = ''0.0.0.0'') (refuse ''public --publish requires --host 0.0.0.0'')) (\<lambda>_.
          bind_result (case or_text (sv_external_ip a) None of
              None \<Rightarrow> Inl (refuse ''public --publish requires an explicit --external-ip'')
            | Some ip \<Rightarrow> map_error Endpoint_rejected (require_public_ipv4 ip)) (\<lambda>ip.
          bind_result (map_error Endpoint_rejected (require_port (JInt (or_port (sv_external_port a) (sv_port a))))) (\<lambda>port.
          Inr (safe, uid, ip, port))))))
      | _ \<Rightarrow> Inl (refuse ''public --publish requires explicit --network test --netuid 523''))"

definition publish_axon :: "axon_sdk \<Rightarrow> string \<Rightarrow> serve_args \<Rightarrow> unit miner_op" where
  "publish_axon sdk hotkey a =
     (if \<not> sv_publish a then return_op ()
      else
        bind_op (lift_op (publish_target a)) (\<lambda>(net, uid, ip, port).
        bind_op (lift_op (map_error Miner_raised (as_connect sdk net))) (\<lambda>_.
        bind_op (modify_op (\<lambda>w. w\<lparr>mw_served := mw_served w @ [(net, uid)]\<rparr>)) (\<lambda>_.
        bind_op (lift_op (map_error Miner_raised (as_serve sdk))) (\<lambda>(success, message).
        bind_op (guard_op success (fault (''testnet axon publication failed: '' @ first_text message ''unknown error''))) (\<lambda>_.
        bind_op (read_back sdk hotkey ip port readback_attempts) (\<lambda>exact.
        guard_op exact (fault (''testnet axon publication did not read back exact '' @ ip @ '':'' @ show_int port
          @ '' for the miner hotkey'')))))))))"

section \<open>Serving\<close>

text \<open>The checks before the wallet is opened.\<close>

definition serve_guards :: "serve_args \<Rightarrow> miner_error + int" where
  "serve_guards a =
     bind_result (require (\<not> (sv_validator_hotkeys a = [] \<and> \<not> sv_allow_any a))
       (refuse ''serve requires --validator-hotkey; --allow-any-signed-validator is local-only'')) (\<lambda>_.
     bind_result (require (\<not> (sv_publish a \<and> sv_allow_any a))
       (refuse ''public --publish forbids --allow-any-signed-validator'')) (\<lambda>_.
     bind_result (require (1 \<le> sv_quota a \<and> sv_quota a \<le> 4) (refuse ''quota must be within 1..4'')) (\<lambda>_.
     bind_result (map_error Endpoint_rejected (require_port (JInt (sv_port a)))) (\<lambda>_. Inr (sv_quota a)))))"

text \<open>Every package is supported by the holdout and fits on the wire.\<close>

definition check_package :: "'b env \<Rightarrow> 'r holdout_env \<Rightarrow> engine_task \<Rightarrow> miner_error + unit" where
  "check_package env he t =
     bind_result (map_error Holdout_refused (validate_holdout_support he t)) (\<lambda>_.
     bind_result (map_error Wire_refused (to_wire env max_package_bytes_const t)) (\<lambda>_. Inr ()))"

text \<open>
  Serving until the interrupt.  An error of the publication stops the axon; so does the interrupt; the
  line that reports the start loads the tasks once more.
\<close>

definition stop_axon :: "unit miner_op" where
  "stop_axon = modify_op (\<lambda>w. w\<lparr>mw_running := False\<rparr>)"

definition serve_command ::
  "'b env \<Rightarrow> 'r holdout_env \<Rightarrow> task_tree \<Rightarrow> axon_sdk \<Rightarrow> exn + string \<Rightarrow> serve_args \<Rightarrow> int miner_op" where
  "serve_command env he tt sdk wallet a =
     bind_op (lift_op (serve_guards a)) (\<lambda>quota.
     bind_op (lift_op (map_error Miner_raised wallet)) (\<lambda>hotkey.
     bind_op (lift_op (load_tasks tt (sv_roots a))) (\<lambda>tasks.
     bind_op (lift_op (map_result (check_package env he) tasks)) (\<lambda>_.
     bind_op (lift_op (map_error Miner_raised (as_start sdk))) (\<lambda>_.
     bind_op (modify_op (\<lambda>w. w\<lparr>mw_running := True\<rparr>)) (\<lambda>_.
     bind_op (catch_op (publish_axon sdk hotkey a) (\<lambda>e. bind_op stop_axon (\<lambda>_. fail_op e))) (\<lambda>_.
     bind_op (lift_op (load_tasks tt (sv_roots a))) (\<lambda>_.
     bind_op stop_axon (\<lambda>_. return_op 0)))))))))"

section \<open>Registration\<close>

definition register_confirmation :: string where
  "register_confirmation = ''REGISTER-TESTNET-523''"

definition registration_argv :: "string \<Rightarrow> string \<Rightarrow> string list" where
  "registration_argv cold hot =
     [''btcli'', ''subnet'', ''register'', ''--network'', cohort_network, ''--netuid'', show_int cohort_netuid,
      ''--wallet-name'', cold, ''--hotkey'', hot]"

record register_args =
  rg_wallet_name :: string
  rg_wallet_hotkey :: string
  rg_network :: string
  rg_netuid :: int
  rg_execute :: bool
  rg_confirm :: string

text \<open>The state is the list of commands that have been run; running one gives its status.\<close>

definition register_command ::
  "string option \<Rightarrow> (string list \<Rightarrow> exn + int) \<Rightarrow> register_args \<Rightarrow> (string list list, miner_error, int) op" where
  "register_command btcli run a =
     bind_op (lift_op (map_error Endpoint_rejected (require_cohort_target (rg_network a) (rg_netuid a)))) (\<lambda>_.
     let command = registration_argv (rg_wallet_name a) (rg_wallet_hotkey a) in
     if \<not> rg_execute a then return_op 0
     else if rg_confirm a \<noteq> register_confirmation
     then fail_op (refuse (''--execute requires --confirm '' @ register_confirmation))
     else
       (case btcli of
          None \<Rightarrow> fail_op (fault ''btcli is not installed'')
        | Some executable \<Rightarrow>
            let argv = command[0 := executable] in
            bind_op (modify_op (\<lambda>ran. ran @ [argv])) (\<lambda>_. lift_op (map_error Miner_raised (run argv)))))"

section \<open>Templates and validation\<close>

definition init_offsets :: nat where
  "init_offsets = 1000"

text \<open>The first of the next \<open>n\<close> seeds whose task has the archetype.\<close>

fun find_template :: "task_source \<Rightarrow> string \<Rightarrow> int \<Rightarrow> nat \<Rightarrow> miner_error + engine_task option" where
  "find_template ts archetype seed 0 = Inr None"
| "find_template ts archetype seed (Suc n) =
     bind_result (map_error Miner_raised (ts_propose ts ''parser_roundtrip'' 1 seed)) (\<lambda>tasks.
     bind_result (map_error Miner_raised (py_nth tasks 0)) (\<lambda>candidate.
     if ''archetype:'' @ archetype \<in> set (et_concepts candidate) then Inr (Some candidate)
     else find_template ts archetype (seed + 1) n))"

text \<open>The task that is written, and the directory it is written under.\<close>

definition init_command ::
  "'r holdout_env \<Rightarrow> task_source \<Rightarrow> (string \<Rightarrow> bool) \<Rightarrow> string \<Rightarrow> string \<Rightarrow> int \<Rightarrow> miner_error + engine_task \<times> string" where
  "init_command he ts exists output archetype seed =
     bind_result (find_template ts archetype seed init_offsets) (\<lambda>found.
     (case found of
        None \<Rightarrow> Inl (fault (''could not generate archetype: '' @ archetype))
      | Some t \<Rightarrow>
          bind_result (map_error Holdout_refused (validate_holdout_support he t)) (\<lambda>_.
          let destination = output @ ''/'' @ et_id t in
          if exists destination then Inl (refuse (''refusing to overwrite existing task: '' @ destination))
          else Inr (t, output))))"

text \<open>The lines of \<open>validate\<close>: id, hash, family and archetype of every package.\<close>

definition validate_line :: "'b env \<Rightarrow> 'r holdout_env \<Rightarrow> engine_task \<Rightarrow> miner_error + string \<times> json \<times> string \<times> string" where
  "validate_line env he t =
     bind_result (map_error Holdout_refused (validate_holdout_support he t)) (\<lambda>(family, archetype, _, _).
     bind_result (map_error Wire_refused (to_wire env max_package_bytes_const t)) (\<lambda>payload.
     Inr (et_id t, jget payload ''package_hash'', family, archetype)))"

definition validate_command ::
  "'b env \<Rightarrow> 'r holdout_env \<Rightarrow> task_tree \<Rightarrow> string list \<Rightarrow> miner_error + (string \<times> json \<times> string \<times> string) list" where
  "validate_command env he tt roots =
     bind_result (load_tasks tt roots) (map_result (validate_line env he))"

section \<open>Loading\<close>

lemma loaded_packages_sources: "t \<in> set (loaded_packages load ps) \<Longrightarrow> \<exists>p \<in> set ps. load p = Inr t"
  by (induction ps) (auto split: sum.splits)

lemma load_tasks_nonempty: "load_tasks tt roots = Inr tasks \<Longrightarrow> tasks \<noteq> []"
  by (auto simp: load_tasks_def split: if_splits)

lemma map_result_nth: "map_result f xs = Inr ys \<Longrightarrow> i < length xs \<Longrightarrow> f (xs ! i) = Inr (ys ! i)"
proof (induction xs arbitrary: i ys)
  case (Cons x xs)
  then show ?case by (cases i) auto
qed simp

lemma length_py_prefix: "0 \<le> q \<Longrightarrow> int (length (py_prefix q xs)) \<le> q"
  by (simp add: py_prefix_def)

lemma file_submissions_length: "file_submissions env tt roots q = Inr subs \<Longrightarrow> 0 \<le> q \<Longrightarrow> int (length subs) \<le> q"
  using length_py_prefix by (auto simp: file_submissions_def map_result_Inr_length)

section \<open>Trimming ends, at the longest prefix that fits\<close>

lemma trim_ends: "\<exists>kept. trim_response env cap subs = Some kept"
  unfolding trim_response_def
  by (rule measure_while_option_Some [where P = "\<lambda>_. True" and f = length]) auto

definition longest_fitting :: "'b env \<Rightarrow> int \<Rightarrow> jdict list \<Rightarrow> jdict list \<Rightarrow> bool" where
  "longest_fitting env cap subs kept \<longleftrightarrow>
     (\<exists>k \<le> length subs. kept = take k subs \<and> (\<forall>j. k < j \<and> j \<le> length subs \<longrightarrow> cap < response_payload_size env (take j subs)))"

lemma trim_longest:
  assumes "trim_response env cap subs = Some kept"
  shows "longest_fitting env cap subs kept \<and> (kept = [] \<or> response_payload_size env kept \<le> cap)"
proof -
  have "longest_fitting env cap subs kept"
  proof (rule while_option_rule [OF _ assms [unfolded trim_response_def], where P = "longest_fitting env cap subs"])
    fix s assume "longest_fitting env cap subs s" and s: "s \<noteq> [] \<and> cap < response_payload_size env s"
    then obtain k where k: "k \<le> length subs" "s = take k subs"
      "\<forall>j. k < j \<and> j \<le> length subs \<longrightarrow> cap < response_payload_size env (take j subs)" by (auto simp: longest_fitting_def)
    with s have "0 < k" "cap < response_payload_size env (take k subs)" by auto
    with k have "\<forall>j. k - 1 < j \<and> j \<le> length subs \<longrightarrow> cap < response_payload_size env (take j subs)"
      by (metis Suc_diff_1 Suc_leI le_neq_implies_less)
    moreover have "butlast s = take (k - 1) subs" using k(1,2) by (simp add: butlast_take)
    ultimately show "longest_fitting env cap subs (butlast s)" using k(1) unfolding longest_fitting_def by (intro exI [of _ "k - 1"]) simp
  qed (auto simp: longest_fitting_def)
  then show ?thesis using while_option_stop [OF assms [unfolded trim_response_def]] by auto
qed

text \<open>C33: the handler of a request always returns: the loop that drops submissions ends, and what it keeps is the
  longest prefix that fits the response cap (or nothing, when no submission fits).\<close>

theorem forward_terminates:
  "forward env ks address tt roots quota synapse \<noteq> None
   \<and> (\<exists>kept. trim_response env cap subs = Some kept \<and> longest_fitting env cap subs kept
        \<and> (kept = [] \<or> response_payload_size env kept \<le> cap))"
proof -
  have "forward env ks address tt roots quota synapse \<noteq> None"
    using trim_ends by (auto simp: forward_def split: sum.splits)
  moreover obtain kept where "trim_response env cap subs = Some kept" using trim_ends by blast
  ultimately show ?thesis using trim_longest by blast
qed

section \<open>What the miner signs is what the validator takes\<close>

text \<open>C11: a miner that answers the very request of a validator is believed by it: the handler signs the longest
  prefix of its loaded packages, up to both quotas, that fits the response cap, and the validator hands exactly these
  to its epoch.  The keys are to verify their own signatures and digests to be ASCII.\<close>

theorem miner_is_believed:
  assumes "file_submissions env tt roots (min quota (sy_quota synapse)) = Inr subs" "0 \<le> min quota (sy_quota synapse)"
    and "\<And>m. wk_verify ks (me_hotkey e) m (''0x'' @ wk_sign ks (me_hotkey e) m) = Inr True"
    and "\<And>p. ascii (submissions_digest env p)" "response_payload_size env [] \<le> max_response_bytes_const"
    and "sy_success synapse" "sy_dendrite synapse = Some t" "rt_hotkey t = Some v" "sy_protocol synapse = wire_protocol_version"
    and "request_id_is_valid (sy_request_id synapse)"
    and "x = \<lparr>ex_epoch = sy_epoch synapse, ex_quota = sy_quota synapse, ex_request_id = sy_request_id synapse, ex_validator = v\<rparr>"
  shows "\<exists>kept r. forward env ks (me_hotkey e) tt roots quota synapse = Some (Inr r)
    \<and> longest_fitting env max_response_bytes_const subs kept
    \<and> wire_miner_from_response env ks max_response_bytes_const x e (Synapse r) = Inr (wire_miner e kept None [])"
proof -
  obtain kept where trim: "trim_response env max_response_bytes_const subs = Some kept" using trim_ends by blast
  note kept = trim_longest [OF trim]
  let ?s = "synapse\<lparr>sy_submissions := kept, sy_error := []\<rparr>"
  let ?m = "response_message ?s t (me_hotkey e) (submissions_digest env kept)"
  let ?r = "?s\<lparr>sy_response_hotkey := me_hotkey e, sy_response_digest := submissions_digest env kept,
      sy_response_signature := ''0x'' @ wk_sign ks (me_hotkey e) ?m\<rparr>"
  have sign: "sign_response env ks (me_hotkey e) ?s = Inr ?r" using assms(7,10) by (simp add: sign_response_def Let_def)
  have "int (length kept) \<le> sy_quota synapse"
    using kept file_submissions_length [OF assms(1,2)] by (auto simp: longest_fitting_def)
  then have "py_prefix (sy_quota synapse) kept = kept" using assms(2) by (simp add: py_prefix_def nat_le_iff)
  moreover have "response_payload_size env kept \<le> max_response_bytes_const" using kept assms(5) by auto
  moreover have "wire_miner_from_response env ks max_response_bytes_const x e (Synapse ?r) =
      Inr (wire_miner e (py_prefix (sy_quota ?s) (sy_submissions ?s)) None [])"
    by (rule signed_response_round_trip [OF sign, where t = t and m = ?m and v = v])
      (use assms kept in \<open>auto\<close>)
  ultimately show ?thesis using assms(1) trim sign kept
    by (intro exI [of _ kept] exI [of _ ?r]) (simp add: forward_def)
qed

definition sample_source :: task_tree where
  "sample_source = \<lparr>tt_resolve = (\<lambda>p. p), tt_load = (\<lambda>p. if p = ''pack'' then Inr sample_task else Inl (value_error ''no package'')),
     tt_is_dir = (\<lambda>p. False), tt_entries = (\<lambda>p. [])\<rparr>"

definition sample_question :: task_synapse where
  "sample_question = unsigned_response\<lparr>sy_submissions := []\<rparr>"

lemma sample_subs: "file_submissions plain_env sample_source [''pack''] (min 4 (sy_quota sample_question)) = Inr [sample_wire]"
proof -
  have "to_wire plain_env max_package_bytes_const sample_task = Inr sample_wire" by code_simp
  moreover have "load_tasks sample_source [''pack''] = Inr [sample_task]"
    by (simp add: load_tasks_def load_root_def sample_source_def)
  ultimately show ?thesis by (simp add: file_submissions_def py_prefix_def sample_question_def unsigned_response_def)
qed

theorem miner_is_believed_witness:
  "\<exists>kept r. forward plain_env sample_wire_keys ''5F'' sample_source [''pack''] 4 sample_question = Some (Inr r)
     \<and> wire_miner_from_response plain_env sample_wire_keys max_response_bytes_const sample_expected sample_endpoint (Synapse r) =
         Inr (wire_miner sample_endpoint kept None [])"
proof -
  have e: "me_hotkey sample_endpoint = ''5F''" by (simp add: sample_endpoint_def)
  have "wk_verify sample_wire_keys ''5F'' m (''0x'' @ wk_sign sample_wire_keys ''5F'' m) = Inr True" for m
    by (simp add: sample_wire_keys_def)
  moreover have "ascii (submissions_digest plain_env p)" for p by (simp add: submissions_digest_def plain_env_def ascii_def list_all_iff)
  moreover have "response_payload_size plain_env [] \<le> max_response_bytes_const" by code_simp
  moreover have "0 \<le> min 4 (sy_quota sample_question)" by (simp add: sample_question_def unsigned_response_def)
  ultimately show ?thesis
    using miner_is_believed [of plain_env sample_source "[''pack'']" 4 sample_question _ sample_wire_keys sample_endpoint, unfolded e,
      OF sample_subs, of _ "''5V''" sample_expected]
    by (auto simp: sample_question_def unsigned_response_def sample_expected_def request_id_is_valid_def sample_request_id_def list_all_iff)
qed

section \<open>One extrinsic, to the fixed subnet\<close>

lemma or_text_Some: "or_text s None = Some t \<Longrightarrow> s = Some t"
  by (cases "(s, None :: string option)" rule: or_text.cases) auto

lemma publish_target_Inr:
  "publish_target a = Inr (net, uid, ip, port) \<Longrightarrow>
   net = ''test'' \<and> uid = 523 \<and> sv_host a = ''0.0.0.0'' \<and> (\<exists>raw. sv_external_ip a = Some raw \<and> require_public_ipv4 raw = Inr ip)
   \<and> 1 \<le> port \<and> port \<le> 65535"
  by (auto simp: publish_target_def require_cohort_target_def cohort_network_def cohort_netuid_def require_port_def
      split: option.splits if_splits sum.splits int_error.splits dest!: or_text_Some)

lemma read_back_run:
  "read_back sdk hotkey host port n w = (r, w') \<Longrightarrow>
   mw_running w' = mw_running w \<and> mw_served w' = mw_served w
   \<and> (r = Inr True \<longrightarrow> (\<exists>k mg. mw_reads w \<le> k \<and> k < mw_reads w + n \<and> as_metagraph sdk k = Inr mg
        \<and> metagraph_has_exact_axon mg hotkey host port))"
proof (induction n arbitrary: w)
  case (Suc n)
  show ?case
  proof (cases "as_metagraph sdk (mw_reads w)")
    case (Inl e)
    with Suc.prems show ?thesis by (auto simp: op_plumbing)
  next
    case (Inr mg)
    show ?thesis
    proof (cases "metagraph_has_exact_axon mg hotkey host port")
      case True
      with Suc.prems Inr show ?thesis by (auto simp: op_plumbing)
    next
      case False
      with Suc.prems Inr have "read_back sdk hotkey host port n (w\<lparr>mw_reads := Suc (mw_reads w)\<rparr>) = (r, w')"
        by (simp add: op_plumbing)
      from Suc.IH [OF this] have run: "mw_running w' = mw_running w \<and> mw_served w' = mw_served w"
        and again: "r = Inr True \<Longrightarrow> \<exists>k mg. Suc (mw_reads w) \<le> k \<and> k < Suc (mw_reads w) + n \<and> as_metagraph sdk k = Inr mg
          \<and> metagraph_has_exact_axon mg hotkey host port" by simp_all
      have "\<exists>k mg. mw_reads w \<le> k \<and> k < mw_reads w + Suc n \<and> as_metagraph sdk k = Inr mg
          \<and> metagraph_has_exact_axon mg hotkey host port" if "r = Inr True"
        using again [OF that] by (metis Suc_leD add_Suc_shift)
      with run show ?thesis by blast
    qed
  qed
qed simp

definition exactly_published :: "axon_sdk \<Rightarrow> string \<Rightarrow> serve_args \<Rightarrow> miner_world \<Rightarrow> bool" where
  "exactly_published sdk hotkey a w \<longleftrightarrow>
     (\<exists>ip port k mg. publish_target a = Inr (''test'', 523, ip, port) \<and> k < mw_reads w + readback_attempts
        \<and> as_metagraph sdk k = Inr mg \<and> metagraph_has_exact_axon mg hotkey ip port)"

lemma publish_axon_run:
  assumes "publish_axon sdk hotkey a w = (r, w')"
  shows "mw_running w' = mw_running w
    \<and> (mw_served w' = mw_served w \<or>
       mw_served w' = mw_served w @ [(''test'', 523)] \<and> sv_publish a \<and> (\<exists>ip port. publish_target a = Inr (''test'', 523, ip, port)))
    \<and> (r = Inr () \<and> sv_publish a \<longrightarrow> exactly_published sdk hotkey a w)"
proof (cases "sv_publish a \<and> (\<exists>x. publish_target a = Inr x)")
  case False
  with assms show ?thesis by (cases "publish_target a") (auto simp: publish_axon_def op_plumbing split: if_splits)
next
  case True
  then obtain net uid ip port where t: "publish_target a = Inr (net, uid, ip, port)" by (metis prod_cases4)
  then have net: "net = ''test''" "uid = 523" using publish_target_Inr by blast+
  let ?w = "w\<lparr>mw_served := mw_served w @ [(''test'', 523)]\<rparr>"
  show ?thesis
  proof (cases "as_connect sdk net")
    case (Inl e)
    with assms True t show ?thesis by (auto simp: publish_axon_def op_plumbing)
  next
    case (Inr u)
    obtain q v where again: "read_back sdk hotkey ip port readback_attempts ?w = (q, v)" by fastforce
    note run = assms True t net Inr again
    show ?thesis
    proof (cases "as_serve sdk")
      case (Inl e)
      with run show ?thesis by (auto simp: publish_axon_def op_plumbing)
    next
      case served: (Inr answer)
      obtain ok message where answer: "answer = (ok, message)" by fastforce
      show ?thesis
      proof (cases ok)
        case False
        with run served answer show ?thesis by (auto simp: publish_axon_def op_plumbing)
      next
        case True
        have "w' = v \<and> (r = Inr () \<longrightarrow> q = Inr True)"
          using run served answer True by (cases q) (auto simp: publish_axon_def op_plumbing)
        with read_back_run [OF again] t net run(2) show ?thesis by (fastforce simp: exactly_published_def)
      qed
    qed
  qed
qed

lemma serve_guards_Inr:
  "serve_guards a = Inr quota \<Longrightarrow> sv_publish a \<Longrightarrow> \<not> sv_allow_any a \<and> sv_validator_hotkeys a \<noteq> []"
  by (auto simp: serve_guards_def)

lemma checked_packages:
  "map_result (check_package env he) tasks = Inr us \<Longrightarrow> t \<in> set tasks \<Longrightarrow>
   is_ok (validate_holdout_support he t) \<and> is_ok (to_wire env max_package_bytes_const t)"
  by (induction tasks arbitrary: us) (auto simp: check_package_def is_ok_iff)

text \<open>What ran before the publication, when a serving miner gets that far.\<close>

lemma serve_command_cases:
  assumes "serve_command env he tt sdk wallet a w = (r, w')"
  obtains (refused) e where "r = Inl e" "w' = w"
  | (served) quota hotkey tasks us q v where "serve_guards a = Inr quota" "wallet = Inr hotkey" "load_tasks tt (sv_roots a) = Inr tasks"
      "map_result (check_package env he) tasks = Inr us" "as_start sdk = Inr ()"
      "publish_axon sdk hotkey a (w\<lparr>mw_running := True\<rparr>) = (q, v)" "w' = v\<lparr>mw_running := False\<rparr>"
      "r = (case q of Inl e \<Rightarrow> Inl e | Inr _ \<Rightarrow> Inr 0)"
proof -
  let ?pre = "bind_result (serve_guards a) (\<lambda>quota. bind_result (map_error Miner_raised wallet) (\<lambda>hotkey.
     bind_result (load_tasks tt (sv_roots a)) (\<lambda>tasks. bind_result (map_result (check_package env he) tasks) (\<lambda>us.
     bind_result (map_error Miner_raised (as_start sdk)) (\<lambda>_. Inr (quota, hotkey, tasks, us))))))"
  show thesis
  proof (cases ?pre)
    case (Inl e)
    with assms have "r = Inl e \<and> w' = w"
      by (auto simp: serve_command_def op_plumbing bind_result_Inl)
    then show thesis by (auto intro: refused)
  next
    case (Inr x)
    then obtain quota hotkey tasks us where pre: "serve_guards a = Inr quota" "wallet = Inr hotkey"
      "load_tasks tt (sv_roots a) = Inr tasks" "map_result (check_package env he) tasks = Inr us" "as_start sdk = Inr ()"
      by auto
    obtain q v where pub: "publish_axon sdk hotkey a (w\<lparr>mw_running := True\<rparr>) = (q, v)" by fastforce
    with pre assms have "r = (case q of Inl e \<Rightarrow> Inl e | Inr _ \<Rightarrow> Inr 0) \<and> w' = v\<lparr>mw_running := False\<rparr>"
      by (cases q) (auto simp: serve_command_def op_plumbing catch_op_def stop_axon_def)
    with pre pub show thesis by (intro served) auto
  qed
qed

text \<open>C8: serving publishes at most one extrinsic, on network test and subnet 523 only, from the host 0.0.0.0 with a
  public IPv4 address, when publishing is asked for with an explicit list of validators and every loaded package is
  supported by the holdout and fits on the wire; it ends without error only when the endpoint has been read back exactly;
  and the axon never outlives the command.\<close>

theorem serving_is_guarded:
  assumes "serve_command env he tt sdk wallet a w = (r, w')" "\<not> mw_running w"
  shows "\<not> mw_running w'
    \<and> (mw_served w' = mw_served w \<or>
         mw_served w' = mw_served w @ [(''test'', 523)] \<and> sv_publish a \<and> \<not> sv_allow_any a \<and> sv_validator_hotkeys a \<noteq> []
         \<and> sv_host a = ''0.0.0.0'' \<and> (\<exists>raw ip. sv_external_ip a = Some raw \<and> require_public_ipv4 raw = Inr ip)
         \<and> (\<exists>tasks. load_tasks tt (sv_roots a) = Inr tasks
              \<and> list_all (\<lambda>t. is_ok (validate_holdout_support he t) \<and> is_ok (to_wire env max_package_bytes_const t)) tasks))
    \<and> (r = Inr n \<and> sv_publish a \<longrightarrow> (\<exists>hotkey. wallet = Inr hotkey \<and> exactly_published sdk hotkey a w))"
  using assms(1)
proof (cases rule: serve_command_cases)
  case (served quota hotkey tasks us q v)
  note pub = publish_axon_run [OF served(6)]
  have tasks: "list_all (\<lambda>t. is_ok (validate_holdout_support he t) \<and> is_ok (to_wire env max_package_bytes_const t)) tasks"
    using checked_packages [OF served(4)] by (simp add: list_all_iff)
  have guards: "sv_publish a \<Longrightarrow> \<not> sv_allow_any a \<and> sv_validator_hotkeys a \<noteq> []" using serve_guards_Inr [OF served(1)] by blast
  have target: "publish_target a = Inr (''test'', 523, ip, port) \<Longrightarrow>
      sv_host a = ''0.0.0.0'' \<and> (\<exists>raw. sv_external_ip a = Some raw \<and> require_public_ipv4 raw = Inr ip)" for ip port
    using publish_target_Inr by blast
  have "r = Inr n \<Longrightarrow> q = Inr ()" using served(8) by (cases q) auto
  with pub guards target tasks served(2,3,7) show ?thesis by (fastforce simp: exactly_published_def)
qed (use assms(2) in auto)

definition sample_serve :: serve_args where
  "sample_serve = \<lparr>sv_validator_hotkeys = [''5V''], sv_allow_any = False, sv_publish = True, sv_quota = 4, sv_roots = [''pack''],
     sv_host = ''0.0.0.0'', sv_port = 8091, sv_external_ip = Some ''8.8.8.8'', sv_external_port = None,
     sv_network = Some ''test'', sv_netuid = Some 523\<rparr>"

text \<open>An SDK whose metagraph shows the axon from its second read on.\<close>

definition late_sdk :: axon_sdk where
  "late_sdk =
     \<lparr>as_connect = (\<lambda>net. Inr ()), as_serve = Inr (True, []),
      as_metagraph = (\<lambda>k. Inr \<lparr>mg_hotkeys = [''5F''], mg_uids = [7], mg_permits = [False], mg_last_update = None,
        mg_axons = [if k = 0 then \<lparr>ax_ip = ''0.0.0.0'', ax_port = 0, ax_coldkey = []\<rparr>
          else \<lparr>ax_ip = ''8.8.8.8'', ax_port = 8091, ax_coldkey = ''5C''\<rparr>]\<rparr>),
      as_start = Inr ()\<rparr>"

definition idle_miner :: miner_world where
  "idle_miner = \<lparr>mw_running = False, mw_served = [], mw_reads = 0\<rparr>"

lemma sample_served:
  "serve_command plain_env sample_holdout_env sample_source late_sdk (Inr ''5F'') sample_serve idle_miner =
     (Inr 0, \<lparr>mw_running = False, mw_served = [(''test'', 523)], mw_reads = 2\<rparr>)"
proof -
  have guards: "serve_guards sample_serve = Inr 4" by code_simp
  have tasks: "load_tasks sample_source (sv_roots sample_serve) = Inr [sample_task]"
    by (simp add: load_tasks_def load_root_def sample_source_def sample_serve_def)
  have checked: "check_package plain_env sample_holdout_env sample_task = Inr ()" by code_simp
  have start: "as_start late_sdk = Inr ()" by (simp add: late_sdk_def)
  have target: "publish_target sample_serve = Inr (''test'', 523, ''8.8.8.8'', 8091)"
  proof -
    have "assert_safe_network (Some ''test'') = Inr ''test''" "require_cohort_target ''test'' 523 = Inr ()" by code_simp+
    then show ?thesis using sample_addresses(1) by (simp add: publish_target_def sample_serve_def or_port_def require_port_def)
  qed
  have publish: "publish_axon late_sdk ''5F'' sample_serve (idle_miner\<lparr>mw_running := True\<rparr>) =
      (Inr (), \<lparr>mw_running = True, mw_served = [(''test'', 523)], mw_reads = 2\<rparr>)"
  proof -
    have "sv_publish sample_serve" by (simp add: sample_serve_def)
    then show ?thesis
      by (simp add: publish_axon_def target late_sdk_def idle_miner_def op_plumbing readback_attempts_def
          eval_nat_numeral metagraph_has_exact_axon_def)
  qed
  show ?thesis
    by (simp add: serve_command_def op_plumbing catch_op_def stop_axon_def guards tasks checked start publish)
qed

theorem serving_is_guarded_witness:
  "\<exists>hotkey. Inr ''5F'' = (Inr hotkey :: exn + string) \<and> exactly_published late_sdk hotkey sample_serve idle_miner"
proof -
  have "\<not> mw_running idle_miner" "sv_publish sample_serve" by (simp_all add: idle_miner_def sample_serve_def)
  with serving_is_guarded [OF sample_served, of 0] show ?thesis by blast
qed

text \<open>Registration runs no command but one, and that one only when execution is asked for with the exact
  confirmation: the registration of the given wallet on network test, subnet 523.\<close>

lemma registration_is_confirmed:
  "case register_command btcli run a past of
     (r, past') \<Rightarrow>
       past' = past
       \<or> rg_execute a \<and> rg_confirm a = ''REGISTER-TESTNET-523'' \<and> rg_network a = ''test'' \<and> rg_netuid a = 523
         \<and> (\<exists>executable. btcli = Some executable
              \<and> past' = past @ [[executable, ''subnet'', ''register'', ''--network'', ''test'', ''--netuid'', ''523'',
                     ''--wallet-name'', rg_wallet_name a, ''--hotkey'', rg_wallet_hotkey a]])"
proof -
  have "show_int 523 = ''523''" by code_simp
  then show ?thesis
    by (cases "rg_network a = ''test'' \<and> rg_netuid a = 523"; cases "rg_confirm a = ''REGISTER-TESTNET-523''"; cases btcli; cases "rg_execute a")
      (simp_all add: register_command_def registration_argv_def require_cohort_target_def cohort_network_def cohort_netuid_def
        register_confirmation_def op_plumbing Let_def require_def)
qed

end
