(* ===== verification/Miner_Doctor.thy ===== *)
theory Miner_Doctor
  imports Miner
begin

text \<open>
  \<open>dolores-miner doctor\<close> and \<open>health\<close> of \<open>src/dolores_subnet/miner_cli.py\<close>: the read-only audit of
  a miner's host, wallet files, tasks, endpoint and registration, with its bounded attempts.  What the
  host, the SDK and the network answer at an attempt is the argument.
\<close>

section \<open>The host\<close>

datatype distribution_answer = Installed string | Not_installed | Metadata_error

datatype path_kind = Directory_mode | Regular_mode | Other_mode

text \<open>A balance of the SDK has a \<open>rao\<close> attribute, or is a number itself.\<close>

datatype balance = With_rao json | Bare json

text \<open>The chain calls of an attempt, each with the alarm it sees.\<close>

record doctor_sdk =
  dc_context :: call_context
  dc_alarm :: alarm
  dc_connect :: "string \<Rightarrow> alarm \<Rightarrow> unit call \<times> alarm"
  dc_balance :: "string \<Rightarrow> alarm \<Rightarrow> balance call \<times> alarm"
  dc_metagraph :: "int \<Rightarrow> alarm \<Rightarrow> metagraph call \<times> alarm"

record ('b, 'r) doctor_host =
  dh_env :: "'b env"
  dh_holdout :: "'r holdout_env"
  dh_python :: "int \<times> int \<times> int"
  dh_distribution :: "string \<Rightarrow> distribution_answer"
  dh_btcli :: "(int \<times> string \<times> string) option option"
  dh_ss58 :: "string \<Rightarrow> exn + string"
  dh_expand :: "string \<Rightarrow> string"
  dh_lstat :: "string \<Rightarrow> path_kind option"
  dh_tree :: task_tree
  dh_source :: task_source
  dh_tcp :: "string \<Rightarrow> int \<Rightarrow> bool"
  dh_bind :: "int \<Rightarrow> bool"
  dh_sdk :: doctor_sdk

record doctor_args =
  da_wallet_path :: string
  da_wallet_name :: string
  da_wallet_hotkey :: string
  da_coldkey :: string
  da_hotkey :: string
  da_network :: string
  da_netuid :: int
  da_task_dirs :: "string list"
  da_external_ip :: string
  da_port :: int
  da_timeout :: pyfloat
  da_attempts :: int
  da_retry_delay :: pyfloat

type_synonym checks = "(string, jdict) dict"

section \<open>The checks\<close>

definition python_check :: "int \<times> int \<times> int \<Rightarrow> jdict" where
  "python_check ver =
     (case ver of (major, minor, micro) \<Rightarrow>
       [(''ok'', JBool (major = 3 \<and> minor = 11)),
        (''version'', JStr (join ''.'' [show_int major, show_int minor, show_int micro])), (''required'', JStr ''>=3.11,<3.12'')])"

definition expected_distributions :: "(string, string) dict" where
  "expected_distributions =
     [(''dolores-autocurricula'', ''0.2.0rc2''), (''dolores-bittensor-subnet'', ''0.2.0rc2''), (''bittensor'', ''10.5.0''),
      (''bittensor-cli'', ''9.23.1'')]"

fun distribution_check :: "distribution_answer \<Rightarrow> string \<Rightarrow> jdict" where
  "distribution_check Not_installed expected =
     [(''ok'', JBool False), (''expected'', JStr expected), (''reason'', JStr ''not_installed'')]"
| "distribution_check Metadata_error expected =
     [(''ok'', JBool False), (''expected'', JStr expected), (''reason'', JStr ''metadata_unavailable'')]"
| "distribution_check (Installed installed) expected =
     [(''ok'', JBool (installed = expected)), (''version'', JStr installed), (''expected'', JStr expected)]"

definition btcli_report :: "bool \<Rightarrow> bool \<Rightarrow> jdict" where
  "btcli_report executable verified =
     [(''ok'', JBool verified), (''executable'', JBool executable), (''version_verified'', JBool verified)]"

text \<open>No executable; one that does not run; or its status, output and error output.\<close>

definition btcli_check :: "(int \<times> string \<times> string) option option \<Rightarrow> jdict" where
  "btcli_check answer =
     (case answer of
        None \<Rightarrow> btcli_report False False
      | Some None \<Rightarrow> btcli_report True False
      | Some (Some (status, out, err)) \<Rightarrow>
          btcli_report True (status = 0
            \<and> contains (out @ [CHR 0x0A] @ err) (dict_get_default expected_distributions ''bittensor-cli'' [])))"

definition require_doctor_timeout :: "pyfloat \<Rightarrow> miner_error + pyfloat" where
  "require_doctor_timeout timeout =
     (if flt (Fin 0) timeout \<and> fle timeout (Fin 30) then Inr timeout
      else Inl (refuse ''doctor timeout is outside the supported bound''))"

definition doctor_attempts_max :: int where
  "doctor_attempts_max = 12"

definition require_doctor_attempts :: "int \<Rightarrow> miner_error + int" where
  "require_doctor_attempts attempts =
     (if 1 \<le> attempts \<and> attempts \<le> doctor_attempts_max then Inr attempts
      else Inl (refuse ''doctor attempts are outside the supported bound''))"

definition require_doctor_retry_delay :: "pyfloat \<Rightarrow> miner_error + pyfloat" where
  "require_doctor_retry_delay delay =
     (if fle (Fin 0) delay \<and> fle delay (Fin 30) then Inr delay
      else Inl (refuse ''doctor retry delay is outside the supported bound''))"

definition public_ss58_is_valid :: "('b, 'r) doctor_host \<Rightarrow> string \<Rightarrow> bool" where
  "public_ss58_is_valid dh address = (case dh_ss58 dh address of Inl _ \<Rightarrow> False | Inr shown \<Rightarrow> shown = address)"

text \<open>\<open>Path(value).name\<close>.\<close>

definition path_name :: "string \<Rightarrow> string" where
  "path_name p = (let parts = filter (\<lambda>w. w \<noteq> ''/'') (path_parts p) in if parts = [] then [] else last parts)"

definition safe_wallet_component :: "string \<Rightarrow> bool" where
  "safe_wallet_component v \<longleftrightarrow> v \<noteq> [] \<and> v \<notin> set [''.'', ''..''] \<and> path_name v = v"

definition metadata_kind :: "('b, 'r) doctor_host \<Rightarrow> string \<Rightarrow> string" where
  "metadata_kind dh p =
     (case dh_lstat dh p of
        None \<Rightarrow> ''missing'' | Some Directory_mode \<Rightarrow> ''directory'' | Some Regular_mode \<Rightarrow> ''file'' | Some Other_mode \<Rightarrow> ''unsupported'')"

definition wallet_metadata_check :: "('b, 'r) doctor_host \<Rightarrow> string \<Rightarrow> string \<Rightarrow> string \<Rightarrow> jdict" where
  "wallet_metadata_check dh dir name hotkey =
     (if \<not> safe_wallet_component name \<or> \<not> safe_wallet_component hotkey
      then [(''ok'', JBool False), (''reason'', JStr ''invalid_wallet_selector'')]
      else
        let wallet_dir = dh_expand dh dir @ ''/'' @ name;
            directory_ok = (metadata_kind dh wallet_dir = ''directory'');
            coldkey_ok = (metadata_kind dh (wallet_dir @ ''/coldkeypub.txt'') = ''file'');
            hotkeys_ok = (metadata_kind dh (wallet_dir @ ''/hotkeys'') = ''directory'');
            hotkey_ok = (metadata_kind dh (wallet_dir @ ''/hotkeys/'' @ hotkey) = ''file'')
        in [(''ok'', JBool (directory_ok \<and> coldkey_ok \<and> hotkeys_ok \<and> hotkey_ok)), (''wallet_directory'', JBool directory_ok),
            (''coldkey_public_file'', JBool coldkey_ok), (''hotkeys_directory'', JBool hotkeys_ok),
            (''hotkey_file'', JBool hotkey_ok), (''inspection'', JStr ''metadata_only'')])"

definition wire_size :: "'b env \<Rightarrow> jdict \<Rightarrow> int" where
  "wire_size env payload = compact_size env (JObj payload)"

definition check_task :: "('b, 'r) doctor_host \<Rightarrow> engine_task \<Rightarrow> miner_error + string \<times> string \<times> int" where
  "check_task dh t =
     bind_result (map_error Holdout_refused (validate_holdout_support (dh_holdout dh) t)) (\<lambda>(family, archetype, _, _).
     bind_result (map_error Wire_refused (to_wire (dh_env dh) max_package_bytes_const t)) (\<lambda>payload.
     if jget payload ''package_hash'' \<noteq> JStr (et_hash t) then Inl (fault ''stable hash and wire hash differ'')
     else
       let n = wire_size (dh_env dh) payload in
       if max_response_bytes_const < n then Inl (fault ''wire payload exceeds the response bound'')
       else Inr (family, archetype, n)))"

definition engine_smoke_check :: "('b, 'r) doctor_host \<Rightarrow> miner_error + jdict" where
  "engine_smoke_check dh =
     bind_result (generated_tasks (dh_source dh) 1 0) (\<lambda>tasks.
     bind_result (map_error Miner_raised (py_nth tasks 0)) (\<lambda>t.
     bind_result (check_task dh t) (\<lambda>(family, archetype, n).
     Inr [(''ok'', JBool True), (''generated'', JInt 1), (''family'', JStr family), (''archetype'', JStr archetype),
          (''stable_hash_matches_wire'', JBool True), (''wire_bytes'', JInt n)])))"

definition supplied_tasks_check :: "('b, 'r) doctor_host \<Rightarrow> string list \<Rightarrow> miner_error + jdict" where
  "supplied_tasks_check dh dirs =
     bind_result (load_tasks (dh_tree dh) dirs) (\<lambda>tasks.
     bind_result (map_result (check_task dh) tasks) (\<lambda>checked.
     Inr [(''ok'', JBool True), (''count'', JInt (int (length tasks))), (''stable_hash_matches_wire'', JBool True),
          (''max_wire_bytes'', JInt (case map (\<lambda>(f, a, n). n) checked of [] \<Rightarrow> 0 | n # ns \<Rightarrow> foldl max n ns))]))"

section \<open>The bounded chain reads\<close>

datatype deadline_error = Deadline string | Call_raised exn

text \<open>The result, the alarm afterwards, and whether the function was called.\<close>

definition miner_bounded_call ::
  "call_context \<Rightarrow> pyfloat \<Rightarrow> (alarm \<Rightarrow> 'a call \<times> alarm) \<Rightarrow> alarm \<Rightarrow> (deadline_error + 'a) \<times> alarm \<times> bool" where
  "miner_bounded_call ctx duration fn al =
     (if \<not> ctx_posix ctx then (Inl (Deadline ''read-only chain deadline requires POSIX SIGALRM''), al, False)
      else if \<not> ctx_main_thread ctx then (Inl (Deadline ''read-only chain deadline requires the POSIX main thread''), al, False)
      else if \<not> is_fin duration \<or> fle duration (Fin 0) then (Inl (Deadline ''read-only chain call timed out''), al, False)
      else
        let previous_timer = al_timer al in
        if flt (Fin 0) (fst previous_timer) \<or> flt (Fin 0) (snd previous_timer)
        then (Inl (Deadline ''read-only chain deadline unavailable with active SIGALRM timer''), al, False)
        else
          let previous_handler = al_handler al;
              restore = (\<lambda>now. ((now\<lparr>al_timer := (Fin 0, Fin 0)\<rparr>)\<lparr>al_handler := previous_handler\<rparr>)\<lparr>al_timer := previous_timer\<rparr>);
              handled = al\<lparr>al_handler := expire_handler\<rparr>
          in if \<not> ctx_installs ctx
             then (Inl (Deadline ''read-only chain deadline could not be installed''), restore handled, False)
             else
               (case fn (handled\<lparr>al_timer := (duration, Fin 0)\<rparr>) of
                  (answer, now) \<Rightarrow>
                    (case answer of
                       Returns a \<Rightarrow> Inr a
                     | Raises e \<Rightarrow> Inl (Call_raised e)
                     | Overruns \<Rightarrow> Inl (Deadline ''read-only chain call timed out''), restore now, True)))"

definition balance_rao :: "balance \<Rightarrow> int_error + int" where
  "balance_rao v = (case v of With_rao j \<Rightarrow> py_int j | Bare j \<Rightarrow> py_int j)"

record chain_snapshot =
  cs_balance :: int
  cs_metagraph :: metagraph

text \<open>Why a read failed is never reported; the state is the alarm.\<close>

datatype chain_failure = Read_failed deadline_error | Balance_unreadable | Negative_balance

type_synonym 'a alarm_op = "(alarm, chain_failure, 'a) op"

definition deadline_op :: "call_context \<Rightarrow> pyfloat \<Rightarrow> (alarm \<Rightarrow> 'a call \<times> alarm) \<Rightarrow> 'a alarm_op" where
  "deadline_op ctx duration fn al =
     (case miner_bounded_call ctx duration fn al of (r, now, _) \<Rightarrow> (map_error Read_failed r, now))"

definition read_doctor_chain :: "doctor_sdk \<Rightarrow> string \<Rightarrow> int \<Rightarrow> string \<Rightarrow> pyfloat \<Rightarrow> chain_snapshot alarm_op" where
  "read_doctor_chain sdk net uid coldkey timeout =
     bind_op (deadline_op (dc_context sdk) timeout (dc_connect sdk net)) (\<lambda>_.
     bind_op (deadline_op (dc_context sdk) timeout (dc_balance sdk coldkey)) (\<lambda>v.
     bind_op (deadline_op (dc_context sdk) timeout (dc_metagraph sdk uid)) (\<lambda>mg.
     bind_op (lift_op (map_error (\<lambda>_. Balance_unreadable) (balance_rao v))) (\<lambda>rao.
     bind_op (guard_op (\<not> rao < 0) Negative_balance) (\<lambda>_.
     return_op \<lparr>cs_balance = rao, cs_metagraph = mg\<rparr>)))))"

definition local_port_state :: "('b, 'r) doctor_host \<Rightarrow> int \<Rightarrow> string" where
  "local_port_state dh port =
     (if dh_tcp dh ''127.0.0.1'' port then ''listening'' else if dh_bind dh port then ''free'' else ''unavailable'')"

definition uid_for_hotkey :: "metagraph \<Rightarrow> string \<Rightarrow> (int \<times> nat) option" where
  "uid_for_hotkey mg hotkey =
     (case index_of hotkey (mg_hotkeys mg) of
        None \<Rightarrow> None
      | Some i \<Rightarrow> Some (if i < length (mg_uids mg) then mg_uids mg ! i else int i, i))"

text \<open>The three checks that a snapshot adds.\<close>

definition chain_checks :: "chain_snapshot \<Rightarrow> string \<Rightarrow> string \<Rightarrow> string \<Rightarrow> int \<Rightarrow> checks" where
  "chain_checks snap coldkey hotkey host port =
     (let mg = cs_metagraph snap;
          found = uid_for_hotkey mg hotkey;
          registered = (found \<noteq> None);
          owner_matches = (case found of
              None \<Rightarrow> False
            | Some (_, i) \<Rightarrow> i < length (mg_axons mg) \<and> ax_coldkey (mg_axons mg ! i) = coldkey);
          endpoint_matches = metagraph_has_exact_axon mg hotkey host port;
          exact = (registered \<and> owner_matches \<and> endpoint_matches)
      in [(''balance'',
             [(''ok'', JBool (0 \<le> cs_balance snap)), (''readable'', JBool True), (''balance_rao'', JInt (cs_balance snap)),
              (''positive'', JBool (0 < cs_balance snap))]),
          (''registration'',
             [(''ok'', JBool registered), (''registered'', JBool registered), (''uid'', opt_int (map_option fst found))]),
          (''published_axon'',
             [(''ok'', JBool exact), (''exact'', JBool exact), (''owner_matches'', JBool owner_matches),
              (''endpoint_matches'', JBool endpoint_matches)])])"

definition failed_chain_checks :: "string \<Rightarrow> checks" where
  "failed_chain_checks reason =
     [(''balance'', [(''ok'', JBool False), (''reason'', JStr reason)]),
      (''registration'', [(''ok'', JBool False), (''reason'', JStr reason), (''registered'', JBool False), (''uid'', JNull)]),
      (''published_axon'', [(''ok'', JBool False), (''reason'', JStr reason), (''exact'', JBool False)])]"

section \<open>The audit\<close>

definition target_check :: "doctor_args \<Rightarrow> bool \<times> jdict" where
  "target_check a =
     (case require_cohort_target (da_network a) (da_netuid a) of
        Inr _ \<Rightarrow> (True, [(''ok'', JBool True), (''network'', JStr cohort_network), (''netuid'', JInt cohort_netuid)])
      | Inl _ \<Rightarrow> (False, [(''ok'', JBool False), (''reason'', JStr ''wrong_public_cohort_target'')]))"

definition endpoint_of :: "doctor_args \<Rightarrow> (string \<times> int \<times> pyfloat) option" where
  "endpoint_of a =
     (case bind_result (map_error Endpoint_rejected (require_public_ipv4 (da_external_ip a))) (\<lambda>ip.
           bind_result (map_error Endpoint_rejected (require_port (JInt (da_port a)))) (\<lambda>port.
           bind_result (require_doctor_timeout (da_timeout a)) (\<lambda>timeout. Inr (ip, port, timeout)))) of
        Inl _ \<Rightarrow> None
      | Inr e \<Rightarrow> Some e)"

definition endpoint_check :: "(string \<times> int \<times> pyfloat) option \<Rightarrow> jdict" where
  "endpoint_check e =
     (case e of
        None \<Rightarrow> [(''ok'', JBool False), (''reason'', JStr ''invalid_public_endpoint'')]
      | Some _ \<Rightarrow> [(''ok'', JBool True), (''literal_global_ipv4'', JBool True), (''port_valid'', JBool True)])"

definition network_checks :: "('b, 'r) doctor_host \<Rightarrow> (string \<times> int \<times> pyfloat) option \<Rightarrow> checks" where
  "network_checks dh e =
     (case e of
        Some (ip, port, _) \<Rightarrow>
          let state = local_port_state dh port; open_port = dh_tcp dh ip port in
          [(''local_port'', [(''ok'', JBool (state \<in> set [''free'', ''listening''])), (''state'', JStr state)]),
           (''public_tcp'', [(''ok'', JBool open_port), (''reachable'', JBool open_port), (''scope'', JStr ''same_host_hairpin''),
              (''external_reachability_proof'', JBool False)])]
      | None \<Rightarrow>
          [(''local_port'', [(''ok'', JBool False), (''reason'', JStr ''invalid_public_endpoint'')]),
           (''public_tcp'', [(''ok'', JBool False), (''reason'', JStr ''invalid_public_endpoint''),
              (''scope'', JStr ''same_host_hairpin''), (''external_reachability_proof'', JBool False)])])"

definition registration_checks :: "('b, 'r) doctor_host \<Rightarrow> doctor_args \<Rightarrow> bool \<Rightarrow> (string \<times> int \<times> pyfloat) option \<Rightarrow> checks" where
  "registration_checks dh a prerequisites e =
     (case e of
        Some (ip, port, timeout) \<Rightarrow>
          if \<not> prerequisites then failed_chain_checks ''prerequisite_failed''
          else
            (case fst (read_doctor_chain (dh_sdk dh) (da_network a) (da_netuid a) (da_coldkey a) timeout (dc_alarm (dh_sdk dh))) of
               Inl _ \<Rightarrow> failed_chain_checks ''chain_read_failed''
             | Inr snap \<Rightarrow> chain_checks snap (da_coldkey a) (da_hotkey a) ip port)
      | None \<Rightarrow> failed_chain_checks ''prerequisite_failed'')"

text \<open>Failures of the engine or of the tasks are reported without their cause.\<close>

fun reported :: "miner_error + jdict \<Rightarrow> string \<Rightarrow> jdict" where
  "reported (Inr d) reason = d"
| "reported (Inl e) reason = [(''ok'', JBool False), (''reason'', JStr reason)]"

definition doctor_checks :: "('b, 'r) doctor_host \<Rightarrow> doctor_args \<Rightarrow> checks" where
  "doctor_checks dh a =
     (let coldkey_valid = public_ss58_is_valid dh (da_coldkey a);
          hotkey_valid = public_ss58_is_valid dh (da_hotkey a);
          e = endpoint_of a
      in [(''python'', python_check (dh_python dh))]
         @ map (\<lambda>(name, expected). (name, distribution_check (dh_distribution dh name) expected)) expected_distributions
         @ [(''btcli'', btcli_check (dh_btcli dh)), (''target'', snd (target_check a)), (''endpoint'', endpoint_check e),
            (''public_addresses'', [(''ok'', JBool (coldkey_valid \<and> hotkey_valid)), (''coldkey_valid'', JBool coldkey_valid),
               (''hotkey_valid'', JBool hotkey_valid)]),
            (''wallet_metadata'', wallet_metadata_check dh (da_wallet_path a) (da_wallet_name a) (da_wallet_hotkey a)),
            (''engine_smoke'', reported (engine_smoke_check dh) ''engine_smoke_failed'')]
         @ (if da_task_dirs a = [] then []
            else [(''tasks'', reported (supplied_tasks_check dh (da_task_dirs a)) ''task_validation_failed'')])
         @ network_checks dh e
         @ registration_checks dh a (fst (target_check a) \<and> coldkey_valid \<and> hotkey_valid) e
         @ [(''miner_boundary'', [(''ok'', JBool True), (''docker_required'', JBool False), (''duckdb_required'', JBool False),
              (''fireworks_required'', JBool False), (''streamlit_required'', JBool False)])])"

definition all_ok :: "checks \<Rightarrow> bool" where
  "all_ok cs = list_all (\<lambda>(name, d). truthy (jget d ''ok'')) cs"

text \<open>Up to \<open>n\<close> more attempts after this one; the attempt that decided, and its checks.\<close>

fun doctor_attempts :: "(nat \<Rightarrow> checks) \<Rightarrow> nat \<Rightarrow> nat \<Rightarrow> nat \<times> checks" where
  "doctor_attempts checks_at k 0 = (k, checks_at k)"
| "doctor_attempts checks_at k (Suc n) =
     (if all_ok (checks_at k) then (k, checks_at k) else doctor_attempts checks_at (Suc k) n)"

definition doctor_command :: "(nat \<Rightarrow> ('b, 'r) doctor_host) \<Rightarrow> doctor_args \<Rightarrow> miner_error + jdict \<times> int" where
  "doctor_command host_at a =
     bind_result (require_doctor_attempts (da_attempts a)) (\<lambda>attempts.
     bind_result (require_doctor_retry_delay (da_retry_delay a)) (\<lambda>_.
     case doctor_attempts (\<lambda>i. doctor_checks (host_at i) a) 1 (nat attempts - 1) of
       (used, cs) \<Rightarrow>
         let ok = all_ok cs in
         Inr ([(''ok'', JBool ok), (''attempts'', JObj [(''configured'', JInt attempts), (''used'', JInt (int used))]),
               (''checks'', JObj (map (\<lambda>(name, d). (name, JObj d)) cs))], if ok then 0 else 1)))"

section \<open>Health\<close>

text \<open>An attempt connects, is refused, or raises what is not an \<open>OSError\<close>; the status and the attempts used.\<close>

fun health_attempts :: "(nat \<Rightarrow> exn + bool) \<Rightarrow> nat \<Rightarrow> nat \<Rightarrow> miner_error + int \<times> nat" where
  "health_attempts connect k 0 =
     bind_result (map_error Miner_raised (connect k)) (\<lambda>up. Inr (if up then 0 else 1, k))"
| "health_attempts connect k (Suc n) =
     bind_result (map_error Miner_raised (connect k)) (\<lambda>up.
     if up then Inr (0, k) else health_attempts connect (Suc k) n)"

definition miner_health_command :: "(nat \<Rightarrow> exn + bool) \<Rightarrow> int \<Rightarrow> int \<Rightarrow> pyfloat \<Rightarrow> miner_error + int \<times> nat" where
  "miner_health_command connect port attempts delay =
     bind_result (map_error Endpoint_rejected (require_port (JInt port))) (\<lambda>_.
     bind_result (require_doctor_attempts attempts) (\<lambda>attempts.
     bind_result (require_doctor_retry_delay delay) (\<lambda>_.
     health_attempts connect 1 (nat attempts - 1))))"

section \<open>The same deadline\<close>

text \<open>What the validator's copy reports of an error of the miner's.\<close>

fun as_read_error :: "deadline_error \<Rightarrow> read_error" where
  "as_read_error (Deadline text) = Read_timeout"
| "as_read_error (Call_raised e) = Read_raised e"

text \<open>The miner's bounded call and the validator's, two copies in the code, agree on every input: the same value or
  exception, the same alarm afterwards, the function called in the same cases; and the alarm is as it was found.\<close>

lemma bounded_calls_agree:
  "case miner_bounded_call ctx duration fn al of
     (r, now, called) \<Rightarrow> bounded_call ctx duration fn al = (map_error as_read_error r, now, called) \<and> now = al"
proof (cases "ctx_posix ctx \<and> ctx_main_thread ctx \<and> is_fin duration \<and> \<not> fle duration (Fin 0)
    \<and> \<not> flt (Fin 0) (fst (al_timer al)) \<and> \<not> flt (Fin 0) (snd (al_timer al)) \<and> ctx_installs ctx")
  case False
  then show ?thesis by (auto simp: miner_bounded_call_def bounded_call_def Let_def)
next
  case True
  then show ?thesis
    by (cases "fn (al\<lparr>al_handler := expire_handler, al_timer := (duration, Fin 0)\<rparr>)"; cases "fst (fn (al\<lparr>al_handler := expire_handler, al_timer := (duration, Fin 0)\<rparr>))")
      (simp_all add: miner_bounded_call_def bounded_call_def Let_def)
qed

section \<open>What the doctor vouches for\<close>

lemma doctor_attempts_first:
  "doctor_attempts checks_at k n = (used, cs) \<Longrightarrow>
   cs = checks_at used \<and> k \<le> used \<and> used \<le> k + n \<and> (\<forall>j. k \<le> j \<and> j < used \<longrightarrow> \<not> all_ok (checks_at j))
   \<and> (all_ok cs \<or> used = k + n)"
proof (induction n arbitrary: k)
  case (Suc n)
  show ?case
  proof (cases "all_ok (checks_at k)")
    case False
    with Suc.prems have "doctor_attempts checks_at (Suc k) n = (used, cs)" by simp
    note rest = Suc.IH [OF this]
    then have "\<not> all_ok (checks_at j)" if "k \<le> j" "j < used" for j
      using False that by (cases "j = k") auto
    with rest show ?thesis by auto
  qed (use Suc.prems in auto)
qed auto

lemma all_ok_simps [simp]:
  "all_ok []" "all_ok ((name, d) # cs) \<longleftrightarrow> truthy (jget d ''ok'') \<and> all_ok cs" "all_ok (cs @ cs') \<longleftrightarrow> all_ok cs \<and> all_ok cs'"
  by (simp_all add: all_ok_def)

lemma checked_task:
  "check_task dh t = Inr x \<Longrightarrow>
   is_ok (validate_holdout_support (dh_holdout dh) t)
   \<and> (\<exists>payload. to_wire (dh_env dh) max_package_bytes_const t = Inr payload \<and> wire_size (dh_env dh) payload \<le> max_response_bytes_const)"
  by (auto simp: check_task_def is_ok_iff Let_def split: if_splits)

lemma map_result_members: "map_result f xs = Inr ys \<Longrightarrow> x \<in> set xs \<Longrightarrow> is_ok (f x)"
  by (induction xs arbitrary: ys) auto

lemma supplied_tasks_ok:
  assumes "truthy (jget (reported (supplied_tasks_check dh dirs) reason) ''ok'')"
  shows "\<exists>tasks. load_tasks (dh_tree dh) dirs = Inr tasks \<and> list_all (\<lambda>t. is_ok (check_task dh t)) tasks"
proof (cases "supplied_tasks_check dh dirs")
  case (Inl e)
  with assms show ?thesis by simp
next
  case (Inr d)
  then show ?thesis by (auto simp: supplied_tasks_check_def list_all_iff dest: map_result_members)
qed

text \<open>The registration part of the audit.\<close>

definition registered_as_published :: "metagraph \<Rightarrow> doctor_args \<Rightarrow> string \<Rightarrow> bool" where
  "registered_as_published mg a ip \<longleftrightarrow>
     (\<exists>i. index_of (da_hotkey a) (mg_hotkeys mg) = Some i \<and> i < length (mg_axons mg)
        \<and> ax_coldkey (mg_axons mg ! i) = da_coldkey a \<and> ax_ip (mg_axons mg ! i) = ip \<and> ax_port (mg_axons mg ! i) = da_port a)"

lemma registration_ok:
  assumes "all_ok (registration_checks dh a prerequisites (Some (ip, port, timeout)))" "port = da_port a"
  shows "prerequisites \<and> (\<exists>snap. fst (read_doctor_chain (dh_sdk dh) (da_network a) (da_netuid a) (da_coldkey a) timeout (dc_alarm (dh_sdk dh))) = Inr snap
    \<and> 0 \<le> cs_balance snap \<and> registered_as_published (cs_metagraph snap) a ip)"
proof -
  have failed: "\<not> all_ok (failed_chain_checks reason)" for reason by (simp add: all_ok_def failed_chain_checks_def)
  with assms have pre: prerequisites by (auto simp: registration_checks_def split: if_splits)
  let ?read = "fst (read_doctor_chain (dh_sdk dh) (da_network a) (da_netuid a) (da_coldkey a) timeout (dc_alarm (dh_sdk dh)))"
  obtain snap where snap: "?read = Inr snap" using assms pre failed by (cases ?read) (auto simp: registration_checks_def)
  then have "all_ok (chain_checks snap (da_coldkey a) (da_hotkey a) ip (da_port a))" using assms pre by (simp add: registration_checks_def)
  then have "0 \<le> cs_balance snap \<and> registered_as_published (cs_metagraph snap) a ip"
    by (auto simp: all_ok_def chain_checks_def Let_def uid_for_hotkey_def metagraph_has_exact_axon_def registered_as_published_def
        split: option.splits if_splits)
  with pre snap show ?thesis by blast
qed

lemma endpoint_of_Some:
  "endpoint_of a = Some (ip, port, timeout) \<Longrightarrow>
   require_public_ipv4 (da_external_ip a) = Inr ip \<and> port = da_port a \<and> 1 \<le> port \<and> port \<le> 65535
   \<and> timeout = da_timeout a \<and> flt (Fin 0) timeout \<and> fle timeout (Fin 30)"
  by (auto simp: endpoint_of_def require_port_def require_doctor_timeout_def split: sum.splits int_error.splits if_splits)

text \<open>An attempt at which every check passes.\<close>

lemma audit_passed:
  assumes "all_ok (doctor_checks h a)"
  shows "fst (dh_python h) = 3" "fst (snd (dh_python h)) = 11"
    and "list_all (\<lambda>(name, expected). dh_distribution h name = Installed expected) expected_distributions"
    and "da_task_dirs a = [] \<or> (\<exists>tasks. load_tasks (dh_tree h) (da_task_dirs a) = Inr tasks
      \<and> list_all (\<lambda>t. is_ok (check_task h t)) tasks)"
    and "all_ok (network_checks h (endpoint_of a))"
    and "all_ok (registration_checks h a (fst (target_check a) \<and> public_ss58_is_valid h (da_coldkey a) \<and> public_ss58_is_valid h (da_hotkey a))
      (endpoint_of a))"
proof -
  note parts = assms [unfolded doctor_checks_def Let_def, simplified]
  show "fst (dh_python h) = 3" "fst (snd (dh_python h)) = 11"
    using parts by (auto simp: python_check_def split: prod.splits)
  have "truthy (jget (distribution_check answer expected) ''ok'') \<Longrightarrow> answer = Installed expected" for answer expected
    by (cases answer) auto
  moreover have "list_all (\<lambda>(name, expected). truthy (jget (distribution_check (dh_distribution h name) expected) ''ok'')) expected_distributions"
    using parts by (auto simp: all_ok_def list_all_iff)
  ultimately show "list_all (\<lambda>(name, expected). dh_distribution h name = Installed expected) expected_distributions"
    by (fastforce simp: list_all_iff)
  show "da_task_dirs a = [] \<or> (\<exists>tasks. load_tasks (dh_tree h) (da_task_dirs a) = Inr tasks \<and> list_all (\<lambda>t. is_ok (check_task h t)) tasks)"
    using parts supplied_tasks_ok by (auto split: if_splits)
  show "all_ok (network_checks h (endpoint_of a))"
    "all_ok (registration_checks h a (fst (target_check a) \<and> public_ss58_is_valid h (da_coldkey a) \<and> public_ss58_is_valid h (da_hotkey a))
      (endpoint_of a))"
    using parts by blast+
qed

text \<open>C26: when the doctor reports success, then at one of at most twelve attempts, the first that passed: Python
  is 3.11 and the four distributions have their exact versions; every supplied package is supported and
  fits; the public endpoint is a public IPv4 address that answers; the two addresses are valid; and the metagraph of the
  cohort subnet, read then, lists the hotkey with exactly this endpoint and this cold key.\<close>

theorem doctor_vouches:
  assumes "doctor_command host_at a = Inr (report, 0)"
  shows "\<exists>used ip snap. 1 \<le> used \<and> int used \<le> da_attempts a \<and> da_attempts a \<le> 12
    \<and> (\<forall>j. 1 \<le> j \<and> j < used \<longrightarrow> \<not> all_ok (doctor_checks (host_at j) a))
    \<and> fst (dh_python (host_at used)) = 3 \<and> fst (snd (dh_python (host_at used))) = 11
    \<and> list_all (\<lambda>(name, expected). dh_distribution (host_at used) name = Installed expected) expected_distributions
    \<and> (da_task_dirs a = [] \<or> (\<exists>tasks. load_tasks (dh_tree (host_at used)) (da_task_dirs a) = Inr tasks
          \<and> list_all (\<lambda>t. is_ok (check_task (host_at used) t)) tasks))
    \<and> require_public_ipv4 (da_external_ip a) = Inr ip \<and> dh_tcp (host_at used) ip (da_port a)
    \<and> dh_ss58 (host_at used) (da_coldkey a) = Inr (da_coldkey a) \<and> dh_ss58 (host_at used) (da_hotkey a) = Inr (da_hotkey a)
    \<and> da_network a = ''test'' \<and> da_netuid a = 523
    \<and> fst (read_doctor_chain (dh_sdk (host_at used)) ''test'' 523 (da_coldkey a) (da_timeout a) (dc_alarm (dh_sdk (host_at used)))) = Inr snap
    \<and> registered_as_published (cs_metagraph snap) a ip"
proof -
  have n: "1 \<le> da_attempts a" "da_attempts a \<le> 12"
    using assms by (auto simp: doctor_command_def require_doctor_attempts_def doctor_attempts_max_def split: if_splits)
  obtain used cs where run: "doctor_attempts (\<lambda>i. doctor_checks (host_at i) a) 1 (nat (da_attempts a) - 1) = (used, cs)" by fastforce
  have "all_ok cs"
    using assms run by (auto simp: doctor_command_def require_doctor_attempts_def require_doctor_retry_delay_def Let_def split: if_splits)
  note first = doctor_attempts_first [OF run]
  let ?h = "host_at used"
  have "all_ok (doctor_checks ?h a)" using first \<open>all_ok cs\<close> by simp
  note passed = audit_passed [OF this]
  from passed(5) obtain ip port timeout where e: "endpoint_of a = Some (ip, port, timeout)"
    by (cases "endpoint_of a") (auto simp: network_checks_def)
  note ends = endpoint_of_Some [OF e]
  have tcp: "dh_tcp ?h ip (da_port a)" using passed(5) e ends by (simp add: network_checks_def Let_def)
  from registration_ok [OF passed(6) [unfolded e]] ends obtain snap where snap:
    "fst (read_doctor_chain (dh_sdk ?h) (da_network a) (da_netuid a) (da_coldkey a) (da_timeout a) (dc_alarm (dh_sdk ?h))) = Inr snap"
    "registered_as_published (cs_metagraph snap) a ip" "fst (target_check a)"
    "public_ss58_is_valid ?h (da_coldkey a)" "public_ss58_is_valid ?h (da_hotkey a)" by auto
  have target: "da_network a = ''test''" "da_netuid a = 523"
    using snap(3) by (auto simp: target_check_def require_cohort_target_def cohort_network_def cohort_netuid_def require_def split: if_splits)
  have keys: "dh_ss58 ?h (da_coldkey a) = Inr (da_coldkey a)" "dh_ss58 ?h (da_hotkey a) = Inr (da_hotkey a)"
    using snap(4,5) by (auto simp: public_ss58_is_valid_def split: sum.splits)
  have "1 \<le> used" "int used \<le> da_attempts a" "\<forall>j. 1 \<le> j \<and> j < used \<longrightarrow> \<not> all_ok (doctor_checks (host_at j) a)"
    using first n by auto
  then show ?thesis
    using n passed(1-4) ends tcp keys target snap(1,2) by (intro exI [of _ used] exI [of _ ip] exI [of _ snap]) simp
qed

definition sample_doctor_args :: doctor_args where
  "sample_doctor_args =
     \<lparr>da_wallet_path = ''wallets'', da_wallet_name = ''cold'', da_wallet_hotkey = ''hot'', da_coldkey = ''5C'', da_hotkey = ''5F'',
      da_network = ''test'', da_netuid = 523, da_task_dirs = [''pack''], da_external_ip = ''8.8.8.8'', da_port = 8091,
      da_timeout = Fin 5, da_attempts = 2, da_retry_delay = Fin 0\<rparr>"

definition sample_metagraph :: metagraph where
  "sample_metagraph = \<lparr>mg_hotkeys = [''5F''], mg_uids = [7], mg_permits = [False], mg_last_update = None,
     mg_axons = [\<lparr>ax_ip = ''8.8.8.8'', ax_port = 8091, ax_coldkey = ''5C''\<rparr>]\<rparr>"

definition sample_doctor_sdk :: doctor_sdk where
  "sample_doctor_sdk =
     \<lparr>dc_context = \<lparr>ctx_posix = True, ctx_main_thread = True, ctx_installs = True\<rparr>, dc_alarm = sample_alarm,
      dc_connect = (\<lambda>net al. (Returns (), al)), dc_balance = (\<lambda>coldkey al. (Returns (With_rao (JInt 12)), al)),
      dc_metagraph = (\<lambda>uid al. (Returns sample_metagraph, al))\<rparr>"

text \<open>A host whose listener answers from the second attempt on.\<close>

definition sample_doctor_host :: "nat \<Rightarrow> (json, nat) doctor_host" where
  "sample_doctor_host k =
     \<lparr>dh_env = plain_env, dh_holdout = sample_holdout_env, dh_python = (3, 11, 9),
      dh_distribution = (\<lambda>name. Installed (dict_get_default expected_distributions name [])),
      dh_btcli = Some (Some (0, ''BTCLI version: 9.23.1'', [])), dh_ss58 = Inr, dh_expand = (\<lambda>p. p),
      dh_lstat = (\<lambda>p. Some (if ends_with p ''coldkeypub.txt'' \<or> ends_with p ''/hot'' then Regular_mode else Directory_mode)),
      dh_tree = sample_source,
      dh_source = \<lparr>ts_propose = (\<lambda>family n seed. Inr [sample_task]), ts_with_id = (\<lambda>i t. t), ts_fixture = Inr sample_task\<rparr>,
      dh_tcp = (\<lambda>host port. 1 < k \<and> host = ''8.8.8.8''), dh_bind = (\<lambda>port. True), dh_sdk = sample_doctor_sdk\<rparr>"

lemma sample_endpoint_of: "endpoint_of sample_doctor_args = Some (''8.8.8.8'', 8091, Fin 5)"
  using sample_addresses(1) by (simp add: endpoint_of_def sample_doctor_args_def require_port_def require_doctor_timeout_def fle_def)

lemma sample_parts:
  "all_ok (network_checks (sample_doctor_host 2) (Some (''8.8.8.8'', 8091, Fin 5)))"
  "\<not> all_ok (network_checks (sample_doctor_host 1) (Some (''8.8.8.8'', 8091, Fin 5)))"
  "all_ok (registration_checks (sample_doctor_host 2) sample_doctor_args True (Some (''8.8.8.8'', 8091, Fin 5)))"
  "target_check sample_doctor_args = (True, [(''ok'', JBool True), (''network'', JStr ''test''), (''netuid'', JInt 523)])"
  "truthy (jget (python_check (dh_python (sample_doctor_host 2))) ''ok'')"
  "truthy (jget (btcli_check (dh_btcli (sample_doctor_host 2))) ''ok'')"
  "truthy (jget (wallet_metadata_check (sample_doctor_host 2) (da_wallet_path sample_doctor_args)
     (da_wallet_name sample_doctor_args) (da_wallet_hotkey sample_doctor_args)) ''ok'')"
  "all_ok (map (\<lambda>(name, expected). (name, distribution_check (dh_distribution (sample_doctor_host 2) name) expected)) expected_distributions)"
  by code_simp+

lemma sample_tasks:
  "truthy (jget (reported (engine_smoke_check (sample_doctor_host 2)) ''engine_smoke_failed'') ''ok'')"
  "truthy (jget (reported (supplied_tasks_check (sample_doctor_host 2) [''pack'']) ''task_validation_failed'') ''ok'')"
  by code_simp+

lemma sample_audits: "\<not> all_ok (doctor_checks (sample_doctor_host 1) sample_doctor_args)"
  "all_ok (doctor_checks (sample_doctor_host 2) sample_doctor_args)"
proof -
  have "public_ss58_is_valid (sample_doctor_host k) s" for k s by (simp add: public_ss58_is_valid_def sample_doctor_host_def)
  moreover have "da_task_dirs sample_doctor_args = [''pack'']" by (simp add: sample_doctor_args_def)
  ultimately show "\<not> all_ok (doctor_checks (sample_doctor_host 1) sample_doctor_args)"
    "all_ok (doctor_checks (sample_doctor_host 2) sample_doctor_args)"
    using sample_parts sample_tasks by (simp_all add: doctor_checks_def Let_def sample_endpoint_of endpoint_check_def)
qed

lemma sample_diagnosis: "\<exists>report. doctor_command sample_doctor_host sample_doctor_args = Inr (report, 0)"
proof -
  have "doctor_attempts (\<lambda>i. doctor_checks (sample_doctor_host i) sample_doctor_args) 1 1 =
      (2, doctor_checks (sample_doctor_host 2) sample_doctor_args)"
    using sample_audits(1) by (simp add: numeral_2_eq_2)
  moreover have "require_doctor_attempts (da_attempts sample_doctor_args) = Inr 2"
    "require_doctor_retry_delay (da_retry_delay sample_doctor_args) = Inr (Fin 0)" by code_simp+
  ultimately show ?thesis using sample_audits(2) by (simp add: doctor_command_def Let_def)
qed

theorem doctor_vouches_witness:
  "\<exists>used ip (snap :: chain_snapshot). dh_tcp (sample_doctor_host used) ip (da_port sample_doctor_args)
     \<and> registered_as_published (cs_metagraph snap) sample_doctor_args ip"
proof -
  obtain report where "doctor_command sample_doctor_host sample_doctor_args = Inr (report, 0)" using sample_diagnosis by blast
  from doctor_vouches [OF this] show ?thesis by blast
qed

end
