(* ===== verification/Archives.thy ===== *)
theory Archives
  imports Atomic Panel Holdout
begin

text \<open>
  Archives of a release: the path policy that \<open>scripts/build_release_bundle.py\<close> and
  \<open>scripts/normalize_sdist.py\<close> share, the members of tar and zip files, and the normalisation of a
  source distribution.  The formats themselves (tar, gzip, zip, e-mail headers) are the standard library's and
  arguments; \<open>lawful_archiver\<close> says that what was packed is read back.
\<close>

unbundle bit_operations_syntax

section \<open>Paths\<close>

definition control_char :: "char \<Rightarrow> bool" where
  "control_char c = (let n = (of_char c :: nat) in n < 32 \<or> n = 127)"

definition backslash :: char where
  "backslash = CHR 0x5C"

text \<open>\<open>PurePosixPath(p).as_posix()\<close>.\<close>

definition as_posix :: "string \<Rightarrow> string" where
  "as_posix p =
     (case path_parts p of
        [] \<Rightarrow> ''.''
      | w # ws \<Rightarrow> if w = ''/'' then ''/'' @ join ''/'' ws else join ''/'' (w # ws))"

definition is_absolute :: "string \<Rightarrow> bool" where
  "is_absolute p = starts_with p ''/''"

datatype release_error = Bundle string | Release_raised exn

definition validate_archive_path :: "string \<Rightarrow> release_error + unit" where
  "validate_archive_path p =
     (if p = [] \<or> backslash \<in> set p \<or> list_ex control_char p then Inl (Bundle ''invalid path'')
      else if is_absolute p \<or> list_ex (\<lambda>w. w \<in> set [[], ''.'', ''..'']) (split_on (CHR ''/'') p) \<or> p \<noteq> as_posix p
      then Inl (Bundle ''unsafe path'')
      else Inr ())"

section \<open>Members\<close>

datatype member_kind = File_member | Directory_member | Special_member

record tar_member =
  tm_name :: string
  tm_kind :: member_kind
  tm_size :: int
  tm_mtime :: int
  tm_mode :: int
  tm_uid :: int
  tm_gid :: int
  tm_uname :: string
  tm_gname :: string
  tm_data :: bytes

record zip_info =
  zi_name :: string
  zi_size :: int
  zi_attributes :: int
  zi_data :: bytes

text \<open>
  The standard library: reading a gzip-compressed tar file, writing one in the PAX and in the USTAR
  format with a time stamp, the directory of a zip file, the name of its first corrupt member, and the
  fields \<open>Name\<close> and \<open>Version\<close> of metadata.  Members come with their data.  A failure is one
  of the errors an unreadable archive is known for (\<open>TarError\<close>, \<open>BadZipFile\<close>, \<open>OSError\<close>) or another exception.
\<close>

datatype archive_failure = Archive_error string | Other_failure exn

record archiver =
  ar_untar :: "bytes \<Rightarrow> archive_failure + tar_member list"
  ar_pax :: "tar_member list \<Rightarrow> int \<Rightarrow> bytes"
  ar_ustar :: "tar_member list \<Rightarrow> int \<Rightarrow> exn + bytes"
  ar_unzip :: "bytes \<Rightarrow> archive_failure + zip_info list"
  ar_testzip :: "bytes \<Rightarrow> archive_failure + string option"
  ar_metadata :: "bytes \<Rightarrow> string option \<times> string option"

definition little_endian :: "bytes \<Rightarrow> int" where
  "little_endian b = foldr (\<lambda>c acc. int (of_char c) + 256 * acc) b 0"

definition gzip_magic :: bytes where
  "gzip_magic = [CHR 0x1F, CHR 0x8B, CHR 0x08]"

text \<open>
  What the laws are about: members as a release writes them, with a relative path, an empty or equal size, no
  owner and one of two modes.
\<close>

definition packable :: "tar_member \<Rightarrow> bool" where
  "packable m \<longleftrightarrow>
     validate_archive_path (tm_name m) = Inr () \<and> tm_kind m \<noteq> Special_member
     \<and> tm_size m = int (length (tm_data m)) \<and> (tm_kind m = Directory_member \<longrightarrow> tm_data m = [])
     \<and> 0 \<le> tm_mtime m \<and> tm_mtime m < 2 ^ 31 \<and> (tm_mode m = 493 \<or> tm_mode m = 420)
     \<and> tm_uid m = 0 \<and> tm_gid m = 0 \<and> tm_uname m = [] \<and> tm_gname m = []"

definition lawful_archiver :: "archiver \<Rightarrow> bool" where
  "lawful_archiver ar \<longleftrightarrow>
     (\<forall>ms t. list_all packable ms \<and> 0 \<le> t \<and> t < 2 ^ 31 \<longrightarrow>
        ar_untar ar (ar_pax ar ms t) = Inr ms \<and> 10 \<le> length (ar_pax ar ms t) \<and> take 3 (ar_pax ar ms t) = gzip_magic
        \<and> little_endian (take 4 (drop 4 (ar_pax ar ms t))) = t)
     \<and> (\<forall>ms t b. list_all packable ms \<and> 0 \<le> t \<and> t < 2 ^ 31 \<and> ar_ustar ar ms t = Inr b \<longrightarrow> ar_untar ar b = Inr ms)"

text \<open>A file as \<open>lstat\<close> sees it.\<close>

datatype input_file = Absent_file | Irregular_file | Regular_file bytes

definition require_regular_file :: "input_file \<Rightarrow> release_error + bytes" where
  "require_regular_file f =
     (case f of
        Absent_file \<Rightarrow> Inl (Bundle ''does not exist'')
      | Irregular_file \<Rightarrow> Inl (Bundle ''must be a regular file, not a symlink'')
      | Regular_file b \<Rightarrow> Inr b)"

section \<open>Normalising a source distribution\<close>

definition safe_name :: "string \<Rightarrow> exn + string" where
  "safe_name name =
     (let unsafe = value_error ''unsafe source-distribution member'' in
      if name = [] \<or> backslash \<in> set name \<or> list_ex control_char name then Inl unsafe
      else if is_absolute name \<or> list_ex (\<lambda>w. w \<in> set [[], ''.'', ''..'']) (split_on (CHR ''/'') name) \<or> name \<noteq> as_posix name
      then Inl unsafe
      else Inr (as_posix name))"

record sdist_member =
  sd_name :: string
  sd_directory :: bool
  sd_executable :: bool
  sd_data :: bytes

definition top_part :: "string \<Rightarrow> string" where
  "top_part p = hd (path_parts p)"

definition executable_bits :: "int \<Rightarrow> bool" where
  "executable_bits mode = (mode AND 73 \<noteq> 0)"

definition sdist_member_of :: "tar_member \<Rightarrow> string \<Rightarrow> exn + sdist_member" where
  "sdist_member_of m name =
     (if tm_kind m = Special_member then Inl (value_error ''source distribution contains a link or special member'')
      else Inr \<lparr>sd_name = name, sd_directory = (tm_kind m = Directory_member), sd_executable = executable_bits (tm_mode m),
        sd_data = (if tm_kind m = File_member then tm_data m else [])\<rparr>)"

definition sdist_failure :: "archive_failure \<Rightarrow> exn" where
  "sdist_failure f =
     (case f of Archive_error t \<Rightarrow> value_error (''invalid source distribution: '' @ t) | Other_failure e \<Rightarrow> e)"

definition read_members :: "archiver \<Rightarrow> input_file \<Rightarrow> exn + sdist_member list" where
  "read_members ar source =
     (case source of
        Absent_file \<Rightarrow> Inl (value_error ''source distribution does not exist'')
      | Irregular_file \<Rightarrow> Inl (value_error ''source distribution must be a regular file, not a symlink'')
      | Regular_file b \<Rightarrow>
          bind_result (map_error sdist_failure (ar_untar ar b)) (\<lambda>raw.
          bind_result (map_result (\<lambda>m. safe_name (tm_name m)) raw) (\<lambda>names.
          bind_result (require (names \<noteq> []) (value_error ''source distribution is empty'')) (\<lambda>_.
          bind_result (require (distinct names) (value_error ''source distribution contains duplicate members'')) (\<lambda>_.
          bind_result (require (card (set (map top_part names)) = 1)
            (value_error ''source distribution must have exactly one top-level root'')) (\<lambda>_.
          bind_result (map_result (\<lambda>(m, name). sdist_member_of m name) (zip raw names)) (\<lambda>members.
          Inr (sort_key sd_name members))))))))"

definition normal_member :: "int \<Rightarrow> sdist_member \<Rightarrow> tar_member" where
  "normal_member epoch m =
     \<lparr>tm_name = sd_name m, tm_kind = (if sd_directory m then Directory_member else File_member),
      tm_size = (if sd_directory m then 0 else int (length (sd_data m))), tm_mtime = epoch,
      tm_mode = (if sd_directory m \<or> sd_executable m then 493 else 420), tm_uid = 0, tm_gid = 0, tm_uname = [], tm_gname = [],
      tm_data = (if sd_directory m then [] else sd_data m)\<rparr>"

definition epoch_1980 :: int where
  "epoch_1980 = 315532800"

text \<open>The state is the file; the file that replaces it is complete before it takes the name.\<close>

definition normalize_sdist :: "archiver \<Rightarrow> (bytes \<Rightarrow> string) \<Rightarrow> int \<Rightarrow> (input_file, exn, string) op" where
  "normalize_sdist ar digest epoch =
     bind_op (guard_op (epoch_1980 \<le> epoch \<and> epoch \<le> 2 ^ 31 - 1)
       (value_error ''epoch must be an integer from 1980-01-01 through 2038-01-19'')) (\<lambda>_.
     bind_op get_op (\<lambda>source.
     bind_op (lift_op (read_members ar source)) (\<lambda>members.
     let b = ar_pax ar (map (normal_member epoch) members) epoch in
     bind_op (modify_op (\<lambda>_. Regular_file b)) (\<lambda>_. return_op (digest b)))))"

text \<open>\<open>main\<close>, after the arguments are parsed: the exit code and the line printed.\<close>

definition normalize_command :: "archiver \<Rightarrow> (bytes \<Rightarrow> string) \<Rightarrow> int \<Rightarrow> string \<Rightarrow> (input_file, exn, int \<times> string) op" where
  "normalize_command ar digest epoch p =
     catch_op
       (bind_op (normalize_sdist ar digest epoch) (\<lambda>h. return_op (0, ''sha256='' @ h @ '' path='' @ p)))
       (\<lambda>e. if exn_type e \<in> set [''OSError'', ''ValueError''] then return_op (2, ''error: '' @ exn_text e) else fail_op e)"

section \<open>Checking wheels and source distributions\<close>

definition archive_invalid :: "string \<Rightarrow> archive_failure \<Rightarrow> release_error" where
  "archive_invalid what f = (case f of Archive_error t \<Rightarrow> Bundle what | Other_failure e \<Rightarrow> Release_raised e)"

definition max_archive_member_bytes :: int where
  "max_archive_member_bytes = 128 * 1024 * 1024"

definition max_archive_total_bytes :: int where
  "max_archive_total_bytes = 512 * 1024 * 1024"


text \<open>\<open>re.sub(r"[-_.]+", "-", value).lower()\<close>.\<close>

fun dash_runs :: "bool \<Rightarrow> string \<Rightarrow> string" where
  "dash_runs inside [] = []"
| "dash_runs inside (c # s) =
     (if c \<in> set ''-_.'' then (if inside then dash_runs True s else CHR ''-'' # dash_runs True s)
      else c # dash_runs False s)"

definition canonical_distribution :: "string \<Rightarrow> string" where
  "canonical_distribution name = lower (dash_runs False name)"

definition validate_distribution_metadata ::
  "archiver \<Rightarrow> bytes \<Rightarrow> string \<Rightarrow> string \<Rightarrow> release_error + unit" where
  "validate_distribution_metadata ar metadata distribution ver =
     (case ar_metadata ar metadata of
        (name, found) \<Rightarrow>
          bind_result (require (case name of None \<Rightarrow> False | Some n \<Rightarrow> canonical_distribution n = distribution)
            (Bundle ''unexpected distribution name'')) (\<lambda>_.
          require (found = Some ver) (Bundle ''unexpected version'')))"

definition unix_file_type :: "zip_info \<Rightarrow> int" where
  "unix_file_type i = (drop_bit 16 (zi_attributes i) AND 61440)"

fun check_wheel_members :: "int \<Rightarrow> zip_info list \<Rightarrow> release_error + unit" where
  "check_wheel_members seen [] = Inr ()"
| "check_wheel_members seen (i # infos) =
     bind_result (validate_archive_path (zi_name i)) (\<lambda>_.
     bind_result (require (zi_size i \<le> max_archive_member_bytes) (Bundle ''wheel member exceeds the size limit'')) (\<lambda>_.
     bind_result (require (seen + zi_size i \<le> max_archive_total_bytes) (Bundle ''wheel exceeds the uncompressed size limit'')) (\<lambda>_.
     bind_result (require (unix_file_type i \<noteq> 40960) (Bundle ''wheel contains a symlink'')) (\<lambda>_.
     bind_result (require (unix_file_type i \<in> set [0, 32768, 16384]) (Bundle ''wheel contains an unsupported member type'')) (\<lambda>_.
     check_wheel_members (seen + zi_size i) infos)))))"

definition validate_wheel_bytes :: "archiver \<Rightarrow> bytes \<Rightarrow> string \<Rightarrow> string \<Rightarrow> release_error + unit" where
  "validate_wheel_bytes ar b distribution ver =
     bind_result (require (int (length b) \<le> max_archive_member_bytes) (Bundle ''wheel exceeds the compressed size limit'')) (\<lambda>_.
     bind_result (map_error (archive_invalid ''invalid wheel'') (ar_unzip ar b)) (\<lambda>infos.
     bind_result (require (distinct (map zi_name infos)) (Bundle ''wheel contains duplicate paths'')) (\<lambda>_.
     bind_result (check_wheel_members 0 infos) (\<lambda>_.
     bind_result (map_error (archive_invalid ''invalid wheel'') (ar_testzip ar b)) (\<lambda>corrupt.
     bind_result (require (corrupt = None) (Bundle ''wheel CRC check failed'')) (\<lambda>_.
     (case filter (\<lambda>i. ends_with (zi_name i) ''.dist-info/METADATA'') infos of
        [i] \<Rightarrow> validate_distribution_metadata ar (zi_data i) distribution ver
      | _ \<Rightarrow> Inl (Bundle ''wheel must contain exactly one dist-info/METADATA''))))))))"

text \<open>The loop over the members, with the total so far.\<close>

definition expected_mode :: "tar_member \<Rightarrow> int" where
  "expected_mode m = (if tm_kind m = Directory_member \<or> executable_bits (tm_mode m) then 493 else 420)"

fun check_sdist_members :: "int \<Rightarrow> string \<Rightarrow> int \<Rightarrow> tar_member list \<Rightarrow> release_error + unit" where
  "check_sdist_members epoch folder seen [] = Inr ()"
| "check_sdist_members epoch folder seen (m # ms) =
     bind_result (validate_archive_path (tm_name m)) (\<lambda>_.
     bind_result (require (tm_kind m \<noteq> Special_member) (Bundle ''source distribution contains a link or special file'')) (\<lambda>_.
     bind_result (require (tm_size m \<le> max_archive_member_bytes) (Bundle ''source distribution member exceeds the size limit'')) (\<lambda>_.
     bind_result (require (seen + tm_size m \<le> max_archive_total_bytes)
       (Bundle ''source distribution exceeds the uncompressed size limit'')) (\<lambda>_.
     bind_result (require (tm_mtime m = epoch) (Bundle ''source distribution member has a non-release mtime'')) (\<lambda>_.
     bind_result (require (tm_uid m = 0 \<and> tm_gid m = 0 \<and> tm_uname m = [] \<and> tm_gname m = [])
       (Bundle ''source distribution member has host ownership'')) (\<lambda>_.
     bind_result (require (tm_mode m = expected_mode m) (Bundle ''source distribution member has a noncanonical mode'')) (\<lambda>_.
     bind_result (require (top_part (tm_name m) = folder) (Bundle ''source distribution member escapes expected root'')) (\<lambda>_.
     check_sdist_members epoch folder (seen + tm_size m) ms))))))))"

definition subnet_root :: "string \<Rightarrow> string" where
  "subnet_root ver = ''dolores_bittensor_subnet-'' @ ver"

definition validate_sdist_bytes :: "archiver \<Rightarrow> bytes \<Rightarrow> string \<Rightarrow> string \<Rightarrow> int \<Rightarrow> release_error + unit" where
  "validate_sdist_bytes ar b distribution ver epoch =
     bind_result (require (int (length b) \<le> max_archive_member_bytes)
       (Bundle ''source distribution exceeds the compressed size limit'')) (\<lambda>_.
     bind_result (require (10 \<le> length b \<and> take 3 b = gzip_magic) (Bundle ''invalid gzip header in source distribution'')) (\<lambda>_.
     bind_result (require (little_endian (take 4 (drop 4 b)) = epoch)
       (Bundle ''source distribution gzip mtime is not the release epoch'')) (\<lambda>_.
     bind_result (map_error (archive_invalid ''invalid source distribution'') (ar_untar ar b)) (\<lambda>members.
     bind_result (require (sorted (map tm_name members)) (Bundle ''source distribution members are not sorted'')) (\<lambda>_.
     bind_result (require (distinct (map tm_name members)) (Bundle ''source distribution contains duplicate paths'')) (\<lambda>_.
     bind_result (check_sdist_members epoch (subnet_root ver) 0 members) (\<lambda>_.
     (case filter (\<lambda>m. tm_name m = subnet_root ver @ ''/PKG-INFO'') members of
        [m] \<Rightarrow>
          if tm_kind m \<noteq> File_member then Inl (Bundle ''source distribution must contain one top-level PKG-INFO'')
          else validate_distribution_metadata ar (tm_data m) distribution ver
      | _ \<Rightarrow> Inl (Bundle ''source distribution must contain one top-level PKG-INFO'')))))))))"

section \<open>The two path policies\<close>

lemma safe_name_policy: "safe_name name = Inr p \<longleftrightarrow> p = name \<and> validate_archive_path name = Inr ()"
  by (auto simp: safe_name_def validate_archive_path_def Let_def)

lemma check_sdist_members_ok:
  assumes "list_all (\<lambda>m. validate_archive_path (tm_name m) = Inr () \<and> tm_kind m \<noteq> Special_member \<and> 0 \<le> tm_size m
      \<and> tm_size m \<le> max_archive_member_bytes \<and> tm_mtime m = epoch \<and> tm_uid m = 0 \<and> tm_gid m = 0 \<and> tm_uname m = [] \<and> tm_gname m = []
      \<and> tm_mode m = expected_mode m \<and> top_part (tm_name m) = folder) ms"
    and "seen + sum_list (map tm_size ms) \<le> max_archive_total_bytes"
  shows "check_sdist_members epoch folder seen ms = Inr ()"
  using assms
proof (induction ms arbitrary: seen)
  case (Cons m ms)
  have "0 \<le> sum_list (map tm_size ms)" using Cons.prems(1) by (intro sum_list_nonneg) (auto simp: list_all_iff)
  with Cons show ?case by simp
qed simp

section \<open>What normalisation writes\<close>

definition raw_member :: "tar_member \<Rightarrow> sdist_member" where
  "raw_member m = \<lparr>sd_name = tm_name m, sd_directory = (tm_kind m = Directory_member), sd_executable = executable_bits (tm_mode m),
     sd_data = (if tm_kind m = File_member then tm_data m else [])\<rparr>"

lemma safe_names: "map_result (\<lambda>m. safe_name (tm_name m)) raw = Inr names \<longleftrightarrow>
    names = map tm_name raw \<and> list_all (\<lambda>m. validate_archive_path (tm_name m) = Inr ()) raw"
  by (induction raw arbitrary: names) (auto simp: safe_name_policy)

lemma raw_members: "map_result (\<lambda>(m, name). sdist_member_of m name) (zip raw (map tm_name raw)) = Inr members \<longleftrightarrow>
    members = map raw_member raw \<and> list_all (\<lambda>m. tm_kind m \<noteq> Special_member) raw"
  by (induction raw arbitrary: members) (auto simp: sdist_member_of_def raw_member_def)

lemma read_members_Inr:
  "read_members ar source = Inr members \<longleftrightarrow>
     (\<exists>b raw. source = Regular_file b \<and> ar_untar ar b = Inr raw \<and> raw \<noteq> [] \<and> distinct (map tm_name raw)
        \<and> card (set (map (\<lambda>m. top_part (tm_name m)) raw)) = 1
        \<and> list_all (\<lambda>m. validate_archive_path (tm_name m) = Inr () \<and> tm_kind m \<noteq> Special_member) raw
        \<and> members = sort_key sd_name (map raw_member raw))"
  by (cases source) (auto simp: read_members_def safe_names raw_members list_all_iff image_image)

lemma set_sorted_raw: "set (sort_key sd_name (map raw_member raw)) = raw_member ` set raw"
  by simp

lemma normalized_members:
  assumes "read_members ar source = Inr members" "ms = map (normal_member epoch) members"
  shows "sorted (map tm_name ms)" "distinct (map tm_name ms)" "ms \<noteq> []" "card (set (map (\<lambda>m. top_part (tm_name m)) ms)) = 1"
    and "list_all (\<lambda>m. validate_archive_path (tm_name m) = Inr () \<and> tm_kind m \<noteq> Special_member) ms"
    and "list_all (\<lambda>m. tm_mtime m = epoch \<and> tm_uid m = 0 \<and> tm_gid m = 0 \<and> tm_uname m = [] \<and> tm_gname m = []
      \<and> tm_mode m = expected_mode m \<and> 0 \<le> tm_size m) ms"
proof -
  obtain raw where raw: "raw \<noteq> []" "distinct (map tm_name raw)" "card (set (map (\<lambda>m. top_part (tm_name m)) raw)) = 1"
    "list_all (\<lambda>m. validate_archive_path (tm_name m) = Inr () \<and> tm_kind m \<noteq> Special_member) raw"
    "members = sort_key sd_name (map raw_member raw)"
    using assms(1) by (auto simp: read_members_Inr)
  have names: "map tm_name ms = map sd_name members" by (simp add: assms(2) normal_member_def)
  have set_names: "set (map sd_name members) = set (map tm_name raw)" by (simp add: raw(5) image_image raw_member_def)
  show "sorted (map tm_name ms)" using raw(5) names by simp
  have "mset (map sd_name members) = mset (map tm_name raw)" by (simp add: raw(5) multiset.map_comp comp_def raw_member_def)
  then show "distinct (map tm_name ms)" using raw(2) names by (metis mset_eq_imp_distinct_iff)
  show "ms \<noteq> []" using raw(1,5) assms(2) by (metis length_0_conv length_map length_sort)
  have "set (map (\<lambda>m. top_part (tm_name m)) ms) = top_part ` set (map tm_name ms)" by auto
  also have "\<dots> = set (map (\<lambda>m. top_part (tm_name m)) raw)" using names set_names by (auto simp: image_image)
  finally show "card (set (map (\<lambda>m. top_part (tm_name m)) ms)) = 1" using raw(3) by simp
  show "list_all (\<lambda>m. validate_archive_path (tm_name m) = Inr () \<and> tm_kind m \<noteq> Special_member) ms"
    using raw(4,5) assms(2) by (auto simp: list_all_iff normal_member_def raw_member_def)
  show "list_all (\<lambda>m. tm_mtime m = epoch \<and> tm_uid m = 0 \<and> tm_gid m = 0 \<and> tm_uname m = [] \<and> tm_gname m = []
      \<and> tm_mode m = expected_mode m \<and> 0 \<le> tm_size m) ms"
  proof -
    have "executable_bits 493" "\<not> executable_bits 420" by (simp_all add: executable_bits_def)
    then show ?thesis using assms(2) by (auto simp: list_all_iff normal_member_def expected_mode_def)
  qed
qed

lemma normalize_sdist_Inr:
  "normalize_sdist ar digest epoch source = (Inr h, source') \<longleftrightarrow>
     epoch_1980 \<le> epoch \<and> epoch \<le> 2 ^ 31 - 1
     \<and> (\<exists>members. read_members ar source = Inr members
          \<and> source' = Regular_file (ar_pax ar (map (normal_member epoch) members) epoch)
          \<and> h = digest (ar_pax ar (map (normal_member epoch) members) epoch))"
  by (auto simp: normalize_sdist_def op_plumbing Let_def require_def split: sum.splits if_splits)

lemma normalized_packable:
  assumes "read_members ar source = Inr members" "ms = map (normal_member epoch) members" "0 \<le> epoch" "epoch < 2 ^ 31"
  shows "list_all packable ms"
  using normalized_members(5,6) [OF assms(1,2)] assms(2-4)
  by (auto simp: list_all_iff packable_def normal_member_def)

text \<open>A normal member is its own normalisation.\<close>

lemma renormal: "normal_member epoch (raw_member (normal_member epoch m)) = normal_member epoch m"
proof -
  have "executable_bits 493" "\<not> executable_bits 420" by (simp_all add: executable_bits_def)
  then show ?thesis by (simp add: normal_member_def raw_member_def)
qed

lemma normalized_again:
  assumes "lawful_archiver ar" "read_members ar source = Inr members" "ms = map (normal_member epoch) members"
    and "0 \<le> epoch" "epoch < 2 ^ 31"
  shows "\<exists>again. read_members ar (Regular_file (ar_pax ar ms epoch)) = Inr again \<and> map (normal_member epoch) again = ms"
proof -
  note ms = normalized_members [OF assms(2,3)]
  have "ar_untar ar (ar_pax ar ms epoch) = Inr ms"
    using assms(1,4,5) normalized_packable [OF assms(2-5)] by (simp add: lawful_archiver_def)
  with ms have "read_members ar (Regular_file (ar_pax ar ms epoch)) = Inr (sort_key sd_name (map raw_member ms))"
    by (auto simp: read_members_Inr)
  moreover have "map sd_name (map raw_member ms) = map tm_name ms" by (simp add: raw_member_def)
  with ms(1) have "sorted (map sd_name (map raw_member ms))" by (simp del: map_map)
  then have "sort_key sd_name (map raw_member ms) = map raw_member ms" by (rule sort_key_id_if_sorted)
  moreover have "map (normal_member epoch) (map raw_member ms) = ms"
    using renormal by (simp add: assms(3) comp_def)
  ultimately show ?thesis by auto
qed

text \<open>What the release demands beyond the metadata that normalisation settles.\<close>

definition releasable :: "archiver \<Rightarrow> string \<Rightarrow> string \<Rightarrow> tar_member list \<Rightarrow> bool" where
  "releasable ar distribution ver raw \<longleftrightarrow>
     list_all (\<lambda>m. top_part (tm_name m) = subnet_root ver \<and> int (length (tm_data m)) \<le> max_archive_member_bytes) raw
     \<and> sum_list (map (\<lambda>m. int (length (tm_data m))) raw) \<le> max_archive_total_bytes
     \<and> (\<exists>m \<in> set raw. tm_name m = subnet_root ver @ ''/PKG-INFO'' \<and> tm_kind m = File_member
          \<and> validate_distribution_metadata ar (tm_data m) distribution ver = Inr ())"

lemma normal_sizes:
  "tm_size (normal_member epoch (raw_member m)) \<le> int (length (tm_data m))"
  by (simp add: normal_member_def raw_member_def)

lemma normal_total:
  "sum_list (map (\<lambda>m. tm_size (normal_member epoch m)) (sort_key sd_name (map raw_member raw))) \<le> sum_list (map (\<lambda>m. int (length (tm_data m))) raw)"
proof -
  have "sum_list (map (\<lambda>m. tm_size (normal_member epoch m)) (sort_key sd_name (map raw_member raw)))
      = sum_mset (image_mset (\<lambda>m. tm_size (normal_member epoch m)) (mset (map raw_member raw)))"
    by (metis mset_map mset_sort sum_mset_sum_list)
  also have "\<dots> = sum_list (map (\<lambda>m. tm_size (normal_member epoch (raw_member m))) raw)"
    by (metis (no_types, lifting) comp_apply list.map_comp map_eq_conv mset_map sum_mset_sum_list)
  also have "\<dots> \<le> sum_list (map (\<lambda>m. int (length (tm_data m))) raw)"
    using normal_sizes by (intro sum_list_mono) simp
  finally show ?thesis .
qed

lemma filter_named:
  "distinct (map f xs) \<Longrightarrow> x \<in> set xs \<Longrightarrow> filter (\<lambda>y. f y = f x) xs = [x]"
  by (induction xs) (auto simp: filter_empty_conv image_iff)

text \<open>C28: normalising a source distribution settles everything the release checks of its archive: when the members are
  within the size limits under the release's root with a \<open>PKG-INFO\<close> of the right name and version, the
  normalised file passes; and normalising once more changes nothing.  What was packed is to be read back.\<close>

theorem normalized_is_releasable:
  assumes "normalize_sdist ar digest epoch source = (Inr h, Regular_file b)" "lawful_archiver ar"
    and "source = Regular_file b0" "ar_untar ar b0 = Inr raw" "releasable ar distribution ver raw"
    and "int (length b) \<le> max_archive_member_bytes"
  shows "validate_sdist_bytes ar b distribution ver epoch = Inr ()
    \<and> normalize_sdist ar digest epoch (Regular_file b) = (Inr h, Regular_file b)"
proof -
  obtain members where run: "read_members ar source = Inr members" "epoch_1980 \<le> epoch" "epoch \<le> 2 ^ 31 - 1"
      "b = ar_pax ar (map (normal_member epoch) members) epoch" "h = digest b"
    using assms(1) by (auto simp: normalize_sdist_Inr)
  define ms where "ms = map (normal_member epoch) members"
  note ms = normalized_members [OF run(1) ms_def]
  have members: "members = sort_key sd_name (map raw_member raw)" using run(1) assms(3,4) by (auto simp: read_members_Inr)
  have epoch: "0 \<le> epoch" "epoch < 2 ^ 31" using run(2,3) by (simp_all add: epoch_1980_def)
  have header: "ar_untar ar b = Inr ms" "10 \<le> length b" "take 3 b = gzip_magic" "little_endian (take 4 (drop 4 b)) = epoch"
    using assms(2) normalized_packable [OF run(1) ms_def epoch] epoch by (simp_all add: lawful_archiver_def run(4) ms_def)
  have rel: "list_all (\<lambda>m. top_part (tm_name m) = subnet_root ver \<and> tm_size m \<le> max_archive_member_bytes) ms"
    using assms(5) order_trans [OF normal_sizes] by (auto simp: list_all_iff ms_def members releasable_def normal_member_def raw_member_def)
  have "sum_list (map tm_size ms) \<le> max_archive_total_bytes"
    using assms(5) normal_total [of epoch raw] by (simp add: ms_def members releasable_def comp_def)
  then have check: "check_sdist_members epoch (subnet_root ver) 0 ms = Inr ()"
    using ms rel by (intro check_sdist_members_ok) (simp_all add: list_all_iff)
  obtain m where m: "m \<in> set raw" "tm_name m = subnet_root ver @ ''/PKG-INFO''" "tm_kind m = File_member"
    "validate_distribution_metadata ar (tm_data m) distribution ver = Inr ()" using assms(5) by (auto simp: releasable_def)
  let ?m = "normal_member epoch (raw_member m)"
  have "?m \<in> set ms" using m(1) by (simp add: ms_def members)
  with ms(2) have "filter (\<lambda>k. tm_name k = tm_name ?m) ms = [?m]" by (rule filter_named)
  then have info: "filter (\<lambda>k. tm_name k = subnet_root ver @ ''/PKG-INFO'') ms = [?m]"
    using m(2) by (simp add: normal_member_def raw_member_def)
  have "tm_kind ?m = File_member" "tm_data ?m = tm_data m" using m(3) by (simp_all add: normal_member_def raw_member_def)
  with info m(4) header check ms(1,2) assms(6)
  have "validate_sdist_bytes ar b distribution ver epoch = Inr ()" by (simp add: validate_sdist_bytes_def)
  moreover obtain again where "read_members ar (Regular_file b) = Inr again" "map (normal_member epoch) again = ms"
    using normalized_again [OF assms(2) run(1) ms_def epoch] run(4) by (auto simp: ms_def)
  then have "normalize_sdist ar digest epoch (Regular_file b) = (Inr h, Regular_file b)"
    using run by (simp add: normalize_sdist_Inr ms_def)
  ultimately show ?thesis by blast
qed

section \<open>A plain archiver\<close>

text \<open>
  A lawful archiver to evaluate the model with: members behind a gzip header, lengths in unary, numbers in four bytes.
\<close>

definition four_bytes :: "int \<Rightarrow> bytes" where
  "four_bytes n = map (\<lambda>k. char_of (nat (n div 256 ^ k mod 256))) [0, 1, 2, 3]"

lemma little_endian_four_bytes:
  assumes "0 \<le> n" "n < 2 ^ 31"
  shows "little_endian (four_bytes n) = n"
proof -
  have "int (of_char (char_of (nat (k mod 256)) :: char)) = k mod 256" for k :: int
    by simp
  then have "little_endian (four_bytes n) = n mod 256 + 256 * (n div 256 mod 256 + 256 * (n div 65536 mod 256 + 256 * (n div 16777216 mod 256)))"
    by (simp add: little_endian_def four_bytes_def)
  moreover have "n div 65536 = n div 256 div 256" "n div 16777216 = n div 256 div 256 div 256"
    by (simp_all flip: zdiv_zmult2_eq)
  moreover have "n div 256 div 256 div 256 < 256" "0 \<le> n div 256 div 256 div 256"
    using assms by (simp_all add: pos_imp_zdiv_nonneg_iff flip: zdiv_zmult2_eq)
  then have "n div 256 div 256 div 256 mod 256 = n div 256 div 256 div 256" by simp
  ultimately show ?thesis by (simp add: mod_mult_div_eq)
qed

definition pack_text :: "string \<Rightarrow> bytes" where
  "pack_text s = replicate (length s) (CHR ''1'') @ CHR ''0'' # s"

fun unpack_length :: "bytes \<Rightarrow> nat \<times> bytes" where
  "unpack_length [] = (0, [])"
| "unpack_length (c # s) = (if c = CHR ''0'' then (0, s) else apfst Suc (unpack_length s))"

definition unpack_text :: "bytes \<Rightarrow> string \<times> bytes" where
  "unpack_text b = (case unpack_length b of (n, r) \<Rightarrow> (take n r, drop n r))"

lemma unpack_length_replicate: "unpack_length (replicate n (CHR ''1'') @ CHR ''0'' # r) = (n, r)"
  by (induction n) simp_all

lemma unpack_pack_text [simp]: "unpack_text (pack_text s @ r) = (s, r)"
  by (simp add: unpack_text_def pack_text_def unpack_length_replicate)

definition pack_member :: "tar_member \<Rightarrow> bytes" where
  "pack_member m =
     (if tm_kind m = Directory_member then CHR ''d'' else CHR ''f'') # (if tm_mode m = 493 then CHR ''x'' else CHR ''r'')
     # four_bytes (tm_mtime m) @ pack_text (tm_name m) @ pack_text (tm_data m)"

definition unpack_member :: "bytes \<Rightarrow> tar_member \<times> bytes" where
  "unpack_member b =
     (case unpack_text (drop 6 b) of (name, r) \<Rightarrow>
      case unpack_text r of (data, rest) \<Rightarrow>
        (\<lparr>tm_name = name, tm_kind = (if b ! 0 = CHR ''d'' then Directory_member else File_member), tm_size = int (length data),
          tm_mtime = little_endian (take 4 (drop 2 b)), tm_mode = (if b ! 1 = CHR ''x'' then 493 else 420),
          tm_uid = 0, tm_gid = 0, tm_uname = [], tm_gname = [], tm_data = data\<rparr>, rest))"

lemma length_four_bytes [simp]: "length (four_bytes n) = 4"
  by (simp add: four_bytes_def)

lemma unpack_pack_member:
  assumes "packable m"
  shows "unpack_member (pack_member m @ r) = (m, r)"
proof -
  have "take 4 (drop 2 (pack_member m @ r)) = four_bytes (tm_mtime m)"
    "drop 6 (pack_member m @ r) = pack_text (tm_name m) @ pack_text (tm_data m) @ r" by (simp_all add: pack_member_def)
  moreover have "(pack_member m @ r) ! 0 = (if tm_kind m = Directory_member then CHR ''d'' else CHR ''f'')"
    "(pack_member m @ r) ! 1 = (if tm_mode m = 493 then CHR ''x'' else CHR ''r'')"
    by (simp_all add: pack_member_def)
  moreover have "tm_kind m = Directory_member \<or> tm_kind m = File_member"
    using assms by (cases "tm_kind m") (simp_all add: packable_def)
  moreover have "tm_mode m = 493 \<or> tm_mode m = 420" "little_endian (four_bytes (tm_mtime m)) = tm_mtime m"
    using assms by (auto simp: packable_def little_endian_four_bytes)
  ultimately show ?thesis using assms
    by (intro prod_eqI tar_member.equality) (auto simp: unpack_member_def packable_def)
qed

primrec unpack_members :: "nat \<Rightarrow> bytes \<Rightarrow> tar_member list" where
  "unpack_members 0 b = []"
| "unpack_members (Suc n) b = (case unpack_member b of (m, r) \<Rightarrow> m # unpack_members n r)"

lemma unpack_pack_members: "list_all packable ms \<Longrightarrow> unpack_members (length ms) (concat (map pack_member ms)) = ms"
  by (induction ms) (simp_all add: unpack_pack_member)

definition pack :: "tar_member list \<Rightarrow> int \<Rightarrow> bytes" where
  "pack ms t = gzip_magic @ CHR ''0'' # four_bytes t @ ''00'' @ replicate (length ms) (CHR ''1'') @ CHR ''0'' # concat (map pack_member ms)"

definition unpack :: "bytes \<Rightarrow> tar_member list" where
  "unpack b = (case unpack_length (drop 10 b) of (n, r) \<Rightarrow> unpack_members n r)"

text \<open>A wheel holds nothing but its metadata, which are the name and the version separated by a space.\<close>

definition plain_archiver :: archiver where
  "plain_archiver =
     \<lparr>ar_untar = (\<lambda>b. Inr (unpack b)), ar_pax = pack, ar_ustar = (\<lambda>ms t. Inr (pack ms t)),
      ar_unzip = (\<lambda>b. Inr [\<lparr>zi_name = ''p.dist-info/METADATA'', zi_size = int (length b), zi_attributes = 0, zi_data = b\<rparr>]),
      ar_testzip = (\<lambda>b. Inr None),
      ar_metadata = (\<lambda>b. (Some (takeWhile (\<lambda>c. c \<noteq> CHR '' '') b), Some (tl (dropWhile (\<lambda>c. c \<noteq> CHR '' '') b))))\<rparr>"

lemma unpack_pack: "list_all packable ms \<Longrightarrow> unpack (pack ms t) = ms"
  by (simp add: unpack_def pack_def gzip_magic_def unpack_length_replicate unpack_pack_members)

lemma plain_archiver_lawful: "lawful_archiver plain_archiver"
  by (auto simp: lawful_archiver_def plain_archiver_def unpack_pack)
    (auto simp: pack_def gzip_magic_def little_endian_four_bytes)

definition sample_sdist :: "tar_member list" where
  "sample_sdist =
     [\<lparr>tm_name = ''dolores_bittensor_subnet-1/a.py'', tm_kind = File_member, tm_size = 4, tm_mtime = 5, tm_mode = 493,
       tm_uid = 0, tm_gid = 0, tm_uname = [], tm_gname = [], tm_data = ''pass''\<rparr>,
      \<lparr>tm_name = ''dolores_bittensor_subnet-1/PKG-INFO'', tm_kind = File_member, tm_size = 26, tm_mtime = 7, tm_mode = 420,
       tm_uid = 0, tm_gid = 0, tm_uname = [], tm_gname = [], tm_data = ''dolores_bittensor_Subnet 1''\<rparr>]"

lemma sample_sdist_packable: "list_all packable sample_sdist"
  by code_simp

lemma sample_sdist_releasable: "releasable plain_archiver ''dolores-bittensor-subnet'' ''1'' sample_sdist"
  by code_simp

lemma sample_sdist_checks: "distinct (map tm_name sample_sdist)" "sample_sdist \<noteq> []"
  "card (set (map (\<lambda>m. top_part (tm_name m)) sample_sdist)) = 1"
  by code_simp+

definition sample_normal :: bytes where
  "sample_normal = pack (map (normal_member 400000000) (sort_key sd_name (map raw_member sample_sdist))) 400000000"

lemma sample_normal_small: "int (length sample_normal) \<le> max_archive_member_bytes"
  by code_simp

lemma sample_normalized:
  "normalize_sdist plain_archiver (\<lambda>b. b) 400000000 (Regular_file (pack sample_sdist 3)) = (Inr sample_normal, Regular_file sample_normal)"
proof -
  have "read_members plain_archiver (Regular_file (pack sample_sdist 3)) = Inr (sort_key sd_name (map raw_member sample_sdist))"
    using sample_sdist_checks sample_sdist_packable
    by (auto simp: read_members_Inr plain_archiver_def unpack_pack list_all_iff packable_def)
  then show ?thesis
    by (simp add: normalize_sdist_Inr epoch_1980_def sample_normal_def) (simp add: plain_archiver_def)
qed

theorem normalized_is_releasable_witness:
  "validate_sdist_bytes plain_archiver sample_normal ''dolores-bittensor-subnet'' ''1'' 400000000 = Inr ()
    \<and> normalize_sdist plain_archiver (\<lambda>b. b) 400000000 (Regular_file sample_normal) = (Inr sample_normal, Regular_file sample_normal)"
  using sample_sdist_packable
  by (intro normalized_is_releasable [OF sample_normalized plain_archiver_lawful refl _ sample_sdist_releasable sample_normal_small])
    (simp add: plain_archiver_def unpack_pack)

end
