(* ===== verification/Release_Bundle.thy ===== *)
theory Release_Bundle
  imports Archives "HOL-Library.Countable"
begin

text \<open>
  The release bundle (\<open>scripts/build_release_bundle.py\<close>): seven files in one archive, the three
  distributions and the two files of the honest example, a provenance document with their digests, and
  \<open>SHA256SUMS\<close>.  The verifier trusts nothing but the archive's bytes; the builder writes what the verifier has accepted.
  Paths of the file system are given with what \<open>lstat\<close> and \<open>resolve\<close> say of them.
\<close>

section \<open>Names and formats\<close>

definition engine_wheel_name :: "string \<Rightarrow> string" where
  "engine_wheel_name ver = ''dolores_autocurricula-'' @ ver @ ''-py3-none-any.whl''"

definition subnet_wheel_name :: "string \<Rightarrow> string" where
  "subnet_wheel_name ver = ''dolores_bittensor_subnet-'' @ ver @ ''-py3-none-any.whl''"

definition subnet_sdist_name :: "string \<Rightarrow> string" where
  "subnet_sdist_name ver = ''dolores_bittensor_subnet-'' @ ver @ ''.tar.gz''"

definition engine_distribution :: string where
  "engine_distribution = ''dolores-autocurricula''"

definition subnet_distribution :: string where
  "subnet_distribution = ''dolores-bittensor-subnet''"

definition artifact_path :: "string \<Rightarrow> string" where
  "artifact_path name = ''artifacts/'' @ name"

definition fixture_path :: "string \<Rightarrow> string" where
  "fixture_path name = ''examples/tasks/honest_example/'' @ name"

definition bundle_path :: "string \<Rightarrow> string" where
  "bundle_path p = ''release-bundle/'' @ p"

definition provenance_path :: string where
  "provenance_path = ''provenance.json''"

definition checksums_path :: string where
  "checksums_path = ''SHA256SUMS''"

definition provenance_schema :: string where
  "provenance_schema = ''dolores-release-bundle-provenance-v1''"

definition builder_id :: string where
  "builder_id = ''scripts/build_release_bundle.py''"

definition max_bundle_bytes :: int where
  "max_bundle_bytes = 256 * 1024 * 1024"

definition lower_hex :: "char \<Rightarrow> bool" where
  "lower_hex c = (c \<in> set ''0123456789abcdef'')"

definition validate_commit :: "string \<Rightarrow> release_error + unit" where
  "validate_commit v = require (length v = 40 \<and> list_all lower_hex v) (Bundle ''must be a lowercase 40-character Git object ID'')"

definition is_sha256 :: "string \<Rightarrow> bool" where
  "is_sha256 v = (length v = 64 \<and> list_all lower_hex v)"

definition ascii_alnum :: "char \<Rightarrow> bool" where
  "ascii_alnum c = (c \<in> set ''0123456789abcdefghijklmnopqrstuvwxyzABCDEFGHIJKLMNOPQRSTUVWXYZ'')"

definition validate_version :: "string \<Rightarrow> release_error + unit" where
  "validate_version v =
     require (case v of [] \<Rightarrow> False | c # s \<Rightarrow> ascii_alnum c \<and> list_all (\<lambda>d. ascii_alnum d \<or> d \<in> set ''._+-'') s)
       (Bundle ''invalid release version'')"

definition validate_source_date_epoch :: "int \<Rightarrow> release_error + unit" where
  "validate_source_date_epoch n =
     require (0 \<le> n \<and> n \<le> 2 ^ 31 - 1) (Bundle ''SOURCE_DATE_EPOCH must be an integer from 0 through 2147483647'')"

section \<open>The environment\<close>

text \<open>
  JSON and SHA-256, the archive formats, decoding and encoding as UTF-8, and \<open>TaskPackage.load\<close> on a directory
  with the given \<open>task.yaml\<close>, absent where the packages are not installed.
\<close>

record release_env =
  re_files :: "bytes env"
  re_archiver :: archiver
  re_decode :: "bytes \<Rightarrow> string option"
  re_encode :: "string \<Rightarrow> bytes"
  re_load_task :: "(bytes \<Rightarrow> string + engine_task) option"

definition re_sha256 :: "release_env \<Rightarrow> bytes \<Rightarrow> string" where
  "re_sha256 re b = sha256 (re_files re) b"

section \<open>Payloads and their records\<close>

record bundle_payload =
  pl_path :: string
  pl_role :: string
  pl_data :: bytes

record payload_record =
  pr_path :: string
  pr_role :: string
  pr_sha256 :: string
  pr_size :: int

definition expected_roles :: "string \<Rightarrow> (string, string) dict" where
  "expected_roles ver =
     [(artifact_path (engine_wheel_name ver), ''engine_wheel''), (artifact_path (subnet_wheel_name ver), ''subnet_wheel''),
      (artifact_path (subnet_sdist_name ver), ''subnet_sdist''), (fixture_path ''task.yaml'', ''honest_fixture''),
      (fixture_path ''wire.json'', ''honest_fixture'')]"

definition provenance_source :: "string \<Rightarrow> string \<Rightarrow> string \<Rightarrow> json" where
  "provenance_source commit distribution ver =
     JObj [(''commit'', JStr commit), (''distribution'', JStr distribution), (''version'', JStr ver)]"

definition provenance_payload :: "release_env \<Rightarrow> bundle_payload \<Rightarrow> json" where
  "provenance_payload re p =
     JObj [(''path'', JStr (pl_path p)), (''role'', JStr (pl_role p)), (''sha256'', JStr (re_sha256 re (pl_data p))),
       (''size'', JInt (int (length (pl_data p))))]"

definition provenance_document :: "release_env \<Rightarrow> bundle_payload list \<Rightarrow> string \<Rightarrow> int \<Rightarrow> string \<Rightarrow> string \<Rightarrow> jdict" where
  "provenance_document re payloads ver epoch engine_commit subnet_commit =
     [(''builder'', JStr builder_id), (''payloads'', JArr (map (provenance_payload re) payloads)),
      (''schema_version'', JStr provenance_schema), (''source_date_epoch'', JInt epoch),
      (''sources'', JObj [(''engine'', provenance_source engine_commit engine_distribution ver),
         (''subnet'', provenance_source subnet_commit subnet_distribution ver)]),
      (''version'', JStr ver)]"

definition provenance_bytes :: "release_env \<Rightarrow> bundle_payload list \<Rightarrow> string \<Rightarrow> int \<Rightarrow> string \<Rightarrow> string \<Rightarrow> bytes" where
  "provenance_bytes re payloads ver epoch engine_commit subnet_commit =
     dumps (re_files re) (JObj (provenance_document re payloads ver epoch engine_commit subnet_commit))"

definition line_feed :: char where
  "line_feed = CHR 0x0A"

definition checksum_line :: "release_env \<Rightarrow> bundle_payload \<Rightarrow> string" where
  "checksum_line re p = re_sha256 re (pl_data p) @ ''  '' @ pl_path p"

definition checksums_bytes :: "release_env \<Rightarrow> bundle_payload list \<Rightarrow> bytes" where
  "checksums_bytes re payloads =
     re_encode re (join [line_feed] (map (checksum_line re) (sort_key pl_path payloads)) @ [line_feed])"

section \<open>Rendering\<close>

definition bundle_member :: "int \<Rightarrow> string \<times> bytes \<Rightarrow> tar_member" where
  "bundle_member epoch nd =
     \<lparr>tm_name = fst nd, tm_kind = File_member, tm_size = int (length (snd nd)), tm_mtime = epoch, tm_mode = 420,
      tm_uid = 0, tm_gid = 0, tm_uname = [], tm_gname = [], tm_data = snd nd\<rparr>"

definition render_tar_gz :: "archiver \<Rightarrow> (string, bytes) dict \<Rightarrow> int \<Rightarrow> release_error + bytes" where
  "render_tar_gz ar members epoch =
     bind_result (map_result (\<lambda>nd. validate_archive_path (fst nd)) (dict_sorted members)) (\<lambda>_.
     map_error Release_raised (ar_ustar ar (map (bundle_member epoch) (dict_sorted members)) epoch))"

section \<open>Parsing\<close>

definition require_json_string :: "jdict \<Rightarrow> string \<Rightarrow> release_error + string" where
  "require_json_string d k =
     (case jget d k of JStr s \<Rightarrow> Inr s | _ \<Rightarrow> Inl (Bundle (''provenance field '' @ k @ '' must be a string'')))"

definition require_json_integer :: "jdict \<Rightarrow> string \<Rightarrow> release_error + int" where
  "require_json_integer d k =
     (case jget d k of JInt n \<Rightarrow> Inr n | _ \<Rightarrow> Inl (Bundle (''provenance field '' @ k @ '' must be an integer'')))"

definition provenance_keys :: "string list" where
  "provenance_keys = [''builder'', ''payloads'', ''schema_version'', ''source_date_epoch'', ''sources'', ''version'']"

definition parse_provenance :: "release_env \<Rightarrow> bytes \<Rightarrow> release_error + jdict" where
  "parse_provenance re b =
     (case loads (re_files re) b of
        None \<Rightarrow> Inl (Bundle ''invalid provenance JSON'')
      | Some (JObj d) \<Rightarrow>
          bind_result (require (set (dict_keys d) = set provenance_keys)
            (Bundle ''provenance JSON has unexpected or missing fields'')) (\<lambda>_.
          bind_result (require (jget d ''schema_version'' = JStr provenance_schema) (Bundle ''unsupported provenance schema'')) (\<lambda>_.
          bind_result (require (jget d ''builder'' = JStr builder_id) (Bundle ''unexpected provenance builder identifier'')) (\<lambda>_.
          Inr d)))
      | Some _ \<Rightarrow> Inl (Bundle ''provenance JSON must be an object''))"

definition parse_source :: "json \<Rightarrow> string \<Rightarrow> string \<Rightarrow> release_error + string" where
  "parse_source v distribution ver =
     (case v of
        JObj d \<Rightarrow>
          if set (dict_keys d) \<noteq> {''commit'', ''distribution'', ''version''} then Inl (Bundle ''invalid provenance source'')
          else if jget d ''distribution'' \<noteq> JStr distribution \<or> jget d ''version'' \<noteq> JStr ver
          then Inl (Bundle ''unexpected distribution provenance'')
          else (case jget d ''commit'' of
                  JStr commit \<Rightarrow> bind_result (validate_commit commit) (\<lambda>_. Inr commit)
                | _ \<Rightarrow> Inl (Bundle ''invalid source commit''))
      | _ \<Rightarrow> Inl (Bundle ''invalid provenance source''))"

definition parse_payload_record :: "string \<Rightarrow> json \<Rightarrow> release_error + payload_record" where
  "parse_payload_record ver v =
     (case v of
        JObj d \<Rightarrow>
          if set (dict_keys d) \<noteq> {''path'', ''role'', ''sha256'', ''size''} then Inl (Bundle ''invalid provenance payload record'')
          else (case jget d ''path'' of
             JStr p \<Rightarrow>
               bind_result (validate_archive_path p) (\<lambda>_.
               (case dict_get (expected_roles ver) p of
                  None \<Rightarrow> Inl (Bundle ''unexpected payload path or role'')
                | Some role \<Rightarrow>
                    if jget d ''role'' \<noteq> JStr role then Inl (Bundle ''unexpected payload path or role'')
                    else (case jget d ''sha256'' of
                       JStr h \<Rightarrow>
                         if \<not> is_sha256 h then Inl (Bundle ''invalid payload SHA-256'')
                         else (case jget d ''size'' of
                            JInt n \<Rightarrow>
                              if n < 0 then Inl (Bundle ''invalid payload size'')
                              else Inr \<lparr>pr_path = p, pr_role = role, pr_sha256 = h, pr_size = n\<rparr>
                          | _ \<Rightarrow> Inl (Bundle ''invalid payload size''))
                     | _ \<Rightarrow> Inl (Bundle ''invalid payload SHA-256''))))
           | _ \<Rightarrow> Inl (Bundle ''payload path must be a string''))
      | _ \<Rightarrow> Inl (Bundle ''invalid provenance payload record''))"

definition parse_payload_records :: "jdict \<Rightarrow> string \<Rightarrow> release_error + payload_record list" where
  "parse_payload_records d ver =
     (case jget d ''payloads'' of
        JArr vs \<Rightarrow>
          bind_result (map_result (parse_payload_record ver) vs) (\<lambda>records.
          bind_result (require (map pr_path records = sort (dict_keys (expected_roles ver)))
            (Bundle ''provenance payload records are not the exact sorted payload set'')) (\<lambda>_.
          Inr records))
      | _ \<Rightarrow> Inl (Bundle ''provenance payloads must be a list''))"

text \<open>One line of \<open>SHA256SUMS\<close>: \<open>([0-9a-f]{64})  (.+)\<close>, matched in full.\<close>

definition checksum_of_line :: "string \<Rightarrow> (string \<times> string) option" where
  "checksum_of_line l =
     (if is_sha256 (take 64 l) \<and> take 2 (drop 64 l) = ''  '' \<and> drop 66 l \<noteq> [] \<and> line_feed \<notin> set (drop 66 l)
      then Some (take 64 l, drop 66 l) else None)"

fun checksum_records :: "(string, string) dict \<Rightarrow> string list \<Rightarrow> release_error + (string, string) dict" where
  "checksum_records seen [] = Inr seen"
| "checksum_records seen (l # ls) =
     (case checksum_of_line l of
        None \<Rightarrow> Inl (Bundle ''invalid SHA256SUMS line'')
      | Some (h, p) \<Rightarrow>
          bind_result (validate_archive_path p) (\<lambda>_.
          bind_result (require (p \<notin> set (dict_keys seen)) (Bundle ''duplicate SHA256SUMS path'')) (\<lambda>_.
          checksum_records (dict_set seen p h) ls)))"

definition parse_checksums :: "release_env \<Rightarrow> bytes \<Rightarrow> release_error + (string, string) dict" where
  "parse_checksums re b =
     (case re_decode re b of
        None \<Rightarrow> Inl (Bundle ''SHA256SUMS must be UTF-8'')
      | Some t \<Rightarrow>
          bind_result (require (ends_with t [line_feed]) (Bundle ''SHA256SUMS must end with a newline'')) (\<lambda>_.
          bind_result (checksum_records [] (split_lines t)) (\<lambda>records.
          bind_result (require (sorted (dict_keys records)) (Bundle ''SHA256SUMS paths are not sorted'')) (\<lambda>_.
          Inr records))))"

section \<open>The honest example\<close>

definition validate_fixture_semantics :: "release_env \<Rightarrow> bytes \<Rightarrow> bytes \<Rightarrow> release_error + unit" where
  "validate_fixture_semantics re task_yaml wire_json =
     (case re_load_task re of
        None \<Rightarrow> Inl (Bundle ''fixture validation requires the pinned engine and subnet distributions'')
      | Some load_task \<Rightarrow>
          (case loads (re_files re) wire_json of
             None \<Rightarrow> Inl (Bundle ''honest fixture wire.json is invalid'')
           | Some (JObj d) \<Rightarrow>
               bind_result (map_error (\<lambda>_. Bundle ''honest fixture task.yaml is invalid'') (load_task task_yaml)) (\<lambda>task.
               bind_result (map_error (\<lambda>_. Bundle ''honest fixture task.yaml is invalid'')
                 (to_wire (re_files re) max_package_bytes_const task)) (\<lambda>wire.
               require (py_eq (JObj d) (JObj wire)) (Bundle ''honest fixture wire.json does not equal the pinned conversion'')))
           | Some _ \<Rightarrow> Inl (Bundle ''honest fixture wire.json must contain a JSON object'')))"

section \<open>Verification\<close>

record expectations =
  ex_version :: "string option"
  ex_epoch :: "int option"
  ex_engine_commit :: "string option"
  ex_subnet_commit :: "string option"

record bundle_verification =
  bv_sha256 :: string
  bv_member_count :: int
  bv_payload_count :: int
  bv_provenance :: jdict

fun check_bundle_members :: "int \<Rightarrow> tar_member list \<Rightarrow> release_error + unit" where
  "check_bundle_members seen [] = Inr ()"
| "check_bundle_members seen (m # ms) =
     bind_result (validate_archive_path (tm_name m)) (\<lambda>_.
     bind_result (require (tm_kind m = File_member) (Bundle ''bundle member must be a regular file'')) (\<lambda>_.
     bind_result (require (tm_size m \<le> max_archive_member_bytes) (Bundle ''bundle member exceeds the size limit'')) (\<lambda>_.
     bind_result (require (seen + tm_size m \<le> max_archive_total_bytes) (Bundle ''bundle exceeds the uncompressed size limit'')) (\<lambda>_.
     check_bundle_members (seen + tm_size m) ms))))"

definition read_bundle :: "archiver \<Rightarrow> input_file \<Rightarrow> release_error + bytes \<times> tar_member list" where
  "read_bundle ar f =
     bind_result (require_regular_file f) (\<lambda>b.
     bind_result (require (int (length b) \<le> max_bundle_bytes) (Bundle ''release bundle exceeds the compressed size limit'')) (\<lambda>_.
     bind_result (map_error (archive_invalid ''invalid release bundle'') (ar_untar ar b)) (\<lambda>members.
     bind_result (require (sorted (map tm_name members)) (Bundle ''bundle members are not lexicographically sorted'')) (\<lambda>_.
     bind_result (require (distinct (map tm_name members)) (Bundle ''bundle contains duplicate member paths'')) (\<lambda>_.
     bind_result (check_bundle_members 0 members) (\<lambda>_.
     Inr (b, members)))))))"

definition entries_of :: "tar_member list \<Rightarrow> (string, bytes) dict" where
  "entries_of members = map (\<lambda>m. (tm_name m, tm_data m)) members"

text \<open>\<open>contents[name]\<close>.\<close>

definition content :: "(string, bytes) dict \<Rightarrow> string \<Rightarrow> release_error + bytes" where
  "content entries name =
     (case dict_get entries name of
        None \<Rightarrow> Inl (Release_raised \<lparr>exn_type = ''KeyError'', exn_text = name\<rparr>)
      | Some b \<Rightarrow> Inr b)"

text \<open>Version, epoch and the two commits of the provenance.\<close>

record release_identity =
  ri_version :: string
  ri_epoch :: int
  ri_engine_commit :: string
  ri_subnet_commit :: string

definition parse_identity :: "jdict \<Rightarrow> release_error + release_identity" where
  "parse_identity d =
     bind_result (require_json_string d ''version'') (\<lambda>ver.
     bind_result (require_json_integer d ''source_date_epoch'') (\<lambda>epoch.
     bind_result (validate_version ver) (\<lambda>_.
     bind_result (validate_source_date_epoch epoch) (\<lambda>_.
     (case jget d ''sources'' of
        JObj sources \<Rightarrow>
          bind_result (require (set (dict_keys sources) = {''engine'', ''subnet''})
            (Bundle ''provenance sources must contain exactly engine and subnet'')) (\<lambda>_.
          bind_result (parse_source (jget sources ''engine'') engine_distribution ver) (\<lambda>engine_commit.
          bind_result (parse_source (jget sources ''subnet'') subnet_distribution ver) (\<lambda>subnet_commit.
          Inr \<lparr>ri_version = ver, ri_epoch = epoch, ri_engine_commit = engine_commit, ri_subnet_commit = subnet_commit\<rparr>)))
      | _ \<Rightarrow> Inl (Bundle ''provenance sources must contain exactly engine and subnet''))))))"

definition agrees :: "'a option \<Rightarrow> 'a \<Rightarrow> bool" where
  "agrees wanted actual = (case wanted of None \<Rightarrow> True | Some w \<Rightarrow> actual = w)"

definition check_expectations :: "expectations \<Rightarrow> release_identity \<Rightarrow> release_error + unit" where
  "check_expectations ex ri =
     bind_result (require (agrees (ex_version ex) (ri_version ri)) (Bundle ''unexpected bundle version'')) (\<lambda>_.
     bind_result (require (agrees (ex_epoch ex) (ri_epoch ri))
       (Bundle ''bundle SOURCE_DATE_EPOCH does not equal the expected value'')) (\<lambda>_.
     bind_result (require (agrees (ex_engine_commit ex) (ri_engine_commit ri))
       (Bundle ''engine source commit does not equal the expected value'')) (\<lambda>_.
     require (agrees (ex_subnet_commit ex) (ri_subnet_commit ri))
       (Bundle ''subnet source commit does not equal the expected value''))))"

definition check_member_metadata :: "int \<Rightarrow> tar_member \<Rightarrow> release_error + unit" where
  "check_member_metadata epoch m =
     bind_result (require (tm_mtime m = epoch) (Bundle ''unexpected mtime'')) (\<lambda>_.
     bind_result (require (tm_uid m = 0 \<and> tm_gid m = 0 \<and> tm_uname m = [] \<and> tm_gname m = [])
       (Bundle ''unexpected ownership metadata'')) (\<lambda>_.
     require (tm_mode m = 420) (Bundle ''unexpected mode'')))"

definition check_payload :: "release_env \<Rightarrow> (string, bytes) dict \<Rightarrow> payload_record \<Rightarrow> release_error + unit" where
  "check_payload re entries r =
     bind_result (content entries (bundle_path (pr_path r))) (\<lambda>b.
     bind_result (require (int (length b) = pr_size r) (Bundle ''payload size mismatch'')) (\<lambda>_.
     require (re_sha256 re b = pr_sha256 r) (Bundle ''payload hash mismatch'')))"

definition check_checksum :: "release_env \<Rightarrow> (string, bytes) dict \<Rightarrow> string \<times> string \<Rightarrow> release_error + unit" where
  "check_checksum re entries ph =
     bind_result (content entries (bundle_path (fst ph))) (\<lambda>b.
     require (re_sha256 re b = snd ph) (Bundle ''SHA256SUMS mismatch''))"

definition validate_contents :: "release_env \<Rightarrow> (string, bytes) dict \<Rightarrow> string \<Rightarrow> int \<Rightarrow> release_error + unit" where
  "validate_contents re entries ver epoch =
     (let artifact = (\<lambda>name. content entries (bundle_path (artifact_path name)));
          fixture = (\<lambda>name. content entries (bundle_path (fixture_path name)))
      in bind_result (artifact (engine_wheel_name ver)) (\<lambda>engine.
         bind_result (validate_wheel_bytes (re_archiver re) engine engine_distribution ver) (\<lambda>_.
         bind_result (artifact (subnet_wheel_name ver)) (\<lambda>subnet.
         bind_result (validate_wheel_bytes (re_archiver re) subnet subnet_distribution ver) (\<lambda>_.
         bind_result (artifact (subnet_sdist_name ver)) (\<lambda>sdist.
         bind_result (validate_sdist_bytes (re_archiver re) sdist subnet_distribution ver epoch) (\<lambda>_.
         bind_result (fixture ''task.yaml'') (\<lambda>task_yaml.
         bind_result (fixture ''wire.json'') (\<lambda>wire_json.
         validate_fixture_semantics re task_yaml wire_json)))))))))"

definition verify_release_bundle ::
  "release_env \<Rightarrow> expectations \<Rightarrow> input_file \<Rightarrow> release_error + bundle_verification" where
  "verify_release_bundle re ex f =
     bind_result (read_bundle (re_archiver re) f) (\<lambda>(b, members).
     let entries = entries_of members;
         provenance_name = bundle_path provenance_path;
         checksums_name = bundle_path checksums_path
     in
     bind_result (require (provenance_name \<in> set (dict_keys entries) \<and> checksums_name \<in> set (dict_keys entries))
       (Bundle ''bundle is missing provenance.json or SHA256SUMS'')) (\<lambda>_.
     bind_result (bind_result (content entries provenance_name) (parse_provenance re)) (\<lambda>provenance.
     bind_result (parse_identity provenance) (\<lambda>ri.
     bind_result (check_expectations ex ri) (\<lambda>_.
     bind_result (parse_payload_records provenance (ri_version ri)) (\<lambda>records.
     bind_result (require (set (dict_keys entries) = set (map (\<lambda>r. bundle_path (pr_path r)) records) \<union> {provenance_name, checksums_name})
       (Bundle ''bundle member set mismatch'')) (\<lambda>_.
     bind_result (map_result (check_member_metadata (ri_epoch ri)) members) (\<lambda>_.
     bind_result (map_result (check_payload re entries) records) (\<lambda>_.
     bind_result (bind_result (content entries checksums_name) (parse_checksums re)) (\<lambda>checksums.
     bind_result (require (set (dict_keys checksums) = set (map pr_path records) \<union> {provenance_path})
       (Bundle ''SHA256SUMS does not cover exactly the payloads and provenance'')) (\<lambda>_.
     bind_result (map_result (check_checksum re entries) checksums) (\<lambda>_.
     bind_result (validate_contents re entries (ri_version ri) (ri_epoch ri)) (\<lambda>_.
     bind_result (render_tar_gz (re_archiver re) entries (ri_epoch ri)) (\<lambda>canonical.
     bind_result (require (b = canonical) (Bundle ''bundle bytes are not in the canonical release encoding'')) (\<lambda>_.
     Inr \<lparr>bv_sha256 = re_sha256 re b, bv_member_count = int (length entries), bv_payload_count = int (length records),
       bv_provenance = provenance\<rparr>)))))))))))))))"

section \<open>Building\<close>

datatype fixture_dir = Absent_directory | Not_a_directory | Directory_of "(string \<times> input_file) list"

definition fixture_names :: "string list" where
  "fixture_names = [''task.yaml'', ''wire.json'']"

definition fixture_payload :: "string \<times> input_file \<Rightarrow> release_error + bundle_payload" where
  "fixture_payload nf =
     bind_result (require_regular_file (snd nf)) (\<lambda>b.
     Inr \<lparr>pl_path = fixture_path (fst nf), pl_role = ''honest_fixture'', pl_data = b\<rparr>)"

definition load_fixture_payloads :: "release_env \<Rightarrow> fixture_dir \<Rightarrow> release_error + bundle_payload list" where
  "load_fixture_payloads re dir =
     (case dir of
        Absent_directory \<Rightarrow> Inl (Bundle ''honest fixture directory does not exist'')
      | Not_a_directory \<Rightarrow> Inl (Bundle ''honest fixture path must be a real directory, not a symlink'')
      | Directory_of listing \<Rightarrow>
          bind_result (require (map fst (sort_key fst listing) = fixture_names) (Bundle ''honest fixture must contain exactly'')) (\<lambda>_.
          bind_result (map_result fixture_payload (sort_key fst listing)) (\<lambda>payloads.
          bind_result (validate_fixture_semantics re (pl_data (payloads ! 0)) (pl_data (payloads ! 1))) (\<lambda>_.
          Inr payloads))))"

text \<open>The arguments; paths of artifacts by their last part, locations as \<open>resolve\<close> gives them.\<close>

record build_inputs =
  bi_engine_wheel :: "string \<times> input_file"
  bi_subnet_wheel :: "string \<times> input_file"
  bi_subnet_sdist :: "string \<times> input_file"
  bi_fixture :: fixture_dir
  bi_resolved_output :: string
  bi_resolved_inputs :: "string list"
  bi_resolved_fixture :: string
  bi_identity :: release_identity

definition load_input :: "string \<Rightarrow> string \<Rightarrow> string \<times> input_file \<Rightarrow> release_error + bundle_payload" where
  "load_input expected_name role nf =
     bind_result (require_regular_file (snd nf)) (\<lambda>b.
     bind_result (require (fst nf = expected_name) (Bundle ''unexpected artifact name'')) (\<lambda>_.
     Inr \<lparr>pl_path = artifact_path expected_name, pl_role = role, pl_data = b\<rparr>))"

definition is_relative_to :: "string \<Rightarrow> string \<Rightarrow> bool" where
  "is_relative_to p q = (take (length (path_parts q)) (path_parts p) = path_parts q)"

definition validate_output_location :: "build_inputs \<Rightarrow> release_error + unit" where
  "validate_output_location bi =
     bind_result (require (bi_resolved_output bi \<notin> set (bi_resolved_inputs bi))
       (Bundle ''output path must not overwrite an input artifact'')) (\<lambda>_.
     require (\<not> is_relative_to (bi_resolved_output bi) (bi_resolved_fixture bi))
       (Bundle ''output path must not be inside the honest fixture directory''))"

text \<open>The payloads: what is read and checked before anything is rendered.\<close>

definition load_payloads :: "release_env \<Rightarrow> build_inputs \<Rightarrow> release_error + bundle_payload list" where
  "load_payloads re bi =
     (let ri = bi_identity bi; ver = ri_version ri; ar = re_archiver re in
      bind_result (validate_version ver) (\<lambda>_.
      bind_result (validate_source_date_epoch (ri_epoch ri)) (\<lambda>_.
      bind_result (validate_commit (ri_engine_commit ri)) (\<lambda>_.
      bind_result (validate_commit (ri_subnet_commit ri)) (\<lambda>_.
      bind_result (load_input (engine_wheel_name ver) ''engine_wheel'' (bi_engine_wheel bi)) (\<lambda>engine.
      bind_result (load_input (subnet_wheel_name ver) ''subnet_wheel'' (bi_subnet_wheel bi)) (\<lambda>subnet.
      bind_result (load_input (subnet_sdist_name ver) ''subnet_sdist'' (bi_subnet_sdist bi)) (\<lambda>sdist.
      bind_result (validate_wheel_bytes ar (pl_data engine) engine_distribution ver) (\<lambda>_.
      bind_result (validate_wheel_bytes ar (pl_data subnet) subnet_distribution ver) (\<lambda>_.
      bind_result (validate_sdist_bytes ar (pl_data sdist) subnet_distribution ver (ri_epoch ri)) (\<lambda>_.
      bind_result (load_fixture_payloads re (bi_fixture bi)) (\<lambda>fixture.
      bind_result (validate_output_location bi) (\<lambda>_.
      Inr (sort_key pl_path ([engine, subnet, sdist] @ fixture)))))))))))))))"

definition identity_bytes :: "release_env \<Rightarrow> release_identity \<Rightarrow> bundle_payload list \<Rightarrow> bytes" where
  "identity_bytes re ri payloads =
     provenance_bytes re payloads (ri_version ri) (ri_epoch ri) (ri_engine_commit ri) (ri_subnet_commit ri)"

definition bundle_entries :: "release_env \<Rightarrow> release_identity \<Rightarrow> bundle_payload list \<Rightarrow> (string, bytes) dict" where
  "bundle_entries re ri payloads =
     (let provenance = identity_bytes re ri payloads;
          checksums = checksums_bytes re (payloads @ [\<lparr>pl_path = provenance_path, pl_role = ''provenance'', pl_data = provenance\<rparr>])
      in map (\<lambda>p. (bundle_path (pl_path p), pl_data p)) payloads
         @ [(bundle_path provenance_path, provenance), (bundle_path checksums_path, checksums)])"

definition assemble_bundle :: "release_env \<Rightarrow> build_inputs \<Rightarrow> release_error + bytes" where
  "assemble_bundle re bi =
     bind_result (load_payloads re bi) (\<lambda>payloads.
     render_tar_gz (re_archiver re) (bundle_entries re (bi_identity bi) payloads) (ri_epoch (bi_identity bi)))"

text \<open>
  The output path and the temporary file beside it.  The temporary file is complete and synced before it is verified; it is
  renamed over the output or removed.
\<close>

record release_disk =
  rd_output :: input_file
  rd_temporary :: "bytes option"

definition expect_identity :: "release_identity \<Rightarrow> expectations" where
  "expect_identity ri =
     \<lparr>ex_version = Some (ri_version ri), ex_epoch = Some (ri_epoch ri), ex_engine_commit = Some (ri_engine_commit ri),
      ex_subnet_commit = Some (ri_subnet_commit ri)\<rparr>"

definition publish_verified :: "release_env \<Rightarrow> release_identity \<Rightarrow> bytes \<Rightarrow> (release_disk, release_error, bundle_verification) op" where
  "publish_verified re ri b =
     bind_op (modify_op (\<lambda>s. s\<lparr>rd_temporary := Some b\<rparr>)) (\<lambda>_.
     bind_op (lift_op (verify_release_bundle re (expect_identity ri) (Regular_file b))) (\<lambda>v.
     bind_op (modify_op (\<lambda>s. s\<lparr>rd_output := Regular_file b, rd_temporary := None\<rparr>)) (\<lambda>_. return_op v)))"

definition write_verified_atomic :: "release_env \<Rightarrow> release_identity \<Rightarrow> bytes \<Rightarrow> (release_disk, release_error, bundle_verification) op" where
  "write_verified_atomic re ri b =
     bind_op get_op (\<lambda>s.
     bind_op (guard_op (rd_output s \<noteq> Irregular_file) (Bundle ''output path must be absent or a regular file'')) (\<lambda>_.
     catch_op (publish_verified re ri b) (\<lambda>e. bind_op (modify_op (\<lambda>s. s\<lparr>rd_temporary := None\<rparr>)) (\<lambda>_. fail_op e))))"

definition build_release_bundle :: "release_env \<Rightarrow> build_inputs \<Rightarrow> (release_disk, release_error, bundle_verification) op" where
  "build_release_bundle re bi =
     bind_op (lift_op (assemble_bundle re bi)) (\<lambda>b. write_verified_atomic re (bi_identity bi) b)"

text \<open>\<open>main\<close>: the exit code and the lines printed.\<close>

datatype release_request = Build_bundle build_inputs string | Verify_bundle expectations string input_file

definition release_lines :: "string \<Rightarrow> bundle_verification \<Rightarrow> string list" where
  "release_lines bundle v =
     [''bundle='' @ bundle, ''bundle_sha256='' @ bv_sha256 v, ''bundle_members='' @ show_int (bv_member_count v),
      ''bundle_payloads='' @ show_int (bv_payload_count v), ''bundle_verification=ok'']"

definition release_command :: "release_env \<Rightarrow> release_request \<Rightarrow> (release_disk, release_error, int \<times> string list) op" where
  "release_command re req =
     catch_op
       (case req of
          Build_bundle bi output \<Rightarrow> bind_op (build_release_bundle re bi) (\<lambda>v. return_op (0, release_lines output v))
        | Verify_bundle ex bundle f \<Rightarrow>
            bind_op (lift_op (verify_release_bundle re ex f)) (\<lambda>v. return_op (0, release_lines bundle v)))
       (\<lambda>e. case e of
          Bundle t \<Rightarrow> return_op (2, [''error: '' @ t])
        | Release_raised x \<Rightarrow> if exn_type x = ''OSError'' then return_op (2, [''error: '' @ exn_text x]) else fail_op e)"

section \<open>What verification establishes\<close>

lemma read_bundle_Inr:
  "read_bundle ar f = Inr (b, ms) \<longleftrightarrow>
     f = Regular_file b \<and> int (length b) \<le> max_bundle_bytes \<and> ar_untar ar b = Inr ms \<and> sorted (map tm_name ms)
     \<and> distinct (map tm_name ms) \<and> check_bundle_members 0 ms = Inr ()"
  by (cases f) (auto simp: read_bundle_def require_regular_file_def)

lemma check_bundle_members_Inr:
  "check_bundle_members seen ms = Inr () \<Longrightarrow>
     list_all (\<lambda>m. validate_archive_path (tm_name m) = Inr () \<and> tm_kind m = File_member \<and> tm_size m \<le> max_archive_member_bytes) ms
     \<and> (ms \<noteq> [] \<longrightarrow> seen + sum_list (map tm_size ms) \<le> max_archive_total_bytes)"
  by (induction ms arbitrary: seen) (fastforce simp: add.assoc)+

lemma dict_keys_entries [simp]: "dict_keys (entries_of ms) = map tm_name ms"
  by (simp add: entries_of_def dict_keys_def)

lemma length_entries [simp]: "length (entries_of ms) = length ms"
  by (simp add: entries_of_def)

lemma content_entries:
  "distinct (map tm_name ms) \<Longrightarrow> content (entries_of ms) name = Inr b \<longleftrightarrow> (\<exists>m \<in> set ms. tm_name m = name \<and> tm_data m = b)"
proof -
  assume "distinct (map tm_name ms)"
  then have "map_of (entries_of ms) name = Some b \<longleftrightarrow> (name, b) \<in> set (entries_of ms)"
    by (intro map_of_eq_Some_iff) (simp add: entries_of_def comp_def)
  then show ?thesis by (auto simp: content_def dict_get_def entries_of_def split: option.splits)
qed

lemma check_payload_Inr:
  "distinct (map tm_name ms) \<Longrightarrow> check_payload re (entries_of ms) r = Inr () \<longleftrightarrow>
     (\<exists>m \<in> set ms. tm_name m = bundle_path (pr_path r) \<and> int (length (tm_data m)) = pr_size r \<and> re_sha256 re (tm_data m) = pr_sha256 r)"
  by (auto simp: check_payload_def content_entries)

lemma map_result_unit: "map_result g xs = Inr us \<Longrightarrow> \<forall>x \<in> set xs. g x = Inr (() :: unit)"
  by (induction xs arbitrary: us) auto

lemma require_unit: "require b e = Inr u \<Longrightarrow> b"
  by (simp add: require_def split: if_splits)

lemma verify_cases:
  assumes "verify_release_bundle re ex f = Inr v"
  obtains b ms p ri records c checksums where
    "read_bundle (re_archiver re) f = Inr (b, ms)"
    and "content (entries_of ms) (bundle_path provenance_path) = Inr p" "parse_provenance re p = Inr (bv_provenance v)"
    and "parse_identity (bv_provenance v) = Inr ri" "check_expectations ex ri = Inr ()"
    and "parse_payload_records (bv_provenance v) (ri_version ri) = Inr records"
    and "set (map tm_name ms) = set (map (\<lambda>r. bundle_path (pr_path r)) records) \<union> {bundle_path provenance_path, bundle_path checksums_path}"
    and "\<forall>m \<in> set ms. check_member_metadata (ri_epoch ri) m = Inr ()"
    and "\<forall>r \<in> set records. check_payload re (entries_of ms) r = Inr ()"
    and "content (entries_of ms) (bundle_path checksums_path) = Inr c" "parse_checksums re c = Inr checksums"
    and "set (dict_keys checksums) = set (map pr_path records) \<union> {provenance_path}"
    and "\<forall>ph \<in> set checksums. check_checksum re (entries_of ms) ph = Inr ()"
    and "validate_contents re (entries_of ms) (ri_version ri) (ri_epoch ri) = Inr ()"
    and "render_tar_gz (re_archiver re) (entries_of ms) (ri_epoch ri) = Inr b"
    and "v = \<lparr>bv_sha256 = re_sha256 re b, bv_member_count = int (length ms), bv_payload_count = int (length records), bv_provenance = bv_provenance v\<rparr>"
proof -
  note steps = assms [unfolded verify_release_bundle_def Let_def bind_result_Inr split_paired_Ex case_prod_conv]
  from steps show thesis
    by (elim exE conjE, intro that) (auto dest: map_result_unit require_unit)
qed

section \<open>The seven names\<close>

lemmas path_defs = artifact_path_def fixture_path_def engine_wheel_name_def subnet_wheel_name_def subnet_sdist_name_def
  provenance_path_def checksums_path_def

definition payload_paths :: "string \<Rightarrow> string list" where
  "payload_paths ver =
     [artifact_path (engine_wheel_name ver), artifact_path (subnet_wheel_name ver), artifact_path (subnet_sdist_name ver),
      fixture_path ''task.yaml'', fixture_path ''wire.json'']"

lemma keys_expected_roles [simp]: "dict_keys (expected_roles ver) = payload_paths ver"
  by (simp add: expected_roles_def payload_paths_def dict_keys_def)

lemma append_le_append [simp]: "p @ (xs :: string) \<le> p @ ys \<longleftrightarrow> xs \<le> ys"
  by (induction p) simp_all

lemma sorted_paths: "sorted (checksums_path # payload_paths ver @ [provenance_path])"
  by (simp add: payload_paths_def path_defs)

lemma distinct_paths: "distinct (checksums_path # payload_paths ver @ [provenance_path])"
  by (simp add: payload_paths_def path_defs)

lemma sort_payload_paths [simp]: "sort (payload_paths ver) = payload_paths ver"
  using sorted_paths [of ver] by (intro sorted_sort_id) (simp add: sorted_append)

lemma inj_bundle_path: "inj bundle_path"
  by (simp add: inj_def bundle_path_def)

lemma bundle_path_le: "bundle_path p \<le> bundle_path q \<longleftrightarrow> p \<le> q"
  by (simp add: bundle_path_def)

lemma sorted_bundle_paths: "sorted (map bundle_path ps) \<longleftrightarrow> sorted ps"
  by (simp add: sorted_map bundle_path_le)

lemma parse_payload_records_Inr:
  "parse_payload_records d ver = Inr records \<Longrightarrow> map pr_path records = payload_paths ver"
  by (auto simp: parse_payload_records_def split: json.splits)

lemma render_Inr:
  "render_tar_gz ar d epoch = Inr b \<Longrightarrow> ar_ustar ar (map (bundle_member epoch) (dict_sorted d)) epoch = Inr b"
  by (auto simp: render_tar_gz_def)

lemma sorted_entries: "sorted (map tm_name ms) \<Longrightarrow> dict_sorted (entries_of ms) = entries_of ms"
  by (simp add: dict_sorted_def entries_of_def sort_key_id_if_sorted comp_def)

text \<open>The record of a payload in a provenance document.\<close>

definition recorded :: "jdict \<Rightarrow> string \<Rightarrow> payload_record \<Rightarrow> bool" where
  "recorded d ver r = (case parse_payload_records d ver of Inl e \<Rightarrow> False | Inr records \<Rightarrow> r \<in> set records)"

text \<open>C14: a release bundle that verifies is the canonical archive of exactly seven members: the five payloads of its version,
  each with the size and the digest its provenance records, the provenance and the checksums.  The version, the epoch and the commits
  are those asked for, both wheels and the source distribution pass their own checks and \<open>wire.json\<close> is the conversion of
  \<open>task.yaml\<close>; nothing else is in the file.\<close>

theorem verified_bundle_contents:
  assumes "verify_release_bundle re ex f = Inr v"
  shows "\<exists>b ms ri. f = Regular_file b \<and> ar_untar (re_archiver re) b = Inr ms
    \<and> parse_identity (bv_provenance v) = Inr ri \<and> check_expectations ex ri = Inr ()
    \<and> map tm_name ms = map bundle_path (checksums_path # payload_paths (ri_version ri) @ [provenance_path])
    \<and> (\<forall>p \<in> set (payload_paths (ri_version ri)). \<exists>m \<in> set ms. \<exists>r. recorded (bv_provenance v) (ri_version ri) r
         \<and> pr_path r = p \<and> tm_name m = bundle_path p \<and> pr_size r = int (length (tm_data m)) \<and> pr_sha256 r = re_sha256 re (tm_data m))
    \<and> validate_contents re (entries_of ms) (ri_version ri) (ri_epoch ri) = Inr ()
    \<and> ar_ustar (re_archiver re) (map (bundle_member (ri_epoch ri)) (entries_of ms)) (ri_epoch ri) = Inr b
    \<and> bv_sha256 v = re_sha256 re b \<and> bv_member_count v = 7 \<and> bv_payload_count v = 5"
  using assms
proof (cases rule: verify_cases)
  case (1 b ms p ri records c checksums)
  let ?names = "checksums_path # payload_paths (ri_version ri) @ [provenance_path]"
  from 1(1) have ms: "f = Regular_file b" "ar_untar (re_archiver re) b = Inr ms" "sorted (map tm_name ms)" "distinct (map tm_name ms)"
    by (simp_all add: read_bundle_Inr)
  have paths: "map pr_path records = payload_paths (ri_version ri)" by (rule parse_payload_records_Inr [OF 1(6)])
  have "set (map tm_name ms) = set (map bundle_path ?names)" unfolding 1(7) by (auto simp flip: paths)
  moreover have "sorted (map bundle_path ?names)" using sorted_paths [of "ri_version ri"] unfolding sorted_bundle_paths .
  moreover have "distinct (map bundle_path ?names)"
    using distinct_paths [of "ri_version ri"] inj_bundle_path unfolding distinct_map
    by (blast intro: inj_on_subset)
  ultimately have names: "map tm_name ms = map bundle_path ?names"
    using ms(3,4) by (intro sorted_distinct_set_unique) simp_all
  have payload: "\<exists>m \<in> set ms. \<exists>r. recorded (bv_provenance v) (ri_version ri) r \<and> pr_path r = q
      \<and> tm_name m = bundle_path q \<and> pr_size r = int (length (tm_data m)) \<and> pr_sha256 r = re_sha256 re (tm_data m)"
    if "q \<in> set (payload_paths (ri_version ri))" for q
  proof -
    from that obtain r where r: "r \<in> set records" "pr_path r = q" by (auto simp flip: paths)
    with 1(9) ms(4) obtain m where "m \<in> set ms" "tm_name m = bundle_path (pr_path r)" "int (length (tm_data m)) = pr_size r"
      "re_sha256 re (tm_data m) = pr_sha256 r" by (auto simp: check_payload_Inr)
    with r 1(6) show ?thesis by (auto simp: recorded_def intro!: bexI [of _ m] exI [of _ r])
  qed
  have counts: "length ms = 7" "length records = 5"
    using arg_cong [OF names, of length] arg_cong [OF paths, of length] by (simp_all add: payload_paths_def)
  have render: "ar_ustar (re_archiver re) (map (bundle_member (ri_epoch ri)) (entries_of ms)) (ri_epoch ri) = Inr b"
    using render_Inr [OF 1(15)] sorted_entries [OF ms(3)] by simp
  from 1(16) have "bv_sha256 v = re_sha256 re b" "bv_member_count v = int (length ms)" "bv_payload_count v = int (length records)"
    by (metis bundle_verification.select_convs)+
  with ms(1,2) 1(4,5,14) names payload render counts show ?thesis
    by (intro exI [of _ b] exI [of _ ms] exI [of _ ri] conjI ballI) simp_all
qed

lemma recorded_unique: "recorded d ver r \<Longrightarrow> recorded d ver r' \<Longrightarrow> pr_path r = pr_path r' \<Longrightarrow> r = r'"
proof -
  assume r: "recorded d ver r" "recorded d ver r'" "pr_path r = pr_path r'"
  then obtain records where records: "parse_payload_records d ver = Inr records" "r \<in> set records" "r' \<in> set records"
    by (auto simp: recorded_def split: sum.splits)
  have "distinct (map pr_path records)"
    using distinct_paths [of ver] by (simp add: parse_payload_records_Inr [OF records(1)])
  with records(2,3) r(3) show ?thesis by (auto simp: distinct_map dest: inj_onD)
qed

text \<open>The provenance fixes the payloads: two bundles that verify with the same provenance hold the same five payloads, unless
  two payloads with different contents share a digest.\<close>

lemma provenance_fixes_payloads:
  assumes "verify_release_bundle re ex f = Inr v" "verify_release_bundle re ex' f' = Inr v'"
    and "bv_provenance v = bv_provenance v'"
    and "f = Regular_file b" "f' = Regular_file b'" "ar_untar (re_archiver re) b = Inr ms" "ar_untar (re_archiver re) b' = Inr ms'"
    and "\<forall>m \<in> set ms. \<forall>m' \<in> set ms'. re_sha256 re (tm_data m) = re_sha256 re (tm_data m') \<longrightarrow> tm_data m = tm_data m'"
    and "parse_identity (bv_provenance v) = Inr ri" "p \<in> set (payload_paths (ri_version ri))"
  shows "content (entries_of ms) (bundle_path p) = content (entries_of ms') (bundle_path p)"
proof -
  let ?d = "bv_provenance v" and ?ver = "ri_version ri"
  have found: "\<exists>m r. content (entries_of ns) (bundle_path p) = Inr (tm_data m) \<and> m \<in> set ns \<and> recorded ?d ?ver r
      \<and> pr_path r = p \<and> pr_sha256 r = re_sha256 re (tm_data m)"
    if "verify_release_bundle re e g = Inr w" "bv_provenance w = ?d" "g = Regular_file c" "ar_untar (re_archiver re) c = Inr ns"
    for e g w c ns
    using that(1)
  proof (cases rule: verify_cases)
    case (1 b0 ns0 q ri0 records c0 checksums)
    from 1(1) that(3,4) have ns: "ns0 = ns" "distinct (map tm_name ns)" by (simp_all add: read_bundle_Inr)
    from 1(4) that(2) assms(9) have "ri0 = ri" by simp
    with parse_payload_records_Inr [OF 1(6)] assms(10) obtain r where r: "r \<in> set records" "pr_path r = p" by (metis image_iff set_map)
    with 1(9) ns obtain m where m: "m \<in> set ns" "tm_name m = bundle_path p" "re_sha256 re (tm_data m) = pr_sha256 r"
      by (auto simp: check_payload_Inr)
    from 1(6) r(1) that(2) \<open>ri0 = ri\<close> have "recorded ?d ?ver r" by (simp add: recorded_def)
    moreover have "content (entries_of ns) (bundle_path p) = Inr (tm_data m)" using m(1,2) ns(2) by (auto simp: content_entries)
    ultimately show ?thesis using m r(2) by (metis (full_types))
  qed
  from found [OF assms(1) refl assms(4,6)] obtain m r where
    m: "content (entries_of ms) (bundle_path p) = Inr (tm_data m)" "m \<in> set ms" "recorded ?d ?ver r" "pr_path r = p"
      "pr_sha256 r = re_sha256 re (tm_data m)" by blast
  from found [OF assms(2) assms(3) [symmetric] assms(5,7)] obtain m' r' where
    m': "content (entries_of ms') (bundle_path p) = Inr (tm_data m')" "m' \<in> set ms'" "recorded ?d ?ver r'" "pr_path r' = p"
      "pr_sha256 r' = re_sha256 re (tm_data m')" by blast
  have "r = r'" using m(3,4) m'(3,4) by (auto intro: recorded_unique)
  with m(1,2,5) m'(1,2,5) assms(8) show ?thesis by auto
qed

section \<open>What the builder leaves\<close>

text \<open>C16: the output path changes only to a bundle that verifies for the release asked for; any failure leaves what was there, and
  no temporary file is left either way.\<close>

theorem output_is_verified:
  assumes "build_release_bundle re bi s = (r, s')" "rd_temporary s = None"
  shows "rd_temporary s' = None
    \<and> (case r of
         Inl e \<Rightarrow> rd_output s' = rd_output s
       | Inr v \<Rightarrow> rd_output s \<noteq> Irregular_file
           \<and> (\<exists>b. assemble_bundle re bi = Inr b \<and> rd_output s' = Regular_file b
               \<and> verify_release_bundle re (expect_identity (bi_identity bi)) (Regular_file b) = Inr v))"
  using assms
  by (auto simp: build_release_bundle_def write_verified_atomic_def publish_verified_def op_plumbing catch_op_def
      split: sum.splits prod.splits if_splits)

section \<open>Paths of the bundle\<close>

lemma filter_words: "\<forall>w \<in> set ws. w \<notin> {[], ''.'', ''..''} \<Longrightarrow> filter (\<lambda>w. w \<noteq> [] \<and> w \<noteq> ''.'') ws = ws"
  by (induction ws) auto

lemma valid_path_iff:
  "validate_archive_path p = Inr () \<longleftrightarrow>
     backslash \<notin> set p \<and> \<not> list_ex control_char p \<and> (\<forall>w \<in> set (split_on (CHR ''/'') p). w \<notin> {[], ''.'', ''..''})"
proof (cases "\<forall>w \<in> set (split_on (CHR ''/'') p). w \<notin> {[], ''.'', ''..''}")
  case True
  obtain w ws where words: "split_on (CHR ''/'') p = w # ws" by (cases "split_on (CHR ''/'') p") auto
  then have "CHR ''/'' \<notin> set w" using split_on_no_sep [of w "CHR ''/''" p] by simp
  have "p \<noteq> []" "\<not> is_absolute p"
    using True by (cases p; force simp: is_absolute_def starts_with_def)+
  then have "path_parts p = split_on (CHR ''/'') p"
    using filter_words [OF True] by (simp add: path_parts_def is_absolute_def)
  then have "as_posix p = p"
    using words \<open>CHR ''/'' \<notin> set w\<close> join_split_on [of "CHR ''/''" p] by (auto simp: as_posix_def)
  with True \<open>p \<noteq> []\<close> \<open>\<not> is_absolute p\<close> show ?thesis
    by (auto simp: validate_archive_path_def list_ex_iff)
qed (auto simp: validate_archive_path_def list_ex_iff)

lemma valid_bundle_path [simp]: "validate_archive_path (bundle_path p) = Inr () \<longleftrightarrow> validate_archive_path p = Inr ()"
  by (auto simp: valid_path_iff bundle_path_def backslash_def control_char_def)

section \<open>A bundle that is built verifies\<close>

text \<open>
  What the builder and the verifier rely on: JSON, archives and UTF-8 are read back as written, and a digest has 64 hexadecimal digits.
\<close>

definition lawful_release :: "release_env \<Rightarrow> bool" where
  "lawful_release re \<longleftrightarrow> json_codec (re_files re) \<and> lawful_archiver (re_archiver re)
     \<and> (\<forall>b. is_sha256 (re_sha256 re b)) \<and> (\<forall>t. re_decode re (re_encode re t) = Some t)"

definition payloads_of :: "string \<Rightarrow> bytes list \<Rightarrow> bundle_payload list" where
  "payloads_of ver bs =
     map2 (\<lambda>(p, r) b. \<lparr>pl_path = p, pl_role = r, pl_data = b\<rparr>) (expected_roles ver) bs"

definition valid_identity :: "release_identity \<Rightarrow> bool" where
  "valid_identity ri \<longleftrightarrow> validate_version (ri_version ri) = Inr () \<and> validate_source_date_epoch (ri_epoch ri) = Inr ()
     \<and> validate_commit (ri_engine_commit ri) = Inr () \<and> validate_commit (ri_subnet_commit ri) = Inr ()"

lemma map_pl_path: "length bs = 5 \<Longrightarrow> map pl_path (payloads_of ver bs) = payload_paths ver"
  by (auto simp: payloads_of_def expected_roles_def payload_paths_def length_Suc_conv eval_nat_numeral)

lemma load_fixture_Inr:
  assumes "load_fixture_payloads re dir = Inr ps"
  shows "\<exists>t j. ps = [\<lparr>pl_path = fixture_path ''task.yaml'', pl_role = ''honest_fixture'', pl_data = t\<rparr>,
      \<lparr>pl_path = fixture_path ''wire.json'', pl_role = ''honest_fixture'', pl_data = j\<rparr>]
    \<and> validate_fixture_semantics re t j = Inr ()"
  using assms
  by (auto simp: load_fixture_payloads_def fixture_payload_def fixture_names_def map_eq_Cons_conv split: fixture_dir.splits)

lemma load_input_Inr:
  "load_input name role nf = Inr p \<longleftrightarrow>
     (\<exists>b. require_regular_file (snd nf) = Inr b \<and> fst nf = name \<and> p = \<lparr>pl_path = artifact_path name, pl_role = role, pl_data = b\<rparr>)"
  by (auto simp: load_input_def)

lemma load_payloads_cases:
  assumes "load_payloads re bi = Inr ps" and "ri = bi_identity bi"
  obtains e w s t j where "ps = payloads_of (ri_version ri) [e, w, s, t, j]" "valid_identity ri"
    "validate_wheel_bytes (re_archiver re) e engine_distribution (ri_version ri) = Inr ()"
    "validate_wheel_bytes (re_archiver re) w subnet_distribution (ri_version ri) = Inr ()"
    "validate_sdist_bytes (re_archiver re) s subnet_distribution (ri_version ri) (ri_epoch ri) = Inr ()"
    "validate_fixture_semantics re t j = Inr ()"
proof -
  from assms obtain pe pw psd fx where checks: "valid_identity ri"
    "load_input (engine_wheel_name (ri_version ri)) ''engine_wheel'' (bi_engine_wheel bi) = Inr pe"
    "load_input (subnet_wheel_name (ri_version ri)) ''subnet_wheel'' (bi_subnet_wheel bi) = Inr pw"
    "load_input (subnet_sdist_name (ri_version ri)) ''subnet_sdist'' (bi_subnet_sdist bi) = Inr psd"
    "validate_wheel_bytes (re_archiver re) (pl_data pe) engine_distribution (ri_version ri) = Inr ()"
    "validate_wheel_bytes (re_archiver re) (pl_data pw) subnet_distribution (ri_version ri) = Inr ()"
    "validate_sdist_bytes (re_archiver re) (pl_data psd) subnet_distribution (ri_version ri) (ri_epoch ri) = Inr ()"
    "load_fixture_payloads re (bi_fixture bi) = Inr fx" "ps = sort_key pl_path ([pe, pw, psd] @ fx)"
    unfolding load_payloads_def Let_def bind_result_Inr valid_identity_def by auto
  from load_fixture_Inr [OF checks(8)] obtain t j where fx:
    "fx = [\<lparr>pl_path = fixture_path ''task.yaml'', pl_role = ''honest_fixture'', pl_data = t\<rparr>,
      \<lparr>pl_path = fixture_path ''wire.json'', pl_role = ''honest_fixture'', pl_data = j\<rparr>]"
    "validate_fixture_semantics re t j = Inr ()" by blast
  from checks(2-4) obtain e w s where arts:
    "pe = \<lparr>pl_path = artifact_path (engine_wheel_name (ri_version ri)), pl_role = ''engine_wheel'', pl_data = e\<rparr>"
    "pw = \<lparr>pl_path = artifact_path (subnet_wheel_name (ri_version ri)), pl_role = ''subnet_wheel'', pl_data = w\<rparr>"
    "psd = \<lparr>pl_path = artifact_path (subnet_sdist_name (ri_version ri)), pl_role = ''subnet_sdist'', pl_data = s\<rparr>"
    by (auto simp: load_input_Inr)
  have listed: "[pe, pw, psd] @ fx = payloads_of (ri_version ri) [e, w, s, t, j]"
    by (simp add: arts fx payloads_of_def expected_roles_def)
  have "sorted (map pl_path (payloads_of (ri_version ri) [e, w, s, t, j]))"
    using sorted_paths [of "ri_version ri"] by (simp add: map_pl_path sorted_append)
  with checks(9) listed have "ps = payloads_of (ri_version ri) [e, w, s, t, j]" by (simp only: sort_key_id_if_sorted)
  with that checks(1,5-7) fx(2) arts show thesis by simp
qed

subsection \<open>The provenance\<close>

lemma canon_provenance: "canon_json (JObj (provenance_document re ps ver epoch ec sc)) = JObj (provenance_document re ps ver epoch ec sc)"
proof -
  have "canon_json (provenance_payload re p) = provenance_payload re p" for p
    by (simp add: provenance_payload_def canon_fields_def)
  then show ?thesis
    by (simp add: provenance_document_def canon_fields_def provenance_source_def comp_def)
qed

lemma parse_provenance_bytes:
  "lawful_release re \<Longrightarrow> parse_provenance re (provenance_bytes re ps ver epoch ec sc) = Inr (provenance_document re ps ver epoch ec sc)"
  by (auto simp: parse_provenance_def provenance_bytes_def lawful_release_def loads_dumps canon_provenance simp del: canon_JObj)
    (auto simp: provenance_document_def provenance_keys_def dict_keys_def)

lemma parse_identity_document:
  "valid_identity ri \<Longrightarrow>
     parse_identity (provenance_document re ps (ri_version ri) (ri_epoch ri) (ri_engine_commit ri) (ri_subnet_commit ri)) = Inr ri"
  by (auto simp: parse_identity_def provenance_document_def require_json_string_def require_json_integer_def parse_source_def
      provenance_source_def valid_identity_def dict_keys_def insert_commute)

definition record_of :: "release_env \<Rightarrow> bundle_payload \<Rightarrow> payload_record" where
  "record_of re p = \<lparr>pr_path = pl_path p, pr_role = pl_role p, pr_sha256 = re_sha256 re (pl_data p), pr_size = int (length (pl_data p))\<rparr>"

lemma parse_record:
  assumes "lawful_release re" "validate_archive_path (pl_path p) = Inr ()" "dict_get (expected_roles ver) (pl_path p) = Some (pl_role p)"
  shows "parse_payload_record ver (provenance_payload re p) = Inr (record_of re p)"
  using assms by (simp add: parse_payload_record_def provenance_payload_def dict_keys_def record_of_def lawful_release_def insert_commute)

lemma map_result_map: "\<forall>x \<in> set xs. g (f x) = Inr (h x) \<Longrightarrow> map_result g (map f xs) = Inr (map h xs)"
  by (induction xs) auto

lemma payload_roles:
  assumes "length bs = 5" "p \<in> set (payloads_of ver bs)"
  shows "dict_get (expected_roles ver) (pl_path p) = Some (pl_role p)"
proof -
  have "distinct (map fst (expected_roles ver))"
    using distinct_paths [of ver] keys_expected_roles [of ver] by (simp add: dict_keys_def)
  moreover have "(pl_path p, pl_role p) \<in> set (expected_roles ver)"
    using assms(2) by (auto simp: payloads_of_def dest: set_zip_leftD)
  ultimately show ?thesis by (simp add: dict_get_def)
qed

lemma parse_records_document:
  assumes "lawful_release re" "length bs = 5" "\<forall>p \<in> set (payload_paths ver). validate_archive_path p = Inr ()"
  shows "parse_payload_records (provenance_document re (payloads_of ver bs) ver epoch ec sc) ver = Inr (map (record_of re) (payloads_of ver bs))"
proof -
  let ?ps = "payloads_of ver bs"
  have paths: "map pl_path ?ps = payload_paths ver" by (rule map_pl_path [OF assms(2)])
  have valid: "validate_archive_path (pl_path p) = Inr ()" if "p \<in> set ?ps" for p
    using that assms(3) paths by (metis image_eqI set_map)
  have "map_result (parse_payload_record ver) (map (provenance_payload re) ?ps) = Inr (map (record_of re) ?ps)"
    using assms(1,2) valid payload_roles by (intro map_result_map ballI parse_record) auto
  moreover have "map pr_path (map (record_of re) ?ps) = payload_paths ver" using paths by (simp add: record_of_def comp_def)
  ultimately show ?thesis
    by (simp add: parse_payload_records_def provenance_document_def del: map_map)
qed

subsection \<open>The checksums\<close>

definition printable :: "char \<Rightarrow> bool" where
  "printable c = (let n = (of_char c :: nat) in 32 \<le> n \<and> n < 127)"

lemma printable_facts: "printable c \<Longrightarrow> \<not> is_line_break c \<and> \<not> control_char c \<and> c \<noteq> CHR 0x0D \<and> c \<noteq> line_feed"
  by (auto simp: printable_def is_line_break_def control_char_def line_feed_def Let_def)

lemma split_plain: "list_all printable l \<Longrightarrow> split_lines_from acc (l @ s) = split_lines_from (acc @ l) s"
  by (induction l arbitrary: acc) (auto simp: printable_facts)

lemma split_line_feed: "split_lines_from acc (line_feed # s) = acc # split_lines_from [] s"
  by (simp add: line_feed_def is_line_break_def)

lemma split_joined_lines:
  "list_all (list_all printable) ls \<Longrightarrow> ls \<noteq> [] \<Longrightarrow> split_lines (join [line_feed] ls @ [line_feed]) = ls"
  unfolding split_lines_def
proof (induction "[line_feed]" ls rule: join.induct)
  case (2 w)
  then show ?case by (simp add: split_plain split_line_feed del: split_lines_from.simps(2))
next
  case (3 w v ws)
  then show ?case by (simp add: split_plain split_line_feed del: split_lines_from.simps(2))
qed simp

lemma checksum_line_parts:
  assumes "is_sha256 (re_sha256 re (pl_data p))" "pl_path p \<noteq> []" "list_all printable (pl_path p)"
  shows "checksum_of_line (checksum_line re p) = Some (re_sha256 re (pl_data p), pl_path p)"
    and "list_all printable (checksum_line re p)"
proof -
  have hex: "printable c" if "lower_hex c" for c
    using that by (auto simp: lower_hex_def printable_def)
  have len: "length (re_sha256 re (pl_data p)) = 64" using assms(1) by (simp add: is_sha256_def)
  have "line_feed \<notin> set (pl_path p)" using assms(3) printable_facts by (auto simp: list_all_iff)
  then show "checksum_of_line (checksum_line re p) = Some (re_sha256 re (pl_data p), pl_path p)"
    using assms(1,2) len by (simp add: checksum_of_line_def checksum_line_def)
  show "list_all printable (checksum_line re p)"
    using assms(1,3) hex by (auto simp: checksum_line_def is_sha256_def list_all_iff printable_def)
qed

definition checksum_of :: "release_env \<Rightarrow> bundle_payload \<Rightarrow> string \<times> string" where
  "checksum_of re p = (pl_path p, re_sha256 re (pl_data p))"

lemma dict_set_fresh: "k \<notin> fst ` set d \<Longrightarrow> dict_set d k v = d @ [(k, v)]"
  by (induction d) (auto simp: dict_set_def)

lemma checksum_records_lines:
  assumes "\<forall>p \<in> set ps. checksum_of_line (checksum_line re p) = Some (re_sha256 re (pl_data p), pl_path p)
      \<and> validate_archive_path (pl_path p) = Inr ()"
    and "distinct (dict_keys seen @ map pl_path ps)"
  shows "checksum_records seen (map (checksum_line re) ps) = Inr (seen @ map (checksum_of re) ps)"
  using assms
proof (induction ps arbitrary: seen)
  case (Cons p ps)
  have "dict_set seen (pl_path p) (re_sha256 re (pl_data p)) = seen @ [checksum_of re p]"
    using Cons.prems(2) by (simp add: dict_set_fresh checksum_of_def dict_keys_def)
  with Cons show ?case by (simp add: dict_keys_def checksum_of_def)
qed simp

lemma parse_checksums_bytes:
  assumes "lawful_release re" "ps \<noteq> []" "sorted (map pl_path ps)" "distinct (map pl_path ps)"
    and "\<forall>p \<in> set ps. validate_archive_path (pl_path p) = Inr () \<and> list_all printable (pl_path p)"
  shows "parse_checksums re (checksums_bytes re ps) = Inr (map (checksum_of re) ps)"
proof -
  have parts: "checksum_of_line (checksum_line re p) = Some (re_sha256 re (pl_data p), pl_path p)"
    "list_all printable (checksum_line re p)" if "p \<in> set ps" for p
  proof -
    have "pl_path p \<noteq> []" using assms(5) that by (auto simp: valid_path_iff)
    then show "checksum_of_line (checksum_line re p) = Some (re_sha256 re (pl_data p), pl_path p)"
      "list_all printable (checksum_line re p)"
      using assms(1,5) that by (auto simp: lawful_release_def intro!: checksum_line_parts)
  qed
  have "sort_key pl_path ps = ps" using assms(3) by (rule sort_key_id_if_sorted)
  moreover have "split_lines (join [line_feed] (map (checksum_line re) ps) @ [line_feed]) = map (checksum_line re) ps"
    using parts(2) assms(2) by (intro split_joined_lines) (auto simp: list_all_iff)
  moreover have "checksum_records [] (map (checksum_line re) ps) = Inr (map (checksum_of re) ps)"
    using parts(1) assms(4,5) by (subst checksum_records_lines) (auto simp: dict_keys_def)
  moreover have "dict_keys (map (checksum_of re) ps) = map pl_path ps" by (simp add: dict_keys_def checksum_of_def)
  ultimately show ?thesis
    using assms(1,3) by (simp add: parse_checksums_def checksums_bytes_def lawful_release_def ends_with_append)
qed

subsection \<open>The paths\<close>

lemma split_on_word: "sep \<notin> set w \<Longrightarrow> split_on sep w = [w]"
  by (induction w) auto

lemma printable_version:
  assumes "validate_version ver = Inr ()"
  shows "ver \<noteq> []" "list_all printable ver" "CHR ''/'' \<notin> set ver" "backslash \<notin> set ver"
proof -
  from assms show "ver \<noteq> []" by (cases ver) (simp_all add: validate_version_def)
  from assms have "\<forall>c \<in> set ver. c \<in> set ''0123456789abcdefghijklmnopqrstuvwxyzABCDEFGHIJKLMNOPQRSTUVWXYZ._+-''"
    by (cases ver) (auto simp: validate_version_def ascii_alnum_def list_all_iff)
  moreover have "list_all (\<lambda>c. printable c \<and> c \<noteq> CHR ''/'' \<and> c \<noteq> backslash)
      ''0123456789abcdefghijklmnopqrstuvwxyzABCDEFGHIJKLMNOPQRSTUVWXYZ._+-''"
    by (simp add: printable_def backslash_def)
  ultimately have "\<forall>c \<in> set ver. printable c \<and> c \<noteq> CHR ''/'' \<and> c \<noteq> backslash"
    unfolding list_all_iff by blast
  then show "list_all printable ver" "CHR ''/'' \<notin> set ver" "backslash \<notin> set ver" by (auto simp: list_all_iff)
qed

lemma valid_printable_path:
  "list_all printable p \<Longrightarrow> backslash \<notin> set p \<Longrightarrow> list_all (\<lambda>w. w \<notin> {[], ''.'', ''..''}) (split_on (CHR ''/'') p)
    \<Longrightarrow> validate_archive_path p = Inr ()"
  by (auto simp: valid_path_iff list_all_iff list_ex_iff dest: printable_facts)

lemma bundle_paths_fine:
  assumes "validate_version ver = Inr ()" "p \<in> set (checksums_path # payload_paths ver @ [provenance_path])"
  shows "validate_archive_path p = Inr () \<and> list_all printable p"
proof -
  note ver = printable_version [OF assms(1)]
  have "list_all printable p \<and> backslash \<notin> set p \<and> list_all (\<lambda>w. w \<notin> {[], ''.'', ''..''}) (split_on (CHR ''/'') p)"
    using assms(2) ver
    by (auto simp: payload_paths_def path_defs split_on_word printable_def backslash_def)
  then show ?thesis by (simp add: valid_printable_path)
qed

subsection \<open>The archive\<close>

definition ordered_entries :: "release_env \<Rightarrow> release_identity \<Rightarrow> bundle_payload list \<Rightarrow> (string, bytes) dict" where
  "ordered_entries re ri ps =
     (let provenance = identity_bytes re ri ps;
          checksums = checksums_bytes re (ps @ [\<lparr>pl_path = provenance_path, pl_role = ''provenance'', pl_data = provenance\<rparr>])
      in (bundle_path checksums_path, checksums) # map (\<lambda>p. (bundle_path (pl_path p), pl_data p)) ps
         @ [(bundle_path provenance_path, provenance)])"

text \<open>The size limits of the verifier, which the builder does not check before.\<close>

definition bundle_fits :: "(string, bytes) dict \<Rightarrow> bytes \<Rightarrow> bool" where
  "bundle_fits entries b \<longleftrightarrow>
     int (length b) \<le> max_bundle_bytes
     \<and> list_all (\<lambda>nd. int (length (snd nd)) \<le> max_archive_member_bytes) entries
     \<and> sum_list (map (\<lambda>nd. int (length (snd nd))) entries) \<le> max_archive_total_bytes"

lemma keys_ordered:
  "length bs = 5 \<Longrightarrow> map fst (ordered_entries re ri (payloads_of ver bs))
     = map bundle_path (checksums_path # payload_paths ver @ [provenance_path])"
  by (simp add: ordered_entries_def Let_def comp_def flip: map_pl_path)

lemma distinct_bundle_paths: "distinct (map bundle_path (checksums_path # payload_paths ver @ [provenance_path]))"
  using distinct_paths [of ver] inj_bundle_path unfolding distinct_map by (blast intro: inj_on_subset)

lemma sort_moves_last:
  assumes "sorted (map f (x # xs))" "distinct (map f (x # xs))"
  shows "sort_key f (xs @ [x]) = x # xs"
proof (rule sort_key_inj_key_eq)
  show "inj_on f (set (xs @ [x]))" using assms(2) by (auto simp: distinct_map)
qed (use assms(1) in \<open>simp_all\<close>)

lemma dict_sorted_entries:
  assumes "length bs = 5"
  shows "dict_sorted (bundle_entries re ri (payloads_of ver bs)) = ordered_entries re ri (payloads_of ver bs)"
proof -
  let ?o = "ordered_entries re ri (payloads_of ver bs)"
  obtain x xs where o: "?o = x # xs" "bundle_entries re ri (payloads_of ver bs) = xs @ [x]"
    by (simp add: ordered_entries_def bundle_entries_def Let_def)
  have "sorted (map fst ?o)" unfolding keys_ordered [OF assms] sorted_bundle_paths by (rule sorted_paths)
  moreover have "distinct (map fst ?o)" unfolding keys_ordered [OF assms] by (rule distinct_bundle_paths)
  ultimately show ?thesis unfolding dict_sorted_def o by (rule sort_moves_last)
qed

lemma entries_of_members: "entries_of (map (bundle_member epoch) d) = d"
  by (simp add: entries_of_def bundle_member_def comp_def)

lemma bundle_member_parts [simp]:
  "tm_name (bundle_member epoch nd) = fst nd" "tm_kind (bundle_member epoch nd) = File_member"
  "tm_size (bundle_member epoch nd) = int (length (snd nd))" "tm_data (bundle_member epoch nd) = snd nd"
  by (simp_all add: bundle_member_def)

lemma tm_name_members [simp]: "map tm_name (map (bundle_member epoch) d) = map fst d"
  by (simp add: bundle_member_def comp_def)

lemma check_members_fit:
  assumes "\<forall>nd \<in> set d. validate_archive_path (fst nd) = Inr ()"
    and "\<forall>nd \<in> set d. int (length (snd nd)) \<le> max_archive_member_bytes"
    and "seen + sum_list (map (\<lambda>nd. int (length (snd nd))) d) \<le> max_archive_total_bytes"
  shows "check_bundle_members seen (map (bundle_member epoch) d) = Inr ()"
  using assms
proof (induction d arbitrary: seen)
  case (Cons nd d)
  have "0 \<le> sum_list (map (\<lambda>nd. int (length (snd nd))) d)" by (intro sum_list_nonneg) auto
  with Cons.prems have "check_bundle_members (seen + int (length (snd nd))) (map (bundle_member epoch) d) = Inr ()"
    by (intro Cons.IH) (simp_all add: add.assoc)
  with Cons.prems \<open>0 \<le> _\<close> show ?case by simp
qed simp

lemma members_packable:
  assumes "\<forall>nd \<in> set d. validate_archive_path (fst nd) = Inr ()" "0 \<le> epoch" "epoch < 2 ^ 31"
  shows "list_all packable (map (bundle_member epoch) d)"
  using assms by (simp add: list_all_iff packable_def bundle_member_def)

lemma keys_valid:
  assumes "map fst d = map bundle_path (checksums_path # payload_paths ver @ [provenance_path])" "validate_version ver = Inr ()"
  shows "\<forall>nd \<in> set d. validate_archive_path (fst nd) = Inr ()"
proof
  fix nd assume "nd \<in> set d"
  then have "fst nd \<in> set (map fst d)" by simp
  then obtain q where "q \<in> set (checksums_path # payload_paths ver @ [provenance_path])" "fst nd = bundle_path q"
    unfolding assms(1) set_map by blast
  then show "validate_archive_path (fst nd) = Inr ()" using bundle_paths_fine [OF assms(2)] by simp
qed

lemma read_built:
  assumes "lawful_release re" "valid_identity ri" "length bs = 5" "d = ordered_entries re ri (payloads_of (ri_version ri) bs)"
    and "ar_ustar (re_archiver re) (map (bundle_member (ri_epoch ri)) d) (ri_epoch ri) = Inr b" "bundle_fits d b"
  shows "read_bundle (re_archiver re) (Regular_file b) = Inr (b, map (bundle_member (ri_epoch ri)) d)"
proof -
  have keys: "map fst d = map bundle_path (checksums_path # payload_paths (ri_version ri) @ [provenance_path])"
    unfolding assms(4) by (rule keys_ordered [OF assms(3)])
  have epoch: "0 \<le> ri_epoch ri" "ri_epoch ri < 2 ^ 31"
    using assms(2) by (auto simp: valid_identity_def validate_source_date_epoch_def)
  have valid: "\<forall>nd \<in> set d. validate_archive_path (fst nd) = Inr ()"
    using keys assms(2) by (intro keys_valid) (auto simp: valid_identity_def)
  have "ar_untar (re_archiver re) b = Inr (map (bundle_member (ri_epoch ri)) d)"
    using assms(1,5) members_packable [OF valid epoch] epoch by (simp add: lawful_release_def lawful_archiver_def)
  moreover have "check_bundle_members 0 (map (bundle_member (ri_epoch ri)) d) = Inr ()"
    using assms(6) by (intro check_members_fit valid) (simp_all add: bundle_fits_def list_all_iff)
  moreover have "sorted (map fst d)" unfolding keys sorted_bundle_paths by (rule sorted_paths)
  moreover have "distinct (map fst d)" unfolding keys by (rule distinct_bundle_paths)
  ultimately show ?thesis
    using assms(6) unfolding read_bundle_Inr tm_name_members by (simp add: bundle_fits_def)
qed

lemma render_built:
  assumes "ar_ustar ar (map (bundle_member epoch) d) epoch = Inr b" "sorted (map fst d)"
    and "\<forall>nd \<in> set d. validate_archive_path (fst nd) = Inr ()"
  shows "render_tar_gz ar d epoch = Inr b"
proof -
  have "dict_sorted d = d" using assms(2) by (simp add: dict_sorted_def sort_key_id_if_sorted)
  moreover have "map_result (\<lambda>nd. validate_archive_path (fst nd)) d = Inr (map (\<lambda>_. ()) d)"
    using assms(3) map_result_map [of d "\<lambda>nd. validate_archive_path (fst nd)" id "\<lambda>_. ()"] by simp
  ultimately show ?thesis using assms(1) by (simp add: render_tar_gz_def)
qed

lemma content_ordered:
  assumes "length bs = 5" "(n, x) \<in> set (ordered_entries re ri (payloads_of ver bs))"
  shows "content (ordered_entries re ri (payloads_of ver bs)) n = Inr x"
proof -
  have "distinct (map fst (ordered_entries re ri (payloads_of ver bs)))"
    unfolding keys_ordered [OF assms(1)] by (rule distinct_bundle_paths)
  then show ?thesis using assms(2) by (simp add: content_def dict_get_def)
qed

definition built_verification :: "release_env \<Rightarrow> release_identity \<Rightarrow> bundle_payload list \<Rightarrow> bytes \<Rightarrow> bundle_verification" where
  "built_verification re ri ps b =
     \<lparr>bv_sha256 = re_sha256 re b, bv_member_count = 7, bv_payload_count = 5,
      bv_provenance = provenance_document re ps (ri_version ri) (ri_epoch ri) (ri_engine_commit ri) (ri_subnet_commit ri)\<rparr>"

lemma built_contents:
  assumes "d = ordered_entries re ri (payloads_of (ri_version ri) [e, w, s, t, j])"
    and "validate_wheel_bytes (re_archiver re) e engine_distribution (ri_version ri) = Inr ()"
    and "validate_wheel_bytes (re_archiver re) w subnet_distribution (ri_version ri) = Inr ()"
    and "validate_sdist_bytes (re_archiver re) s subnet_distribution (ri_version ri) (ri_epoch ri) = Inr ()"
    and "validate_fixture_semantics re t j = Inr ()"
  shows "validate_contents re d (ri_version ri) (ri_epoch ri) = Inr ()"
proof -
  have "content d (bundle_path (pl_path p)) = Inr (pl_data p)" if "p \<in> set (payloads_of (ri_version ri) [e, w, s, t, j])" for p
    unfolding assms(1) using that by (intro content_ordered) (auto simp: ordered_entries_def Let_def)
  then have "list_all (\<lambda>p. content d (bundle_path (pl_path p)) = Inr (pl_data p)) (payloads_of (ri_version ri) [e, w, s, t, j])"
    by (simp add: list_all_iff)
  then show ?thesis
    using assms(2-5) by (simp add: validate_contents_def Let_def payloads_of_def expected_roles_def)
qed

lemma bundle_fits_mset: "mset d = mset d' \<Longrightarrow> bundle_fits d b = bundle_fits d' b"
proof -
  assume same: "mset d = mset d'"
  have "sum_list (map g d) = sum_list (map g d')" for g :: "string \<times> bytes \<Rightarrow> int"
    using arg_cong [OF same, of "\<lambda>m. sum_mset (image_mset g m)"] by (simp add: sum_mset_sum_list flip: mset_map)
  with mset_eq_setD [OF same] show ?thesis by (simp add: bundle_fits_def list_all_iff)
qed

lemma built_checksums:
  assumes "lawful_release re" "validate_version ver = Inr ()" "map pl_path ps = payload_paths ver" "pl_path q = provenance_path"
  shows "parse_checksums re (checksums_bytes re (ps @ [q])) = Inr (map (checksum_of re) (ps @ [q]))"
proof (rule parse_checksums_bytes [OF assms(1)])
  have listed: "map pl_path (ps @ [q]) = payload_paths ver @ [provenance_path]" using assms(3,4) by simp
  show "sorted (map pl_path (ps @ [q]))" "distinct (map pl_path (ps @ [q]))"
    using sorted_paths [of ver] distinct_paths [of ver] unfolding listed by (simp_all only: sorted_simps distinct.simps)
  show "\<forall>p \<in> set (ps @ [q]). validate_archive_path (pl_path p) = Inr () \<and> list_all printable (pl_path p)"
  proof
    fix p assume "p \<in> set (ps @ [q])"
    then have "pl_path p \<in> set (map pl_path (ps @ [q]))" by (simp only: set_map imageI)
    then show "validate_archive_path (pl_path p) = Inr () \<and> list_all printable (pl_path p)"
      unfolding listed by (intro bundle_paths_fine [OF assms(2)]) simp
  qed
qed simp

lemma built_bundle_verifies:
  assumes "lawful_release re" "valid_identity ri" "ps = payloads_of (ri_version ri) [e, w, s, t, j]"
    and "validate_wheel_bytes (re_archiver re) e engine_distribution (ri_version ri) = Inr ()"
    and "validate_wheel_bytes (re_archiver re) w subnet_distribution (ri_version ri) = Inr ()"
    and "validate_sdist_bytes (re_archiver re) s subnet_distribution (ri_version ri) (ri_epoch ri) = Inr ()"
    and "validate_fixture_semantics re t j = Inr ()"
    and "render_tar_gz (re_archiver re) (bundle_entries re ri ps) (ri_epoch ri) = Inr b" "bundle_fits (bundle_entries re ri ps) b"
  shows "verify_release_bundle re (expect_identity ri) (Regular_file b) = Inr (built_verification re ri ps b)"
proof -
  let ?ver = "ri_version ri" and ?e = "ri_epoch ri"
  define d where "d = ordered_entries re ri ps"
  let ?prov = "\<lparr>pl_path = provenance_path, pl_role = ''provenance'', pl_data = identity_bytes re ri ps\<rparr>"
  let ?doc = "provenance_document re ps ?ver ?e (ri_engine_commit ri) (ri_subnet_commit ri)"
  let ?cs = "checksums_bytes re (ps @ [?prov])"
  have sorted: "dict_sorted (bundle_entries re ri ps) = d" unfolding d_def assms(3) by (rule dict_sorted_entries) simp
  have d: "ar_ustar (re_archiver re) (map (bundle_member ?e) d) ?e = Inr b" using render_Inr [OF assms(8)] sorted by simp
  have "mset d = mset (bundle_entries re ri ps)" using sorted by (metis dict_sorted_def mset_sort)
  then have "bundle_fits d b"
    using assms(9) bundle_fits_mset by blast
  then have opened: "read_bundle (re_archiver re) (Regular_file b) = Inr (b, map (bundle_member ?e) d)"
    using d assms(1,2) by (intro read_built) (simp_all add: d_def assms(3))
  have keys: "map fst d = map bundle_path (checksums_path # payload_paths ?ver @ [provenance_path])"
    unfolding d_def assms(3) by (rule keys_ordered) simp
  have paths: "map pl_path ps = payload_paths ?ver" unfolding assms(3) by (rule map_pl_path) simp
  have fine: "validate_archive_path q = Inr () \<and> list_all printable q" if "q \<in> set (checksums_path # payload_paths ?ver @ [provenance_path])" for q
    using assms(2) that by (intro bundle_paths_fine) (auto simp: valid_identity_def)
  have stored: "content d (bundle_path (pl_path p)) = Inr (pl_data p)" if "p \<in> set (ps @ [?prov])" for p
    unfolding d_def assms(3) using that by (intro content_ordered) (auto simp: ordered_entries_def Let_def assms(3))
  have sums: "content d (bundle_path checksums_path) = Inr ?cs"
    unfolding d_def assms(3) by (intro content_ordered) (simp_all add: ordered_entries_def Let_def)
  have parsed: "parse_provenance re (identity_bytes re ri ps) = Inr ?doc" "parse_identity ?doc = Inr ri"
    "parse_payload_records ?doc ?ver = Inr (map (record_of re) ps)"
    using assms(1) fine parse_provenance_bytes parse_identity_document [OF assms(2)] unfolding assms(3)
    by (auto simp: identity_bytes_def intro!: parse_records_document)
  have "set (map fst d) = set (map (\<lambda>r. bundle_path (pr_path r)) (map (record_of re) ps)) \<union> {bundle_path provenance_path, bundle_path checksums_path}"
    unfolding keys by (auto simp: record_of_def simp flip: paths)
  moreover have "map_result (check_member_metadata ?e) (map (bundle_member ?e) d) = Inr (map (\<lambda>_. ()) d)"
    by (rule map_result_map) (simp add: check_member_metadata_def bundle_member_def)
  moreover have "map_result (check_payload re d) (map (record_of re) ps) = Inr (map (\<lambda>_. ()) ps)"
    using stored by (intro map_result_map) (simp add: check_payload_def record_of_def)
  moreover have "parse_checksums re ?cs = Inr (map (checksum_of re) (ps @ [?prov]))"
    using assms(1,2) paths by (intro built_checksums) (simp_all add: valid_identity_def)
  moreover have "set (dict_keys (map (checksum_of re) (ps @ [?prov]))) = set (map pr_path (map (record_of re) ps)) \<union> {provenance_path}"
    by (auto simp: dict_keys_def checksum_of_def record_of_def)
  moreover have "map_result (check_checksum re d) (map (checksum_of re) (ps @ [?prov])) = Inr (map (\<lambda>_. ()) (ps @ [?prov]))"
    using stored by (intro map_result_map) (auto simp: check_checksum_def checksum_of_def)
  moreover have "validate_contents re d ?ver ?e = Inr ()" using assms(3-7) by (intro built_contents) (simp_all add: d_def)
  moreover have "sorted (map fst d)" unfolding keys sorted_bundle_paths by (rule sorted_paths)
  then have "render_tar_gz (re_archiver re) d ?e = Inr b"
    using d keys assms(2) by (intro render_built keys_valid) (auto simp: valid_identity_def)
  moreover have "check_expectations (expect_identity ri) ri = Inr ()"
    by (simp add: check_expectations_def expect_identity_def agrees_def)
  moreover have "length d = 7" "length ps = 5" using arg_cong [OF keys, of length] arg_cong [OF paths, of length]
    by (simp_all add: payload_paths_def)
  moreover have "content d (bundle_path provenance_path) = Inr (identity_bytes re ri ps)" using stored [of ?prov] by simp
  moreover have "{bundle_path provenance_path, bundle_path checksums_path} \<subseteq> set (map fst d)" unfolding keys by auto
  ultimately show ?thesis
    using opened parsed sums
    by (simp add: verify_release_bundle_def Let_def entries_of_members built_verification_def dict_keys_def del: map_map)
qed

text \<open>C15: the builder never writes a bundle that its own verifier rejects: once the inputs have passed their checks and the archive
  is rendered within the verifier's size limits, building succeeds, the output is the archive and its verification reports the
  provenance that was written.\<close>

theorem building_succeeds:
  assumes "lawful_release re" "load_payloads re bi = Inr ps" "ri = bi_identity bi"
    and "render_tar_gz (re_archiver re) (bundle_entries re ri ps) (ri_epoch ri) = Inr b"
    and "bundle_fits (bundle_entries re ri ps) b" "rd_output s \<noteq> Irregular_file"
  shows "build_release_bundle re bi s =
    (Inr (built_verification re ri ps b), s\<lparr>rd_output := Regular_file b, rd_temporary := None\<rparr>)"
proof -
  have "verify_release_bundle re (expect_identity ri) (Regular_file b) = Inr (built_verification re ri ps b)"
    using assms(2,3)
  proof (cases rule: load_payloads_cases)
    case (1 e w s t j)
    then show ?thesis using assms(1,4,5) by (intro built_bundle_verifies)
  qed
  with assms(2-4,6) show ?thesis
    by (simp add: build_release_bundle_def assemble_bundle_def write_verified_atomic_def publish_verified_def op_plumbing catch_op_def)
qed

section \<open>A sample release\<close>

text \<open>
  JSON by way of the countability of documents, with a short name for the one provenance and the one wire document that occur; a
  digest tells contents by their length.
\<close>

instance pyfloat :: countable
  by countable_datatype

instance json :: countable
  by countable_datatype

definition sample_sha :: "bytes \<Rightarrow> string" where
  "sample_sha b = replicate 62 CHR ''a'' @ [''0123456789abcdef'' ! (length b div 16 mod 16), ''0123456789abcdef'' ! (length b mod 16)]"

definition sample_files :: "json \<Rightarrow> bytes env" where
  "sample_files doc =
     \<lparr>loads = (\<lambda>b. if b = ''P'' then Some doc else if b = ''W'' then Some (JObj sample_wire) else Some (from_nat (length b))),
      dumps = (\<lambda>j. if canon_json j = doc then ''P'' else replicate (to_nat (canon_json j)) CHR ''1''),
      sha256 = sample_sha, json_digest = (\<lambda>_. []), compact_size = (\<lambda>_. 100), archive_root = [], render = (\<lambda>_. []),
      text_float = (\<lambda>_. None)\<rparr>"

definition sample_release_env :: "json \<Rightarrow> release_env" where
  "sample_release_env doc =
     \<lparr>re_files = sample_files doc, re_archiver = plain_archiver, re_decode = Some, re_encode = id,
      re_load_task = Some (\<lambda>_. Inr sample_task)\<rparr>"

definition sample_identity :: release_identity where
  "sample_identity = \<lparr>ri_version = ''1'', ri_epoch = 400000000, ri_engine_commit = replicate 40 CHR ''a'', ri_subnet_commit = replicate 40 CHR ''b''\<rparr>"

definition sample_payloads :: "bundle_payload list" where
  "sample_payloads = payloads_of ''1'' [''dolores-autocurricula 1'', ''dolores-bittensor-subnet 1'', sample_normal, ''Y'', ''W'']"

definition sample_inputs :: build_inputs where
  "sample_inputs =
     \<lparr>bi_engine_wheel = (engine_wheel_name ''1'', Regular_file ''dolores-autocurricula 1''),
      bi_subnet_wheel = (subnet_wheel_name ''1'', Regular_file ''dolores-bittensor-subnet 1''),
      bi_subnet_sdist = (subnet_sdist_name ''1'', Regular_file sample_normal),
      bi_fixture = Directory_of [(''wire.json'', Regular_file ''W''), (''task.yaml'', Regular_file ''Y'')],
      bi_resolved_output = ''/out/bundle.tar.gz'', bi_resolved_inputs = [''/in/a'', ''/in/b'', ''/in/c''],
      bi_resolved_fixture = ''/in/fixture'', bi_identity = sample_identity\<rparr>"

definition sample_document :: jdict where
  "sample_document = provenance_document (sample_release_env JNull) sample_payloads ''1'' 400000000 (replicate 40 CHR ''a'') (replicate 40 CHR ''b'')"

definition sample_release :: release_env where
  "sample_release = sample_release_env (JObj sample_document)"

lemma sample_sha_hex: "is_sha256 (sample_sha b)"
proof -
  have "lower_hex (''0123456789abcdef'' ! k)" if "k < 16" for k
    using that nth_mem [of k "''0123456789abcdef''"] by (simp add: lower_hex_def)
  moreover have "lower_hex CHR ''a''" by (simp add: lower_hex_def)
  ultimately show ?thesis by (simp add: is_sha256_def sample_sha_def list_all_iff)
qed

lemma replicate_single: "replicate n c = [d] \<longleftrightarrow> n = 1 \<and> c = d"
  by (cases n) auto

lemma sample_release_lawful: "lawful_release sample_release"
  using plain_archiver_lawful sample_sha_hex
  by (auto simp: replicate_single lawful_release_def sample_release_def sample_release_env_def json_codec_def sample_files_def re_sha256_def)

lemma sample_sdist_valid: "validate_sdist_bytes plain_archiver sample_normal ''dolores-bittensor-subnet'' ''1'' 400000000 = Inr ()"
  by code_simp

lemma sample_wheels_valid:
  "validate_wheel_bytes plain_archiver ''dolores-autocurricula 1'' ''dolores-autocurricula'' ''1'' = Inr ()"
  "validate_wheel_bytes plain_archiver ''dolores-bittensor-subnet 1'' ''dolores-bittensor-subnet'' ''1'' = Inr ()"
  by code_simp+

definition sample_sums :: bytes where
  "sample_sums = join [line_feed] (map (\<lambda>p. sample_sha (pl_data p) @ ''  '' @ pl_path p)
     (sort_key pl_path (sample_payloads @ [\<lparr>pl_path = provenance_path, pl_role = ''provenance'', pl_data = ''P''\<rparr>]))) @ [line_feed]"

definition sample_entries :: "(string, bytes) dict" where
  "sample_entries = (bundle_path checksums_path, sample_sums) # map (\<lambda>p. (bundle_path (pl_path p), pl_data p)) sample_payloads
     @ [(bundle_path provenance_path, ''P'')]"

definition sample_bundle :: bytes where
  "sample_bundle = pack (map (bundle_member 400000000) sample_entries) 400000000"

lemma document_any: "provenance_document (sample_release_env d) ps ver epoch ec sc = provenance_document (sample_release_env d') ps ver epoch ec sc"
proof -
  have "provenance_payload (sample_release_env d) = provenance_payload (sample_release_env d')"
    by (simp add: fun_eq_iff provenance_payload_def re_sha256_def sample_release_env_def sample_files_def)
  then show ?thesis by (simp add: provenance_document_def)
qed

lemma sample_identity_bytes: "identity_bytes sample_release sample_identity sample_payloads = ''P''"
proof -
  have "provenance_document sample_release sample_payloads ''1'' 400000000 (replicate 40 CHR ''a'') (replicate 40 CHR ''b'') = sample_document"
    unfolding sample_document_def sample_release_def by (rule document_any)
  then have "canon_json (JObj sample_document) = JObj sample_document" by (metis canon_provenance)
  with \<open>_ = sample_document\<close> show ?thesis
    by (simp add: identity_bytes_def provenance_bytes_def sample_identity_def)
      (simp add: sample_release_def sample_release_env_def sample_files_def)
qed

lemma sample_ordered: "ordered_entries sample_release sample_identity sample_payloads = sample_entries"
  unfolding ordered_entries_def Let_def sample_identity_bytes
  by (simp add: sample_entries_def sample_sums_def checksums_bytes_def checksum_line_def [abs_def] re_sha256_def sample_release_def
      sample_release_env_def sample_files_def)

lemma sample_release_checks:
  "validate_version ''1'' = Inr ()" "validate_commit (replicate 40 CHR ''a'') = Inr ()" "validate_commit (replicate 40 CHR ''b'') = Inr ()"
  "validate_source_date_epoch 400000000 = Inr ()" "validate_output_location sample_inputs = Inr ()"
  "py_eq_fields sample_wire sample_wire"
  by code_simp+

lemma sample_converted: "to_wire (sample_files d) max_package_bytes_const sample_task = Inr sample_wire"
proof -
  have "to_wire (sample_files d) max_package_bytes_const sample_task = to_wire plain_env 1000 sample_task"
    by (simp add: to_wire_def wire_size_ok_def canonical_size_def sample_files_def plain_env_def max_package_bytes_const_def)
  then show ?thesis using sample_wire_ok(1) by (auto simp: sample_wire_def is_ok_iff)
qed

lemma sample_fixture:
  "load_fixture_payloads sample_release (bi_fixture sample_inputs) =
      Inr [\<lparr>pl_path = fixture_path ''task.yaml'', pl_role = ''honest_fixture'', pl_data = ''Y''\<rparr>,
        \<lparr>pl_path = fixture_path ''wire.json'', pl_role = ''honest_fixture'', pl_data = ''W''\<rparr>]"
proof -
  have "loads (sample_files d) ''W'' = Some (JObj sample_wire)" for d by (simp add: sample_files_def)
  then show ?thesis
    by (simp add: load_fixture_payloads_def sample_inputs_def fixture_names_def fixture_payload_def require_regular_file_def
        validate_fixture_semantics_def sample_release_def sample_release_env_def sample_converted sample_release_checks)
qed

lemma sample_loaded: "load_payloads sample_release sample_inputs = Inr sample_payloads"
proof -
  have "load_input (engine_wheel_name ''1'') ''engine_wheel'' (bi_engine_wheel sample_inputs) = Inr (sample_payloads ! 0)"
    "load_input (subnet_wheel_name ''1'') ''subnet_wheel'' (bi_subnet_wheel sample_inputs) = Inr (sample_payloads ! 1)"
    "load_input (subnet_sdist_name ''1'') ''subnet_sdist'' (bi_subnet_sdist sample_inputs) = Inr (sample_payloads ! 2)"
    by (simp_all add: load_input_Inr sample_inputs_def require_regular_file_def sample_payloads_def payloads_of_def expected_roles_def)
  moreover have "pl_data (sample_payloads ! 0) = ''dolores-autocurricula 1''" "pl_data (sample_payloads ! 1) = ''dolores-bittensor-subnet 1''"
    "pl_data (sample_payloads ! 2) = sample_normal" by (simp_all add: sample_payloads_def payloads_of_def expected_roles_def)
  moreover have "[sample_payloads ! 0, sample_payloads ! 1, sample_payloads ! 2] @
      [\<lparr>pl_path = fixture_path ''task.yaml'', pl_role = ''honest_fixture'', pl_data = ''Y''\<rparr>,
        \<lparr>pl_path = fixture_path ''wire.json'', pl_role = ''honest_fixture'', pl_data = ''W''\<rparr>] = sample_payloads"
    by (simp add: sample_payloads_def payloads_of_def expected_roles_def)
  moreover have "sort_key pl_path sample_payloads = sample_payloads"
    using sorted_paths [of "''1''"] by (intro sort_key_id_if_sorted) (simp add: sample_payloads_def map_pl_path sorted_append)
  moreover have "bi_identity sample_inputs = sample_identity" "re_archiver sample_release = plain_archiver"
    by (simp_all add: sample_inputs_def sample_release_def sample_release_env_def)
  ultimately show ?thesis
    using sample_wheels_valid sample_sdist_valid sample_release_checks(1-5) sample_fixture
    unfolding load_payloads_def Let_def sample_identity_def engine_distribution_def subnet_distribution_def
    by (simp del: sort_key_simps append_Cons append_Nil)
qed

lemma sample_sorted:
  "dict_sorted (bundle_entries sample_release sample_identity sample_payloads) = sample_entries"
  unfolding sample_payloads_def by (subst dict_sorted_entries) (simp_all add: sample_ordered [unfolded sample_payloads_def])

lemma sample_keys: "map fst sample_entries = map bundle_path (checksums_path # payload_paths ''1'' @ [provenance_path])"
  unfolding sample_ordered [symmetric] sample_payloads_def by (rule keys_ordered) simp

lemma sample_rendered:
  "render_tar_gz plain_archiver (bundle_entries sample_release sample_identity sample_payloads) 400000000 = Inr sample_bundle"
proof -
  have "map_result (\<lambda>nd. validate_archive_path (fst nd)) (map id sample_entries) = Inr (map (\<lambda>_. ()) sample_entries)"
    using keys_valid [OF sample_keys sample_release_checks(1)] by (intro map_result_map) simp
  then show ?thesis by (simp add: render_tar_gz_def sample_sorted) (simp add: plain_archiver_def sample_bundle_def)
qed

lemma length_pack:
  "length (pack ms t) = 11 + length ms + sum_list (map (\<lambda>m. 8 + 2 * length (tm_name m) + 2 * length (tm_data m)) ms)"
proof -
  have "length (concat (map pack_member ms)) = sum_list (map (\<lambda>m. 8 + 2 * length (tm_name m) + 2 * length (tm_data m)) ms)"
    by (induction ms) (simp_all add: pack_member_def pack_text_def)
  then show ?thesis by (simp add: pack_def gzip_magic_def)
qed

lemma sample_normal_length: "length sample_normal = 221"
  unfolding sample_normal_def length_pack by code_simp

lemma sample_sums_length: "length sample_sums = 641"
proof -
  have sorted: "sort_key pl_path (sample_payloads @ [\<lparr>pl_path = provenance_path, pl_role = ''provenance'', pl_data = ''P''\<rparr>])
      = sample_payloads @ [\<lparr>pl_path = provenance_path, pl_role = ''provenance'', pl_data = ''P''\<rparr>]"
    using sorted_paths [of "''1''"] by (intro sort_key_id_if_sorted) (simp add: sample_payloads_def map_pl_path)
  have "length (sample_sha b) = 64" for b by (simp add: sample_sha_def)
  then show ?thesis
    unfolding sample_sums_def sorted by (simp add: sample_payloads_def payloads_of_def expected_roles_def path_defs)
qed

lemma sample_small:
  "int (length sample_bundle) \<le> max_bundle_bytes" "list_all (\<lambda>nd. int (length (snd nd)) \<le> max_archive_member_bytes) sample_entries"
  "sum_list (map (\<lambda>nd. int (length (snd nd))) sample_entries) \<le> max_archive_total_bytes"
  by (simp_all add: sample_bundle_def length_pack sample_entries_def sample_sums_length sample_payloads_def payloads_of_def
      expected_roles_def path_defs bundle_path_def sample_normal_length max_bundle_bytes_def max_archive_member_bytes_def
      max_archive_total_bytes_def)

lemma sample_fits: "bundle_fits (bundle_entries sample_release sample_identity sample_payloads) sample_bundle"
proof -
  have "mset sample_entries = mset (bundle_entries sample_release sample_identity sample_payloads)"
    by (metis sample_sorted dict_sorted_def mset_sort)
  then show ?thesis using sample_small bundle_fits_mset by (metis bundle_fits_def)
qed

definition sample_release_disk :: release_disk where
  "sample_release_disk = \<lparr>rd_output = Absent_file, rd_temporary = None\<rparr>"

theorem building_succeeds_witness:
  "build_release_bundle sample_release sample_inputs sample_release_disk =
    (Inr (built_verification sample_release sample_identity sample_payloads sample_bundle),
     sample_release_disk\<lparr>rd_output := Regular_file sample_bundle, rd_temporary := None\<rparr>)"
proof (rule building_succeeds [OF sample_release_lawful sample_loaded])
  show "render_tar_gz (re_archiver sample_release) (bundle_entries sample_release sample_identity sample_payloads)
      (ri_epoch sample_identity) = Inr sample_bundle"
    using sample_rendered by (simp add: sample_release_def sample_release_env_def sample_identity_def)
qed (simp_all add: sample_inputs_def sample_fits sample_release_disk_def)

lemma sample_bundle_verifies:
  "verify_release_bundle sample_release (expect_identity sample_identity) (Regular_file sample_bundle) =
     Inr (built_verification sample_release sample_identity sample_payloads sample_bundle)"
proof -
  have rendered: "render_tar_gz (re_archiver sample_release) (bundle_entries sample_release sample_identity sample_payloads)
      (ri_epoch sample_identity) = Inr sample_bundle"
    using sample_rendered by (simp add: sample_release_def sample_release_env_def sample_identity_def)
  have "sample_identity = bi_identity sample_inputs" by (simp add: sample_inputs_def)
  with sample_loaded show ?thesis
  proof (cases rule: load_payloads_cases)
    case (1 e w s t j)
    with sample_release_lawful rendered sample_fits show ?thesis by (intro built_bundle_verifies)
  qed
qed

theorem verified_bundle_contents_witness:
  "\<exists>b ms ri. Regular_file sample_bundle = Regular_file b \<and> ar_untar (re_archiver sample_release) b = Inr ms
    \<and> parse_identity (bv_provenance (built_verification sample_release sample_identity sample_payloads sample_bundle)) = Inr ri
    \<and> map tm_name ms = map bundle_path (checksums_path # payload_paths (ri_version ri) @ [provenance_path])"
  using verified_bundle_contents [OF sample_bundle_verifies] by blast

theorem output_is_verified_witness:
  "rd_output (snd (build_release_bundle sample_release (sample_inputs\<lparr>bi_resolved_output := ''/in/a''\<rparr>) sample_release_disk)) = Absent_file"
proof -
  have "validate_output_location (sample_inputs\<lparr>bi_resolved_output := ''/in/a''\<rparr>) \<noteq> Inr ()" by code_simp
  then have "\<not> is_ok (assemble_bundle sample_release (sample_inputs\<lparr>bi_resolved_output := ''/in/a''\<rparr>))"
    by (auto simp: assemble_bundle_def is_ok_iff load_payloads_def Let_def)
  moreover obtain r s' where run: "build_release_bundle sample_release (sample_inputs\<lparr>bi_resolved_output := ''/in/a''\<rparr>) sample_release_disk = (r, s')"
    by fastforce
  ultimately have "\<not> is_ok r" by (auto simp: build_release_bundle_def op_plumbing is_ok_iff split: sum.splits)
  then obtain e where "r = Inl e" by (cases r) (auto simp: is_ok_iff)
  with output_is_verified [OF run] run show ?thesis by (simp add: sample_release_disk_def)
qed

end
