(* ===== verification/Preflight.thy ===== *)
theory Preflight
  imports Validator_Cli
begin

text \<open>
  The readiness checks of \<open>scripts/preflight.py\<close>: each check yields \<open>PASS\<close>, \<open>FAIL\<close> or \<open>SKIP\<close> with a
  detail, one that raises counts as failed, and the exit code is 1 as soon as one has failed.  What the machine, the
  installed packages, Docker and the chain answer is a record.
\<close>

section \<open>The machine\<close>

record completed_process =
  cp_status :: int
  cp_out :: string
  cp_err :: string

text \<open>
  Versions of imported modules are the text of \<open>__version__\<close>, \<open>unknown\<close> where it is missing; an import that fails
  raises.  \<open>pf_subtensor\<close> is the SDK's constructor with the read of the block, absent where the SDK
  has neither name; \<open>pf_substrate\<close> is what \<open>SubtensorChain\<close> connects to and \<open>pf_json\<close> is \<open>json.dumps\<close>.
\<close>

record preflight_host =
  pf_python :: "int \<times> int \<times> int"
  pf_dolores :: "exn + string"
  pf_bittensor :: "exn + string"
  pf_executable :: string
  pf_run :: "string list \<Rightarrow> exn + completed_process"
  pf_which :: "string \<Rightarrow> string option"
  pf_exists :: "string \<Rightarrow> bool"
  pf_home :: string
  pf_load_panel :: "string \<Rightarrow> exn + string \<times> nat"
  pf_release_asset :: "exn + string \<times> bool"
  pf_bind :: "int \<Rightarrow> exn + unit"
  pf_subtensor :: "exn + (string \<Rightarrow> exn + string) option"
  pf_substrate :: "exn + substrate"
  pf_json :: "jdict \<Rightarrow> string"

type_synonym check_result = "string \<times> string"

definition passed :: "string \<Rightarrow> check_result" where
  "passed detail = (''PASS'', detail)"

definition refused :: "string \<Rightarrow> check_result" where
  "refused detail = (''FAIL'', detail)"

definition skipped :: "string \<Rightarrow> check_result" where
  "skipped detail = (''SKIP'', detail)"

section \<open>Packages\<close>

definition python_version_check :: "preflight_host \<Rightarrow> check_result" where
  "python_version_check pf =
     (case pf_python pf of
        (major, minor, micro) \<Rightarrow>
          let detail = show_int major @ ''.'' @ show_int minor @ ''.'' @ show_int micro in
          if (major, minor) \<noteq> (3, 11) then refused (detail @ ''; expected Python 3.11.x'') else passed detail)"

definition import_dolores_check :: "preflight_host \<Rightarrow> check_result" where
  "import_dolores_check pf =
     (case pf_dolores pf of
        Inl e \<Rightarrow> refused (exn_text e @ ''; install dolores-autocurricula[validator]==0.2.0rc2'')
      | Inr v \<Rightarrow> if v \<noteq> ''0.2.0rc2'' then refused (''dolores '' @ v @ ''; expected pinned 0.2.0rc2'') else passed (''dolores '' @ v))"

definition import_bittensor_check :: "preflight_host \<Rightarrow> check_result" where
  "import_bittensor_check pf =
     (case pf_bittensor pf of
        Inl e \<Rightarrow> refused (exn_text e @ ''; install project deps with: .venv/bin/pip install -e '' @ [CHR 0x22] @ ''.[dev]'' @ [CHR 0x22])
      | Inr v \<Rightarrow> if v \<noteq> ''10.5.0'' then refused (''bittensor '' @ v @ ''; expected pinned 10.5.0'') else passed (''bittensor '' @ v))"

text \<open>\<open>a or b\<close> on text.\<close>

definition or_else_text :: "string \<Rightarrow> string \<Rightarrow> string" where
  "or_else_text a b = (if a = [] then b else a)"

definition pip_check :: "preflight_host \<Rightarrow> exn + check_result" where
  "pip_check pf =
     bind_result (pf_run pf [pf_executable pf, ''-m'', ''pip'', ''check'']) (\<lambda>c.
     let output = strip (or_else_text (cp_out c) (cp_err c)) in
     Inr (if cp_status c \<noteq> 0 then refused output else passed (or_else_text output ''No broken requirements found.'')))"

definition panel_check :: "preflight_host \<Rightarrow> subnet_config \<Rightarrow> check_result" where
  "panel_check pf cfg =
     (if \<not> pf_exists pf (panel_path cfg) then refused (''missing '' @ panel_path cfg)
      else (case pf_load_panel pf (panel_path cfg) of
        Inl e \<Rightarrow> refused (panel_path cfg @ '': '' @ exn_text e)
      | Inr (panel_id, solvers) \<Rightarrow>
          if solvers = 0 then refused (panel_path cfg @ '': no solvers configured'')
          else passed (panel_id @ ''; '' @ show_int (int solvers) @ '' solvers'')))"

definition jq_check :: "preflight_host \<Rightarrow> bool \<Rightarrow> exn + check_result" where
  "jq_check pf required =
     (case pf_which pf ''jq'' of
        None \<Rightarrow> Inr (if required then ''FAIL'' else ''SKIP'', ''jq not found; install with: brew install jq'')
      | Some p \<Rightarrow>
          bind_result (pf_run pf [p, ''--version'']) (\<lambda>c.
          Inr (if cp_status c \<noteq> 0 then refused (strip (or_else_text (cp_err c) ''jq failed'')) else passed (strip (cp_out c)))))"

section \<open>Docker\<close>

definition docker_daemon_check :: "preflight_host \<Rightarrow> exn + check_result" where
  "docker_daemon_check pf =
     (case pf_which pf ''docker'' of
        None \<Rightarrow> Inr (refused ''docker CLI not found; install/start Docker Desktop'')
      | Some docker \<Rightarrow>
          bind_result (pf_run pf [docker, ''version'', ''--format'', ''{{.Server.Version}}'']) (\<lambda>c.
          Inr (if cp_status c \<noteq> 0
               then refused (''Docker daemon unavailable: '' @ strip (or_else_text (cp_err c) (cp_out c)) @ ''; operator action required'')
               else passed (''server '' @ strip (cp_out c)))))"

text \<open>\<open>line.partition(" ")\<close>, first and last.\<close>

definition partition_space :: "string \<Rightarrow> string \<times> string" where
  "partition_space l = (case split_once (CHR '' '') l of None \<Rightarrow> (l, []) | Some ab \<Rightarrow> ab)"

fun listed_image :: "string \<Rightarrow> string list \<Rightarrow> string option" where
  "listed_image img [] = None"
| "listed_image img (l # ls) =
     (case partition_space l of
        (tag, image_id) \<Rightarrow> if tag = img \<and> image_id \<noteq> [] then Some image_id else listed_image img ls)"

definition docker_image_check :: "preflight_host \<Rightarrow> string \<Rightarrow> exn + check_result" where
  "docker_image_check pf img =
     (case pf_which pf ''docker'' of
        None \<Rightarrow> Inr (refused ''docker CLI not found'')
      | Some docker \<Rightarrow>
          bind_result (pf_run pf [docker, ''image'', ''inspect'', ''--format'', ''{{.Id}}'', img]) (\<lambda>c.
          if cp_status c \<noteq> 0 then
            bind_result (pf_run pf [docker, ''image'', ''ls'', ''--format'', ''{{.Repository}}:{{.Tag}} {{.ID}}'']) (\<lambda>l.
            Inr (case listed_image img (split_lines (cp_out l)) of
                   Some image_id \<Rightarrow> passed (img @ '' '' @ image_id @ '' (listed; inspect-by-tag unavailable)'')
                 | None \<Rightarrow> refused (''image '' @ img @ '' missing; build with: ''
                     @ ''rerun the validator; the pinned engine auto-builds its packaged verifier image'')))
          else Inr (passed (img @ '' '' @ take 19 (strip (cp_out c))))))"

definition dolores_release_asset_check :: "preflight_host \<Rightarrow> check_result" where
  "dolores_release_asset_check pf =
     (case pf_release_asset pf of
        Inl e \<Rightarrow> refused (''cannot resolve packaged verifier asset: '' @ exn_text e)
      | Inr (p, is_a_file) \<Rightarrow>
          if is_a_file then passed (''packaged verifier asset='' @ p) else refused (''packaged verifier Dockerfile missing: '' @ p))"

section \<open>The validator's own setup\<close>

definition holdout_secret_check :: "subnet_config \<Rightarrow> check_result" where
  "holdout_secret_check cfg =
     (if \<not> holdout_required cfg then skipped (mode_value (cfg_mode cfg) @ '' mode does not require cohort holdout'')
      else if or_text (holdout_secret cfg) None = None then refused ''DOLORES_HOLDOUT_SECRET is required (value not displayed)''
      else passed ''validator holdout secret is configured (value not displayed)'')"

definition default_axon_ports :: "int list" where
  "default_axon_ports = [8091, 8092]"

fun bind_ports :: "preflight_host \<Rightarrow> int list \<Rightarrow> int list \<Rightarrow> (int list \<times> exn) option" where
  "bind_ports pf bound [] = None"
| "bind_ports pf bound (p # ps) =
     (case pf_bind pf p of Inl e \<Rightarrow> Some (bound, e) | Inr _ \<Rightarrow> bind_ports pf (bound @ [p]) ps)"

definition ports_check :: "preflight_host \<Rightarrow> int list \<Rightarrow> check_result" where
  "ports_check pf ports =
     (case bind_ports pf [] ports of
        Some (bound, e) \<Rightarrow>
          refused (''port bind failed after ['' @ join '', '' (map show_int bound) @ '']: '' @ exn_text e)
      | None \<Rightarrow> passed (''ports '' @ join '','' (map show_int ports) @ '' bindable; NOTE first axon bind may trigger a macOS firewall prompt''))"

text \<open>\<open>a / b\<close> for paths.\<close>

definition join_path :: "string \<Rightarrow> string \<Rightarrow> string" where
  "join_path a b = (if b = [] then a else if starts_with b ''/'' then b else a @ ''/'' @ b)"

definition wallet_paths :: "preflight_host \<Rightarrow> string \<Rightarrow> string \<Rightarrow> string list" where
  "wallet_paths pf name hotkey =
     (let root_path = join_path (pf_home pf @ ''/.bittensor/wallets'') name in [root_path, join_path (root_path @ ''/hotkeys'') hotkey])"

definition wallet_exists_check :: "preflight_host \<Rightarrow> subnet_config \<Rightarrow> check_result" where
  "wallet_exists_check pf cfg =
     (let missing = filter (\<lambda>p. \<not> pf_exists pf p) (wallet_paths pf (wallet_name cfg) (wallet_hotkey cfg)) in
      if missing \<noteq> [] then refused (''wallet files missing; create testnet-only wallet/hotkeys before chain mode. Missing: '' @ join '', '' missing)
      else passed (''wallet '' @ wallet_name cfg @ ''/'' @ wallet_hotkey cfg @ '' exists (not read)''))"

section \<open>The chain\<close>

text \<open>The text of \<open>NetworkSafetyError\<close>; the quotes are those of a name without quotes.\<close>

definition network_safety_text :: "string option \<Rightarrow> config_error \<Rightarrow> string" where
  "network_safety_text net e =
     (let raw = (case net of None \<Rightarrow> [] | Some n \<Rightarrow> strip n) in
      case e of
        Network_unset \<Rightarrow> ''refusing to use an unset Bittensor network''
      | Network_unsafe \<Rightarrow> ''refusing unsafe Bittensor network: '' @ raw
      | Endpoint_unsafe \<Rightarrow> ''refusing unsafe Bittensor endpoint: '' @ raw
      | _ \<Rightarrow> ''network '' @ single_quoted raw @ '' is not allowlisted; allowed: '' @ join '', '' safe_chain_networks)"

definition network_allowlist_check :: "subnet_config \<Rightarrow> check_result" where
  "network_allowlist_check cfg =
     (if \<not> requires_chain (cfg_mode cfg) then skipped (mode_value (cfg_mode cfg) @ '' mode has no chain network'')
      else (case assert_safe_network (network cfg) of Inl e \<Rightarrow> refused (network_safety_text (network cfg) e) | Inr net \<Rightarrow> passed net))"

definition chain_reachability_check :: "preflight_host \<Rightarrow> subnet_config \<Rightarrow> check_result" where
  "chain_reachability_check pf cfg =
     (case network cfg of
        None \<Rightarrow> refused ''chain mode has no network''
      | Some net \<Rightarrow>
          (case pf_subtensor pf of
             Inl e \<Rightarrow> refused (net @ '': '' @ exn_text e)
           | Inr None \<Rightarrow> refused ''bittensor has no Subtensor constructor''
           | Inr (Some factory) \<Rightarrow>
               (case factory net of Inl e \<Rightarrow> refused (net @ '': '' @ exn_text e) | Inr block \<Rightarrow> passed (net @ '' block='' @ block))))"

definition chain_readiness_check :: "preflight_host \<Rightarrow> subnet_config \<Rightarrow> check_result" where
  "chain_readiness_check pf cfg =
     (if \<not> requires_chain (cfg_mode cfg) then skipped (mode_value (cfg_mode cfg) @ '' mode has no chain readiness'')
      else (case (netuid cfg, network cfg) of
        (None, _) \<Rightarrow> skipped ''netuid unset; subnet readiness checks skipped''
      | (Some uid, None) \<Rightarrow> refused ''chain mode has no network''
      | (Some uid, Some net) \<Rightarrow>
          (case subtensor_client net (Some uid) ''dry-run'' False False [] of
             Inl e \<Rightarrow> refused (net @ '' netuid='' @ show_int uid @ '': ''
               @ (case e of Unsafe_client_network c \<Rightarrow> network_safety_text (Some net) c | _ \<Rightarrow> ''unsupported SubtensorChain publish mode: dry-run''))
           | Inr c \<Rightarrow>
               (case bind_result (pf_substrate pf) (preflight c) of
                  Inl e \<Rightarrow> refused (net @ '' netuid='' @ show_int uid @ '': '' @ exn_text e)
                | Inr state \<Rightarrow>
                    if jget state ''mode'' = JStr ''error'' then refused (pf_json pf state) else passed (pf_json pf state)))))"

section \<open>All checks\<close>

definition mode_skips :: "run_mode \<Rightarrow> exn + check_result" where
  "mode_skips m = Inr (skipped (mode_value m @ '' mode''))"

definition build_checks :: "preflight_host \<Rightarrow> subnet_config \<Rightarrow> (string \<times> (exn + check_result)) list" where
  "build_checks pf cfg =
     (let m = cfg_mode cfg; axons = (m \<in> set [Mode_wire, Mode_localnet, Mode_testnet]) in
      [(''python'', Inr (python_version_check pf)),
       (''dolores import'', Inr (import_dolores_check pf)),
       (''bittensor import'', if requires_bittensor m then Inr (import_bittensor_check pf) else mode_skips m),
       (''pip check'', pip_check pf),
       (''solver panel'', Inr (panel_check pf cfg)),
       (''jq'', jq_check pf (m \<noteq> Mode_mock)),
       (''docker daemon'', if requires_docker m then docker_daemon_check pf else Inr (skipped ''mock mode'')),
       (''verifier image'', if requires_docker m then docker_image_check pf (verifier_image cfg) else Inr (skipped ''mock mode'')),
       (''dolores release asset'', Inr (dolores_release_asset_check pf)),
       (''validator holdout secret'', Inr (holdout_secret_check cfg)),
       (''axon ports'', if axons then Inr (ports_check pf default_axon_ports) else mode_skips m),
       (''wallet existence'', if axons then Inr (wallet_exists_check pf cfg) else mode_skips m),
       (''network allowlist'', Inr (network_allowlist_check cfg)),
       (''chain reachability'', if requires_chain m then Inr (chain_reachability_check pf cfg) else mode_skips m),
       (''chain readiness'', if requires_chain m then Inr (chain_readiness_check pf cfg) else mode_skips m)])"

text \<open>A check that raises has failed.\<close>

definition outcome_of_check :: "exn + check_result \<Rightarrow> check_result" where
  "outcome_of_check r = (case r of Inl e \<Rightarrow> refused (exn_text e) | Inr s \<Rightarrow> s)"

definition check_line :: "string \<times> (exn + check_result) \<Rightarrow> string" where
  "check_line c = (case outcome_of_check (snd c) of (status, detail) \<Rightarrow> status @ '' '' @ fst c @ '': '' @ detail)"

definition run_preflight :: "preflight_host \<Rightarrow> subnet_config \<Rightarrow> int \<times> string list" where
  "run_preflight pf cfg =
     (let checks = build_checks pf cfg in
      (if list_ex (\<lambda>c. fst (outcome_of_check (snd c)) = ''FAIL'') checks then 1 else 0, map check_line checks))"

section \<open>The command\<close>

datatype preflight_error = Target_missing | Target_refused endpoint_error | Public_network_forbidden | Netuid_below_zero
  | Configuration_refused config_error

definition validate_explicit_target :: "run_mode \<Rightarrow> string option \<Rightarrow> int option \<Rightarrow> preflight_error + unit" where
  "validate_explicit_target m net uid =
     (if m \<in> set [Mode_testnet, Mode_localnet] then
        (case (net, uid) of
           (Some n, Some u) \<Rightarrow>
             if m = Mode_testnet then map_error Target_refused (require_cohort_target n u)
             else bind_result (require (n \<in> set [localnet_network, localnet_alt_network]) Public_network_forbidden) (\<lambda>_.
                  require (0 \<le> u) Netuid_below_zero)
         | _ \<Rightarrow> Inl Target_missing)
      else Inr ())"

record preflight_args =
  pa_mode :: "string option"
  pa_work :: "string option"
  pa_wallet_name :: "string option"
  pa_wallet_name_alias :: "string option"
  pa_wallet_hotkey :: "string option"
  pa_wallet_hotkey_alias :: "string option"
  pa_network :: "string option"
  pa_netuid :: "int option"

definition preflight_config :: "host \<Rightarrow> preflight_args \<Rightarrow> run_mode \<Rightarrow> config_error + subnet_config" where
  "preflight_config h a m =
     from_env h (no_args\<lparr>arg_mode := Some (mode_value m), arg_work_dir := pa_work a,
       arg_wallet_name := or_text (pa_wallet_name a) (pa_wallet_name_alias a),
       arg_wallet_hotkey := or_text (pa_wallet_hotkey a) (pa_wallet_hotkey_alias a),
       arg_network := pa_network a, arg_netuid := map_option JInt (pa_netuid a)\<rparr>)"

definition preflight_command :: "host \<Rightarrow> preflight_host \<Rightarrow> preflight_args \<Rightarrow> preflight_error + int \<times> string list" where
  "preflight_command h pf a =
     bind_result (map_error Configuration_refused (parse_mode (pa_mode a))) (\<lambda>m.
     bind_result (validate_explicit_target m (pa_network a) (pa_netuid a)) (\<lambda>_.
     bind_result (map_error Configuration_refused (preflight_config h a m)) (\<lambda>cfg.
     Inr (run_preflight pf cfg))))"

section \<open>What exit code 0 vouches for\<close>

lemma refused_fails [simp]: "fst (refused t) = ''FAIL''" "refused t \<noteq> passed u" "refused t \<noteq> skipped u"
  by (simp_all add: refused_def passed_def skipped_def)

lemma not_failed [simp]: "fst (passed t) \<noteq> ''FAIL''" "fst (skipped t) \<noteq> ''FAIL''"
  by (simp_all add: passed_def skipped_def)

definition holds_up :: "exn + check_result \<Rightarrow> bool" where
  "holds_up r = (fst (outcome_of_check r) \<noteq> ''FAIL'')"

lemma holds_up_simps [simp]:
  "holds_up (Inl e) = False" "holds_up (Inr s) = (fst s \<noteq> ''FAIL'')"
  by (simp_all add: holds_up_def outcome_of_check_def)

lemma run_preflight_0:
  "run_preflight pf cfg = (0, ls) \<Longrightarrow> list_all (\<lambda>c. holds_up (snd c)) (build_checks pf cfg)"
  by (auto simp: run_preflight_def Let_def list_ex_iff list_all_iff holds_up_def split: if_splits)

lemma docker_daemon_up: "holds_up (docker_daemon_check pf) \<Longrightarrow>
    \<exists>docker c. pf_which pf ''docker'' = Some docker
      \<and> pf_run pf [docker, ''version'', ''--format'', ''{{.Server.Version}}''] = Inr c \<and> cp_status c = 0"
proof -
  assume up: "holds_up (docker_daemon_check pf)"
  then obtain docker where docker: "pf_which pf ''docker'' = Some docker"
    by (auto simp: docker_daemon_check_def split: option.splits)
  with up show ?thesis
    by (cases "pf_run pf [docker, ''version'', ''--format'', ''{{.Server.Version}}'']")
      (auto simp: docker_daemon_check_def split: if_splits)
qed

lemma bind_ports_None: "bind_ports pf bound ps = None \<Longrightarrow> \<forall>p \<in> set ps. is_ok (pf_bind pf p)"
  by (induction ps arbitrary: bound) (auto simp: is_ok_iff split: sum.splits)

lemma ports_up: "fst (ports_check pf ps) \<noteq> ''FAIL'' \<Longrightarrow> \<forall>p \<in> set ps. is_ok (pf_bind pf p)"
  by (auto simp: ports_check_def dest: bind_ports_None split: option.splits)

lemma readiness_up:
  assumes "fst (chain_readiness_check pf cfg) \<noteq> ''FAIL''" "requires_chain (cfg_mode cfg)" "netuid cfg = Some uid"
  shows "\<exists>net c st state. network cfg = Some net \<and> subtensor_client net (Some uid) ''dry-run'' False False [] = Inr c
    \<and> pf_substrate pf = Inr st \<and> preflight c st = Inr state \<and> jget state ''mode'' \<noteq> JStr ''error''"
  using assms by (auto simp: chain_readiness_check_def split: option.splits sum.splits if_splits)

lemma preflight_target:
  assumes "preflight_config h a m = Inr cfg" "validate_explicit_target m (pa_network a) (pa_netuid a) = Inr ()"
  shows "cfg_mode cfg = m" "requires_chain m \<Longrightarrow> network cfg = pa_network a \<and> netuid cfg = pa_netuid a"
    and "m = Mode_testnet \<Longrightarrow> pa_network a = Some cohort_network \<and> pa_netuid a = Some cohort_netuid"
    and "m = Mode_localnet \<Longrightarrow> pa_network a \<in> {Some localnet_network, Some localnet_alt_network}"
proof -
  have mode_text: "or_text (Some (mode_value m)) d = Some (mode_value m)" for d by (cases m) simp_all
  show "cfg_mode cfg = m"
    using assms(1) by (auto simp: preflight_config_def from_env_def Let_def mode_text split: prod.splits)
  show testnet: "pa_network a = Some cohort_network \<and> pa_netuid a = Some cohort_netuid" if "m = Mode_testnet"
    using assms(2) that by (auto simp: validate_explicit_target_def require_cohort_target_def split: option.splits)
  show localnet: "pa_network a \<in> {Some localnet_network, Some localnet_alt_network}" if "m = Mode_localnet"
    using assms(2) that by (auto simp: validate_explicit_target_def split: option.splits)
  assume chain: "requires_chain m"
  then obtain n u where given: "pa_network a = Some n" "pa_netuid a = Some u"
    using assms(2) by (auto simp: validate_explicit_target_def requires_chain_def split: option.splits)
  have "m = Mode_testnet \<or> m = Mode_localnet" using chain by (auto simp: requires_chain_def)
  then have "n \<in> set safe_chain_networks"
    using testnet localnet given(1)
    by (auto simp: cohort_network_def localnet_network_def localnet_alt_network_def safe_chain_networks_def)
  then have "assert_safe_network (Some n) = Inr n" by (rule safe_networks_pass)
  moreover have "n \<noteq> []" using \<open>n \<in> _\<close> by (auto simp: safe_chain_networks_def)
  then have "or_text (Some n) d = Some n" for d by (cases n) simp_all
  ultimately show "network cfg = pa_network a \<and> netuid cfg = pa_netuid a"
    using assms(1) given
    by (auto simp: preflight_config_def from_env_def Let_def mode_text resolve_network_def resolve_netuid_def parse_netuid_def
        split: prod.splits if_splits sum.splits)
qed

text \<open>C21: exit code 0 vouches for the setup: the pinned versions, no failed check and, by mode, a reachable Docker, free ports, a holdout
  secret and a subnet whose readiness is not an error; and on a chain the target is the one given explicitly, which for
  the testnet is the cohort's and for a local chain a loopback address.\<close>

theorem preflight_vouches:
  assumes "preflight_command h pf a = Inr (0, ls)"
  shows "\<exists>m cfg. parse_mode (pa_mode a) = Inr m \<and> preflight_config h a m = Inr cfg \<and> cfg_mode cfg = m \<and> safe_config cfg
    \<and> fst (pf_python pf) = 3 \<and> fst (snd (pf_python pf)) = 11 \<and> pf_dolores pf = Inr ''0.2.0rc2''
    \<and> (requires_bittensor m \<longrightarrow> pf_bittensor pf = Inr ''10.5.0'' \<and> list_all (\<lambda>p. is_ok (pf_bind pf p)) default_axon_ports
         \<and> list_all (pf_exists pf) (wallet_paths pf (wallet_name cfg) (wallet_hotkey cfg)))
    \<and> (requires_docker m \<longrightarrow> holds_up (docker_daemon_check pf) \<and> holds_up (docker_image_check pf (verifier_image cfg)))
    \<and> (holdout_required cfg \<longrightarrow> or_text (holdout_secret cfg) None \<noteq> None)
    \<and> (m = Mode_testnet \<longrightarrow> network cfg = Some cohort_network \<and> netuid cfg = Some cohort_netuid)
    \<and> (m = Mode_localnet \<longrightarrow> network cfg \<in> {Some localnet_network, Some localnet_alt_network})
    \<and> (requires_chain m \<longrightarrow> (\<exists>uid net c st state. netuid cfg = Some uid \<and> network cfg = Some net
         \<and> subtensor_client net (Some uid) ''dry-run'' False False [] = Inr c
         \<and> pf_substrate pf = Inr st \<and> preflight c st = Inr state \<and> jget state ''mode'' \<noteq> JStr ''error''))"
proof -
  obtain m cfg where run: "parse_mode (pa_mode a) = Inr m" "validate_explicit_target m (pa_network a) (pa_netuid a) = Inr ()"
      "preflight_config h a m = Inr cfg" "run_preflight pf cfg = (0, ls)"
    using assms by (auto simp: preflight_command_def)
  note target = preflight_target [OF run(3,2)]
  have safe: "safe_config cfg" using run(3) by (auto simp: preflight_config_def dest: from_env_safe)
  have axons: "m \<in> set [Mode_wire, Mode_localnet, Mode_testnet] \<longleftrightarrow> requires_bittensor m" by (simp add: requires_bittensor_def)
  note checks = run_preflight_0 [OF run(4), unfolded build_checks_def Let_def target(1) axons list.pred_inject snd_conv holds_up_simps]
  have "fst (pf_python pf) = 3 \<and> fst (snd (pf_python pf)) = 11" "pf_dolores pf = Inr ''0.2.0rc2''"
    using checks by (auto simp: python_version_check_def import_dolores_check_def Let_def split: prod.splits sum.splits if_splits)
  moreover have "pf_bittensor pf = Inr ''10.5.0'' \<and> list_all (\<lambda>p. is_ok (pf_bind pf p)) default_axon_ports
      \<and> list_all (pf_exists pf) (wallet_paths pf (wallet_name cfg) (wallet_hotkey cfg))" if "requires_bittensor m"
    using checks that
    by (auto simp: import_bittensor_check_def wallet_exists_check_def list_all_iff Let_def filter_empty_conv dest: ports_up
        split: sum.splits if_splits)
  moreover have "holds_up (docker_daemon_check pf) \<and> holds_up (docker_image_check pf (verifier_image cfg))" if "requires_docker m"
    using checks that by simp
  moreover have "or_text (holdout_secret cfg) None \<noteq> None" if "holdout_required cfg"
    using checks that by (auto simp: holdout_secret_check_def split: if_splits)
  moreover have "\<exists>uid net c st state. netuid cfg = Some uid \<and> network cfg = Some net
         \<and> subtensor_client net (Some uid) ''dry-run'' False False [] = Inr c
         \<and> pf_substrate pf = Inr st \<and> preflight c st = Inr state \<and> jget state ''mode'' \<noteq> JStr ''error''" if "requires_chain m"
  proof -
    note chained = that
    obtain uid where "netuid cfg = Some uid"
      using target(2) [OF chained] run(2) chained by (auto simp: validate_explicit_target_def requires_chain_def split: option.splits)
    then show ?thesis using checks chained readiness_up [of pf cfg uid] target(1) by fastforce
  qed
  moreover have "m = Mode_testnet \<Longrightarrow> network cfg = Some cohort_network \<and> netuid cfg = Some cohort_netuid"
    "m = Mode_localnet \<Longrightarrow> network cfg \<in> {Some localnet_network, Some localnet_alt_network}"
    using target by (auto simp: requires_chain_def)
  ultimately show ?thesis using run(1,3) target(1) safe by blast
qed

definition sample_preflight :: preflight_host where
  "sample_preflight =
     \<lparr>pf_python = (3, 11, 9), pf_dolores = Inr ''0.2.0rc2'', pf_bittensor = Inr ''10.5.0'', pf_executable = ''python'',
      pf_run = (\<lambda>argv. Inr \<lparr>cp_status = 0, cp_out = ''27.0'', cp_err = []\<rparr>), pf_which = (\<lambda>name. Some (''/bin/'' @ name)),
      pf_exists = (\<lambda>p. True), pf_home = ''/home/v'', pf_load_panel = (\<lambda>p. Inr (''mock'', 2)),
      pf_release_asset = Inr (''/d/Dockerfile'', True), pf_bind = (\<lambda>p. Inr ()),
      pf_subtensor = Inr (Some (\<lambda>net. Inr ''100'')), pf_substrate = Inr sample_substrate, pf_json = (\<lambda>d. ''{}'')\<rparr>"

definition sample_preflight_args :: preflight_args where
  "sample_preflight_args =
     \<lparr>pa_mode = Some ''testnet'', pa_work = None, pa_wallet_name = None, pa_wallet_name_alias = None, pa_wallet_hotkey = None,
      pa_wallet_hotkey_alias = None, pa_network = Some ''test'', pa_netuid = Some 523\<rparr>"

definition sample_preflight_host :: host where
  "sample_preflight_host = sample_host\<lparr>environ := (\<lambda>n. if n = ''DOLORES_HOLDOUT_SECRET'' then Some ''secret'' else None)\<rparr>"

definition sample_preflight_config :: subnet_config where
  "sample_preflight_config =
     (case preflight_config sample_preflight_host sample_preflight_args Mode_testnet of Inr c \<Rightarrow> c | Inl e \<Rightarrow> undefined)"

lemma sample_preflight_configured: "is_ok (preflight_config sample_preflight_host sample_preflight_args Mode_testnet)"
  by code_simp

lemma sample_preflight_fields:
  "cfg_mode sample_preflight_config = Mode_testnet" "network sample_preflight_config = Some ''test''"
  "netuid sample_preflight_config = Some 523" "holdout_secret sample_preflight_config = Some ''secret''"
  by code_simp+

lemma sample_preflight_ready:
  "case subtensor_client ''test'' (Some 523) ''dry-run'' False False [] of
     Inl e \<Rightarrow> False
   | Inr c \<Rightarrow> (case preflight c sample_substrate of Inl e \<Rightarrow> False | Inr state \<Rightarrow> jget state ''mode'' \<noteq> JStr ''error'')"
  by code_simp

lemma sample_preflight_checked: "\<not> list_ex (\<lambda>c. fst (outcome_of_check (snd c)) = ''FAIL'') (build_checks sample_preflight sample_preflight_config)"
  by (simp add: build_checks_def sample_preflight_fields outcome_of_check_def python_version_check_def import_dolores_check_def
     import_bittensor_check_def pip_check_def panel_check_def jq_check_def docker_daemon_check_def docker_image_check_def
     dolores_release_asset_check_def holdout_secret_check_def ports_check_def wallet_exists_check_def network_allowlist_check_def
     chain_reachability_check_def chain_readiness_check_def requires_bittensor_def requires_docker_def requires_chain_def
     Let_def default_axon_ports_def safe_networks_pass safe_chain_networks_def)
    (use sample_preflight_ready in \<open>auto simp: sample_preflight_def split: sum.splits\<close>)

lemma sample_preflight_target:
  "parse_mode (pa_mode sample_preflight_args) = Inr Mode_testnet"
  "validate_explicit_target Mode_testnet (pa_network sample_preflight_args) (pa_netuid sample_preflight_args) = Inr ()"
  by code_simp+

lemma sample_preflight_returns:
  "\<exists>ls. preflight_command sample_preflight_host sample_preflight sample_preflight_args = Inr (0, ls)"
proof -
  have "preflight_config sample_preflight_host sample_preflight_args Mode_testnet = Inr sample_preflight_config"
    using sample_preflight_configured by (auto simp: is_ok_iff sample_preflight_config_def)
  then show ?thesis
    using sample_preflight_checked sample_preflight_target by (simp add: preflight_command_def run_preflight_def Let_def)
qed

theorem preflight_vouches_witness:
  "\<exists>cfg. preflight_config sample_preflight_host sample_preflight_args Mode_testnet = Inr cfg \<and> netuid cfg = Some cohort_netuid"
proof -
  obtain ls where "preflight_command sample_preflight_host sample_preflight sample_preflight_args = Inr (0, ls)"
    using sample_preflight_returns by blast
  from preflight_vouches [OF this] obtain m cfg where
    "parse_mode (pa_mode sample_preflight_args) = Inr m" "preflight_config sample_preflight_host sample_preflight_args m = Inr cfg"
    "m = Mode_testnet \<longrightarrow> netuid cfg = Some cohort_netuid" by blast
  with sample_preflight_target(1) show ?thesis by auto
qed

end
