(* ===== verification/Task_Tools.thy ===== *)
theory Task_Tools
  imports Miner
begin

text \<open>
  What a participant runs beside the miner: the local check of a task (\<open>scripts/validate_task.py\<close>), the fork of an example
  to mutate (\<open>scripts/prepare_mutation_task.py\<close>), and the planted fixtures (\<open>scripts/seed_adversarial.py\<close>).  Loading
  tasks, running pytest and the engine's similarity, safety scan and proposals are arguments; what is printed is left out.
\<close>

section \<open>The local check\<close>

text \<open>
  \<open>lt_load\<close> is \<open>TaskPackage.load\<close>, \<open>lt_tests\<close> the public and hidden tests of a task, \<open>lt_pytest\<close> the
  exit status of pytest in a directory with the given files, \<open>lt_similarity\<close> the duplicate score, absent where the
  engine has none.
\<close>

record 'b local_tools =
  lt_env :: "'b env"
  lt_validate :: model_validate
  lt_host :: host
  lt_load :: "string \<Rightarrow> string + engine_task"
  lt_tests :: "engine_task \<Rightarrow> (string, string) dict \<times> (string, string) dict"
  lt_pytest :: "(string, string) dict \<Rightarrow> string list \<Rightarrow> int"
  lt_similarity :: "(engine_task \<Rightarrow> engine_task \<Rightarrow> pyfloat) option"
  lt_is_dir :: "string \<Rightarrow> bool"
  lt_subdirs :: "string \<Rightarrow> string list"
  lt_has_task :: "string \<Rightarrow> bool"
  lt_resolve :: "string \<Rightarrow> string"

definition base_name :: "string \<Rightarrow> string" where
  "base_name p = (let parts = path_parts p in if parts = [] then [] else last parts)"

definition write_files :: "string \<Rightarrow> (string \<Rightarrow> string) \<Rightarrow> (string, string) dict \<Rightarrow> (string, string) dict \<Rightarrow> (string, string) dict" where
  "write_files folder rename files tree = fold (\<lambda>(p, c) t. dict_set t (folder @ rename p) c) files tree"

definition test_workspace :: "'b local_tools \<Rightarrow> engine_task \<Rightarrow> (string, string) dict" where
  "test_workspace lt task =
     (case lt_tests lt task of
        (public_tests, hidden_tests) \<Rightarrow>
          write_files ''tests_hidden/'' base_name hidden_tests
            (write_files ''tests_public/'' base_name public_tests
              (write_files [] id (et_reference_files task) (write_files [] id (et_starter_files task) []))))"

definition test_targets :: "(string, string) dict \<Rightarrow> string list" where
  "test_targets tree =
     filter (\<lambda>d. list_ex (\<lambda>p. starts_with p (d @ ''/'')) (dict_keys tree)) [''tests_public'', ''tests_hidden'']"

definition run_reference_tests :: "'b local_tools \<Rightarrow> engine_task \<Rightarrow> bool" where
  "run_reference_tests lt task =
     (let tree = test_workspace lt task in lt_pytest lt tree (test_targets tree) = 0)"

definition archived_dirs :: "'b local_tools \<Rightarrow> string list \<Rightarrow> string list" where
  "archived_dirs lt archives =
     concat (map (\<lambda>base. filter (lt_has_task lt) (base # lt_subdirs lt base)) (filter (lt_is_dir lt) (map (expanduser (lt_host lt)) archives)))"

definition archived_tasks :: "'b local_tools \<Rightarrow> string \<Rightarrow> string list \<Rightarrow> engine_task list" where
  "archived_tasks lt task_dir dirs =
     List.map_filter (\<lambda>d. if lt_resolve lt d = lt_resolve lt task_dir then None
       else (case lt_load lt d of Inl e \<Rightarrow> None | Inr t \<Rightarrow> Some t)) dirs"

text \<open>The literals 0.85 and 0.0.\<close>

definition dedup_fail_threshold :: pyfloat where
  "dedup_fail_threshold = to_float (85 / 100)"

definition run_dedup :: "'b local_tools \<Rightarrow> engine_task \<Rightarrow> string \<Rightarrow> string list \<Rightarrow> int" where
  "run_dedup lt task task_dir archives =
     (case lt_similarity lt of
        None \<Rightarrow> 0
      | Some similarity \<Rightarrow>
          let rows = archived_tasks lt task_dir (archived_dirs lt archives) in
          if rows = [] then 0
          else if fle dedup_fail_threshold (foldl (\<lambda>m t. pymax m (similarity task t)) (Fin 0) rows) then 1 else 0)"

text \<open>How far the check gets.\<close>

datatype local_verdict = No_directory | Not_loaded string | Not_wired wire_error | Gate_refused string | Checked bool bool

fun local_exit_code :: "local_verdict \<Rightarrow> int" where
  "local_exit_code (Checked tests_ok dedup_ok) = (if tests_ok \<and> dedup_ok then 0 else 1)"
| "local_exit_code _ = 1"

definition validate_task_command ::
  "'b local_tools \<Rightarrow> string \<Rightarrow> bool \<Rightarrow> string list \<Rightarrow> config_error + local_verdict" where
  "validate_task_command lt raw_dir run_tests dedup_against =
     (let task_dir = expanduser (lt_host lt) raw_dir in
      if \<not> lt_is_dir lt task_dir then Inr No_directory
      else (case lt_load lt task_dir of
        Inl e \<Rightarrow> Inr (Not_loaded e)
      | Inr task \<Rightarrow>
          (case to_wire (lt_env lt) max_package_bytes_const task of
             Inl e \<Rightarrow> Inr (Not_wired e)
           | Inr wire \<Rightarrow>
               bind_result (from_env (lt_host lt) (no_args\<lparr>arg_mode := Some ''mock''\<rparr>)) (\<lambda>cfg.
               let decision = fst (run_pre_gates (lt_env lt) (lt_validate lt) (max_package_bytes cfg) wire ''self-check'' (new_context 1)) in
               if \<not> gd_passed decision
               then Inr (Gate_refused (case gd_failure decision of None \<Rightarrow> ''unknown'' | Some f \<Rightarrow> gf_reason f))
               else Inr (Checked (\<not> run_tests \<or> run_reference_tests lt task)
                      (dedup_against = [] \<or> run_dedup lt task task_dir dedup_against = 0))))))"

subsection \<open>What a success means for the validator\<close>

lemma below_max:
  "\<not> fle c (foldl (\<lambda>m t. pymax m (g t)) z ts) \<Longrightarrow> c = Fin k \<Longrightarrow> z = Fin w \<Longrightarrow> \<not> fle c z \<and> (\<forall>t \<in> set ts. \<not> fle c (g t))"
proof (induction ts arbitrary: z w)
  case (Cons t ts)
  show ?case
  proof (cases "g t")
    case (Fin v)
    then have "pymax z (g t) = Fin (max w v)" using Cons.prems(3) by (simp add: pymax_def max_def)
    then obtain u where u: "pymax z (g t) = Fin u" "w \<le> u" "v \<le> u" using max.cobounded1 max.cobounded2 by blast
    from Cons.IH [OF _ Cons.prems(2) u(1)] Cons.prems(1) u(1) have "\<not> fle c (Fin u)" "\<forall>t \<in> set ts. \<not> fle c (g t)" by simp_all
    with u(2,3) Fin Cons.prems(2,3) show ?thesis by simp
  next
    case PInf
    have stays: "foldl (\<lambda>m t. pymax m (g t)) PInf xs = PInf" for xs
    proof (induction xs)
      case (Cons x xs)
      have "pymax PInf (g x) = PInf" by (cases "g x") (simp_all add: pymax_def)
      with Cons show ?case by simp
    qed simp
    with PInf Cons.prems show ?thesis by (simp add: pymax_def fle_def)
  next
    case NInf
    then have "pymax z (g t) = z" "\<not> fle c (g t)" using Cons.prems(2,3) by (simp_all add: pymax_def fle_def)
    with Cons.IH [OF _ Cons.prems(2,3)] Cons.prems(1) show ?thesis by simp
  next
    case NaN
    then have "pymax z (g t) = z" "\<not> fle c (g t)" using Cons.prems(2,3) by (simp_all add: pymax_def fle_def)
    with Cons.IH [OF _ Cons.prems(2,3)] Cons.prems(1) show ?thesis by simp
  qed
qed simp

lemma from_env_package_bytes: "from_env h a = Inr cfg \<Longrightarrow> max_package_bytes cfg = max_package_bytes_const"
  by (auto simp: from_env_def Let_def case_prod_beta)

text \<open>The gates before the quota look at the payload only: they refuse it for one reason whoever submits it, or leave the decision to
  the miner's count and the hashes seen.\<close>

lemma gates_by_payload:
  "(\<exists>r. \<forall>miner ctx. \<not> gd_passed (fst (run_pre_gates env vm mb wire miner ctx))
       \<and> map_option gf_reason (gd_failure (fst (run_pre_gates env vm mb wire miner ctx))) = Some r)
   \<or> (\<exists>t. parse_gate vm wire = Inr t \<and> jget wire ''package_hash'' = JStr (et_hash t)
       \<and> (\<forall>miner ctx. gd_passed (fst (run_pre_gates env vm mb wire miner ctx)) \<longleftrightarrow>
            dict_get_default (miner_counts ctx) miner 0 < ctx_quota ctx \<and> et_hash t \<notin> set (seen_hashes ctx)))"
proof (cases "jget wire ''schema_version'' = JStr schema_version_const \<and> wire_size_ok env wire mb")
  case False
  then show ?thesis by (cases "jget wire ''schema_version'' = JStr schema_version_const") (simp_all add: run_pre_gates_def gate_fail_def)
next
  case True
  show ?thesis
  proof (cases "parse_gate vm wire")
    case (Inl e)
    with True show ?thesis by (cases e) (simp add: run_pre_gates_def gate_fail_def)
  next
    case (Inr t)
    show ?thesis
    proof (cases "jget wire ''package_hash'' = JStr (et_hash t)")
      case matches: True
      have "gd_passed (fst (run_pre_gates env vm mb wire miner ctx)) \<longleftrightarrow>
          dict_get_default (miner_counts ctx) miner 0 < ctx_quota ctx \<and> et_hash t \<notin> set (seen_hashes ctx)" for miner ctx
        using True Inr matches by (auto simp: run_pre_gates_def gate_fail_def Let_def)
      with Inr matches show ?thesis by blast
    next
      case False
      with True Inr show ?thesis by (simp add: run_pre_gates_def gate_fail_def Let_def)
    qed
  qed
qed

lemma refused_with_reason:
  "\<not> gd_passed (fst (run_pre_gates env vm mb wire miner ctx)) \<Longrightarrow> \<exists>f. gd_failure (fst (run_pre_gates env vm mb wire miner ctx)) = Some f"
  by (auto simp: run_pre_gates_def gate_fail_def Let_def split: if_splits sum.splits)

lemma fresh_context: "dict_get_default (miner_counts (new_context 1)) m 0 < ctx_quota (new_context 1)" "seen_hashes (new_context 1) = []"
  by (simp_all add: new_context_def dict_get_default_def)

text \<open>The self-check is the decision for a first submission, so what it says of a package is what every validator says of it.\<close>

lemma self_check_speaks_for_all:
  assumes "d = fst (run_pre_gates env vm mb wire hk (new_context 1))"
  shows "if gd_passed d
    then \<exists>t. parse_gate vm wire = Inr t \<and> (\<forall>miner ctx. gd_passed (fst (run_pre_gates env vm mb wire miner ctx)) \<longleftrightarrow>
           dict_get_default (miner_counts ctx) miner 0 < ctx_quota ctx \<and> et_hash t \<notin> set (seen_hashes ctx))
    else \<forall>miner ctx. \<not> gd_passed (fst (run_pre_gates env vm mb wire miner ctx))
       \<and> map_option gf_reason (gd_failure (fst (run_pre_gates env vm mb wire miner ctx))) = map_option gf_reason (gd_failure d)"
  using gates_by_payload [of env vm mb wire]
proof (elim disjE exE conjE)
  fix r
  assume refused: "\<forall>miner ctx. \<not> gd_passed (fst (run_pre_gates env vm mb wire miner ctx))
      \<and> map_option gf_reason (gd_failure (fst (run_pre_gates env vm mb wire miner ctx))) = Some r"
  then have "\<not> gd_passed d" "map_option gf_reason (gd_failure d) = Some r" unfolding assms by blast+
  with refused show ?thesis by presburger
next
  fix t
  assume t: "parse_gate vm wire = Inr t" "\<forall>miner ctx. gd_passed (fst (run_pre_gates env vm mb wire miner ctx)) \<longleftrightarrow>
      dict_get_default (miner_counts ctx) miner 0 < ctx_quota ctx \<and> et_hash t \<notin> set (seen_hashes ctx)"
  then have "gd_passed d" unfolding assms using fresh_context by (metis empty_iff empty_set)
  with t show ?thesis by auto
qed

lemma below_threshold:
  assumes "archives = [] \<or> run_dedup lt task d archives = 0" "lt_similarity lt = Some similarity" "archives \<noteq> []"
    and "other \<in> set (archived_tasks lt d (archived_dirs lt archives))"
  shows "\<not> fle dedup_fail_threshold (similarity task other)"
proof -
  let ?rows = "archived_tasks lt d (archived_dirs lt archives)"
  have "\<not> fle dedup_fail_threshold (foldl (\<lambda>m t. pymax m (similarity task t)) (Fin 0) ?rows)"
    using assms by (auto simp: run_dedup_def Let_def split: if_splits)
  moreover have "dedup_fail_threshold = Fin (rnd64 (85 / 100))"
    unfolding dedup_fail_threshold_def using to_float_unit [of "85 / 100"] by simp
  ultimately show ?thesis using below_max assms(4) by blast
qed

text \<open>What the command says of a task it could load and wire, spelled out.\<close>

lemma validate_task_verdict:
  assumes "validate_task_command lt d run_tests archives = Inr v" "lt_is_dir lt (expanduser (lt_host lt) d)"
    and "lt_load lt (expanduser (lt_host lt) d) = Inr task" "to_wire (lt_env lt) max_package_bytes_const task = Inr wire"
    and "decision = fst (run_pre_gates (lt_env lt) (lt_validate lt) max_package_bytes_const wire ''self-check'' (new_context 1))"
  shows "v = (if \<not> gd_passed decision then Gate_refused (case gd_failure decision of None \<Rightarrow> ''unknown'' | Some f \<Rightarrow> gf_reason f)
    else Checked (\<not> run_tests \<or> run_reference_tests lt task)
           (archives = [] \<or> run_dedup lt task (expanduser (lt_host lt) d) archives = 0))"
proof -
  from assms obtain cfg where cfg: "from_env (lt_host lt) (no_args\<lparr>arg_mode := Some ''mock''\<rparr>) = Inr cfg"
    by (auto simp: validate_task_command_def Let_def bind_result_Inr)
  from from_env_package_bytes [OF cfg] cfg assms show ?thesis
    by (simp add: validate_task_command_def Let_def split: if_splits)
qed

text \<open>C23: the local check speaks for every validator.  A task it could load and wire is either refused, and then every
  validator refuses it, from any miner and at any point of an epoch, with the reason printed here; or it is checked, and then
  a validator's pre-gates accept it exactly from a miner below its quota and while no submission of the epoch has the same hash.
  The exit code 0 adds that the tests passed if they were asked for, and that no archived task that was compared scores 0.85 or
  more.\<close>

theorem local_check_speaks_for_validators:
  assumes "validate_task_command lt d run_tests archives = Inr v" "lt_is_dir lt (expanduser (lt_host lt) d)"
    and "lt_load lt (expanduser (lt_host lt) d) = Inr task" "to_wire (lt_env lt) max_package_bytes_const task = Inr wire"
  shows "(case v of
      Gate_refused r \<Rightarrow>
        \<forall>miner ctx. \<not> gd_passed (fst (run_pre_gates (lt_env lt) (lt_validate lt) max_package_bytes_const wire miner ctx))
          \<and> map_option gf_reason (gd_failure (fst (run_pre_gates (lt_env lt) (lt_validate lt) max_package_bytes_const wire miner ctx))) = Some r
    | Checked tests_ok dedup_ok \<Rightarrow>
        \<exists>t. parse_gate (lt_validate lt) wire = Inr t
          \<and> (\<forall>miner ctx. gd_passed (fst (run_pre_gates (lt_env lt) (lt_validate lt) max_package_bytes_const wire miner ctx)) \<longleftrightarrow>
                dict_get_default (miner_counts ctx) miner 0 < ctx_quota ctx \<and> et_hash t \<notin> set (seen_hashes ctx))
    | _ \<Rightarrow> False)
    \<and> (local_exit_code v = 0 \<longrightarrow>
         v = Checked True True
         \<and> (run_tests \<longrightarrow> lt_pytest lt (test_workspace lt task) (test_targets (test_workspace lt task)) = 0)
         \<and> (\<forall>similarity other. lt_similarity lt = Some similarity \<and> archives \<noteq> []
              \<and> other \<in> set (archived_tasks lt (expanduser (lt_host lt) d) (archived_dirs lt archives))
              \<longrightarrow> \<not> fle dedup_fail_threshold (similarity task other)))"
proof -
  let ?decision = "fst (run_pre_gates (lt_env lt) (lt_validate lt) max_package_bytes_const wire ''self-check'' (new_context 1))"
  note verdict = validate_task_verdict [OF assms refl]
    and all = self_check_speaks_for_all [OF refl, of "lt_env lt" "lt_validate lt" max_package_bytes_const wire "''self-check''"]
  show ?thesis
  proof (cases "gd_passed ?decision")
    case False
    then obtain f where f: "gd_failure ?decision = Some f" using refused_with_reason by blast
    with False verdict have v: "v = Gate_refused (gf_reason f)" by simp
    from all False f show ?thesis unfolding v by simp
  next
    case True
    let ?tests = "\<not> run_tests \<or> run_reference_tests lt task"
    let ?dedup = "archives = [] \<or> run_dedup lt task (expanduser (lt_host lt) d) archives = 0"
    from True verdict have v: "v = Checked ?tests ?dedup" by simp
    have accepted: "case v of Gate_refused r \<Rightarrow> P r | Checked a b \<Rightarrow> \<exists>t. parse_gate (lt_validate lt) wire = Inr t
        \<and> (\<forall>miner ctx. gd_passed (fst (run_pre_gates (lt_env lt) (lt_validate lt) max_package_bytes_const wire miner ctx)) \<longleftrightarrow>
              dict_get_default (miner_counts ctx) miner 0 < ctx_quota ctx \<and> et_hash t \<notin> set (seen_hashes ctx)) | _ \<Rightarrow> False" for P
      unfolding v local_verdict.case using all True by presburger
    show ?thesis
    proof (rule conjI [OF accepted], intro impI conjI allI)
      assume "local_exit_code v = 0"
      then have passed: ?tests ?dedup unfolding v by (simp_all split: if_splits)
      then show "v = Checked True True" using v by simp
      show "lt_pytest lt (test_workspace lt task) (test_targets (test_workspace lt task)) = 0" if run_tests
        using passed(1) that by (simp add: run_reference_tests_def Let_def)
      show "\<not> fle dedup_fail_threshold (similarity task other)"
        if "lt_similarity lt = Some similarity \<and> archives \<noteq> []
          \<and> other \<in> set (archived_tasks lt (expanduser (lt_host lt) d) (archived_dirs lt archives))" for similarity other
        using below_threshold [OF passed(2)] that by blast
    qed
  qed
qed

definition sample_tools :: "json local_tools" where
  "sample_tools =
     \<lparr>lt_env = plain_env, lt_validate = (\<lambda>d. Inr sample_task), lt_host = sample_host, lt_load = (\<lambda>d. Inr sample_task),
      lt_tests = (\<lambda>t. ([(''test_a.py'', ''a'')], [(''test_b.py'', ''b'')])), lt_pytest = (\<lambda>tree targets. if length targets = 2 then 0 else 1),
      lt_similarity = Some (\<lambda>a b. Fin (1 / 2)), lt_is_dir = (\<lambda>d. True), lt_subdirs = (\<lambda>d. [d @ ''/one'']), lt_has_task = (\<lambda>d. True),
      lt_resolve = id\<rparr>"

lemma sample_tools_pass: "validate_task_command sample_tools ''mine'' True [''examples''] = Inr (Checked True True)"
proof -
  have wire: "to_wire plain_env max_package_bytes_const sample_task = Inr sample_wire" by code_simp
  have "is_ok (from_env sample_host (no_args\<lparr>arg_mode := Some ''mock''\<rparr>))" by code_simp
  then obtain cfg where cfg: "from_env sample_host (no_args\<lparr>arg_mode := Some ''mock''\<rparr>) = Inr cfg" by (auto simp: is_ok_iff)
  have gates: "gd_passed (fst (run_pre_gates plain_env (\<lambda>d. Inr sample_task) max_package_bytes_const sample_wire ''self-check'' (new_context 1)))"
    by code_simp
  have "run_reference_tests sample_tools sample_task" by code_simp
  moreover have "run_dedup sample_tools sample_task ''mine'' [''examples''] = 0" by code_simp
  ultimately show ?thesis
    using wire cfg gates from_env_package_bytes [OF cfg]
    by (simp add: validate_task_command_def Let_def) (simp add: sample_tools_def sample_host_def)
qed

theorem local_check_speaks_for_validators_witness:
  "\<exists>wire. to_wire plain_env max_package_bytes_const sample_task = Inr wire
    \<and> gd_passed (fst (run_pre_gates plain_env (\<lambda>d. Inr sample_task) max_package_bytes_const wire ''m'' (new_context 4)))
    \<and> \<not> gd_passed (fst (run_pre_gates plain_env (\<lambda>d. Inr sample_task) max_package_bytes_const wire ''m'' (new_context 0)))"
proof -
  have fresh: "dict_get_default (miner_counts (new_context 4)) ''m'' 0 < ctx_quota (new_context 4)" "seen_hashes (new_context 4) = []"
    "\<not> dict_get_default (miner_counts (new_context 0)) ''m'' 0 < ctx_quota (new_context 0)"
    by code_simp+
  have wire: "to_wire (lt_env sample_tools) max_package_bytes_const sample_task = Inr sample_wire" unfolding sample_tools_def by code_simp
  have loaded: "lt_is_dir sample_tools (expanduser (lt_host sample_tools) ''mine'')"
    "lt_load sample_tools (expanduser (lt_host sample_tools) ''mine'') = Inr sample_task"
    by (simp_all add: sample_tools_def)
  from local_check_speaks_for_validators [OF sample_tools_pass loaded wire] fresh wire show ?thesis by (auto simp: sample_tools_def)
qed

section \<open>Forking an example\<close>

text \<open>\<open>re.match("^[a-z0-9_]+$")\<close>, where the dollar also matches before a last newline.\<close>

definition name_matches :: "string \<Rightarrow> bool" where
  "name_matches name =
     (let s = (if name \<noteq> [] \<and> last name = CHR 0x0A then butlast name else name) in
      s \<noteq> [] \<and> list_all (\<lambda>c. c \<in> set ''abcdefghijklmnopqrstuvwxyz0123456789_'') s)"

text \<open>\<open>read_text\<close> turns every line end into a newline.\<close>

fun universal_newlines :: "string \<Rightarrow> string" where
  "universal_newlines [] = []"
| "universal_newlines (c # s) =
     (if c = CHR 0x0D
      then CHR 0x0A # (case s of [] \<Rightarrow> [] | d # t \<Rightarrow> if d = CHR 0x0A then universal_newlines t else universal_newlines (d # t))
      else c # universal_newlines s)"

text \<open>\<open>splitlines(keepends=True)\<close>.\<close>

fun keep_lines :: "string \<Rightarrow> string \<Rightarrow> string list" where
  "keep_lines line [] = (if line = [] then [] else [line])"
| "keep_lines line (c # s) = (if is_line_break c then (line @ [c]) # keep_lines [] s else keep_lines (line @ [c]) s)"

fun replace_first :: "('a \<Rightarrow> bool) \<Rightarrow> 'a \<Rightarrow> 'a list \<Rightarrow> 'a list option" where
  "replace_first P y [] = None"
| "replace_first P y (x # xs) = (if P x then Some (y # xs) else map_option ((#) x) (replace_first P y xs))"

type_synonym task_files = "(string, string) dict"

definition task_yaml :: string where
  "task_yaml = ''task.yaml''"

definition wire_json :: string where
  "wire_json = ''wire.json''"

definition is_task_id_line :: "string \<Rightarrow> bool" where
  "is_task_id_line l = starts_with l ''task_id:''"

definition task_id_line :: "string \<Rightarrow> string" where
  "task_id_line name = ''task_id: '' @ name @ [CHR 0x0A]"

definition renamed_task :: "string \<Rightarrow> string \<Rightarrow> string option" where
  "renamed_task name content =
     map_option concat (replace_first is_task_id_line (task_id_line name) (keep_lines [] (universal_newlines content)))"

datatype fork_verdict = Bad_name | No_source | Destination_exists | No_task_id | Forked

text \<open>The state: the directories of the repository that exist.\<close>

definition fork_path :: "string \<Rightarrow> string" where
  "fork_path name = ''my_task_'' @ name"

definition prepare_mutation :: "string \<Rightarrow> task_files \<Rightarrow> (string \<Rightarrow> task_files option, unit, fork_verdict) op" where
  "prepare_mutation name source =
     (if \<not> name_matches name then return_op Bad_name
      else if dict_get source task_yaml = None then return_op No_source
      else bind_op get_op (\<lambda>dirs.
        if dirs (fork_path name) \<noteq> None then return_op Destination_exists
        else
          bind_op (modify_op (\<lambda>dirs. dirs(fork_path name \<mapsto> source))) (\<lambda>_.
          bind_op (modify_op (\<lambda>dirs. dirs(fork_path name \<mapsto> dict_pop source wire_json))) (\<lambda>_.
          (case renamed_task name (the (dict_get source task_yaml)) of
             None \<Rightarrow> bind_op (modify_op (\<lambda>dirs. dirs(fork_path name := None))) (\<lambda>_. return_op No_task_id)
           | Some content \<Rightarrow>
               bind_op (modify_op (\<lambda>dirs. dirs(fork_path name \<mapsto> dict_set (dict_pop source wire_json) task_yaml content)))
                 (\<lambda>_. return_op Forked))))))"

lemma replace_first_Some:
  "replace_first P y xs = Some ys \<Longrightarrow> \<exists>us x vs. xs = us @ x # vs \<and> ys = us @ y # vs \<and> P x \<and> (\<forall>u \<in> set us. \<not> P u)"
proof (induction xs arbitrary: ys)
  case (Cons a xs)
  show ?case
  proof (cases "P a")
    case True
    with Cons.prems show ?thesis by (intro exI [of _ "[]"]) auto
  next
    case False
    with Cons.prems obtain zs where "replace_first P y xs = Some zs" "ys = a # zs" by auto
    with Cons.IH False show ?thesis by (metis append_Cons set_ConsD)
  qed
qed simp

text \<open>
  A fork is all or nothing: either the directory was absent and now holds the example without \<open>wire.json\<close> and with
  the first line that names the task replaced, or nothing has changed.
\<close>

lemma fork_is_all_or_nothing:
  "case prepare_mutation name source dirs of
     (Inr Forked, dirs') \<Rightarrow>
       dirs (fork_path name) = None
       \<and> (\<exists>content us l vs. dict_get source task_yaml = Some content
            \<and> keep_lines [] (universal_newlines content) = us @ l # vs \<and> is_task_id_line l \<and> (\<forall>u \<in> set us. \<not> is_task_id_line u)
            \<and> dirs' = dirs(fork_path name \<mapsto> dict_set (dict_pop source wire_json) task_yaml (concat (us @ task_id_line name # vs))))
   | (_, dirs') \<Rightarrow> dirs' = dirs"
proof (cases "\<not> name_matches name \<or> dict_get source task_yaml = None \<or> dirs (fork_path name) \<noteq> None")
  case True
  then show ?thesis by (auto simp: prepare_mutation_def op_plumbing)
next
  case False
  then obtain content where content: "dict_get source task_yaml = Some content" "name_matches name" "dirs (fork_path name) = None"
    by auto
  show ?thesis
  proof (cases "renamed_task name content")
    case None
    with content show ?thesis by (auto simp: prepare_mutation_def op_plumbing)
  next
    case (Some written)
    then obtain ls where "replace_first is_task_id_line (task_id_line name) (keep_lines [] (universal_newlines content)) = Some ls"
      "written = concat ls" by (auto simp: renamed_task_def)
    with replace_first_Some [OF this(1)] content Some show ?thesis
      by (fastforce simp: prepare_mutation_def op_plumbing)
  qed
qed

text \<open>A name that ends in a newline passes, and the line of the task is followed by an empty one.\<close>

lemma newline_name_passes: "name_matches (''v2'' @ [CHR 0x0A])" "task_id_line (''v2'' @ [CHR 0x0A]) = ''task_id: v2'' @ [CHR 0x0A, CHR 0x0A]"
  by code_simp+

section \<open>Planted fixtures\<close>

text \<open>
  The engine's part: the first proposal, a copy under another id, the stable hash, a copy with other reference files, the
  document of a task and whether the safety scan finds anything.
\<close>

record seed_engine =
  sd_proposal :: "exn + engine_task"
  sd_with_id :: "engine_task \<Rightarrow> string \<Rightarrow> engine_task"
  sd_with_refs :: "engine_task \<Rightarrow> (string, string) dict \<Rightarrow> engine_task"
  sd_hash :: "engine_task \<Rightarrow> string"
  sd_dump :: "engine_task \<Rightarrow> jdict"
  sd_scan :: "engine_task \<Rightarrow> bool"
  sd_to_wire :: "engine_task \<Rightarrow> exn + jdict"

datatype fixture = Materialized engine_task | Raw_document jdict

record fixture_tree =
  ft_cases :: "(string, fixture) dict"
  ft_wires :: "(string, jdict) dict"

type_synonym 'a seed_op = "(fixture_tree, exn, 'a) op"

definition fixture_cases :: "string list" where
  "fixture_cases = [''good_parser'', ''bad_no_reference'', ''bad_reference_fails'', ''bad_unsafe'', ''bad_duplicate'', ''bad_hash_lie'', ''bad_oversize'']"

text \<open>\<open>f"{n:03d}"\<close> for the numbers below 500.\<close>

definition three_digits :: "nat \<Rightarrow> string" where
  "three_digits n = (let s = show_nat n in replicate (3 - length s) CHR ''0'' @ s)"

definition runtime_failure :: "string \<Rightarrow> exn" where
  "runtime_failure t = \<lparr>exn_type = ''RuntimeError'', exn_text = t\<rparr>"

definition good_duplicate_pair :: "seed_engine \<Rightarrow> engine_task \<Rightarrow> exn + engine_task \<times> engine_task" where
  "good_duplicate_pair sd task =
     (let pairs = concat (map (\<lambda>i. map (\<lambda>j. (sd_with_id sd task (''good_parser_'' @ three_digits i),
                     sd_with_id sd task (''bad_duplicate_'' @ three_digits j))) [0..<500]) [0..<500])
      in (case List.find (\<lambda>(good, duplicate). sd_hash sd good < sd_hash sd duplicate) pairs of
            None \<Rightarrow> Inl (runtime_failure ''could not find good/duplicate task_id pair with stable hash order'')
          | Some p \<Rightarrow> Inr p))"

definition after_hash :: "seed_engine \<Rightarrow> engine_task \<Rightarrow> string \<Rightarrow> string \<Rightarrow> exn + engine_task" where
  "after_hash sd task base lower_hash =
     (case List.find (\<lambda>t. lower_hash < sd_hash sd t) (map (\<lambda>i. sd_with_id sd task (base @ ''_'' @ three_digits i)) [0..<500]) of
        None \<Rightarrow> Inl (runtime_failure (''could not find '' @ base @ '' task_id above lower hash''))
      | Some t \<Rightarrow> Inr t)"

text \<open>The task is written under its own id and renamed to the case, replacing what is there.\<close>

definition write_case :: "string \<Rightarrow> engine_task \<Rightarrow> jdict \<Rightarrow> unit seed_op" where
  "write_case c task payload =
     modify_op (\<lambda>ft. ft\<lparr>ft_cases := dict_set (dict_pop (dict_set (ft_cases ft) (et_id task) (Materialized task)) (et_id task)) c (Materialized task),
       ft_wires := dict_set (ft_wires ft) c payload\<rparr>)"

definition raw_wire :: "jdict \<Rightarrow> string \<Rightarrow> jdict" where
  "raw_wire package package_hash =
     [(''schema_version'', JStr schema_version_const), (''task_id'', jget package ''task_id''), (''package_hash'', JStr package_hash),
      (''package'', JObj (dict_set (dict_pop package legacy_hidden_tests_key) author_tests_key
         (jget_or package legacy_hidden_tests_key (JObj [])))),
      (''family'', JStr ''parser_roundtrip''), (''declared_difficulty'', JStr ''medium'')]"

definition write_raw_case :: "string \<Rightarrow> jdict \<Rightarrow> string \<Rightarrow> unit seed_op" where
  "write_raw_case c package package_hash =
     modify_op (\<lambda>ft. ft\<lparr>ft_cases := dict_set (ft_cases ft) c (Raw_document package),
       ft_wires := dict_set (ft_wires ft) c (raw_wire package package_hash)\<rparr>)"

definition with_first_reference :: "seed_engine \<Rightarrow> engine_task \<Rightarrow> (string \<Rightarrow> string) \<Rightarrow> exn + engine_task" where
  "with_first_reference sd task change =
     (case et_reference_files task of
        [] \<Rightarrow> Inl \<lparr>exn_type = ''StopIteration'', exn_text = []\<rparr>
      | (p, content) # refs \<Rightarrow> Inr (sd_with_refs sd task ((p, change content) # refs)))"

definition wrong_reference :: string where
  "wrong_reference = ''def intentionally_wrong_reference(*args, **kwargs):'' @ [CHR 0x0A] @ ''    return None'' @ [CHR 0x0A]"

definition write_wired :: "seed_engine \<Rightarrow> string \<Rightarrow> engine_task \<Rightarrow> unit seed_op" where
  "write_wired sd c task = bind_op (lift_op (sd_to_wire sd task)) (\<lambda>wire. write_case c task wire)"

definition assertion :: "string \<Rightarrow> exn" where
  "assertion t = \<lparr>exn_type = ''AssertionError'', exn_text = t\<rparr>"

definition build_fixtures :: "seed_engine \<Rightarrow> (jdict \<Rightarrow> exn + unit) \<Rightarrow> unit seed_op" where
  "build_fixtures sd revalidate =
     bind_op (lift_op (sd_proposal sd)) (\<lambda>base.
     bind_op (lift_op (good_duplicate_pair sd base)) (\<lambda>(good, duplicate).
     bind_op (write_wired sd ''good_parser'' good) (\<lambda>_.
     bind_op (write_raw_case ''bad_no_reference''
       (dict_set (dict_set (sd_dump sd good) ''task_id'' (JStr ''bad_no_reference'')) ''reference_files'' (JObj [])) ''invalid'') (\<lambda>_.
     bind_op (lift_op (with_first_reference sd (sd_with_id sd good ''bad_reference_fails_seed'') (\<lambda>_. wrong_reference))) (\<lambda>failing.
     bind_op (lift_op (after_hash sd failing ''bad_reference_fails'' (sd_hash sd good))) (\<lambda>failing.
     bind_op (write_wired sd ''bad_reference_fails'' failing) (\<lambda>_.
     bind_op (lift_op (with_first_reference sd (sd_with_id sd good ''bad_unsafe_seed'')
       (\<lambda>content. ''import subprocess'' @ [CHR 0x0A] @ content))) (\<lambda>unsafe.
     bind_op (lift_op (after_hash sd unsafe ''bad_unsafe'' (sd_hash sd good))) (\<lambda>unsafe.
     bind_op (guard_op (sd_scan sd unsafe) (assertion ''bad_unsafe must trip the Dolores safety scanner'')) (\<lambda>_.
     bind_op (write_wired sd ''bad_unsafe'' unsafe) (\<lambda>_.
     bind_op (write_wired sd ''bad_duplicate'' duplicate) (\<lambda>_.
     let lie = sd_with_id sd good ''bad_hash_lie'' in
     bind_op (lift_op (sd_to_wire sd lie)) (\<lambda>wire.
     bind_op (write_case ''bad_hash_lie'' lie (dict_set wire ''package_hash'' (JStr (replicate 64 CHR ''0'')))) (\<lambda>_.
     bind_op (write_raw_case ''bad_oversize''
       (dict_set (dict_set (sd_dump sd good) ''task_id'' (JStr ''bad_oversize'')) ''prompt'' (JStr (replicate (220 * 1024) CHR ''x''))) ''oversize'') (\<lambda>_.
     bind_op get_op (\<lambda>ft.
     bind_op (guard_op (list_all (\<lambda>c. dict_get (ft_cases ft) c \<noteq> None \<and> dict_get (ft_wires ft) c \<noteq> None) fixture_cases) (assertion ''case'')) (\<lambda>_.
     lift_op (revalidate (sd_dump sd good)))))))))))))))))))"

lemma good_before_duplicate:
  "good_duplicate_pair sd task = Inr (good, duplicate) \<Longrightarrow> sd_hash sd good < sd_hash sd duplicate"
  by (auto simp: good_duplicate_pair_def Let_def find_Some_iff split: option.splits)

lemma after_hash_above: "after_hash sd task base h = Inr t \<Longrightarrow> h < sd_hash sd t"
  by (auto simp: after_hash_def find_Some_iff split: option.splits)

text \<open>Every case is there when the command returns, and the order of hashes that the duplicate check looks at is as planted.\<close>

lemma planted_fixtures:
  assumes "build_fixtures sd rv ft = (Inr u, ft')"
  shows "list_all (\<lambda>c. dict_get (ft_cases ft') c \<noteq> None \<and> dict_get (ft_wires ft') c \<noteq> None) fixture_cases
    \<and> (\<exists>base good duplicate. sd_proposal sd = Inr base \<and> good_duplicate_pair sd base = Inr (good, duplicate)
         \<and> sd_hash sd good < sd_hash sd duplicate \<and> is_ok (sd_to_wire sd good) \<and> is_ok (sd_to_wire sd duplicate))"
proof -
  from assms obtain base good duplicate w d where "sd_proposal sd = Inr base" "good_duplicate_pair sd base = Inr (good, duplicate)"
      "sd_to_wire sd good = Inr w" "sd_to_wire sd duplicate = Inr d"
    and "list_all (\<lambda>c. dict_get (ft_cases ft') c \<noteq> None \<and> dict_get (ft_wires ft') c \<noteq> None) fixture_cases"
    unfolding build_fixtures_def write_wired_def bind_op_Inr lift_op_iff Let_def get_op_iff guard_op_Inr
    by (elim exE conjE) (auto simp: bind_op_Inr dest!: sym [of "Inr _"])
  then show ?thesis using good_before_duplicate by (auto simp: is_ok_iff)
qed

end
