(* ===== verification/Archive_Db.thy ===== *)
theory Archive_Db
  imports Chain
begin

text \<open>
  The task archive of \<open>archive.py\<close>: what is purged from it, and the public copy that leaves out the hidden tests.
  The database is DuckDB: executing a statement is an argument, and \<open>lawful_duckdb\<close> states of the statements of
  this module what DuckDB documents of them.
\<close>

section \<open>Values as JSON\<close>

text \<open>Python values: instances of data classes, of models (with what \<open>model_dump\<close> gives), containers, paths and the rest.\<close>

datatype py_value =
    Py_dataclass "(string \<times> py_value) list"
  | Py_model json
  | Py_dict "(string \<times> py_value) list"
  | Py_list "py_value list"
  | Py_tuple "py_value list"
  | Py_path string
  | Py_other json

text \<open>\<open>asdict\<close> turns data classes into dictionaries, also inside containers.\<close>

primrec as_dict :: "py_value \<Rightarrow> py_value" where
  "as_dict (Py_dataclass fs) = Py_dict (map (map_prod id as_dict) fs)"
| "as_dict (Py_model j) = Py_model j"
| "as_dict (Py_dict fs) = Py_dict (map (map_prod id as_dict) fs)"
| "as_dict (Py_list xs) = Py_list (map as_dict xs)"
| "as_dict (Py_tuple xs) = Py_tuple (map as_dict xs)"
| "as_dict (Py_path p) = Py_path p"
| "as_dict (Py_other j) = Py_other j"

primrec jsonable :: "py_value \<Rightarrow> json" where
  "jsonable (Py_dataclass fs) = JObj (fold (\<lambda>(k, j) d. dict_set d k j) (map (map_prod id jsonable) fs) [])"
| "jsonable (Py_model j) = j"
| "jsonable (Py_dict fs) = JObj (fold (\<lambda>(k, j) d. dict_set d k j) (map (map_prod id jsonable) fs) [])"
| "jsonable (Py_list xs) = JArr (map jsonable xs)"
| "jsonable (Py_tuple xs) = JArr (map jsonable xs)"
| "jsonable (Py_path p) = JStr p"
| "jsonable (Py_other j) = j"

text \<open>The case of data classes is that of the dictionary \<open>asdict\<close> gives, as the code has it.\<close>

lemma jsonable_as_dict [simp]: "jsonable (as_dict x) = jsonable x"
proof (induction x)
  case (Py_dataclass fs)
  have "map (map_prod id jsonable) (map (map_prod id as_dict) fs) = map (map_prod id jsonable) fs"
    using Py_dataclass by (auto simp: snds.simps)
  then show ?case by (simp only: as_dict.simps jsonable.simps)
next
  case (Py_dict fs)
  have "map (map_prod id jsonable) (map (map_prod id as_dict) fs) = map (map_prod id jsonable) fs"
    using Py_dict by (auto simp: snds.simps)
  then show ?case by (simp only: as_dict.simps jsonable.simps)
qed (simp_all add: comp_def cong: map_cong)

section \<open>String literals of SQL\<close>

fun double_quotes :: "string \<Rightarrow> string" where
  "double_quotes [] = []"
| "double_quotes (c # s) = (if c = CHR 0x27 then [CHR 0x27, CHR 0x27] else [c]) @ double_quotes s"

definition sql_literal :: "string \<Rightarrow> string" where
  "sql_literal p = CHR 0x27 # double_quotes p @ [CHR 0x27]"

text \<open>How SQL reads one: a doubled quote is a quote, a single one ends the literal.\<close>

fun read_quoted :: "string \<Rightarrow> string option" where
  "read_quoted [] = None"
| "read_quoted [c] = (if c = CHR 0x27 then Some [] else None)"
| "read_quoted (c # d # s) =
     (if c = CHR 0x27
      then (if d = CHR 0x27 then map_option ((#) CHR 0x27) (read_quoted s) else None)
      else map_option ((#) c) (read_quoted (d # s)))"

fun read_literal :: "string \<Rightarrow> string option" where
  "read_literal [] = None"
| "read_literal (c # s) = (if c = CHR 0x27 then read_quoted s else None)"

lemma read_quoted_doubled: "read_quoted (double_quotes p @ [CHR 0x27]) = Some p"
proof (induction p)
  case (Cons c p)
  then show ?case by (cases "double_quotes p @ [CHR 0x27]") auto
qed simp

text \<open>A path never leaves its literal, whatever quotes it has.\<close>

lemma sql_literal_read [simp]: "read_literal (sql_literal p) = Some p"
  by (simp add: sql_literal_def read_quoted_doubled)

section \<open>The database\<close>

text \<open>
  A connection has databases attached under names; files of databases are named by their path.  \<open>dd_rows\<close> are the rows
  of a table, empty where the database has no such table.
\<close>

type_synonym sql_row = "(string \<times> json) list"

record 'd session =
  ss_attached :: "string \<Rightarrow> string option"
  ss_disk :: "string \<Rightarrow> 'd option"

record 'd duckdb =
  dd_connect :: "string \<Rightarrow> (string \<Rightarrow> 'd option) \<Rightarrow> exn + (string \<Rightarrow> 'd option)"
  dd_execute :: "string \<Rightarrow> string list \<Rightarrow> 'd session \<Rightarrow> exn + 'd session"
  dd_rows :: "'d \<Rightarrow> string \<Rightarrow> sql_row list"

record 'd archive_files =
  af_db :: "string \<Rightarrow> 'd option"
  af_mode :: "string \<Rightarrow> int option"
  af_logs :: "string \<Rightarrow> string option"

type_synonym ('d, 'a) archive_op = "('d archive_files, exn, 'a) op"

definition execute :: "'d duckdb \<Rightarrow> string \<Rightarrow> string list \<Rightarrow> ('d session, exn, unit) op" where
  "execute dd sql params s = (case dd_execute dd sql params s of Inl e \<Rightarrow> (Inl e, s) | Inr s' \<Rightarrow> (Inr (), s'))"

text \<open>A connection with what is attached at the start; it is closed however its statements end.\<close>

definition in_session :: "(string \<Rightarrow> string option) \<Rightarrow> ('d session, exn, 'a) op \<Rightarrow> ('d, 'a) archive_op" where
  "in_session attached m f =
     (case m \<lparr>ss_attached = attached, ss_disk = af_db f\<rparr> of (r, s) \<Rightarrow> (r, f\<lparr>af_db := ss_disk s\<rparr>))"

definition connect :: "'d duckdb \<Rightarrow> string \<Rightarrow> ('d, unit) archive_op" where
  "connect dd p f = (case dd_connect dd p (af_db f) of Inl e \<Rightarrow> (Inl e, f) | Inr disk \<Rightarrow> (Inr (), f\<lparr>af_db := disk\<rparr>))"

definition finally_op :: "('s, 'e, 'a) op \<Rightarrow> ('s \<Rightarrow> 's) \<Rightarrow> ('s, 'e, 'a) op" where
  "finally_op m g s = (case m s of (r, s') \<Rightarrow> (r, g s'))"

section \<open>The operations\<close>

text \<open>\<open>ini\<close> is the engine's initialisation of its database.\<close>

definition init_archive :: "('d option \<Rightarrow> exn + 'd) \<Rightarrow> string \<Rightarrow> string \<Rightarrow> ('d, unit) archive_op" where
  "init_archive ini db logs =
     bind_op get_op (\<lambda>f.
     bind_op (lift_op (ini (af_db f db))) (\<lambda>d.
     bind_op (modify_op (\<lambda>f. f\<lparr>af_db := (af_db f)(db \<mapsto> d)\<rparr>)) (\<lambda>_.
     modify_op (\<lambda>f. f\<lparr>af_logs := (af_logs f)(logs \<mapsto> (case af_logs f logs of None \<Rightarrow> [] | Some t \<Rightarrow> t))\<rparr>))))"

definition purged_tables :: "string list" where
  "purged_tables = [''task_files'', ''verification_runs'', ''solver_runs'', ''scores'', ''lineage'', ''tasks'']"

definition purge_sql :: "string \<Rightarrow> string" where
  "purge_sql table = ''DELETE FROM '' @ table @ '' WHERE task_hash = ?''"

text \<open>Every statement is committed by itself.\<close>

fun purge_from :: "'d duckdb \<Rightarrow> string \<Rightarrow> string list \<Rightarrow> ('d session, exn, unit) op" where
  "purge_from dd task_hash [] = return_op ()"
| "purge_from dd task_hash (t # ts) = bind_op (execute dd (purge_sql t) [task_hash]) (\<lambda>_. purge_from dd task_hash ts)"

definition purge_task :: "'d duckdb \<Rightarrow> string \<Rightarrow> string \<Rightarrow> ('d, unit) archive_op" where
  "purge_task dd db task_hash =
     bind_op (connect dd db) (\<lambda>_. in_session [''main'' \<mapsto> db] (purge_from dd task_hash purged_tables))"

text \<open>The temporary file beside the destination, with the random part of its name.\<close>

definition temp_beside :: "string \<Rightarrow> string \<Rightarrow> string" where
  "temp_beside p rnd =
     (let name = rev (takeWhile (\<lambda>c. c \<noteq> CHR ''/'') (rev p)) in
      take (length p - length name) p @ ''.'' @ name @ ''.'' @ rnd @ ''.tmp'')"

definition attach_source :: "string \<Rightarrow> string" where
  "attach_source l = ''ATTACH '' @ l @ '' AS source_db (READ_ONLY)''"

definition attach_public :: "string \<Rightarrow> string" where
  "attach_public l = ''ATTACH '' @ l @ '' AS public_db''"

definition copy_sql :: string where
  "copy_sql = ''COPY FROM DATABASE source_db TO public_db''"

definition hide_sql :: string where
  "hide_sql = ''DELETE FROM public_db.task_files WHERE file_role = '' @ sql_literal ''hidden_tests''"

definition copy_statements :: "'d duckdb \<Rightarrow> string \<Rightarrow> string \<Rightarrow> ('d session, exn, unit) op" where
  "copy_statements dd source temp =
     bind_op (execute dd (attach_source (sql_literal source)) []) (\<lambda>_.
     bind_op (execute dd (attach_public (sql_literal temp)) []) (\<lambda>_.
     bind_op (execute dd copy_sql []) (\<lambda>_.
     bind_op (execute dd hide_sql []) (\<lambda>_.
     bind_op (execute dd ''CHECKPOINT public_db'' []) (\<lambda>_.
     bind_op (execute dd ''DETACH public_db'' []) (\<lambda>_.
     execute dd ''DETACH source_db'' []))))))"

text \<open>\<open>atomic_replace_file\<close> as one step; how it survives a crash is the subject of the atomic writes.\<close>

definition replace_db :: "string \<Rightarrow> string \<Rightarrow> ('d, string) archive_op" where
  "replace_db temp destination =
     bind_op get_op (\<lambda>f.
     bind_op (guard_op (af_db f temp \<noteq> None) \<lparr>exn_type = ''FileNotFoundError'', exn_text = temp\<rparr>) (\<lambda>_.
     bind_op (modify_op (\<lambda>f. f\<lparr>af_db := (af_db f)(temp := None, destination := af_db f temp),
        af_mode := (af_mode f)(temp := None, destination := af_mode f temp)\<rparr>)) (\<lambda>_.
     return_op destination)))"

text \<open>The mode 0600 is 384.\<close>

definition public_safe_archive_copy ::
  "'d duckdb \<Rightarrow> (string \<Rightarrow> string) \<Rightarrow> string \<Rightarrow> string \<Rightarrow> string \<Rightarrow> ('d, string) archive_op" where
  "public_safe_archive_copy dd resolve rnd source destination =
     (let temp = temp_beside destination rnd in
      bind_op (guard_op (resolve source \<noteq> resolve destination)
        \<lparr>exn_type = ''ValueError'', exn_text = ''public archive destination must differ from the source''\<rparr>) (\<lambda>_.
      finally_op
        (bind_op (in_session Map.empty (copy_statements dd source temp)) (\<lambda>_.
         bind_op (modify_op (\<lambda>f. f\<lparr>af_mode := (af_mode f)(temp \<mapsto> 384)\<rparr>)) (\<lambda>_.
         replace_db temp destination)))
        (\<lambda>f. f\<lparr>af_db := (af_db f)(temp := None), af_mode := (af_mode f)(temp := None)\<rparr>)))"

section \<open>What is documented of the database\<close>

definition other_files_kept :: "'d session \<Rightarrow> 'd session \<Rightarrow> string \<Rightarrow> bool" where
  "other_files_kept s s' p \<longleftrightarrow> (\<forall>q. q \<noteq> p \<longrightarrow> ss_disk s' q = ss_disk s q)"

definition lawful_connect :: "'d duckdb \<Rightarrow> bool" where
  "lawful_connect dd \<longleftrightarrow>
     (\<forall>p disk disk'. dd_connect dd p disk = Inr disk' \<longrightarrow>
        (\<forall>q. q \<noteq> p \<longrightarrow> disk' q = disk q) \<and> disk' p \<noteq> None \<and> (disk p \<noteq> None \<longrightarrow> disk' p = disk p))"

definition lawful_attach :: "'d duckdb \<Rightarrow> bool" where
  "lawful_attach dd \<longleftrightarrow>
     (\<forall>l p s s'. read_literal l = Some p \<longrightarrow>
        (dd_execute dd (attach_source l) [] s = Inr s' \<longrightarrow>
           ss_disk s p \<noteq> None \<and> s' = s\<lparr>ss_attached := (ss_attached s)(''source_db'' \<mapsto> p)\<rparr>)
      \<and> (dd_execute dd (attach_public l) [] s = Inr s' \<longrightarrow>
           ss_attached s' = (ss_attached s)(''public_db'' \<mapsto> p) \<and> ss_disk s' p \<noteq> None \<and> other_files_kept s s' p
           \<and> (ss_disk s p = None \<longrightarrow> dd_rows dd (the (ss_disk s' p)) = (\<lambda>t. []))))"

text \<open>\<open>COPY FROM DATABASE\<close> into a database that holds nothing yet.\<close>

definition lawful_copy :: "'d duckdb \<Rightarrow> bool" where
  "lawful_copy dd \<longleftrightarrow>
     (\<forall>p q d s s'. ss_attached s ''source_db'' = Some p \<and> ss_attached s ''public_db'' = Some q \<and> p \<noteq> q \<and> ss_disk s p = Some d
        \<and> ss_disk s q \<noteq> None \<and> dd_rows dd (the (ss_disk s q)) = (\<lambda>t. []) \<and> dd_execute dd copy_sql [] s = Inr s' \<longrightarrow>
        ss_attached s' = ss_attached s \<and> other_files_kept s s' q \<and> (\<exists>d'. ss_disk s' q = Some d' \<and> dd_rows dd d' = dd_rows dd d))"

text \<open>Deleting, in the database attached under a name, the rows of a table whose column has a value.\<close>

definition deletes :: "'d duckdb \<Rightarrow> string \<Rightarrow> string list \<Rightarrow> string \<Rightarrow> string \<Rightarrow> string \<Rightarrow> string \<Rightarrow> bool" where
  "deletes dd sql params attached table column v \<longleftrightarrow>
     (\<forall>q d s s'. ss_attached s attached = Some q \<and> ss_disk s q = Some d \<and> dd_execute dd sql params s = Inr s' \<longrightarrow>
        ss_attached s' = ss_attached s \<and> other_files_kept s s' q
        \<and> (\<exists>d'. ss_disk s' q = Some d' \<and> dd_rows dd d' = (dd_rows dd d)(table := filter (\<lambda>r. map_of r column \<noteq> Some (JStr v)) (dd_rows dd d table))))"

definition keeps_rows :: "'d duckdb \<Rightarrow> string \<Rightarrow> bool" where
  "keeps_rows dd sql \<longleftrightarrow>
     (\<forall>q d s s'. ss_attached s ''public_db'' = Some q \<and> ss_disk s q = Some d \<and> dd_execute dd sql [] s = Inr s' \<longrightarrow>
        other_files_kept s s' q \<and> (\<exists>d'. ss_disk s' q = Some d' \<and> dd_rows dd d' = dd_rows dd d))"

definition lawful_duckdb :: "'d duckdb \<Rightarrow> bool" where
  "lawful_duckdb dd \<longleftrightarrow>
     lawful_connect dd \<and> lawful_attach dd \<and> lawful_copy dd
     \<and> (\<forall>t h. t \<in> set purged_tables \<longrightarrow> deletes dd (purge_sql t) [h] ''main'' t ''task_hash'' h)
     \<and> deletes dd hide_sql [] ''public_db'' ''task_files'' ''file_role'' ''hidden_tests''
     \<and> keeps_rows dd ''CHECKPOINT public_db'' \<and> keeps_rows dd ''DETACH public_db''
     \<and> (\<forall>s s'. dd_execute dd ''CHECKPOINT public_db'' [] s = Inr s' \<longrightarrow> ss_attached s' = ss_attached s)
     \<and> (\<forall>s s'. dd_execute dd ''DETACH source_db'' [] s = Inr s' \<longrightarrow> ss_disk s' = ss_disk s)"

section \<open>What the operations do\<close>

lemma temp_beside_longer: "length p < length (temp_beside p rnd)"
proof -
  let ?name = "takeWhile (\<lambda>c. c \<noteq> CHR ''/'') (rev p)"
  have "length ?name \<le> length p" using length_takeWhile_le [of "\<lambda>c. c \<noteq> CHR ''/''" "rev p"] by simp
  then show ?thesis by (simp add: temp_beside_def Let_def)
qed

lemma temp_beside_other [simp]: "temp_beside p rnd \<noteq> p"
  using temp_beside_longer [of p rnd] by auto

lemma execute_Inr [simp]: "execute dd sql ps s = (Inr u, s') \<longleftrightarrow> dd_execute dd sql ps s = Inr s'"
  by (auto simp: execute_def split: sum.splits)

lemma execute_Inl [simp]: "execute dd sql ps s = (Inl e, s') \<longleftrightarrow> dd_execute dd sql ps s = Inl e \<and> s' = s"
  by (auto simp: execute_def split: sum.splits)

lemma kept_trans: "other_files_kept s t p \<Longrightarrow> other_files_kept t u p \<Longrightarrow> other_files_kept s u p"
  by (simp add: other_files_kept_def)

lemma kept_refl [simp]: "other_files_kept s s p"
  by (simp add: other_files_kept_def)

text \<open>Both databases attached, the source untouched and the copy with the given rows.\<close>

definition copying :: "'d duckdb \<Rightarrow> 'd session \<Rightarrow> string \<Rightarrow> string \<Rightarrow> 'd session \<Rightarrow> bool" where
  "copying dd s0 p q s \<longleftrightarrow>
     ss_attached s ''source_db'' = Some p \<and> ss_attached s ''public_db'' = Some q \<and> p \<noteq> q
     \<and> other_files_kept s0 s q \<and> ss_disk s0 p \<noteq> None \<and> ss_disk s q \<noteq> None"

definition copied_rows :: "'d duckdb \<Rightarrow> string \<Rightarrow> 'd session \<Rightarrow> string \<Rightarrow> sql_row list" where
  "copied_rows dd q s = dd_rows dd (the (ss_disk s q))"

definition without_hidden :: "(string \<Rightarrow> sql_row list) \<Rightarrow> string \<Rightarrow> sql_row list" where
  "without_hidden rows = rows(''task_files'' := filter (\<lambda>r. map_of r ''file_role'' \<noteq> Some (JStr ''hidden_tests'')) (rows ''task_files''))"

lemma attaching:
  assumes "lawful_duckdb dd" "ss_disk s q = None"
    and "dd_execute dd (attach_source (sql_literal p)) [] s = Inr s1" "dd_execute dd (attach_public (sql_literal q)) [] s1 = Inr s2"
  shows "copying dd s p q s2 \<and> copied_rows dd q s2 = (\<lambda>t. [])"
proof -
  have one: "ss_disk s p \<noteq> None" "s1 = s\<lparr>ss_attached := (ss_attached s)(''source_db'' \<mapsto> p)\<rparr>"
    using assms(1,3) sql_literal_read [of p] unfolding lawful_duckdb_def lawful_attach_def by blast+
  have two: "ss_attached s2 = (ss_attached s1)(''public_db'' \<mapsto> q)" "ss_disk s2 q \<noteq> None" "other_files_kept s1 s2 q"
    "ss_disk s1 q = None \<longrightarrow> dd_rows dd (the (ss_disk s2 q)) = (\<lambda>t. [])"
    using assms(1,4) sql_literal_read [of q] unfolding lawful_duckdb_def lawful_attach_def by blast+
  from one two assms(2) show ?thesis by (auto simp: copying_def copied_rows_def other_files_kept_def)
qed

lemma copying_step:
  assumes "copying dd s0 p q s" "lawful_duckdb dd"
  shows "dd_execute dd copy_sql [] s = Inr s' \<Longrightarrow> copied_rows dd q s = (\<lambda>t. []) \<Longrightarrow> copying dd s0 p q s' \<and> copied_rows dd q s' = dd_rows dd (the (ss_disk s0 p))"
    and "dd_execute dd hide_sql [] s = Inr s' \<Longrightarrow> copying dd s0 p q s' \<and> copied_rows dd q s' = without_hidden (copied_rows dd q s)"
    and "dd_execute dd ''CHECKPOINT public_db'' [] s = Inr s' \<Longrightarrow> copying dd s0 p q s' \<and> copied_rows dd q s' = copied_rows dd q s"
    and "dd_execute dd ''DETACH public_db'' [] s = Inr s' \<Longrightarrow>
      other_files_kept s0 s' q \<and> ss_disk s' q \<noteq> None \<and> copied_rows dd q s' = copied_rows dd q s"
proof -
  obtain d0 d where d: "ss_disk s0 p = Some d0" "ss_disk s p = Some d0" "ss_disk s q = Some d"
    and s: "ss_attached s ''source_db'' = Some p" "ss_attached s ''public_db'' = Some q" "p \<noteq> q" "other_files_kept s0 s q"
    using assms(1) by (auto simp: copying_def other_files_kept_def)
  note laws = assms(2) [unfolded lawful_duckdb_def]
  show "copying dd s0 p q s' \<and> copied_rows dd q s' = dd_rows dd (the (ss_disk s0 p))"
    if "dd_execute dd copy_sql [] s = Inr s'" "copied_rows dd q s = (\<lambda>t. [])"
  proof -
    have "ss_attached s' = ss_attached s \<and> other_files_kept s s' q \<and> (\<exists>d'. ss_disk s' q = Some d' \<and> dd_rows dd d' = dd_rows dd d0)"
      using laws that s(1,2,3) d(2,3) unfolding lawful_copy_def copied_rows_def by blast
    with s d(1) kept_trans [OF s(4)] show ?thesis by (auto simp: copying_def copied_rows_def)
  qed
  show "copying dd s0 p q s' \<and> copied_rows dd q s' = without_hidden (copied_rows dd q s)" if "dd_execute dd hide_sql [] s = Inr s'"
  proof -
    have "ss_attached s' = ss_attached s \<and> other_files_kept s s' q
        \<and> (\<exists>d'. ss_disk s' q = Some d' \<and> dd_rows dd d' = without_hidden (dd_rows dd d))"
      using laws that s(2) d(3) unfolding deletes_def without_hidden_def by blast
    with s d kept_trans [OF s(4)] show ?thesis by (auto simp: copying_def copied_rows_def)
  qed
  have keeps: "other_files_kept s s' q \<and> (\<exists>d'. ss_disk s' q = Some d' \<and> dd_rows dd d' = dd_rows dd d)"
    if "keeps_rows dd sql" "dd_execute dd sql [] s = Inr s'" for sql
    using that s(2) d(3) unfolding keeps_rows_def by blast
  show "copying dd s0 p q s' \<and> copied_rows dd q s' = copied_rows dd q s" if "dd_execute dd ''CHECKPOINT public_db'' [] s = Inr s'"
  proof -
    have "ss_attached s' = ss_attached s" using laws that by blast
    with keeps [OF _ that] laws s d kept_trans [OF s(4)] show ?thesis by (auto simp: copying_def copied_rows_def)
  qed
  show "other_files_kept s0 s' q \<and> ss_disk s' q \<noteq> None \<and> copied_rows dd q s' = copied_rows dd q s"
    if "dd_execute dd ''DETACH public_db'' [] s = Inr s'"
    using keeps [OF _ that] laws d kept_trans [OF s(4)] by (auto simp: copied_rows_def)
qed

lemma copy_statements_return:
  assumes "lawful_duckdb dd" "ss_disk s q = None" "copy_statements dd p q s = (Inr u, s')"
  shows "\<exists>d d'. ss_disk s p = Some d \<and> ss_disk s' = (ss_disk s)(q \<mapsto> d') \<and> dd_rows dd d' = without_hidden (dd_rows dd d)"
proof -
  obtain s1 s2 s3 s4 s5 s6 where run: "dd_execute dd (attach_source (sql_literal p)) [] s = Inr s1"
      "dd_execute dd (attach_public (sql_literal q)) [] s1 = Inr s2" "dd_execute dd copy_sql [] s2 = Inr s3" "dd_execute dd hide_sql [] s3 = Inr s4"
      "dd_execute dd ''CHECKPOINT public_db'' [] s4 = Inr s5" "dd_execute dd ''DETACH public_db'' [] s5 = Inr s6"
      "dd_execute dd ''DETACH source_db'' [] s6 = Inr s'"
    using assms(3) by (auto simp: copy_statements_def bind_op_Inr)
  note c2 = attaching [OF assms(1,2) run(1,2)]
  note c3 = copying_step(1) [OF conjunct1 [OF c2] assms(1) run(3) conjunct2 [OF c2]]
  note c4 = copying_step(2) [OF conjunct1 [OF c3] assms(1) run(4)]
  note c5 = copying_step(3) [OF conjunct1 [OF c4] assms(1) run(5)]
  note c6 = copying_step(4) [OF conjunct1 [OF c5] assms(1) run(6)]
  have disk: "ss_disk s' = ss_disk s6" using assms(1) run(7) unfolding lawful_duckdb_def by blast
  obtain d where d: "ss_disk s p = Some d" using c2 by (auto simp: copying_def)
  obtain d' where d': "ss_disk s6 q = Some d'" using c6 by auto
  have "dd_rows dd d' = without_hidden (dd_rows dd d)" using c3 c4 c5 c6 d d' by (simp add: copied_rows_def)
  moreover have "ss_disk s' = (ss_disk s)(q \<mapsto> d')" using c6 d' disk by (simp add: other_files_kept_def fun_eq_iff)
  ultimately show ?thesis using d by blast
qed

lemma raised_at:
  assumes "bind_op (execute dd sql ps) f s = (Inl e, s')" "other_files_kept s0 s q"
    and "\<And>t. dd_execute dd sql ps s = Inr t \<Longrightarrow> f () t = (Inl e, s') \<Longrightarrow> other_files_kept s0 s' q"
  shows "other_files_kept s0 s' q"
  using assms by (auto simp: bind_op_Inl)

lemma copying_raise:
  assumes "lawful_duckdb dd" "copying dd s p q s2 \<and> copied_rows dd q s2 = (\<lambda>t. [])"
    and "bind_op (execute dd copy_sql []) (\<lambda>_. bind_op (execute dd hide_sql []) (\<lambda>_. bind_op (execute dd ''CHECKPOINT public_db'' []) (\<lambda>_.
      bind_op (execute dd ''DETACH public_db'' []) (\<lambda>_. execute dd ''DETACH source_db'' [])))) s2 = (Inl e, s')"
  shows "other_files_kept s s' q"
proof -
  have kept: "other_files_kept s t q" if "copying dd s p q t" for t using that by (simp add: copying_def)
  note step = copying_step [OF _ assms(1)]
  show ?thesis
  proof (rule raised_at [OF assms(3) kept [OF conjunct1 [OF assms(2)]]])
    fix s3 assume 3: "dd_execute dd copy_sql [] s2 = Inr s3"
      and rest: "bind_op (execute dd hide_sql []) (\<lambda>_. bind_op (execute dd ''CHECKPOINT public_db'' []) (\<lambda>_.
        bind_op (execute dd ''DETACH public_db'' []) (\<lambda>_. execute dd ''DETACH source_db'' []))) s3 = (Inl e, s')"
    note c3 = conjunct1 [OF step(1) [OF conjunct1 [OF assms(2)] 3 conjunct2 [OF assms(2)]]]
    show ?thesis
    proof (rule raised_at [OF rest kept [OF c3]])
      fix s4 assume 4: "dd_execute dd hide_sql [] s3 = Inr s4"
        and rest: "bind_op (execute dd ''CHECKPOINT public_db'' []) (\<lambda>_. bind_op (execute dd ''DETACH public_db'' [])
          (\<lambda>_. execute dd ''DETACH source_db'' [])) s4 = (Inl e, s')"
      note c4 = conjunct1 [OF step(2) [OF c3 4]]
      show ?thesis
      proof (rule raised_at [OF rest kept [OF c4]])
        fix s5 assume 5: "dd_execute dd ''CHECKPOINT public_db'' [] s4 = Inr s5"
          and rest: "bind_op (execute dd ''DETACH public_db'' []) (\<lambda>_. execute dd ''DETACH source_db'' []) s5 = (Inl e, s')"
        note c5 = conjunct1 [OF step(3) [OF c4 5]]
        show ?thesis
          by (rule raised_at [OF rest kept [OF c5]]) (use step(4) [OF c5] in simp)
      qed
    qed
  qed
qed

lemma copy_statements_raise:
  assumes "lawful_duckdb dd" "ss_disk s q = None" "copy_statements dd p q s = (Inl e, s')"
  shows "other_files_kept s s' q"
proof (rule raised_at [OF assms(3) [unfolded copy_statements_def] kept_refl])
  fix s1
  assume s1: "dd_execute dd (attach_source (sql_literal p)) [] s = Inr s1"
  then have "s1 = s\<lparr>ss_attached := (ss_attached s)(''source_db'' \<mapsto> p)\<rparr>"
    using assms(1) sql_literal_read [of p] unfolding lawful_duckdb_def lawful_attach_def by blast
  then have one: "other_files_kept s s1 q" by (simp add: other_files_kept_def)
  assume rest: "bind_op (execute dd (attach_public (sql_literal q)) []) (\<lambda>_. bind_op (execute dd copy_sql [])
      (\<lambda>_. bind_op (execute dd hide_sql []) (\<lambda>_. bind_op (execute dd ''CHECKPOINT public_db'' []) (\<lambda>_.
      bind_op (execute dd ''DETACH public_db'' []) (\<lambda>_. execute dd ''DETACH source_db'' []))))) s1 = (Inl e, s')"
  show ?thesis
    by (rule raised_at [OF rest one]) (rule copying_raise [OF assms(1) attaching [OF assms(1,2) s1]])
qed

text \<open>C17: the public copy of an archive has every row of the archive but the files of hidden tests, is readable by its owner alone, and
  appears at its destination at once: when anything fails, or the destination is the archive itself, no database has
  changed, and the temporary one is gone in every case.  Quotes in a path cannot change the statements.\<close>

theorem public_copy_hides_tests:
  assumes "lawful_duckdb dd" "af_db f (temp_beside destination rnd) = None"
  shows "case public_safe_archive_copy dd resolve rnd source destination f of
      (Inr p, f') \<Rightarrow> p = destination \<and> resolve source \<noteq> resolve destination \<and> af_mode f' destination = Some 384
        \<and> (\<exists>d d'. af_db f source = Some d \<and> af_db f' = (af_db f)(destination \<mapsto> d') \<and> dd_rows dd d' = without_hidden (dd_rows dd d))
    | (Inl e, f') \<Rightarrow> af_db f' = af_db f"
proof -
  let ?temp = "temp_beside destination rnd" and ?s = "\<lparr>ss_attached = Map.empty, ss_disk = af_db f\<rparr>"
  obtain r s where copy: "copy_statements dd source ?temp ?s = (r, s)" by fastforce
  show ?thesis
  proof (cases "resolve source = resolve destination")
    case True
    then show ?thesis by (simp add: public_safe_archive_copy_def Let_def op_plumbing require_def)
  next
    case False
    show ?thesis
    proof (cases r)
      case (Inl e)
      have "other_files_kept ?s s ?temp"
        using copy_statements_raise [of dd ?s ?temp source e s] assms copy Inl by simp
      then have "(ss_disk s)(?temp := None) = af_db f" using assms(2) by (auto simp: other_files_kept_def)
      with False copy Inl show ?thesis
        by (simp add: public_safe_archive_copy_def Let_def op_plumbing require_def finally_op_def in_session_def)
    next
      case (Inr u)
      obtain d d' where d: "af_db f source = Some d" "ss_disk s = (af_db f)(?temp \<mapsto> d')" "dd_rows dd d' = without_hidden (dd_rows dd d)"
        using copy_statements_return [of dd ?s ?temp source u s] assms copy Inr by auto
      have "(af_db f)(destination \<mapsto> d', ?temp := None) = (af_db f)(destination \<mapsto> d')"
        "(af_db f)(?temp := None, destination \<mapsto> d') = (af_db f)(destination \<mapsto> d')"
        using assms(2) by (auto simp: fun_eq_iff)
      with False copy Inr d show ?thesis
        by (auto simp: public_safe_archive_copy_def Let_def op_plumbing require_def finally_op_def in_session_def replace_db_def)
    qed
  qed
qed

text \<open>A database that does what is documented: tables as lists of rows, and nothing else.\<close>

type_synonym tables = "string \<Rightarrow> sql_row list"

definition delete_rows :: "string \<Rightarrow> string \<Rightarrow> string \<Rightarrow> string \<Rightarrow> tables session \<Rightarrow> exn + tables session" where
  "delete_rows name table column v s =
     (case ss_attached s name of
        None \<Rightarrow> Inl \<lparr>exn_type = ''CatalogException'', exn_text = name\<rparr>
      | Some q \<Rightarrow>
          (case ss_disk s q of
             None \<Rightarrow> Inl \<lparr>exn_type = ''CatalogException'', exn_text = name\<rparr>
           | Some d \<Rightarrow> Inr (s\<lparr>ss_disk := (ss_disk s)(q \<mapsto> d(table := filter (\<lambda>r. map_of r column \<noteq> Some (JStr v)) (d table)))\<rparr>)))"

definition strip_around :: "string \<Rightarrow> string \<Rightarrow> string \<Rightarrow> string option" where
  "strip_around a b q =
     (if starts_with q a \<and> ends_with q b \<and> length a + length b \<le> length q
      then Some (take (length q - length a - length b) (drop (length a) q)) else None)"

definition attach_text :: "string \<Rightarrow> (string \<times> bool) option" where
  "attach_text q =
     (case strip_around ''ATTACH '' '' AS source_db (READ_ONLY)'' q of
        Some l \<Rightarrow> map_option (\<lambda>p. (p, True)) (read_literal l)
      | None \<Rightarrow> (case strip_around ''ATTACH '' '' AS public_db'' q of
          Some l \<Rightarrow> map_option (\<lambda>p. (p, False)) (read_literal l)
        | None \<Rightarrow> None))"

definition table_execute :: "string \<Rightarrow> string list \<Rightarrow> tables session \<Rightarrow> exn + tables session" where
  "table_execute q params s =
     (case attach_text q of
        Some (p, True) \<Rightarrow>
          if ss_disk s p = None then Inl \<lparr>exn_type = ''IOException'', exn_text = p\<rparr>
          else Inr (s\<lparr>ss_attached := (ss_attached s)(''source_db'' \<mapsto> p)\<rparr>)
      | Some (p, False) \<Rightarrow>
          Inr (s\<lparr>ss_attached := (ss_attached s)(''public_db'' \<mapsto> p),
            ss_disk := (case ss_disk s p of None \<Rightarrow> (ss_disk s)(p \<mapsto> (\<lambda>t. [])) | Some d \<Rightarrow> ss_disk s)\<rparr>)
      | None \<Rightarrow>
          if q = copy_sql then
            (case (ss_attached s ''source_db'', ss_attached s ''public_db'') of
               (Some a, Some b) \<Rightarrow> Inr (s\<lparr>ss_disk := (ss_disk s)(b := ss_disk s a)\<rparr>)
             | _ \<Rightarrow> Inl \<lparr>exn_type = ''BinderException'', exn_text = q\<rparr>)
          else if q = hide_sql then delete_rows ''public_db'' ''task_files'' ''file_role'' ''hidden_tests'' s
          else if q = ''CHECKPOINT public_db'' then Inr s
          else if q = ''DETACH public_db'' then Inr (s\<lparr>ss_attached := (ss_attached s)(''public_db'' := None)\<rparr>)
          else if q = ''DETACH source_db'' then Inr (s\<lparr>ss_attached := (ss_attached s)(''source_db'' := None)\<rparr>)
          else (case find (\<lambda>t. q = purge_sql t) purged_tables of
            Some t \<Rightarrow> delete_rows ''main'' t ''task_hash'' (hd params) s
          | None \<Rightarrow> Inl \<lparr>exn_type = ''ParserException'', exn_text = q\<rparr>))"

definition table_db :: "tables duckdb" where
  "table_db =
     \<lparr>dd_connect = (\<lambda>p disk. Inr (case disk p of None \<Rightarrow> disk(p \<mapsto> (\<lambda>t. [])) | Some d \<Rightarrow> disk)),
      dd_execute = table_execute, dd_rows = (\<lambda>d. d)\<rparr>"

lemma attach_text_source: "read_literal l = Some p \<Longrightarrow> attach_text (attach_source l) = Some (p, True)"
  by (simp add: attach_text_def attach_source_def strip_around_def starts_with_def ends_with_def)

lemma attach_text_public: "read_literal l = Some p \<Longrightarrow> attach_text (attach_public l) = Some (p, False)"
  by (simp add: attach_text_def attach_public_def strip_around_def starts_with_def ends_with_def)
    (simp add: take_Cons' drop_Cons')

lemma attach_text_other:
  "attach_text copy_sql = None" "attach_text hide_sql = None" "attach_text ''CHECKPOINT public_db'' = None"
  "attach_text ''DETACH public_db'' = None" "attach_text ''DETACH source_db'' = None"
  "t \<in> set purged_tables \<Longrightarrow> attach_text (purge_sql t) = None"
  by (code_simp | simp add: attach_text_def strip_around_def purge_sql_def starts_with_def)+

lemma delete_rows_Inr:
  assumes "ss_attached s name = Some q" "ss_disk s q = Some d"
  shows "delete_rows name table column v s = Inr s' \<longleftrightarrow>
    s' = s\<lparr>ss_disk := (ss_disk s)(q \<mapsto> d(table := filter (\<lambda>r. map_of r column \<noteq> Some (JStr v)) (d table)))\<rparr>"
  using assms by (auto simp: delete_rows_def)

lemma purge_sql_other: "t \<in> set purged_tables \<Longrightarrow>
    purge_sql t \<noteq> copy_sql \<and> purge_sql t \<noteq> hide_sql \<and> purge_sql t \<noteq> ''CHECKPOINT public_db''
    \<and> purge_sql t \<noteq> ''DETACH public_db'' \<and> purge_sql t \<noteq> ''DETACH source_db''
    \<and> find (\<lambda>u. purge_sql t = purge_sql u) purged_tables = Some t"
  by (auto simp: purged_tables_def purge_sql_def copy_sql_def hide_sql_def sql_literal_def)

lemma table_execute_purge:
  "t \<in> set purged_tables \<Longrightarrow> table_execute (purge_sql t) [h] s = delete_rows ''main'' t ''task_hash'' h s"
  using purge_sql_other [of t] by (simp add: table_execute_def attach_text_other)

lemma table_execute_hide: "table_execute hide_sql [] s = delete_rows ''public_db'' ''task_files'' ''file_role'' ''hidden_tests'' s"
proof -
  have "hide_sql \<noteq> copy_sql" by code_simp
  then show ?thesis by (simp add: table_execute_def attach_text_other)
qed

lemma table_execute_copy:
  "table_execute copy_sql [] s =
     (case (ss_attached s ''source_db'', ss_attached s ''public_db'') of
        (Some a, Some b) \<Rightarrow> Inr (s\<lparr>ss_disk := (ss_disk s)(b := ss_disk s a)\<rparr>)
      | _ \<Rightarrow> Inl \<lparr>exn_type = ''BinderException'', exn_text = copy_sql\<rparr>)"
  by (simp add: table_execute_def attach_text_other)

lemma table_execute_rest:
  "table_execute ''CHECKPOINT public_db'' [] s = Inr s"
  "table_execute ''DETACH public_db'' [] s = Inr (s\<lparr>ss_attached := (ss_attached s)(''public_db'' := None)\<rparr>)"
  "table_execute ''DETACH source_db'' [] s = Inr (s\<lparr>ss_attached := (ss_attached s)(''source_db'' := None)\<rparr>)"
proof -
  have "copy_sql \<noteq> ''CHECKPOINT public_db''" "hide_sql \<noteq> ''CHECKPOINT public_db''" "copy_sql \<noteq> ''DETACH public_db''"
    "hide_sql \<noteq> ''DETACH public_db''" "copy_sql \<noteq> ''DETACH source_db''" "hide_sql \<noteq> ''DETACH source_db''"
    by code_simp+
  then show "table_execute ''CHECKPOINT public_db'' [] s = Inr s"
    "table_execute ''DETACH public_db'' [] s = Inr (s\<lparr>ss_attached := (ss_attached s)(''public_db'' := None)\<rparr>)"
    "table_execute ''DETACH source_db'' [] s = Inr (s\<lparr>ss_attached := (ss_attached s)(''source_db'' := None)\<rparr>)"
    by (auto simp: table_execute_def attach_text_other)
qed

lemma table_db_lawful: "lawful_duckdb table_db"
proof -
  have "lawful_connect table_db" by (auto simp: lawful_connect_def table_db_def split: option.splits)
  moreover have "lawful_attach table_db"
    by (auto simp: lawful_attach_def table_db_def table_execute_def attach_text_source attach_text_public other_files_kept_def
        split: if_splits option.splits)
  moreover have "lawful_copy table_db"
    by (auto simp: lawful_copy_def table_db_def table_execute_copy other_files_kept_def)
  moreover have "\<forall>t h. t \<in> set purged_tables \<longrightarrow> deletes table_db (purge_sql t) [h] ''main'' t ''task_hash'' h"
    by (auto simp: deletes_def table_db_def table_execute_purge delete_rows_Inr other_files_kept_def)
  moreover have "deletes table_db hide_sql [] ''public_db'' ''task_files'' ''file_role'' ''hidden_tests''"
    by (auto simp: deletes_def table_db_def table_execute_hide delete_rows_Inr other_files_kept_def)
  ultimately show ?thesis
    by (auto simp: lawful_duckdb_def keeps_rows_def table_db_def table_execute_rest other_files_kept_def)
qed

definition sample_archive :: "tables archive_files" where
  "sample_archive =
     \<lparr>af_db = [''work/archive.duckdb'' \<mapsto> (\<lambda>t. if t = ''task_files''
        then [[(''file_role'', JStr ''hidden_tests''), (''content'', JStr ''secret'')], [(''file_role'', JStr ''starter''), (''content'', JStr ''s'')]]
        else [])],
      af_mode = Map.empty, af_logs = Map.empty\<rparr>"

lemma sample_copy_returns:
  "is_ok (fst (public_safe_archive_copy table_db id ''1'' ''work/archive.duckdb'' ''public/it's.duckdb'' sample_archive))"
  by code_simp

theorem public_copy_hides_tests_witness:
  "\<exists>f' d'. public_safe_archive_copy table_db id ''1'' ''work/archive.duckdb'' ''public/it's.duckdb'' sample_archive = (Inr ''public/it's.duckdb'', f')
     \<and> af_db f' ''public/it's.duckdb'' = Some d' \<and> d' ''task_files'' = [[(''file_role'', JStr ''starter''), (''content'', JStr ''s'')]]"
proof -
  have fresh: "af_db sample_archive (temp_beside ''public/it's.duckdb'' ''1'') = None" by code_simp
  obtain p f' where run: "public_safe_archive_copy table_db id ''1'' ''work/archive.duckdb'' ''public/it's.duckdb'' sample_archive = (Inr p, f')"
    using sample_copy_returns
    by (cases "public_safe_archive_copy table_db id ''1'' ''work/archive.duckdb'' ''public/it's.duckdb'' sample_archive") (auto simp: is_ok_iff)
  from public_copy_hides_tests [OF table_db_lawful fresh, of id "''work/archive.duckdb''"] run
  show ?thesis by (auto simp: sample_archive_def table_db_def without_hidden_def)
qed

subsection \<open>Purging\<close>

definition purge_rows :: "string \<Rightarrow> string list \<Rightarrow> (string \<Rightarrow> sql_row list) \<Rightarrow> string \<Rightarrow> sql_row list" where
  "purge_rows h ts rows t = (if t \<in> set ts then filter (\<lambda>r. map_of r ''task_hash'' \<noteq> Some (JStr h)) (rows t) else rows t)"

lemma purge_rows_Cons: "t \<notin> set ts \<Longrightarrow> purge_rows h ts (rows(t := filter (\<lambda>r. map_of r ''task_hash'' \<noteq> Some (JStr h)) (rows t))) = purge_rows h (t # ts) rows"
  by (auto simp: purge_rows_def fun_eq_iff)

text \<open>A purge that stops has purged the tables before the one that failed, and touched nothing else.\<close>

lemma purge_from_tables:
  assumes "lawful_duckdb dd" "set ts \<subseteq> set purged_tables" "distinct ts" "ss_attached s ''main'' = Some q" "ss_disk s q = Some d"
    and "purge_from dd h ts s = (r, s')"
  shows "\<exists>us vs d'. ts = us @ vs \<and> (is_ok r \<longleftrightarrow> vs = []) \<and> ss_disk s' = (ss_disk s)(q \<mapsto> d') \<and> dd_rows dd d' = purge_rows h us (dd_rows dd d)"
  using assms(2-)
proof (induction ts arbitrary: s d)
  case Nil
  then show ?case by (auto simp: purge_rows_def fun_eq_iff)
next
  case (Cons t ts)
  show ?case
  proof (cases "dd_execute dd (purge_sql t) [h] s")
    case (Inl e)
    with Cons.prems(4,5) show ?thesis
      by (intro exI [of _ "[]"] exI [of _ "t # ts"] exI [of _ d]) (auto simp: op_plumbing execute_def purge_rows_def fun_eq_iff)
  next
    case (Inr s1)
    have "deletes dd (purge_sql t) [h] ''main'' t ''task_hash'' h" using assms(1) Cons.prems(1) by (simp add: lawful_duckdb_def)
    then obtain d1 where one: "ss_attached s1 = ss_attached s" "ss_disk s1 = (ss_disk s)(q \<mapsto> d1)"
        "dd_rows dd d1 = (dd_rows dd d)(t := filter (\<lambda>r. map_of r ''task_hash'' \<noteq> Some (JStr h)) (dd_rows dd d t))"
    proof -
      have "ss_attached s1 = ss_attached s \<and> other_files_kept s s1 q \<and> (\<exists>d'. ss_disk s1 q = Some d'
          \<and> dd_rows dd d' = (dd_rows dd d)(t := filter (\<lambda>r. map_of r ''task_hash'' \<noteq> Some (JStr h)) (dd_rows dd d t)))"
        using \<open>deletes _ _ _ _ _ _ _\<close> Inr Cons.prems(3,4) unfolding deletes_def by blast
      then show ?thesis using that by (auto simp: other_files_kept_def fun_eq_iff)
    qed
    have "purge_from dd h ts s1 = (r, s')" using Cons.prems(5) Inr by (simp add: op_plumbing execute_def)
    moreover have "set ts \<subseteq> set purged_tables" "distinct ts" "ss_attached s1 ''main'' = Some q" "ss_disk s1 q = Some d1"
      using Cons.prems(1,2,3) one by simp_all
    ultimately obtain us vs d' where tail: "ts = us @ vs" "is_ok r \<longleftrightarrow> vs = []"
      "ss_disk s' = (ss_disk s1)(q \<mapsto> d')" "dd_rows dd d' = purge_rows h us (dd_rows dd d1)" using Cons.IH by blast
    have "purge_rows h us (dd_rows dd d1) = purge_rows h (t # us) (dd_rows dd d)"
      unfolding one(3) using Cons.prems(2) tail(1) by (intro purge_rows_Cons) auto
    with tail one show ?thesis by (intro exI [of _ "t # us"] exI [of _ vs] exI [of _ d']) simp
  qed
qed

lemma purge_task_tables:
  assumes "lawful_duckdb dd" "af_db f db = Some d" "purge_task dd db h f = (r, f')"
  shows "\<exists>us vs d'. purged_tables = us @ vs \<and> (is_ok r \<longrightarrow> vs = []) \<and> af_db f' = (af_db f)(db \<mapsto> d')
    \<and> dd_rows dd d' = purge_rows h us (dd_rows dd d)"
proof (cases "dd_connect dd db (af_db f)")
  case (Inl e)
  with assms(2,3) show ?thesis
    by (intro exI [of _ "[]"] exI [of _ purged_tables] exI [of _ d])
      (auto simp: purge_task_def connect_def op_plumbing purge_rows_def fun_eq_iff)
next
  case (Inr disk)
  moreover have "lawful_connect dd" using assms(1) by (simp add: lawful_duckdb_def)
  ultimately have "\<forall>q. q \<noteq> db \<longrightarrow> disk q = af_db f q" "disk db = af_db f db"
    using assms(2) unfolding lawful_connect_def by blast+
  then have disk: "disk = af_db f" by (metis ext)
  obtain r0 s where run: "purge_from dd h purged_tables \<lparr>ss_attached = [''main'' \<mapsto> db], ss_disk = af_db f\<rparr> = (r0, s)" by fastforce
  let ?s = "\<lparr>ss_attached = [''main'' \<mapsto> db], ss_disk = af_db f\<rparr>"
  have d: "distinct purged_tables" "ss_attached ?s ''main'' = Some db" "ss_disk ?s db = Some d" using assms(2) by (simp_all add: purged_tables_def)
  have "\<exists>us vs d'. purged_tables = us @ vs \<and> (is_ok r0 \<longleftrightarrow> vs = []) \<and> ss_disk s = (ss_disk ?s)(db \<mapsto> d')
      \<and> dd_rows dd d' = purge_rows h us (dd_rows dd d)"
    by (rule purge_from_tables [OF assms(1) order_refl d run])
  then obtain us vs d' where parts: "purged_tables = us @ vs" "is_ok r0 \<longleftrightarrow> vs = []" "ss_disk s = (ss_disk ?s)(db \<mapsto> d')"
    "dd_rows dd d' = purge_rows h us (dd_rows dd d)" by blast
  have "r = r0 \<and> af_db f' = ss_disk s"
    using assms(3) Inr disk run by (auto simp: purge_task_def connect_def op_plumbing in_session_def)
  with parts show ?thesis by (metis session.select_convs(2))
qed

text \<open>The archive is there after initialisation, and a log that existed is as it was.\<close>

lemma init_archive_keeps_log:
  "init_archive ini db logs f = (Inr u, f') \<Longrightarrow> af_db f' db \<noteq> None \<and> af_logs f' logs = Some (case af_logs f logs of None \<Rightarrow> [] | Some t \<Rightarrow> t)"
  by (auto simp: init_archive_def bind_op_Inr)

end
