(* ===== verification/Reports.thy ===== *)
theory Reports
  imports Replay Epoch_Frames Miner Preflight
begin

text \<open>
  The scripts that show or rehearse: an epoch without a chain (\<open>scripts/local_epoch.py\<close>), the leaderboard of an
  archive (\<open>scripts/report.py\<close>) and the read-only status of the testnet (\<open>scripts/testnet_status.py\<close>).
  Text with characters beyond ASCII is its UTF-8 encoding.
\<close>

section \<open>Six decimals\<close>

text \<open>\<open>f"{x:.6f}"\<close>: the nearest multiple of a millionth, ties to even.\<close>

definition six_digits :: "nat \<Rightarrow> string" where
  "six_digits n = (let s = show_nat n in replicate (6 - length s) CHR ''0'' @ s)"

definition millionths :: "rat \<Rightarrow> nat" where
  "millionths x = nat (round_even (\<bar>x\<bar> * 1000000))"

definition fixed6 :: "pyfloat \<Rightarrow> string" where
  "fixed6 v =
     (case v of
        Fin x \<Rightarrow> (if x < 0 then ''-'' else []) @ show_nat (millionths x div 1000000) @ ''.'' @ six_digits (millionths x mod 1000000)
      | PInf \<Rightarrow> ''inf''
      | NInf \<Rightarrow> ''-inf''
      | NaN \<Rightarrow> ''nan'')"

lemma millionths_error: "\<bar>\<bar>x\<bar> - of_nat (millionths x) / 1000000\<bar> \<le> 1 / 2000000"
proof -
  have "0 \<le> round_even (\<bar>x\<bar> * 1000000)" using round_even_mono [of 0 "\<bar>x\<bar> * 1000000"] by simp
  then have "of_nat (millionths x) = (of_int (round_even (\<bar>x\<bar> * 1000000)) :: rat)" by (simp add: millionths_def)
  with round_even_error [of "\<bar>x\<bar> * 1000000"] show ?thesis by (simp add: abs_le_iff field_simps)
qed

section \<open>An epoch without a chain\<close>

definition personas :: "string \<Rightarrow> string list" where
  "personas text = filter (\<lambda>p. p \<noteq> []) (map strip (split_on CHR '','' text))"

definition offline_miner :: "'b env \<Rightarrow> task_source \<Rightarrow> int \<Rightarrow> nat \<times> string \<Rightarrow> miner_error + miner" where
  "offline_miner env ts quota = (\<lambda>(index, persona).
     bind_result (offline_submissions env ts persona (100 + int index) quota) (\<lambda>submissions.
     Inr \<lparr>mn_hotkey = ''offline-'' @ show_nat index @ ''-'' @ persona, mn_uid = int index, mn_terminal_status = None,
          mn_terminal_reason = None, mn_submissions = (\<lambda>epoch_id quota. submissions)\<rparr>))"

definition offline_miners :: "'b env \<Rightarrow> task_source \<Rightarrow> int \<Rightarrow> string list \<Rightarrow> miner_error + miner list" where
  "offline_miners env ts quota ps = map_result (offline_miner env ts quota) (zip [0..<length ps] ps)"

datatype local_error = Epoch_raised epoch_error | Persona_raised miner_error | Local_refused config_error

text \<open>The epoch asks the personas for submissions once its log and session are open, so it is there that one raises.\<close>

definition run_local_epoch ::
  "('b, 'r) epoch_input \<Rightarrow> task_source \<Rightarrow> string list \<Rightarrow> ('b epoch_world, local_error, epoch_result) op" where
  "run_local_epoch x ts ps =
     (case offline_miners (in_env x) ts (in_quota x) ps of
        Inr miners \<Rightarrow> map_error_op Epoch_raised (run_epoch x no_hook miners)
      | Inl e \<Rightarrow> bind_op (map_error_op Epoch_raised (evaluate_epoch x [])) (\<lambda>_. fail_op (Persona_raised e)))"

record local_args =
  la_mode :: string
  la_miners :: string
  la_quota :: int
  la_epoch :: int
  la_work :: string

definition weight_line :: "epoch_result \<Rightarrow> string \<times> pyfloat \<Rightarrow> string" where
  "weight_line r = (\<lambda>(hotkey, weight).
     hotkey @ '' weight='' @ fixed6 weight @ '' epoch_score='' @ fixed6 (dict_get_default (er_epoch_scores r) hotkey (Fin 0)))"

text \<open>\<open>x\<close> holds what the command does not set: the engine, the clock and the files of the panel.\<close>

definition local_epoch_command ::
  "('b, 'r) epoch_input \<Rightarrow> task_source \<Rightarrow> local_args \<Rightarrow> ('b epoch_world, local_error, string list) op" where
  "local_epoch_command x ts a =
     bind_op (lift_op (map_error Local_refused (parse_mode (Some (la_mode a))))) (\<lambda>m.
     bind_op (lift_op (map_error Local_refused
       (from_env (in_host x) (no_args\<lparr>arg_mode := Some (mode_value m), arg_work_dir := Some (la_work a)\<rparr>)))) (\<lambda>cfg.
     bind_op (run_local_epoch
       (x\<lparr>in_config := cfg, in_client := Null_chain, in_epoch := la_epoch a, in_quota := la_quota a\<rparr>) ts (personas (la_miners a))) (\<lambda>r.
     return_op ((''weights_artifact='' @ full_path (in_env x) (weights_path (la_epoch a))) # map (weight_line r) (dict_sorted (er_weights r))))))"

text \<open>It signs nothing, whatever its configuration.\<close>

lemma null_client_calls:
  assumes "in_client x = Null_chain" "run_epoch x hook miners w = (r, w')"
  shows "epoch_calls w' = epoch_calls w"
proof (rule ccontr)
  assume "epoch_calls w' \<noteq> epoch_calls w"
  then have "called_by x (epoch_calls w) (epoch_calls w')" using onceD [OF run_epoch_calls assms(2)] by blast
  with assms(1) \<open>epoch_calls w' \<noteq> _\<close> show False
    by (auto simp: called_by_def apply_weights_def null_apply_weights_def)
qed

lemma evaluation_calls:
  assumes "evaluate_epoch x miners w = (r, w')"
  shows "epoch_calls w' = epoch_calls w"
  using preservesD [OF preserves_evaluate [where J = "\<lambda>c. cw_calls c = epoch_calls w"] assms] by simp

lemma local_epoch_signs_nothing:
  assumes "local_epoch_command x ts a w = (r, w')"
  shows "epoch_calls w' = epoch_calls w"
proof -
  have run: "epoch_calls t = epoch_calls w" if "run_local_epoch (x\<lparr>in_config := cfg, in_client := Null_chain, in_epoch := n, in_quota := q\<rparr>) ts ps w = (s, t)"
    for cfg n q ps s t
  proof -
    let ?x = "x\<lparr>in_config := cfg, in_client := Null_chain, in_epoch := n, in_quota := q\<rparr>"
    show ?thesis
    proof (cases "offline_miners (in_env ?x) ts (in_quota ?x) ps")
      case (Inl e)
      obtain s0 t0 where e: "evaluate_epoch ?x [] w = (s0, t0)" by fastforce
      with that Inl have "t = t0"
        by (cases s0) (auto simp: run_local_epoch_def map_error_op_def catch_op_def op_plumbing)
      with evaluation_calls [OF e] show ?thesis by simp
    next
      case (Inr miners)
      obtain s0 t0 where e: "run_epoch ?x no_hook miners w = (s0, t0)" by fastforce
      with that Inr have "t = t0" by (cases s0) (auto simp: run_local_epoch_def map_error_op_def catch_op_def op_plumbing)
      with null_client_calls [OF _ e] show ?thesis by simp
    qed
  qed
  show ?thesis
    using assms run unfolding local_epoch_command_def
    by (auto simp: op_plumbing split: sum.splits prod.splits)
qed

section \<open>The leaderboard\<close>

definition parsed_lines :: "(string \<Rightarrow> exn + json) \<Rightarrow> string \<Rightarrow> exn + json list" where
  "parsed_lines parse content = map_result parse (filter (\<lambda>l. strip l \<noteq> []) (split_lines content))"

fun rows_where :: "string \<Rightarrow> json \<Rightarrow> json list \<Rightarrow> exn + json list" where
  "rows_where key v [] = Inr []"
| "rows_where key v (row # rows) =
     bind_result (subscript row key) (\<lambda>w.
     bind_result (rows_where key v rows) (\<lambda>rs. Inr (if py_eq w v then row # rs else rs)))"

text \<open>\<open>sorted\<close> of the artifact's weights; a list or text that is not empty raises at the latest where its entry is looked up.\<close>

definition sorted_miners :: "json \<Rightarrow> exn + string list" where
  "sorted_miners v =
     (case v of
        JObj d \<Rightarrow> Inr (sort (dict_keys d))
      | JArr [] \<Rightarrow> Inr []
      | JStr [] \<Rightarrow> Inr []
      | _ \<Rightarrow> Inl (type_error ''weights are not a mapping''))"

definition entry_of :: "'b env \<Rightarrow> json \<Rightarrow> string \<Rightarrow> string \<Rightarrow> exn + pyfloat" where
  "entry_of env artifact table miner =
     bind_result (subscript artifact table) (\<lambda>d.
     (case d of
        JObj e \<Rightarrow> py_float env (jget_or e miner (JFloat (Fin 0)))
      | _ \<Rightarrow> Inl \<lparr>exn_type = ''AttributeError'', exn_text = ''object has no attribute get''\<rparr>))"

text \<open>The reasons of the rows: joining them takes text.\<close>

fun texts_of :: "json list \<Rightarrow> exn + string list" where
  "texts_of [] = Inr []"
| "texts_of (JStr s # vs) = bind_result (texts_of vs) (\<lambda>ts. Inr (s # ts))"
| "texts_of (v # vs) = Inl (type_error ''expected text'')"

record leader_row =
  lr_miner :: string
  lr_submitted :: nat
  lr_accepted :: nat
  lr_rejected :: nat
  lr_score :: pyfloat
  lr_ema :: pyfloat
  lr_weight :: pyfloat
  lr_reasons :: string

definition leader_row_of :: "'b env \<Rightarrow> json \<Rightarrow> json list \<Rightarrow> string \<Rightarrow> exn + leader_row" where
  "leader_row_of env artifact rows miner =
     bind_result (rows_where ''miner_hotkey'' (JStr miner) rows) (\<lambda>own.
     bind_result (map_result (\<lambda>row. subscript row ''status'') own) (\<lambda>statuses.
     let accepted = map (\<lambda>status. py_eq status (JStr ''accepted'')) statuses in
     bind_result (map_result (\<lambda>row. subscript row ''reason'') (map fst (filter (\<lambda>(row, ok). \<not> ok) (zip own accepted)))) (\<lambda>reasons.
     bind_result (texts_of reasons) (\<lambda>texts.
     bind_result (entry_of env artifact ''epoch_scores'' miner) (\<lambda>score.
     bind_result (entry_of env artifact ''ema_state'' miner) (\<lambda>ema.
     bind_result (entry_of env artifact ''weights'' miner) (\<lambda>weight.
     Inr \<lparr>lr_miner = miner, lr_submitted = length own, lr_accepted = length (filter (\<lambda>ok. ok) accepted),
          lr_rejected = length (filter (\<lambda>ok. \<not> ok) accepted), lr_score = score, lr_ema = ema, lr_weight = weight,
          lr_reasons = or_else_text (join ''; '' (sort (remdups texts))) ''-''\<rparr>)))))))"

definition leader_line :: "leader_row \<Rightarrow> string" where
  "leader_line r =
     ''| '' @ lr_miner r @ '' | '' @ show_nat (lr_submitted r) @ '' | '' @ show_nat (lr_accepted r) @ '' | '' @ show_nat (lr_rejected r)
     @ '' | '' @ fixed6 (lr_score r) @ '' | '' @ fixed6 (lr_ema r) @ '' | '' @ fixed6 (lr_weight r) @ '' | '' @ lr_reasons r @ '' |''"

definition leaderboard :: "'b env \<Rightarrow> json \<Rightarrow> json list \<Rightarrow> int \<Rightarrow> exn + leader_row list" where
  "leaderboard env artifact all_rows n =
     bind_result (rows_where ''epoch_id'' (JInt n) all_rows) (\<lambda>rows.
     bind_result (subscript artifact ''weights'') (\<lambda>weights.
     bind_result (sorted_miners weights) (map_result (leader_row_of env artifact rows))))"

definition back_quoted :: "string \<Rightarrow> string" where
  "back_quoted s = CHR 0x60 # s @ [CHR 0x60]"

definition unlines :: "string list \<Rightarrow> string" where
  "unlines ls = join [CHR 0x0A] ls @ [CHR 0x0A]"

definition render_report :: "'b env \<Rightarrow> (string \<Rightarrow> exn + json) \<Rightarrow> 'b disk \<Rightarrow> string \<Rightarrow> int \<Rightarrow> exn + string" where
  "render_report env parse fs submissions n =
     bind_result (read_json env fs (weights_path n)) (\<lambda>artifact.
     bind_result (parsed_lines parse submissions) (\<lambda>all_rows.
     bind_result (leaderboard env artifact all_rows n) (\<lambda>leaders.
     bind_result (subscript artifact ''degraded'') (\<lambda>degraded.
     bind_result (subscript artifact ''weight_result'') (\<lambda>result.
     bind_result (subscript result ''mode'') (\<lambda>m.
     Inr (unlines
       ([''# Epoch '' @ show_int n @ '' Leaderboard'', [],
         ''| miner | submitted | accepted | rejected/invalid | epoch_score | ema | weight | reasons |'',
         ''|---|---:|---:|---:|---:|---:|---:|---|'']
        @ map leader_line leaders
        @ [[], ''degraded: '' @ back_quoted (text_of_json env degraded), ''weight_result: '' @ back_quoted (text_of_json env m)]))))))))"

definition report_path :: "int \<Rightarrow> string" where
  "report_path n = epoch_dir n @ ''/report_epoch_'' @ show_int n @ ''.md''"

text \<open>
  The log as text for the report and as rows for the replay; \<open>of_text\<close> is the encoding of text.  Loading the
  configuration is the first step, and nothing but the report is written.
\<close>

definition report_command ::
  "'b env \<Rightarrow> host \<Rightarrow> (string \<Rightarrow> exn + json) \<Rightarrow> (string \<Rightarrow> 'b) \<Rightarrow> string \<Rightarrow> jsonl_error + jdict list
     \<Rightarrow> string \<Rightarrow> int \<Rightarrow> int option \<Rightarrow> ('b disk, config_error + exn, string) op" where
  "report_command env h parse of_text submissions entries work n replay_check =
     bind_op (lift_op (map_error Inl (from_env h (no_args\<lparr>arg_mode := Some ''offline'', arg_work_dir := Some work\<rparr>)))) (\<lambda>cfg.
     bind_op get_op (\<lambda>fs.
     (case replay_check of
        Some k \<Rightarrow> bind_op (lift_op (map_error Inr (assert_replay_matches env fs entries k))) (\<lambda>_. return_op ''REPLAY OK'')
      | None \<Rightarrow>
          bind_op (lift_op (map_error Inr (render_report env parse fs submissions n))) (\<lambda>report.
          bind_op (modify_op (\<lambda>fs. fs(report_path n \<mapsto> of_text report))) (\<lambda>_. return_op report)))))"

subsection \<open>Its figures\<close>

definition row_of :: "string \<Rightarrow> json \<Rightarrow> json \<Rightarrow> bool" where
  "row_of key v row = (case subscript row key of Inl e \<Rightarrow> False | Inr w \<Rightarrow> py_eq w v)"

lemma rows_where_filter: "rows_where key v rows = Inr rs \<Longrightarrow> rs = filter (row_of key v) rows"
  by (induction rows arbitrary: rs) (auto simp: row_of_def)

lemma row_of_one: "row_of key (JStr a) row \<Longrightarrow> row_of key (JStr b) row \<Longrightarrow> a = b"
  by (auto simp: row_of_def split: sum.splits)

lemma at_most_one: "distinct xs \<Longrightarrow> (\<And>a b. P a \<Longrightarrow> P b \<Longrightarrow> a = b) \<Longrightarrow> length (filter P xs) \<le> 1"
proof (induction xs)
  case (Cons x xs)
  then have "filter P xs = []" if "P x" using that by (auto simp: filter_empty_conv)
  with Cons show ?case by auto
qed simp

lemma disjoint_counts:
  assumes "distinct ms" "\<And>a b r. P a r \<Longrightarrow> P b r \<Longrightarrow> a = b"
  shows "sum_list (map (\<lambda>m. length (filter (P m) rs)) ms) \<le> length rs"
proof (induction rs)
  case (Cons r rs)
  have "sum_list (map (\<lambda>m. length (filter (P m) (r # rs))) ms)
      = sum_list (map (\<lambda>m. length (filter (P m) rs)) ms) + length (filter (\<lambda>m. P m r) ms)"
    by (induction ms) auto
  with Cons at_most_one [OF assms(1), of "\<lambda>m. P m r"] assms(2) show ?case by fastforce
qed simp

lemma leader_row_counts:
  assumes "leader_row_of env artifact rows miner = Inr r"
  shows "lr_miner r = miner" "lr_submitted r = lr_accepted r + lr_rejected r"
    and "lr_submitted r = length (filter (row_of ''miner_hotkey'' (JStr miner)) rows)"
  using assms sum_length_filter_compl [of "\<lambda>s. s = JStr ''accepted''"]
  by (auto simp: leader_row_of_def Let_def comp_def dest!: map_result_Inr_length dest: rows_where_filter)

lemma map_result_all: "map_result f xs = Inr ys \<Longrightarrow> list_all2 (\<lambda>x y. f x = Inr y) xs ys"
  by (induction xs arbitrary: ys) auto

lemma leader_rows_counts:
  "list_all2 (\<lambda>m r. leader_row_of env artifact rows m = Inr r) ms leaders \<Longrightarrow>
     map lr_miner leaders = ms \<and> list_all (\<lambda>r. lr_submitted r = lr_accepted r + lr_rejected r) leaders
     \<and> map lr_submitted leaders = map (\<lambda>m. length (filter (row_of ''miner_hotkey'' (JStr m)) rows)) ms"
proof (induction rule: list_all2_induct)
  case (Cons m ms r rs)
  with leader_row_counts [OF Cons.hyps(1)] show ?case by simp
qed simp

text \<open>
  Every miner with a weight has one line, in the order of hotkeys; a line's submissions are its accepted and rejected
  ones, and no row of the epoch is counted on two lines.
\<close>

lemma leaderboard_counts:
  assumes "leaderboard env artifact all_rows n = Inr leaders" "subscript artifact ''weights'' = Inr (JObj d)" "distinct (dict_keys d)"
  shows "map lr_miner leaders = sort (dict_keys d)"
    and "list_all (\<lambda>r. lr_submitted r = lr_accepted r + lr_rejected r) leaders"
    and "sum_list (map lr_submitted leaders) \<le> length (filter (row_of ''epoch_id'' (JInt n)) all_rows)"
proof -
  let ?rows = "filter (row_of ''epoch_id'' (JInt n)) all_rows"
  have "map_result (leader_row_of env artifact ?rows) (sort (dict_keys d)) = Inr leaders"
    using assms(1,2) rows_where_filter [of "''epoch_id''" "JInt n" all_rows] by (auto simp: leaderboard_def sorted_miners_def)
  then have rows: "list_all2 (\<lambda>m r. leader_row_of env artifact ?rows m = Inr r) (sort (dict_keys d)) leaders" by (rule map_result_all)
  note shape = leader_rows_counts [OF rows]
  show "map lr_miner leaders = sort (dict_keys d)" "list_all (\<lambda>r. lr_submitted r = lr_accepted r + lr_rejected r) leaders"
    using shape by simp_all
  show "sum_list (map lr_submitted leaders) \<le> length ?rows"
    using shape disjoint_counts [of "sort (dict_keys d)" "\<lambda>m. row_of ''miner_hotkey'' (JStr m)" ?rows] assms(3)
    by (simp add: row_of_one)
qed

section \<open>The status of the testnet\<close>

text \<open>
  The calls that leave the process, in order.  Their answers may differ from call to call, so they depend on how many
  were made before; a read that hangs is an exception after its deadline.  \<open>sn_text\<close> is \<open>str\<close> of what is not text.
\<close>

datatype status_call = Btcli "string list" | Sdk_metagraph string int | Sdk_weights string int

record lite_metagraph =
  lm_uids :: "int list"
  lm_axons :: "(string \<times> int) list"
  lm_active :: "bool list option"
  lm_last_update :: "int list option"
  lm_permit :: "bool list option"

record status_host =
  sn_btcli :: "nat \<Rightarrow> string list \<Rightarrow> exn + completed_process"
  sn_metagraph :: "nat \<Rightarrow> string \<Rightarrow> int \<Rightarrow> exn + lite_metagraph \<times> int"
  sn_weights :: "nat \<Rightarrow> string \<Rightarrow> int \<Rightarrow> exn + (int \<times> (int \<times> int) list) list"
  sn_now :: "nat \<Rightarrow> string"
  sn_loads :: "string \<Rightarrow> exn + json"
  sn_dumps :: "json \<Rightarrow> string"
  sn_line :: "json \<Rightarrow> string"
  sn_text :: "json \<Rightarrow> string"

record status_world =
  sw_calls :: "status_call list"
  sw_files :: "string \<Rightarrow> string option"
  sw_slept :: "int list"

datatype status_error = Status_network config_error | Status_target endpoint_error | Status_raised exn

type_synonym 'a status_op = "(status_world, status_error, 'a) op"

definition ask :: "status_call \<Rightarrow> (nat \<Rightarrow> 'a) \<Rightarrow> 'a status_op" where
  "ask c answer =
     bind_op get_op (\<lambda>w.
     bind_op (modify_op (\<lambda>w. w\<lparr>sw_calls := sw_calls w @ [c]\<rparr>)) (\<lambda>_. return_op (answer (length (sw_calls w)))))"

definition raised :: "exn + 'a \<Rightarrow> 'a status_op" where
  "raised r = lift_op (map_error Status_raised r)"

definition btcli_path :: string where
  "btcli_path = ''.venv/bin/btcli''"

definition btcli_argv :: "string list \<Rightarrow> bool \<Rightarrow> string list" where
  "btcli_argv args no_prompt = btcli_path # args @ (if no_prompt then [''--no-prompt''] else []) @ [''--json-output'']"

definition btcli_json :: "status_host \<Rightarrow> string list \<Rightarrow> bool \<Rightarrow> json status_op" where
  "btcli_json sn args no_prompt =
     (let argv = btcli_argv args no_prompt in
      bind_op (ask (Btcli argv) (\<lambda>k. sn_btcli sn k argv)) (\<lambda>answer.
      bind_op (raised answer) (\<lambda>c.
      bind_op (raised (require (cp_status c = 0)
        \<lparr>exn_type = ''RuntimeError'', exn_text = ''btcli '' @ join '' '' args @ '' failed: '' @ take 300 (strip (cp_err c))\<rparr>)) (\<lambda>_.
      raised (sn_loads sn (cp_out c))))))"

definition list_item :: "'a list \<Rightarrow> nat \<Rightarrow> exn + 'a" where
  "list_item xs i = (if i < length xs then Inr (xs ! i) else Inl \<lparr>exn_type = ''IndexError'', exn_text = ''list index out of range''\<rparr>)"

definition optional_index :: "('a \<Rightarrow> json) \<Rightarrow> 'a list option \<Rightarrow> nat \<Rightarrow> exn + json" where
  "optional_index f xs i = (case xs of None \<Rightarrow> Inr JNull | Some ys \<Rightarrow> bind_result (list_item ys i) (\<lambda>y. Inr (f y)))"

definition axon_text :: "(string \<times> int) list \<Rightarrow> nat \<Rightarrow> string" where
  "axon_text axons i =
     (case (if i < length axons then axons ! i else ([], 0)) of
        (ip, port) \<Rightarrow> if 0 < port \<and> ip \<notin> set [[], ''0.0.0.0''] then ip @ '':'' @ show_int port else ''none'')"

definition extra_of :: "lite_metagraph \<Rightarrow> nat \<Rightarrow> exn + jdict" where
  "extra_of mg i =
     bind_result (optional_index JBool (lm_active mg) i) (\<lambda>active.
     bind_result (optional_index JInt (lm_last_update mg) i) (\<lambda>updated.
     bind_result (optional_index JBool (lm_permit mg) i) (\<lambda>permit.
     Inr [(''axon'', JStr (axon_text (lm_axons mg) i)), (''active'', active), (''updated'', updated), (''permit'', permit)])))"

fun extras_from :: "lite_metagraph \<Rightarrow> (nat \<times> int) list \<Rightarrow> (json, jdict) dict \<Rightarrow> exn + (json, jdict) dict" where
  "extras_from mg [] d = Inr d"
| "extras_from mg ((i, uid) # us) d = bind_result (extra_of mg i) (\<lambda>e. extras_from mg us (dict_set d (JInt uid) e))"

definition metagraph_extras :: "status_host \<Rightarrow> string \<Rightarrow> int \<Rightarrow> (json, jdict) dict option status_op" where
  "metagraph_extras sn net uid =
     bind_op (ask (Sdk_metagraph net uid) (\<lambda>k. sn_metagraph sn k net uid)) (\<lambda>answer.
     (case answer of
        Inl e \<Rightarrow> return_op None
      | Inr (mg, block) \<Rightarrow>
          bind_op (raised (extras_from mg (zip [0..<length (lm_uids mg)] (lm_uids mg)) [(JStr ''_block'', [(''block'', JInt block)])]))
            (\<lambda>d. return_op (Some d))))"

definition weights_row :: "status_host \<Rightarrow> string \<Rightarrow> int \<Rightarrow> int \<Rightarrow> json status_op" where
  "weights_row sn net uid validator =
     bind_op (ask (Sdk_weights net uid) (\<lambda>k. sn_weights sn k net uid)) (\<lambda>answer.
     return_op (case answer of
        Inl e \<Rightarrow> JStr (''unavailable ('' @ exn_type e @ '')'')
      | Inr rows \<Rightarrow>
          (case find (\<lambda>r. fst r = validator) rows of
             None \<Rightarrow> JArr []
           | Some r \<Rightarrow> JArr (map (\<lambda>(target, weight). JArr [JInt target, JInt weight]) (snd r)))))"

text \<open>\<open>v.get(k, default)\<close>.\<close>

definition get_field :: "json \<Rightarrow> string \<Rightarrow> json \<Rightarrow> exn + json" where
  "get_field v k missing =
     (case v of
        JObj d \<Rightarrow> Inr (jget_or d k missing)
      | _ \<Rightarrow> Inl \<lparr>exn_type = ''AttributeError'', exn_text = ''object has no attribute get''\<rparr>)"

text \<open>The dictionary has text and integers as keys, so no key equals a float or a Boolean but the integer it stands for.\<close>

definition extra_lookup :: "(json, jdict) dict option \<Rightarrow> json \<Rightarrow> exn + jdict" where
  "extra_lookup extras uid =
     (if \<not> hashable uid then Inl (type_error ''unhashable type'')
      else Inr (case find (\<lambda>e. py_eq (fst e) uid) (case extras of None \<Rightarrow> [] | Some d \<Rightarrow> d) of None \<Rightarrow> [] | Some e \<Rightarrow> snd e))"

definition unavailable :: json where
  "unavailable = JStr ''unavailable''"

definition shown_text :: "status_host \<Rightarrow> json \<Rightarrow> string" where
  "shown_text sn v = (case v of JStr s \<Rightarrow> s | _ \<Rightarrow> sn_text sn v)"

definition neuron_row :: "status_host \<Rightarrow> (json, jdict) dict option \<Rightarrow> json \<Rightarrow> exn + jdict" where
  "neuron_row sn extras neuron =
     bind_result (get_field neuron ''uid'' JNull) (\<lambda>uid.
     bind_result (extra_lookup extras uid) (\<lambda>extra.
     bind_result (get_field neuron ''hotkey'' (JStr [])) (\<lambda>hotkey.
     bind_result (get_field neuron ''stake'' JNull) (\<lambda>stake.
     bind_result (get_field neuron ''alpha_stake'' stake) (\<lambda>stake.
     bind_result (get_field neuron ''incentive'' JNull) (\<lambda>incentive.
     bind_result (get_field neuron ''dividends'' JNull) (\<lambda>dividends.
     bind_result (get_field neuron ''emission'' JNull) (\<lambda>emission.
     bind_result (get_field neuron ''emissions'' emission) (\<lambda>emission.
     Inr [(''uid'', uid), (''hotkey'', JStr (take 16 (shown_text sn hotkey))), (''stake'', stake),
          (''permit'', jget_or extra ''permit'' unavailable), (''active'', jget_or extra ''active'' unavailable),
          (''axon'', jget_or extra ''axon'' unavailable), (''updated'', jget_or extra ''updated'' unavailable),
          (''incentive'', incentive), (''dividends'', dividends), (''emission'', emission)])))))))))"

definition neuron_rows :: "status_host \<Rightarrow> json \<Rightarrow> (json, jdict) dict option \<Rightarrow> exn + jdict list" where
  "neuron_rows sn shown extras =
     bind_result (get_field shown ''uids'' (JArr [])) (\<lambda>uids.
     bind_result (py_list (or_else uids (JArr []))) (map_result (neuron_row sn extras)))"

text \<open>\<open>{h.get("hyperparameter"): h.get("value") for h in hyper}\<close>, or the answer itself when it is not a list.\<close>

fun hyper_pairs :: "json list \<Rightarrow> exn + (json \<times> json) list" where
  "hyper_pairs [] = Inr []"
| "hyper_pairs (h # hs) =
     bind_result (get_field h ''hyperparameter'' JNull) (\<lambda>k.
     bind_result (get_field h ''value'' JNull) (\<lambda>v.
     bind_result (require (hashable k) (type_error ''unhashable type'')) (\<lambda>_.
     bind_result (hyper_pairs hs) (\<lambda>ps. Inr ((k, v) # ps)))))"

datatype hyper_map = Hyper_pairs "(json \<times> json) list" | Hyper_answer json

definition hyper_map_of :: "json \<Rightarrow> exn + hyper_map" where
  "hyper_map_of hyper =
     (case hyper of JArr hs \<Rightarrow> bind_result (hyper_pairs hs) (\<lambda>ps. Inr (Hyper_pairs ps)) | _ \<Rightarrow> Inr (Hyper_answer hyper))"

text \<open>The last pair with a key is the one that counts.\<close>

fun hyper_get :: "hyper_map \<Rightarrow> string \<Rightarrow> exn + json" where
  "hyper_get (Hyper_pairs ps) k = Inr (case map_of (rev ps) (JStr k) of None \<Rightarrow> JNull | Some v \<Rightarrow> v)"
| "hyper_get (Hyper_answer v) k = get_field v k JNull"

definition shown_hyperparameters :: "string list" where
  "shown_hyperparameters = [''tempo'', ''weights_rate_limit'', ''serving_rate_limit'', ''commit_reveal_weights_enabled'']"

definition block_of :: "(json, jdict) dict option \<Rightarrow> json" where
  "block_of extras = (case extras of None \<Rightarrow> unavailable
     | Some d \<Rightarrow> (case dict_get d (JStr ''_block'') of None \<Rightarrow> unavailable | Some e \<Rightarrow> jget_or e ''block'' unavailable))"

definition show_args :: "string \<Rightarrow> int \<Rightarrow> string list" where
  "show_args net uid = [''subnets'', ''show'', ''--netuid'', show_int uid, ''--network'', net]"

definition hyper_args :: "string \<Rightarrow> int \<Rightarrow> string list" where
  "hyper_args net uid = [''subnets'', ''hyperparameters'', ''--netuid'', show_int uid, ''--network'', net]"

definition weights_key :: "int \<Rightarrow> int \<Rightarrow> string" where
  "weights_key uid validator = ''Weights['' @ show_int uid @ '','' @ show_int validator @ '']''"

definition subnet_fields :: "status_host \<Rightarrow> json \<Rightarrow> exn + jdict" where
  "subnet_fields sn shown =
     bind_result (get_field shown ''name'' (JStr [])) (\<lambda>name.
     bind_result (get_field shown ''emission'' JNull) (\<lambda>emission.
     bind_result (get_field shown ''rate'' JNull) (\<lambda>rate.
     bind_result (get_field shown ''tao_pool'' JNull) (\<lambda>tao.
     bind_result (get_field shown ''alpha_pool'' JNull) (\<lambda>alpha.
     Inr [(''name'', JStr (strip (shown_text sn name))), (''tao_emission'', emission), (''rate'', rate), (''tao_pool'', tao),
          (''alpha_pool'', alpha)])))))"

text \<open>What is read, with the rows of neurons beside the document they are part of.\<close>

record snapshot =
  ss_read_at :: string
  ss_block :: json
  ss_subnet :: jdict
  ss_neurons :: "jdict list"
  ss_hyper :: jdict
  ss_weights_row :: json
  ss_shown :: json

definition take_snapshot :: "status_host \<Rightarrow> string \<Rightarrow> int \<Rightarrow> int \<Rightarrow> snapshot status_op" where
  "take_snapshot sn net uid validator =
     bind_op (btcli_json sn (show_args net uid) True) (\<lambda>shown.
     bind_op (btcli_json sn (hyper_args net uid) False) (\<lambda>hyper.
     bind_op (raised (hyper_map_of hyper)) (\<lambda>hypers.
     bind_op (metagraph_extras sn net uid) (\<lambda>extras.
     bind_op get_op (\<lambda>w.
     bind_op (raised (subnet_fields sn shown)) (\<lambda>subnet.
     bind_op (raised (neuron_rows sn shown extras)) (\<lambda>neurons.
     bind_op (raised (map_result (\<lambda>k. bind_result (hyper_get hypers k) (\<lambda>v. Inr (k, v))) shown_hyperparameters)) (\<lambda>hyper_fields.
     bind_op (weights_row sn net uid validator) (\<lambda>row.
     return_op \<lparr>ss_read_at = sn_now sn (length (sw_calls w)), ss_block = block_of extras, ss_subnet = subnet, ss_neurons = neurons,
       ss_hyper = hyper_fields, ss_weights_row = row, ss_shown = shown\<rparr>)))))))))"

definition snapshot_json :: "string \<Rightarrow> int \<Rightarrow> int \<Rightarrow> snapshot \<Rightarrow> json" where
  "snapshot_json net uid validator s =
     JObj [(''read_at_utc'', JStr (ss_read_at s)), (''network'', JStr net), (''netuid'', JInt uid), (''block'', ss_block s),
       (''subnet'', JObj (ss_subnet s)), (''neurons'', JArr (map JObj (ss_neurons s))), (''hyperparameters'', JObj (ss_hyper s)),
       (''weights_row'', JObj [(weights_key uid validator, ss_weights_row s)]), (''raw_show'', ss_shown s)]"

text \<open>Characters beyond ASCII, in UTF-8: an em dash, a middle dot, tau, alpha and an ellipsis.\<close>

definition em_dash :: string where
  "em_dash = [CHR 0xE2, CHR 0x80, CHR 0x94]"

definition middle_dot :: string where
  "middle_dot = [CHR 0xC2, CHR 0xB7]"

definition tau_sign :: string where
  "tau_sign = [CHR 0xCF, CHR 0x84]"

definition alpha_sign :: string where
  "alpha_sign = [CHR 0xCE, CHR 0xB1]"

definition ellipsis :: string where
  "ellipsis = [CHR 0xE2, CHR 0x80, CHR 0xA6]"

definition neuron_line :: "status_host \<Rightarrow> jdict \<Rightarrow> string" where
  "neuron_line sn row =
     ''| '' @ shown_text sn (jget row ''uid'') @ '' | '' @ shown_text sn (jget row ''hotkey'') @ ellipsis
     @ concat (map (\<lambda>k. '' | '' @ shown_text sn (jget row k))
         [''stake'', ''permit'', ''active'', ''axon'', ''updated'', ''incentive'', ''dividends'', ''emission'']) @ '' |''"

definition render_markdown :: "status_host \<Rightarrow> string \<Rightarrow> int \<Rightarrow> int \<Rightarrow> snapshot \<Rightarrow> string" where
  "render_markdown sn net uid validator s =
     (let field = (\<lambda>k. shown_text sn (jget (ss_subnet s) k)) in
      unlines
        ([''# Testnet status '' @ em_dash @ '' netuid '' @ show_int uid @ '' @ block '' @ shown_text sn (ss_block s),
          ''Read '' @ ss_read_at s @ '' on network '' @ back_quoted net @ '' (read-only).'',
          ''Subnet TAO emission: '' @ field ''tao_emission'' @ '' '' @ middle_dot @ '' alpha rate: '' @ field ''rate'' @ '' '' @ tau_sign
            @ '' '' @ middle_dot @ '' pools: '' @ field ''tao_pool'' @ '' '' @ tau_sign @ '' / '' @ field ''alpha_pool'' @ '' '' @ alpha_sign,
          [],
          ''| uid | hotkey | stake '' @ alpha_sign @ '' | permit | active | axon | updated | incentive | dividends | emission |'',
          ''|---|---|---|---|---|---|---|---|---|---|'']
         @ map (neuron_line sn) (ss_neurons s)
         @ [[], ''Raw '' @ back_quoted (weights_key uid validator) @ '' = '' @ back_quoted (shown_text sn (ss_weights_row s)), [],
            ''Hyperparameters: '' @ back_quoted (shown_text sn (JObj (ss_hyper s)))]))"

section \<open>The status command\<close>

record status_args =
  sa_netuid :: int
  sa_network :: string
  sa_validator :: int
  sa_out :: string
  sa_watch :: "int option"

definition write_status :: "string \<Rightarrow> string \<Rightarrow> unit status_op" where
  "write_status p content = modify_op (\<lambda>w. w\<lparr>sw_files := (sw_files w)(p \<mapsto> content)\<rparr>)"

definition append_status :: "string \<Rightarrow> string \<Rightarrow> unit status_op" where
  "append_status p line =
     modify_op (\<lambda>w. w\<lparr>sw_files := (sw_files w)(p \<mapsto> (case sw_files w p of None \<Rightarrow> [] | Some t \<Rightarrow> t) @ line)\<rparr>)"

definition status_file :: "status_host \<Rightarrow> status_args \<Rightarrow> snapshot \<Rightarrow> string \<Rightarrow> string" where
  "status_file sn a s ending = sa_out a @ ''/status_'' @ shown_text sn (or_else (ss_block s) (JStr ''unknown'')) @ ending"

definition status_round :: "status_host \<Rightarrow> status_args \<Rightarrow> string \<Rightarrow> snapshot status_op" where
  "status_round sn a net =
     bind_op (take_snapshot sn net (sa_netuid a) (sa_validator a)) (\<lambda>s.
     bind_op (write_status (status_file sn a s ''.json'')
       (sn_dumps sn (snapshot_json net (sa_netuid a) (sa_validator a) s) @ [CHR 0x0A])) (\<lambda>_.
     bind_op (write_status (status_file sn a s ''.md'') (render_markdown sn net (sa_netuid a) (sa_validator a) s)) (\<lambda>_.
     return_op s)))"

definition watch_line :: "status_host \<Rightarrow> snapshot \<Rightarrow> string" where
  "watch_line sn s =
     (let column = (\<lambda>k. JArr (map (\<lambda>row. jget row k) (ss_neurons s))) in
      sn_line sn (JObj [(''read_at_utc'', JStr (ss_read_at s)), (''block'', ss_block s), (''axons'', column ''axon''),
        (''active'', column ''active''), (''incentive'', column ''incentive''), (''emission'', column ''emission'')]) @ [CHR 0x0A])"

text \<open>Watching never ends by itself: \<open>None\<close> is a watch still running after the given number of rounds.\<close>

fun status_rounds :: "nat \<Rightarrow> status_host \<Rightarrow> status_args \<Rightarrow> string \<Rightarrow> int option status_op" where
  "status_rounds 0 sn a net = return_op None"
| "status_rounds (Suc n) sn a net =
     bind_op (status_round sn a net) (\<lambda>s.
     (case sa_watch a of
        None \<Rightarrow> return_op (Some 0)
      | Some minutes \<Rightarrow>
          bind_op (append_status (sa_out a @ ''/watch.jsonl'') (watch_line sn s)) (\<lambda>_.
          bind_op (modify_op (\<lambda>w. w\<lparr>sw_slept := sw_slept w @ [minutes * 60]\<rparr>)) (\<lambda>_.
          status_rounds n sn a net))))"

definition status_command :: "nat \<Rightarrow> status_host \<Rightarrow> status_args \<Rightarrow> int option status_op" where
  "status_command n sn a =
     bind_op (lift_op (map_error Status_network (assert_safe_network (Some (sa_network a))))) (\<lambda>net.
     bind_op (lift_op (map_error Status_target (require_cohort_target net (sa_netuid a)))) (\<lambda>_.
     status_rounds n sn a net))"

subsection \<open>What it may do\<close>

definition read_only :: "status_call \<Rightarrow> bool" where
  "read_only c \<longleftrightarrow> c \<in> set [Btcli (btcli_argv (show_args ''test'' 523) True), Btcli (btcli_argv (hyper_args ''test'' 523) False),
     Sdk_metagraph ''test'' 523, Sdk_weights ''test'' 523]"

text \<open>From a world on, only such calls, and only files in the directory given.\<close>

definition only_reads :: "string \<Rightarrow> status_world \<Rightarrow> status_world \<Rightarrow> bool" where
  "only_reads out w0 w \<longleftrightarrow>
     (\<exists>calls. sw_calls w = sw_calls w0 @ calls \<and> list_all read_only calls)
     \<and> (\<forall>p. sw_files w p \<noteq> sw_files w0 p \<longrightarrow> starts_with p (out @ ''/''))"

lemma only_reads_refl: "only_reads out w w"
  by (auto simp: only_reads_def)

lemma preserves_ask [preserved]: "read_only c \<Longrightarrow> preserves (only_reads out w0) (ask c answer)"
  by (rule preservesI) (auto simp: ask_def only_reads_def)

lemma preserves_raised [preserved]: "preserves I (raised r)"
  by (simp add: raised_def preserved)

lemma preserves_case_sum [preserved]:
  "(\<And>e. preserves I (f e)) \<Longrightarrow> (\<And>b. preserves I (g b)) \<Longrightarrow> preserves I (case z of Inl e \<Rightarrow> f e | Inr b \<Rightarrow> g b)"
  by (cases z) simp_all

lemma reads_snapshot [preserved]: "preserves (only_reads out w0) (take_snapshot sn ''test'' 523 validator)"
  unfolding take_snapshot_def btcli_json_def metagraph_extras_def weights_row_def Let_def
  by (intro preserved) (simp_all add: read_only_def)

lemma starts_with_itself [simp]: "starts_with (p @ q) p"
  by (simp add: starts_with_def)

lemma reads_write [preserved]:
  "starts_with p (out @ ''/'') \<Longrightarrow> preserves (only_reads out w0) (write_status p c)"
  "starts_with p (out @ ''/'') \<Longrightarrow> preserves (only_reads out w0) (append_status p c)"
  unfolding write_status_def append_status_def by (rule preserves_modify; auto simp: only_reads_def)+

lemma under_out: "starts_with (out @ CHR ''/'' # q) (out @ ''/'')"
  by (simp add: starts_with_def)

lemma reads_rounds:
  "sa_netuid a = 523 \<Longrightarrow> preserves (only_reads (sa_out a) w0) (status_rounds n sn a ''test'')"
proof (induction n)
  case (Suc n)
  have "preserves (only_reads (sa_out a) w0) (modify_op (\<lambda>w. w\<lparr>sw_slept := f w\<rparr>))" for f
    by (rule preserves_modify) (auto simp: only_reads_def)
  with Suc show ?case
    by (auto simp: status_round_def status_file_def under_out intro!: preserved split: option.split)
qed (simp add: preserved)

text \<open>C30: the status command only reads: whatever the answers, and however long it watches, every call is one of four fixed reads of
  the public test cohort, no file outside its directory changes, and for any other target there is no call at all.  Without
  a watch one round is enough.\<close>

theorem status_is_read_only:
  "case status_command n sn a w of (r, w') \<Rightarrow>
     only_reads (sa_out a) w w'
     \<and> (sw_calls w' \<noteq> sw_calls w \<longrightarrow> assert_safe_network (Some (sa_network a)) = Inr cohort_network \<and> sa_netuid a = cohort_netuid)
     \<and> (sa_watch a = None \<and> 0 < n \<and> is_ok r \<longrightarrow> r = Inr (Some 0))"
proof -
  obtain r w' where run: "status_command n sn a w = (r, w')" by fastforce
  show ?thesis
  proof (cases "assert_safe_network (Some (sa_network a)) = Inr ''test'' \<and> sa_netuid a = 523")
    case True
    then have rounds: "status_rounds n sn a ''test'' w = (r, w')"
      using run by (simp add: status_command_def require_cohort_target_def cohort_network_def cohort_netuid_def require_def op_plumbing)
    have "only_reads (sa_out a) w w'"
      using preservesD [OF reads_rounds rounds only_reads_refl] True by simp
    moreover have "r = Inr (Some 0)" if "sa_watch a = None" "0 < n" "is_ok r"
      using that rounds by (cases n) (auto simp: op_plumbing is_ok_iff split: prod.splits sum.splits)
    ultimately show ?thesis using True run by (simp add: cohort_network_def cohort_netuid_def)
  next
    case False
    then have "w' = w \<and> \<not> is_ok r"
      using run by (auto simp: status_command_def require_cohort_target_def cohort_network_def cohort_netuid_def require_def op_plumbing
        split: sum.splits if_splits)
    then show ?thesis using run by (auto simp: only_reads_refl)
  qed
qed

definition sample_show :: json where
  "sample_show = JObj [(''name'', JStr '' dolores ''), (''uids'', JArr [JObj [(''uid'', JInt 1), (''hotkey'', JStr ''hk'')]])]"

definition sample_hyper :: json where
  "sample_hyper = JArr [JObj [(''hyperparameter'', JStr ''tempo''), (''value'', JInt 360)]]"

definition sample_status_host :: status_host where
  "sample_status_host =
     \<lparr>sn_btcli = (\<lambda>k argv. Inr \<lparr>cp_status = 0, cp_out = argv ! 2, cp_err = []\<rparr>),
      sn_metagraph = (\<lambda>k net uid. Inr (\<lparr>lm_uids = [0, 1], lm_axons = [([], 0), (''11.1.1.1'', 8091)], lm_active = Some [True, False],
        lm_last_update = None, lm_permit = Some [True, False]\<rparr>, 77)),
      sn_weights = (\<lambda>k net uid. Inr [(0, [(1, 65535)])]), sn_now = (\<lambda>k. ''now''),
      sn_loads = (\<lambda>t. Inr (if t = ''show'' then sample_show else sample_hyper)),
      sn_dumps = (\<lambda>v. ''doc''), sn_line = (\<lambda>v. ''line''), sn_text = (\<lambda>v. case v of JInt i \<Rightarrow> show_int i | _ \<Rightarrow> ''?'')\<rparr>"

definition sample_status_args :: status_args where
  "sample_status_args = \<lparr>sa_netuid = 523, sa_network = ''test'', sa_validator = 0, sa_out = ''out'', sa_watch = None\<rparr>"

definition sample_status_world :: status_world where
  "sample_status_world = \<lparr>sw_calls = [], sw_files = Map.empty, sw_slept = []\<rparr>"

lemma sample_status_parts:
  "is_ok (hyper_map_of sample_hyper)" "is_ok (subnet_fields sample_status_host sample_show)"
  "\<forall>b. is_ok (neuron_rows sample_status_host sample_show b)"
  "case hyper_map_of sample_hyper of Inl e \<Rightarrow> False
     | Inr h \<Rightarrow> is_ok (map_result (\<lambda>k. bind_result (hyper_get h k) (\<lambda>v. Inr (k, v))) shown_hyperparameters)"
  "is_ok (extras_from \<lparr>lm_uids = [0, 1], lm_axons = [([], 0), (''11.1.1.1'', 8091)], lm_active = Some [True, False],
     lm_last_update = None, lm_permit = Some [True, False]\<rparr> (zip [0..<2] [0, 1]) [(JStr ''_block'', [(''block'', JInt 77)])])"
  by (simp_all add: hyper_map_of_def sample_hyper_def get_field_def require_def jget_or_def dict_get_default_def subnet_fields_def
      sample_show_def neuron_rows_def or_else_def py_list_def neuron_row_def extra_lookup_def shown_hyperparameters_def
      extra_of_def optional_index_def list_item_def upt_rec)

lemma sample_btcli:
  "btcli_json sample_status_host (show_args net uid) b w = (Inr sample_show, w\<lparr>sw_calls := sw_calls w @ [Btcli (btcli_argv (show_args net uid) b)]\<rparr>)"
  "btcli_json sample_status_host (hyper_args net uid) b w = (Inr sample_hyper, w\<lparr>sw_calls := sw_calls w @ [Btcli (btcli_argv (hyper_args net uid) b)]\<rparr>)"
  by (simp_all add: btcli_json_def ask_def op_plumbing raised_def sample_status_host_def require_def show_args_def hyper_args_def btcli_argv_def Let_def)

lemma sample_status_reads: "is_ok (fst (take_snapshot sample_status_host ''test'' 523 0 w))"
proof -
  obtain h where h: "hyper_map_of sample_hyper = Inr h"
      "is_ok (map_result (\<lambda>k. bind_result (hyper_get h k) (\<lambda>v. Inr (k, v))) shown_hyperparameters)"
    using sample_status_parts(1,4) by (auto simp: is_ok_iff)
  obtain f where f: "subnet_fields sample_status_host sample_show = Inr f" using sample_status_parts(2) by (auto simp: is_ok_iff)
  have ex: "is_ok (fst (metagraph_extras sample_status_host net uid v))" for net uid v
    using sample_status_parts(5)
    by (auto simp: metagraph_extras_def ask_def op_plumbing raised_def is_ok_iff sample_status_host_def numeral_2_eq_2)
  let ?v = "w\<lparr>sw_calls := sw_calls w @ [Btcli (btcli_argv (show_args ''test'' 523) True), Btcli (btcli_argv (hyper_args ''test'' 523) False)]\<rparr>"
  obtain extras v where m: "metagraph_extras sample_status_host ''test'' 523 ?v = (Inr extras, v)"
    using ex [of "''test''" 523 ?v] by (cases "metagraph_extras sample_status_host ''test'' 523 ?v") (auto simp: is_ok_iff)
  obtain rows where "neuron_rows sample_status_host sample_show extras = Inr rows" using sample_status_parts(3) by (auto simp: is_ok_iff)
  with h f m show ?thesis
    by (auto simp: take_snapshot_def sample_btcli op_plumbing raised_def is_ok_iff weights_row_def ask_def)
qed

lemma sample_status_runs: "is_ok (fst (status_command 1 sample_status_host sample_status_args sample_status_world))"
proof -
  obtain s w' where s: "take_snapshot sample_status_host ''test'' 523 0 sample_status_world = (Inr s, w')"
    using sample_status_reads [of sample_status_world]
    by (cases "take_snapshot sample_status_host ''test'' 523 0 sample_status_world") (auto simp: is_ok_iff)
  have target: "assert_safe_network (Some ''test'') = Inr ''test''" by code_simp
  show ?thesis
    using s target
    by (simp add: status_command_def sample_status_args_def status_round_def write_status_def require_cohort_target_def
        cohort_network_def cohort_netuid_def require_def op_plumbing)
qed

theorem status_is_read_only_witness:
  "\<exists>w'. status_command 1 sample_status_host sample_status_args sample_status_world = (Inr (Some 0), w')
     \<and> only_reads ''out'' sample_status_world w'"
proof -
  obtain r w' where run: "status_command 1 sample_status_host sample_status_args sample_status_world = (r, w')" by fastforce
  have "is_ok r" using sample_status_runs run by simp
  with status_is_read_only [where n = 1 and sn = sample_status_host and a = sample_status_args and w = sample_status_world] run
  show ?thesis by (auto simp: sample_status_args_def)
qed

end
