(* ===== verification/Dendrite.thy ===== *)
theory Dendrite
  imports Wire
begin

text \<open>
  \<open>BoundedDendrite\<close> of \<open>src/dolores_subnet/wire.py\<close>: one request whose response body is bounded before it is
  parsed.  What the base class does with a synapse, and what the HTTP session answers, are a record.
\<close>

section \<open>The base class and the session\<close>

text \<open>An HTTP response: its declared length, the chunks that arrive, and what ends the stream when it fails.\<close>

record http_response =
  hr_content_length :: "string option"
  hr_chunks :: "bytes list"
  hr_failure :: "exn option"

text \<open>\<open>dn_process\<close> may have changed the synapse when it raises.\<close>

record 's dendrite_net =
  dn_endpoint :: "exn + string"
  dn_preprocess :: "'s \<Rightarrow> exn + 's"
  dn_post :: "string \<Rightarrow> 's \<Rightarrow> exn + http_response"
  dn_parse :: "bytes \<Rightarrow> json option"
  dn_process :: "jdict \<Rightarrow> 's \<Rightarrow> exn option \<times> 's"
  dn_stamp :: "'s \<Rightarrow> 's"
  dn_failed :: "exn \<Rightarrow> 's \<Rightarrow> exn + 's"
  dn_headers :: "'s \<Rightarrow> 's"

record 's dendrite =
  dd_outgoing :: "'s list"
  dd_incoming :: "'s list"
  dd_history :: "'s list"
  dd_processed :: "jdict list"

section \<open>One call\<close>

definition bounded_dendrite :: "int \<Rightarrow> exn + int" where
  "bounded_dendrite max_bytes = bind_result (require (1 \<le> max_bytes) (value_error ''max_http_response_bytes must be positive'')) (\<lambda>_. Inr max_bytes)"

fun transport_exn :: "int \<Rightarrow> transport_error \<Rightarrow> exn" where
  "transport_exn m Content_length_invalid = value_error ''invalid HTTP Content-Length''"
| "transport_exn m Declared_too_large = \<lparr>exn_type = ''TransportResponseTooLarge'', exn_text = ''declared response exceeds '' @ show_int m @ '' bytes''\<rparr>"
| "transport_exn m Streamed_too_large = \<lparr>exn_type = ''TransportResponseTooLarge'', exn_text = ''streamed response exceeds '' @ show_int m @ '' bytes''\<rparr>"
| "transport_exn m Body_not_json = \<lparr>exn_type = ''JSONDecodeError'', exn_text = ''invalid JSON''\<rparr>"
| "transport_exn m Body_not_object = value_error ''wire response must be a JSON object''"

text \<open>A stream that fails does so after the chunks that did arrive were read, and nothing of it is parsed.\<close>

definition receive :: "'s dendrite_net \<Rightarrow> int \<Rightarrow> http_response \<Rightarrow> exn + jdict" where
  "receive dn m hr =
     (case hr_failure hr of
        None \<Rightarrow> map_error (transport_exn m) (fst (bounded_response_json (dn_parse dn) m (hr_content_length hr) (hr_chunks hr) []))
      | Some e \<Rightarrow>
          bind_result (map_error (transport_exn m)
            (fst (bounded_response_json (\<lambda>b. Some (JObj [])) m (hr_content_length hr) (hr_chunks hr) []))) (\<lambda>_. Inl e))"

text \<open>The body of the \<open>try\<close>: the failure, if there is one, and the synapse as it then is.\<close>

definition exchange :: "'s dendrite_net \<Rightarrow> int \<Rightarrow> string \<Rightarrow> 's \<Rightarrow> 's dendrite \<Rightarrow> (exn option \<times> 's) \<times> 's dendrite" where
  "exchange dn m url s d =
     (let d = d\<lparr>dd_outgoing := dd_outgoing d @ [s]\<rparr> in
      case bind_result (dn_post dn url s) (receive dn m) of
        Inl e \<Rightarrow> ((Some e, s), d)
      | Inr doc \<Rightarrow>
          (case dn_process dn doc s of
             (Some e, s') \<Rightarrow> ((Some e, s'), d\<lparr>dd_processed := dd_processed d @ [doc]\<rparr>)
           | (None, s') \<Rightarrow> ((None, dn_stamp dn s'), d\<lparr>dd_processed := dd_processed d @ [doc]\<rparr>)))"

definition dendrite_call :: "'s dendrite_net \<Rightarrow> int \<Rightarrow> 's \<Rightarrow> ('s dendrite, exn, 's) op" where
  "dendrite_call dn m s =
     bind_op (lift_op (dn_endpoint dn)) (\<lambda>url.
     bind_op (lift_op (dn_preprocess dn s)) (\<lambda>s d.
     (case exchange dn m url s d of
        ((failure, s'), d') \<Rightarrow>
          let r = (case failure of None \<Rightarrow> Inr s' | Some e \<Rightarrow> dn_failed dn e s');
              final = (case r of Inl e \<Rightarrow> s' | Inr t \<Rightarrow> t)
          in (r, d'\<lparr>dd_incoming := dd_incoming d' @ [final], dd_history := dd_history d' @ [dn_headers dn final]\<rparr>))))"

section \<open>What a call guarantees\<close>

lemma map_error_cong_Inr: "map_error g r = Inr a \<Longrightarrow> r = Inr a"
  by simp

text \<open>A document reaches the synapse only when the whole body was within the cap.\<close>

lemma received_within_cap:
  assumes "receive dn m hr = Inr doc" "0 \<le> m"
  shows "hr_failure hr = None \<and> int (length (concat (hr_chunks hr))) \<le> m \<and> dn_parse dn (concat (hr_chunks hr)) = Some (JObj doc)
    \<and> (case hr_content_length hr of None \<Rightarrow> True | Some t \<Rightarrow> (\<exists>n. int_of_text t = Some n \<and> n \<le> m))"
proof -
  have "hr_failure hr = None" using assms(1) by (auto simp: receive_def split: option.splits)
  moreover from this assms(1) have "fst (bounded_response_json (dn_parse dn) m (hr_content_length hr) (hr_chunks hr) []) = Inr doc"
    by (simp add: receive_def)
  ultimately show ?thesis
    using body_bounded [OF assms(2), of "dn_parse dn" "hr_content_length hr" "hr_chunks hr" doc] by (auto split: option.splits)
qed

text \<open>A call that gets as far as its request leaves exactly one entry in the log of requests, of responses and in the history,
  whatever goes wrong; at most one document reaches the synapse, and it is the parse of a body within the cap; when there
  is none, what comes back is the base class's error for the failure.\<close>

lemma dendrite_call_bounded:
  assumes "dendrite_call dn m s d = (r, d')" "0 \<le> m" "dn_endpoint dn = Inr url" "dn_preprocess dn s = Inr t"
  shows "(\<exists>u. dd_outgoing d' = dd_outgoing d @ [t] \<and> dd_incoming d' = dd_incoming d @ [u] \<and> dd_history d' = dd_history d @ [dn_headers dn u])
    \<and> (dd_processed d' = dd_processed d \<and> (\<exists>e. r = dn_failed dn e t)
       \<or> (\<exists>hr doc. dn_post dn url t = Inr hr \<and> dd_processed d' = dd_processed d @ [doc]
            \<and> int (length (concat (hr_chunks hr))) \<le> m \<and> dn_parse dn (concat (hr_chunks hr)) = Some (JObj doc)))"
proof (cases "bind_result (dn_post dn url t) (receive dn m)")
  case (Inl e)
  with assms show ?thesis by (auto simp: dendrite_call_def exchange_def op_plumbing Let_def)
next
  case (Inr doc)
  then obtain hr where hr: "dn_post dn url t = Inr hr" "receive dn m hr = Inr doc" by auto
  obtain f t' where p: "dn_process dn doc t = (f, t')" by fastforce
  with assms Inr hr received_within_cap [OF hr(2) assms(2)] show ?thesis
    by (cases f) (auto simp: dendrite_call_def exchange_def op_plumbing Let_def)
qed

end
