(* ===== verification/Spec2Isabelle.thy ===== *)
theory Spec2Isabelle
  imports Scoring Validator_State Publication Bridge Epoch Wire Replay System Tick_Run Miner_Doctor Release_Bundle Preflight Task_Tools Archive_Db Reports Dendrite
begin

text \<open>
  A model of the Dolores subnet on Bittensor, \<open>src/dolores_subnet\<close>: validators that ask miners for
  task packages, value them, and publish weights; and the miners that answer.

  \<^bold>\<open>The program.\<close>  A validator runs one epoch per tick.  The tick (\<open>validator_cli.py\<close>) takes the
  store's lock and the next epoch number (\<open>validator_state.py\<close>), finds the miners on the metagraph
  (\<open>chain.py\<close>) or in its arguments, asks them over the wire and believes only signed answers to its very
  request (\<open>wire.py\<close>).  Each submission passes the pre-gates (\<open>gates.py\<close>), the engine's verification
  and the private holdout (\<open>bridge.py\<close>, \<open>holdout.py\<close>), perhaps a paid solver panel (\<open>panel.py\<close>),
  and is logged (\<open>archive.py\<close>, \<open>atomic.py\<close>); scores become moving averages and weights
  (\<open>scoring.py\<close>); the epoch writes its artifacts, publishes the weights through the chain client and
  ends with a completion marker that names every file by its hash (\<open>epoch.py\<close>).  A miner
  (\<open>miner_cli.py\<close>) limits and verifies requests, answers with the packages it has loaded, and audits itself.

  \<^bold>\<open>Theories, from the bottom.\<close>
  \<^item> \<open>Prelude\<close>: results, operations on a state that return or raise, dictionaries in insertion order, strings.
    \<open>PyFloat\<close>: binary64 with rounding to even; its locale \<open>rounding\<close> holds what sums and shares need of
    a rounding and is interpreted by \<open>rnd64\<close>.  \<open>Json\<close>, \<open>Json_Text\<close>: documents, their canonical form, and
    the text of flat ones.
  \<^item> \<open>Scoring\<close> (\<open>scoring.py\<close>): task values, epoch scores, moving averages, weights.
  \<^item> \<open>Files\<close>, \<open>Completion\<close> (\<open>epoch.py\<close>): the archive as a map from paths to contents; the completion
    marker, written last and verified against the files.  \<open>Atomic\<close>, \<open>Jsonl\<close> (\<open>atomic.py\<close>): the same writes
    as sequences of system calls with a durable and a volatile view, and the repair of a torn log.
  \<^item> \<open>Validator_State\<close> (\<open>validator_state.py\<close>): the persistent state, its validation, the phases of a tick, recovery
    after an interruption, and the lock.
  \<^item> \<open>Config\<close>, \<open>Endpoints\<close>, \<open>Chain\<close>, \<open>Publication\<close> (\<open>config.py\<close>, \<open>endpoints.py\<close>, \<open>chain.py\<close>): modes and the network
    allowlist; public addresses as 32-bit words; bounded reads and readiness; the publication of
    weights.  The locale \<open>chain_contract\<close> is what the epoch relies on of a client; it is interpreted by the null client,
    the subtensor client and their choice.
  \<^item> \<open>Packaging\<close>, \<open>Gates\<close>, \<open>Holdout\<close>, \<open>Bridge\<close>, \<open>Panel\<close>: from a wire payload to a valued outcome.
  \<^item> \<open>Epoch\<close> (\<open>run_epoch\<close>), \<open>Replay\<close> (\<open>assert_replay_matches\<close>), \<open>Wire\<close> (\<open>wire.py\<close>), \<open>Validator_Cli\<close> (the commands).
  \<^item> \<open>Operations\<close>, \<open>Epoch_Frames\<close>: rules for what operations keep and leave alone.  \<open>Tick_Run\<close> uses them for whole
    ticks; \<open>System\<close> is the step relation of a validator that may be killed and restarted between any two writes.
  \<^item> \<open>Miner_Limits\<close>, \<open>Miner\<close>, \<open>Miner_Doctor\<close> (\<open>miner_cli.py\<close>): rate limits, admission and verification of requests;
    loading, responses, serving, publication and registration; the audit.  \<open>Dendrite\<close> (\<open>wire.py\<close>): the bounded HTTP call.
  \<^item> \<open>Archive_Db\<close> (\<open>archive.py\<close>): purging the archive and its public copy.  \<open>Archives\<close> (\<open>normalize_sdist.py\<close>) and
    \<open>Release_Bundle\<close> (\<open>build_release_bundle.py\<close>): distributions, and the bundle that is built, verified and published at
    once.  \<open>Preflight\<close> (\<open>preflight.py\<close>): readiness checks.  \<open>Task_Tools\<close> (\<open>validate_task.py\<close>,
    \<open>prepare_mutation_task.py\<close>, \<open>seed_adversarial.py\<close>): what a participant runs.  \<open>Reports\<close> (\<open>local_epoch.py\<close>,
    \<open>report.py\<close>, \<open>testnet_status.py\<close>): rehearsal, leaderboard and the read-only status.

  \<^bold>\<open>Correspondence.\<close>  Definitions carry the names of the functions they translate, in the order of the file; classes
  and the state they keep are records, exceptions are values of a sum, and an operation that raises leaves behind what it
  had written.  Python's integers are integers, floats are \<open>pyfloat\<close>, a dictionary is an association list where its
  order shows.  A record named after a process (\<open>host\<close>, \<open>validator_host\<close>, \<open>doctor_host\<close>) holds what lies outside:
  environment variables, clocks, the wallet, the answers of the network.

  \<^bold>\<open>What is assumed of the outside.\<close>  The engine (validation, verification, proposals), the SDK and cryptography are arguments.
  Theorems that need more say so: \<open>json_codec\<close> (reading back what was serialised gives its canonical
  form), \<open>hex_digest\<close> (a SHA-256 has 64 digits), \<open>lawful_draw\<close> (a bounded draw is below its bound), a blank line does
  not parse, a key verifies its own signature, or a signature verifies for one message only, \<open>lawful_archiver\<close> and
  \<open>lawful_release\<close> (reading an archive gives what was written to it), \<open>lawful_duckdb\<close> (what DuckDB documents of each
  statement of the archive).  Each has an instance over which its theorems are evaluated.

  \<^bold>\<open>What the theorems show.\<close>  Safety of publication: weights are signed only behind every gate and at most once per epoch,
  over any number of kills and restarts; what a completed epoch guarantees, and that tampering is seen; what a
  submission must pass to be worth anything; that only authentic answers count; that serving, registering and auditing a
  miner do what they say; that a release is published only when its own verifier accepts it, that the public archive
  holds no hidden tests, that the paid panel makes a difference only behind every spend gate, and that checks run beside
  the program vouch for what they print.  Beside these: bounds of scores, budgets and bodies, atomicity of writes, the repair of logs,
  and when a replay agrees.  Some theorems state where the code does less than its comments say.

  \<^bold>\<open>Loops and fuel.\<close>  No definition takes fuel that could run out unseen: loops recurse on lists or on the attempts
  that are left (six reads of a publication, at most twelve audits, a thousand seeds of a template, each the code's own
  bound).  The one loop without a bound of its own, which drops submissions from a response, is a
  \<open>while_option\<close>, and is proved to end.  A watch of the status runs until it is stopped, so it is unrolled for a given
  number of rounds, and what is shown holds for every number.

  \<^bold>\<open>Not modelled.\<close>  The argument parsers, the progress lines of commands, logging filters and the wrappers under
  \<open>neurons/\<close>; locks inside one process, since a critical section is one operation here; characters beyond Latin-1, but
  for the UTF-8 text of the status.
\<close>

end
